(* ===== verification/Prelude.thy ===== *)
theory Prelude
  imports Main "HOL-Library.Char_ord" "HOL-Library.List_Lexorder" "HOL-Library.Product_Lexorder"
begin

text \<open>
  The vocabulary the components share: Go's identifiers, instants and durations, error
  results, and the tables of the SQLite database with the three statement shapes the
  repositories use (an \<^verbatim>\<open>UPDATE ... WHERE\<close>, a row count, a \<^verbatim>\<open>SELECT ... LIMIT 1\<close>), with
  the rewriting rules about them that carry the component proofs.
\<close>

section \<open>Collections of facts\<close>

named_theorems sql_simps \<open>rewriting rules for table statements\<close>
named_theorems go_time \<open>unfolding of Go's time arithmetic\<close>
named_theorems go_defs \<open>definitions of small predicates of the source\<close>

section \<open>Go values\<close>

text \<open>
  A Go string that holds an identifier or a code is its list of bytes. An instant is the
  number of nanoseconds since Go's zero \<^verbatim>\<open>time.Time\<close> (1 January of year 1, UTC), so
  \<^verbatim>\<open>IsZero\<close> is equality with 0 and \<^verbatim>\<open>UTC()\<close> is the identity; a
  \<^verbatim>\<open>time.Duration\<close> is a number of nanoseconds. A pointer or a SQL column that may be NULL
  is an \<open>option\<close>.
\<close>

type_synonym ID = string
type_synonym time = int
type_synonym duration = int

definition Second :: duration where
  "Second = 1000000000"

definition Minute :: duration where
  "Minute = 60 * Second"

definition Hour :: duration where
  "Hour = 60 * Minute"

definition IsZero :: "time \<Rightarrow> bool" where
  "IsZero t \<longleftrightarrow> t = 0"

definition After :: "time \<Rightarrow> time \<Rightarrow> bool" where
  "After t u \<longleftrightarrow> u < t"

definition Before :: "time \<Rightarrow> time \<Rightarrow> bool" where
  "Before t u \<longleftrightarrow> t < u"

lemmas [go_time] = Second_def Minute_def Hour_def After_def Before_def IsZero_def

section \<open>Tables\<close>

text \<open>
  A table is the list of its rows. \<open>sql_update p f\<close> is
  \<^verbatim>\<open>UPDATE t SET f WHERE p\<close>, \<open>sql_affected p\<close> the number of rows it reports, and
  \<open>sql_select p\<close> the first row of \<^verbatim>\<open>SELECT ... WHERE p\<close>.
  \<open>sql_first key p\<close> is \<^verbatim>\<open>SELECT ... WHERE p ORDER BY key LIMIT 1\<close>.
\<close>

definition sql_update :: "('r \<Rightarrow> bool) \<Rightarrow> ('r \<Rightarrow> 'r) \<Rightarrow> 'r list \<Rightarrow> 'r list" where
  "sql_update p f rows = map (\<lambda>r. if p r then f r else r) rows"

definition sql_affected :: "('r \<Rightarrow> bool) \<Rightarrow> 'r list \<Rightarrow> nat" where
  "sql_affected p rows = length (filter p rows)"

definition sql_select :: "('r \<Rightarrow> bool) \<Rightarrow> 'r list \<Rightarrow> 'r option" where
  "sql_select p rows = find p rows"

definition sql_exists :: "('r \<Rightarrow> bool) \<Rightarrow> 'r list \<Rightarrow> bool" where
  "sql_exists p rows = list_ex p rows"

fun min_by :: "('r \<Rightarrow> 'k::linorder) \<Rightarrow> 'r list \<Rightarrow> 'r option" where
  "min_by key [] = None"
| "min_by key (x # xs) =
     (case min_by key xs of
        None \<Rightarrow> Some x
      | Some y \<Rightarrow> if key x \<le> key y then Some x else Some y)"

definition sql_first :: "('r \<Rightarrow> 'k::linorder) \<Rightarrow> ('r \<Rightarrow> bool) \<Rightarrow> 'r list \<Rightarrow> 'r option" where
  "sql_first key p rows = min_by key (filter p rows)"

subsection \<open>Updates\<close>

lemma sql_update_Nil [simp]: "sql_update p f [] = []"
  by (simp add: sql_update_def)

lemma sql_update_Cons [simp]:
  "sql_update p f (r # rs) = (if p r then f r else r) # sql_update p f rs"
  by (simp add: sql_update_def)

lemma length_sql_update [simp]: "length (sql_update p f rows) = length rows"
  by (simp add: sql_update_def)

lemma set_sql_update: "set (sql_update p f rows) = (\<lambda>r. if p r then f r else r) ` set rows"
  by (simp add: sql_update_def)

lemma sql_update_memE:
  assumes "r' \<in> set (sql_update p f rows)"
  obtains r where "r \<in> set rows" "p r" "r' = f r" | "r' \<in> set rows" "\<not> p r'"
  using assms by (auto simp: set_sql_update split: if_splits)

lemma map_key_sql_update [sql_simps]:
  "(\<And>r. p r \<Longrightarrow> key (f r) = key r) \<Longrightarrow> map key (sql_update p f rows) = map key rows"
  by (induction rows) auto

lemma sql_update_no_match: "\<forall>r \<in> set rows. \<not> p r \<Longrightarrow> sql_update p f rows = rows"
  by (induction rows) auto

subsection \<open>Counts\<close>

lemma sql_affected_Nil [simp]: "sql_affected p [] = 0"
  by (simp add: sql_affected_def)

lemma sql_affected_Cons [simp]:
  "sql_affected p (r # rs) = (if p r then Suc (sql_affected p rs) else sql_affected p rs)"
  by (simp add: sql_affected_def)

lemma sql_affected_0_iff: "sql_affected p rows = 0 \<longleftrightarrow> (\<forall>r \<in> set rows. \<not> p r)"
  by (induction rows) auto

lemma sql_affected_pos_iff: "0 < sql_affected p rows \<longleftrightarrow> (\<exists>r \<in> set rows. p r)"
  using sql_affected_0_iff [of p rows] by auto

lemma sql_update_affected_0: "sql_affected p rows = 0 \<Longrightarrow> sql_update p f rows = rows"
  by (simp add: sql_affected_0_iff sql_update_no_match)

text \<open>A statement keyed by a primary key touches at most one row.\<close>

lemma sql_affected_key_le_1:
  assumes "distinct (map key rows)" and "\<And>r. p r \<Longrightarrow> key r = k"
  shows "sql_affected p rows \<le> 1"
  using assms(1)
proof (induction rows)
  case Nil
  then show ?case by simp
next
  case (Cons r rs)
  show ?case
  proof (cases "p r")
    case True
    then have "\<forall>s \<in> set rs. \<not> p s"
      using Cons.prems assms(2) by (metis distinct.simps(2) image_eqI list.map(2) list.set_map)
    then have "sql_affected p rs = 0" by (simp add: sql_affected_0_iff)
    with True show ?thesis by simp
  next
    case False
    with Cons show ?thesis by simp
  qed
qed

subsection \<open>Selections\<close>

lemma sql_select_Nil [simp]: "sql_select p [] = None"
  by (simp add: sql_select_def)

lemma sql_select_Cons [simp]:
  "sql_select p (r # rs) = (if p r then Some r else sql_select p rs)"
  by (simp add: sql_select_def)

lemma sql_select_SomeD: "sql_select p rows = Some r \<Longrightarrow> r \<in> set rows \<and> p r"
  by (induction rows) (auto split: if_splits)

lemma sql_select_None_iff: "sql_select p rows = None \<longleftrightarrow> (\<forall>r \<in> set rows. \<not> p r)"
  by (induction rows) auto

lemma sql_select_key:
  assumes "distinct (map key rows)" "r \<in> set rows"
  shows "sql_select (\<lambda>x. key x = key r) rows = Some r"
  using assms by (induction rows) (auto simp: rev_image_eqI)

text \<open>
  Reading a row by its key after a keyed update: the row that was there, updated if the
  statement's condition held of it.
\<close>

lemma sql_select_update:
  assumes "\<And>r. p r \<Longrightarrow> key (f r) = key r"
  shows "sql_select (\<lambda>r. key r = k) (sql_update p f rows) =
         map_option (\<lambda>r. if p r then f r else r) (sql_select (\<lambda>r. key r = k) rows)"
  using assms by (induction rows) auto

lemma sql_select_append:
  "sql_select p (xs @ ys) = (case sql_select p xs of None \<Rightarrow> sql_select p ys | Some r \<Rightarrow> Some r)"
  by (induction xs) auto

lemma sql_exists_iff: "sql_exists p rows \<longleftrightarrow> (\<exists>r \<in> set rows. p r)"
  by (auto simp: sql_exists_def list_ex_iff)

subsection \<open>Ordered selections\<close>

lemma min_by_None_iff [simp]: "min_by key xs = None \<longleftrightarrow> xs = []"
  by (cases xs) (auto split: option.splits)

lemma min_by_SomeD:
  "min_by key xs = Some x \<Longrightarrow> x \<in> set xs \<and> (\<forall>y \<in> set xs. key x \<le> key y)"
proof (induction xs arbitrary: x)
  case Nil
  then show ?case by simp
next
  case (Cons a xs)
  then show ?case
    by (cases "min_by key xs") (auto split: if_splits dest: order_trans)
qed

lemma sql_first_SomeD:
  "sql_first key p rows = Some r \<Longrightarrow>
     r \<in> set rows \<and> p r \<and> (\<forall>s \<in> set rows. p s \<longrightarrow> key r \<le> key s)"
  unfolding sql_first_def by (auto dest: min_by_SomeD)

lemma sql_first_None_iff: "sql_first key p rows = None \<longleftrightarrow> (\<forall>r \<in> set rows. \<not> p r)"
  by (auto simp: sql_first_def filter_empty_conv)

section \<open>Results with an error\<close>

text \<open>
  An operation of a repository takes the database and returns an error (\<open>Inl\<close>) or a value
  (\<open>Inr\<close>), together with the database it leaves. \<open>in_tx\<close> is a transaction: on an error
  the deferred \<^verbatim>\<open>Rollback\<close> restores the database of the start.
\<close>

type_synonym ('s, 'e, 'a) op = "'s \<Rightarrow> ('e + 'a) \<times> 's"

definition in_tx :: "('s, 'e, 'a) op \<Rightarrow> ('s, 'e, 'a) op" where
  "in_tx m s = (case m s of (Inl e, _) \<Rightarrow> (Inl e, s) | (Inr x, s') \<Rightarrow> (Inr x, s'))"

lemma in_tx_error: "in_tx m s = (Inl e, s') \<Longrightarrow> s' = s"
  by (auto simp: in_tx_def split: prod.splits sum.splits)

lemma in_tx_ok: "in_tx m s = (Inr x, s') \<longleftrightarrow> m s = (Inr x, s')"
  by (auto simp: in_tx_def split: prod.splits sum.splits)

text \<open>A transaction keeps whatever its body keeps when it succeeds.\<close>

lemma in_tx_keeps:
  assumes "P s" and "\<And>x s'. m s = (Inr x, s') \<Longrightarrow> P s'"
  shows "P (snd (in_tx m s))"
  using assms by (auto simp: in_tx_def split: prod.splits sum.splits)

end
