(* ===== verification/GoText.thy ===== *)
theory GoText
  imports Prelude "HOL-Library.Sublist"
begin

text \<open>
  The functions of Go's \<^verbatim>\<open>strings\<close> package that the source applies to byte strings:
  \<^verbatim>\<open>TrimSpace\<close>, \<^verbatim>\<open>Fields\<close>, \<^verbatim>\<open>Split\<close>, \<^verbatim>\<open>Cut\<close>, \<^verbatim>\<open>ToLower\<close> on ASCII text and their lemmas.
\<close>

section \<open>White space\<close>

text \<open>
  The UTF-8 encodings of the runes \<^verbatim>\<open>unicode.IsSpace\<close> accepts. No encoding begins with a
  continuation byte, so looking for them at every byte position finds exactly the spaces
  that decoding the string would find.
\<close>

definition space_seqs :: "string list" where
  "space_seqs = map (map char_of)
     [[9], [10], [11], [12], [13], [32],
      [194, 133], [194, 160], [225, 154, 128 :: nat],
      [226, 128, 128], [226, 128, 129], [226, 128, 130], [226, 128, 131], [226, 128, 132],
      [226, 128, 133], [226, 128, 134], [226, 128, 135], [226, 128, 136], [226, 128, 137],
      [226, 128, 138], [226, 128, 168], [226, 128, 169], [226, 128, 175],
      [226, 129, 159], [227, 128, 128]]"

definition leading_space :: "string \<Rightarrow> string option" where
  "leading_space s = find (\<lambda>w. prefix w s) space_seqs"

lemma space_seqs_nonempty: "w \<in> set space_seqs \<Longrightarrow> w \<noteq> []"
  by (auto simp: space_seqs_def)

lemma leading_space_SomeD: "leading_space s = Some w \<Longrightarrow> w \<noteq> [] \<and> prefix w s"
  unfolding leading_space_def by (auto simp: find_Some_iff dest: space_seqs_nonempty nth_mem)

lemma leading_space_shorter:
  "leading_space s = Some w \<Longrightarrow> length (drop (length w) s) < length s"
  by (auto dest!: leading_space_SomeD simp: prefix_def)

function trim_left :: "string \<Rightarrow> string" where
  "trim_left s =
     (case leading_space s of None \<Rightarrow> s | Some w \<Rightarrow> trim_left (drop (length w) s))"
  by pat_completeness auto
termination
  by (relation "measure length") (auto dest: leading_space_shorter)

declare trim_left.simps [simp del]

definition trailing_space :: "string \<Rightarrow> string option" where
  "trailing_space s = find (\<lambda>w. suffix w s) space_seqs"

lemma trailing_space_SomeD: "trailing_space s = Some w \<Longrightarrow> w \<noteq> [] \<and> suffix w s"
  unfolding trailing_space_def by (auto simp: find_Some_iff dest: space_seqs_nonempty nth_mem)

lemma trailing_space_shorter:
  "trailing_space s = Some w \<Longrightarrow> length (take (length s - length w) s) < length s"
  by (auto dest!: trailing_space_SomeD simp: suffix_def)

function trim_right :: "string \<Rightarrow> string" where
  "trim_right s =
     (case trailing_space s of
        None \<Rightarrow> s
      | Some w \<Rightarrow> trim_right (take (length s - length w) s))"
  by pat_completeness auto
termination
  by (relation "measure length") (auto dest: trailing_space_shorter)

declare trim_right.simps [simp del]

definition TrimSpace :: "string \<Rightarrow> string" where
  "TrimSpace s = trim_right (trim_left s)"

definition blank :: "string \<Rightarrow> bool" where
  "blank s \<longleftrightarrow> TrimSpace s = ''''"

lemma trim_left_suffix: "suffix (trim_left s) s"
proof (induction s rule: trim_left.induct)
  case (1 s)
  show ?case
  proof (cases "leading_space s")
    case None
    then show ?thesis by (simp add: trim_left.simps [of s])
  next
    case (Some w)
    then have "suffix (trim_left (drop (length w) s)) (drop (length w) s)" by (rule "1.IH")
    then have "suffix (trim_left (drop (length w) s)) s"
      by (meson suffix_drop suffix_order.trans)
    with Some show ?thesis by (simp add: trim_left.simps [of s])
  qed
qed

lemma trim_right_prefix: "prefix (trim_right s) s"
proof (induction s rule: trim_right.induct)
  case (1 s)
  show ?case
  proof (cases "trailing_space s")
    case None
    then show ?thesis by (simp add: trim_right.simps [of s])
  next
    case (Some w)
    then have "prefix (trim_right (take (length s - length w) s)) (take (length s - length w) s)"
      by (rule "1.IH")
    then have "prefix (trim_right (take (length s - length w) s)) s"
      by (meson prefix_order.trans take_is_prefix)
    with Some show ?thesis by (simp add: trim_right.simps [of s])
  qed
qed

lemma leading_space_trim_left: "leading_space (trim_left s) = None"
proof (induction s rule: trim_left.induct)
  case (1 s)
  then show ?case by (cases "leading_space s") (auto simp: trim_left.simps [of s])
qed

lemma trailing_space_trim_right: "trailing_space (trim_right s) = None"
proof (induction s rule: trim_right.induct)
  case (1 s)
  then show ?case by (cases "trailing_space s") (auto simp: trim_right.simps [of s])
qed

lemma leading_space_None_prefix:
  "leading_space s = None \<Longrightarrow> prefix t s \<Longrightarrow> leading_space t = None"
  unfolding leading_space_def find_None_iff by (meson prefix_order.trans)

text \<open>Trimming is idempotent and leaves no space at either end.\<close>

lemma TrimSpace_no_space:
  "leading_space (TrimSpace s) = None" "trailing_space (TrimSpace s) = None"
  unfolding TrimSpace_def
  by (rule leading_space_None_prefix [OF leading_space_trim_left trim_right_prefix],
      rule trailing_space_trim_right)

lemma TrimSpace_idem [simp]: "TrimSpace (TrimSpace s) = TrimSpace s"
proof -
  have "trim_left (TrimSpace s) = TrimSpace s"
    by (subst trim_left.simps) (simp add: TrimSpace_no_space)
  moreover have "trim_right (TrimSpace s) = TrimSpace s"
    by (subst trim_right.simps) (simp add: TrimSpace_no_space)
  ultimately show ?thesis by (simp add: TrimSpace_def [of "TrimSpace s"])
qed

lemma set_TrimSpace: "set (TrimSpace s) \<subseteq> set s"
  unfolding TrimSpace_def
  by (meson order_trans set_mono_prefix set_mono_suffix trim_left_suffix trim_right_prefix)

section \<open>Splitting\<close>

text \<open>\<^verbatim>\<open>strings.Fields\<close>: the maximal runs without space. \<open>cur\<close> is the run being read.\<close>

function fields_from :: "string \<Rightarrow> string \<Rightarrow> string list" where
  "fields_from cur s =
     (let flush = (\<lambda>rest. if cur = [] then rest else cur # rest) in
      case s of
        [] \<Rightarrow> flush []
      | c # cs \<Rightarrow>
          (case leading_space s of
             None \<Rightarrow> fields_from (cur @ [c]) cs
           | Some w \<Rightarrow> flush (fields_from [] (drop (length w) s))))"
  by pat_completeness auto
termination
  by (relation "measure (\<lambda>(cur, s). length s)") (auto dest: leading_space_shorter)

declare fields_from.simps [simp del]

definition Fields :: "string \<Rightarrow> string list" where
  "Fields s = fields_from [] s"

text \<open>\<^verbatim>\<open>strings.Split\<close> at a one-byte separator: always at least one piece.\<close>

fun Split :: "char \<Rightarrow> string \<Rightarrow> string list" where
  "Split sep [] = [[]]"
| "Split sep (c # cs) =
     (if c = sep then [] # Split sep cs
      else case Split sep cs of
          [] \<Rightarrow> [[c]]
        | piece # rest \<Rightarrow> (c # piece) # rest)"

lemma Split_nonempty [simp]: "Split sep s \<noteq> []"
  by (induction s) (auto split: list.splits)

fun join_with :: "char \<Rightarrow> string list \<Rightarrow> string" where
  "join_with sep [] = []"
| "join_with sep [x] = x"
| "join_with sep (x # y # ys) = x @ sep # join_with sep (y # ys)"

lemma join_Split: "join_with sep (Split sep s) = s"
proof (induction s)
  case Nil
  then show ?case by simp
next
  case (Cons c cs)
  obtain piece rest where "Split sep cs = piece # rest"
    using Split_nonempty neq_Nil_conv by metis
  with Cons show ?case by (cases rest) auto
qed

text \<open>\<^verbatim>\<open>strings.Cut\<close> at a one-byte separator: before, after, and whether it was found.\<close>

definition Cut :: "char \<Rightarrow> string \<Rightarrow> string \<times> string \<times> bool" where
  "Cut sep s =
     (if sep \<in> set s
      then (takeWhile (\<lambda>c. c \<noteq> sep) s, drop 1 (dropWhile (\<lambda>c. c \<noteq> sep) s), True)
      else (s, '''', False))"

definition TrimPrefix :: "string \<Rightarrow> string \<Rightarrow> string" where
  "TrimPrefix s p = (if prefix p s then drop (length p) s else s)"

definition Contains :: "string \<Rightarrow> string \<Rightarrow> bool" where
  "Contains s sub \<longleftrightarrow> sublist sub s"

definition Count1 :: "string \<Rightarrow> char \<Rightarrow> nat" where
  "Count1 s c = length (filter (\<lambda>x. x = c) s)"

section \<open>ASCII letter case\<close>

definition ascii_lower :: "char \<Rightarrow> char" where
  "ascii_lower c =
     (let n = of_char c :: nat in if 65 \<le> n \<and> n \<le> 90 then char_of (n + 32) else c)"

definition AsciiToLower :: "string \<Rightarrow> string" where
  "AsciiToLower s = map ascii_lower s"

definition is_ascii_between :: "nat \<Rightarrow> nat \<Rightarrow> char \<Rightarrow> bool" where
  "is_ascii_between lo hi c \<longleftrightarrow> lo \<le> of_char c \<and> of_char c \<le> hi"

lemma ascii_lower_idem [simp]: "ascii_lower (ascii_lower c) = ascii_lower c"
  by (auto simp: ascii_lower_def Let_def)

lemma AsciiToLower_idem [simp]: "AsciiToLower (AsciiToLower s) = AsciiToLower s"
  by (simp add: AsciiToLower_def)

lemma length_AsciiToLower [simp]: "length (AsciiToLower s) = length s"
  by (simp add: AsciiToLower_def)

end
