(* ===== verification/StoredTime.thy ===== *)
theory StoredTime
  imports Prelude
begin

text \<open>
  Timestamps as the SQLite repositories store them (\<^verbatim>\<open>formatTime\<close> and \<^verbatim>\<open>parseTime\<close> of
  internal/repository/sqlite/catalog_store.go): UTC text in Go's \<^verbatim>\<open>RFC3339Nano\<close> layout. The
  layout is the fixed-width prefix \<^verbatim>\<open>2006-01-02T15:04:05\<close>, then the fraction of the second
  with its trailing zeros cut (nothing at all for a whole second), then \<^verbatim>\<open>Z\<close>. SQL compares
  the text byte by byte.

  The prefix has the same width for every year from 1 to 9999 and orders like the number of
  seconds it denotes, so a \<open>stamp\<close> keeps that number, and the rest as the text it is; the
  order of stamps is the byte order of the whole text.
\<close>

datatype stamp = Stamp (stamp_sec: int) (stamp_frac: string)

instantiation stamp :: linorder
begin

definition less_eq_stamp :: "stamp \<Rightarrow> stamp \<Rightarrow> bool" where
  "less_eq_stamp a b \<longleftrightarrow>
     stamp_sec a < stamp_sec b \<or> (stamp_sec a = stamp_sec b \<and> stamp_frac a \<le> stamp_frac b)"

definition less_stamp :: "stamp \<Rightarrow> stamp \<Rightarrow> bool" where
  "less_stamp a b \<longleftrightarrow>
     stamp_sec a < stamp_sec b \<or> (stamp_sec a = stamp_sec b \<and> stamp_frac a < stamp_frac b)"

instance
  by intro_classes (auto simp: less_eq_stamp_def less_stamp_def stamp.expand)

end

section \<open>Fractions of a second as text\<close>

definition digit_char :: "nat \<Rightarrow> char" where
  "digit_char d = char_of (48 + d)"

definition char_digit :: "char \<Rightarrow> nat option" where
  "char_digit c =
     (let n = of_char c :: nat in if 48 \<le> n \<and> n \<le> 57 then Some (n - 48) else None)"

fun pad_digits :: "nat \<Rightarrow> nat \<Rightarrow> string" where
  "pad_digits 0 n = []"
| "pad_digits (Suc k) n = pad_digits k (n div 10) @ [digit_char (n mod 10)]"

definition trim_zeros :: "string \<Rightarrow> string" where
  "trim_zeros ds = rev (dropWhile (\<lambda>c. c = CHR ''0'') (rev ds))"

definition frac_text :: "nat \<Rightarrow> string" where
  "frac_text ns = (if ns = 0 then ''Z'' else ''.'' @ trim_zeros (pad_digits 9 ns) @ ''Z'')"

definition formatTime :: "time \<Rightarrow> stamp" where
  "formatTime t = Stamp (t div Second) (frac_text (nat (t mod Second)))"

definition formatTimePtr :: "time option \<Rightarrow> stamp option" where
  "formatTimePtr value = map_option formatTime value"

text \<open>
  \<^verbatim>\<open>time.Parse\<close> with the same layout reads an optional fraction of any length, of which it
  keeps nine digits, up to the final \<^verbatim>\<open>Z\<close>.
\<close>

fun parse_digits :: "nat \<Rightarrow> string \<Rightarrow> nat option" where
  "parse_digits acc [] = Some acc"
| "parse_digits acc (c # cs) =
     (case char_digit c of None \<Rightarrow> None | Some d \<Rightarrow> parse_digits (10 * acc + d) cs)"

definition parse_frac :: "string \<Rightarrow> nat option" where
  "parse_frac s =
     (if s = ''Z'' then Some 0
      else case s of
          [] \<Rightarrow> None
        | c # rest \<Rightarrow>
            if c = CHR ''.'' \<and> 2 \<le> length rest \<and> last rest = CHR ''Z''
            then (let ds = butlast rest; kept = take 9 ds in
                  case parse_digits 0 ds of
                    None \<Rightarrow> None
                  | Some _ \<Rightarrow>
                      map_option (\<lambda>v. v * 10 ^ (9 - length kept)) (parse_digits 0 kept))
            else None)"

definition parseTime :: "stamp \<Rightarrow> time option" where
  "parseTime value =
     map_option (\<lambda>ns. stamp_sec value * Second + int ns) (parse_frac (stamp_frac value))"

section \<open>Reading back what was written\<close>

lemma char_digit_digit_char [simp]: "d < 10 \<Longrightarrow> char_digit (digit_char d) = Some d"
  by (simp add: char_digit_def digit_char_def)

lemma char_digit_zero [simp]: "char_digit (CHR ''0'') = Some 0"
  by (simp add: char_digit_def)

lemma length_pad_digits [simp]: "length (pad_digits k n) = k"
  by (induction k arbitrary: n) auto

lemma parse_digits_append:
  "parse_digits acc (xs @ ys) = Option.bind (parse_digits acc xs) (\<lambda>a. parse_digits a ys)"
  by (induction xs arbitrary: acc) (auto split: option.splits)

lemma parse_pad_digits:
  "parse_digits acc (pad_digits k n) = Some (acc * 10 ^ k + n mod 10 ^ k)"
proof (induction k arbitrary: n)
  case 0
  then show ?case by simp
next
  case (Suc k)
  have "10 * (n div 10 mod 10 ^ k) + n mod 10 = n mod (10 * 10 ^ k)"
    by (simp add: mod_mult2_eq)
  then show ?case
    by (simp add: parse_digits_append Suc.IH algebra_simps)
qed

lemma parse_digits_zeros:
  "parse_digits acc (replicate k (CHR ''0'')) = Some (acc * 10 ^ k)"
  by (induction k arbitrary: acc) (auto simp: ac_simps)

lemma trim_zeros_split:
  obtains k where "ds = trim_zeros ds @ replicate k (CHR ''0'')"
proof -
  let ?z = "takeWhile (\<lambda>c. c = CHR ''0'') (rev ds)"
  have "rev ds = ?z @ dropWhile (\<lambda>c. c = CHR ''0'') (rev ds)"
    by (simp only: takeWhile_dropWhile_id)
  then have "ds = trim_zeros ds @ rev ?z"
    by (metis rev_append rev_rev_ident trim_zeros_def)
  moreover have "replicate (length ?z) (CHR ''0'') = ?z"
    by (rule replicate_length_same) (auto dest: set_takeWhileD)
  then have "rev ?z = replicate (length ?z) (CHR ''0'')"
    by (metis rev_replicate)
  ultimately have "ds = trim_zeros ds @ replicate (length ?z) (CHR ''0'')"
    by simp
  then show thesis by (rule that)
qed

lemma parse_trim_zeros:
  assumes "parse_digits 0 ds = Some v" and "length ds = 9"
  shows "\<exists>w. parse_digits 0 (trim_zeros ds) = Some w
             \<and> w * 10 ^ (9 - length (trim_zeros ds)) = v \<and> length (trim_zeros ds) \<le> 9"
proof -
  obtain k where k: "ds = trim_zeros ds @ replicate k (CHR ''0'')"
    by (rule trim_zeros_split)
  then have len: "length (trim_zeros ds) + k = 9"
    using assms(2) by (metis length_append length_replicate)
  from k assms(1) have "parse_digits 0 (trim_zeros ds @ replicate k (CHR ''0'')) = Some v"
    by simp
  then obtain w where "parse_digits 0 (trim_zeros ds) = Some w" "w * 10 ^ k = v"
    by (auto simp: parse_digits_append parse_digits_zeros bind_eq_Some_conv)
  with len show ?thesis by (metis add_diff_cancel_left' le_add1)
qed

lemma trim_zeros_Nil_value:
  assumes "trim_zeros ds = []" "parse_digits 0 ds = Some v"
  shows "v = 0"
proof -
  obtain k where "ds = trim_zeros ds @ replicate k (CHR ''0'')"
    by (rule trim_zeros_split)
  with assms show ?thesis by (simp add: parse_digits_zeros)
qed

lemma parse_frac_text:
  assumes "ns < 10 ^ 9"
  shows "parse_frac (frac_text ns) = Some ns"
proof (cases "ns = 0")
  case True
  then show ?thesis by (simp add: frac_text_def parse_frac_def)
next
  case False
  let ?ds = "pad_digits 9 ns"
  have v: "parse_digits 0 ?ds = Some ns"
    using assms by (simp add: parse_pad_digits)
  then obtain w where w: "parse_digits 0 (trim_zeros ?ds) = Some w"
      "w * 10 ^ (9 - length (trim_zeros ?ds)) = ns" "length (trim_zeros ?ds) \<le> 9"
    using parse_trim_zeros [OF v] by auto
  have "trim_zeros ?ds \<noteq> []"
    using False trim_zeros_Nil_value [OF _ v] by blast
  then have "2 \<le> length (trim_zeros ?ds @ ''Z'')"
    by (cases "trim_zeros ?ds") auto
  with False w show ?thesis
    by (simp add: frac_text_def parse_frac_def butlast_append Let_def)
qed

text \<open>C-roundtrip: every instant survives being stored.\<close>

lemma parse_format: "parseTime (formatTime t) = Some t"
proof -
  have "nat (t mod Second) < 10 ^ 9"
    by (simp add: Second_def nat_less_iff)
  then show ?thesis
    by (simp add: parseTime_def formatTime_def parse_frac_text Second_def)
qed

lemma formatTime_inject [simp]: "formatTime t = formatTime u \<longleftrightarrow> t = u"
  by (metis option.inject parse_format)

section \<open>The order of stored timestamps\<close>

text \<open>
  Stored order agrees with time order across different seconds. Within one second it
  does not: the text of a whole second ends in \<^verbatim>\<open>Z\<close> where a later instant has
  \<^verbatim>\<open>.\<close>, a smaller byte.
\<close>

lemma format_le_imp_sec_le:
  "formatTime t \<le> formatTime u \<Longrightarrow> t div Second \<le> u div Second"
  by (auto simp: formatTime_def less_eq_stamp_def)

lemma format_le_bound: "formatTime t \<le> formatTime u \<Longrightarrow> t < u + Second"
proof -
  assume "formatTime t \<le> formatTime u"
  then have "t div Second \<le> u div Second" by (rule format_le_imp_sec_le)
  then have "t div Second * Second \<le> u div Second * Second"
    by (simp add: Second_def)
  moreover have "t = t div Second * Second + t mod Second" "u = u div Second * Second + u mod Second"
    by simp_all
  moreover have "t mod Second < Second" "0 \<le> u mod Second"
    by (simp_all add: Second_def)
  ultimately show ?thesis by linarith
qed

lemma format_le_of_gap:
  assumes "t + Second \<le> u"
  shows "formatTime t < formatTime u"
proof -
  have "(t + Second) div Second \<le> u div Second"
    using assms by (simp add: Second_def zdiv_mono1)
  then have "t div Second + 1 \<le> u div Second" by (simp add: Second_def)
  then show ?thesis by (simp add: formatTime_def less_stamp_def)
qed

lemma format_whole_seconds:
  assumes "t mod Second = 0" "u mod Second = 0"
  shows "formatTime t \<le> formatTime u \<longleftrightarrow> t \<le> u"
proof -
  have "t = t div Second * Second" "u = u div Second * Second"
    using assms by (metis add.right_neutral div_mult_mod_eq)+
  moreover have "(0::int) < Second" by (simp add: Second_def)
  ultimately have "t \<le> u \<longleftrightarrow> t div Second \<le> u div Second"
    by (metis mult_le_cancel_right_pos zdiv_mono1)
  then show ?thesis using assms by (auto simp: formatTime_def less_eq_stamp_def)
qed

end
