(* ===== verification/Domain.thy ===== *)
theory Domain
  imports GoText StoredTime
begin

text \<open>
  The entities of internal/domain that delivery works with: accounts (account.go),
  outgoing jobs and their outcomes (job.go), classified delivery errors
  (delivery_errors.go), the keyword delivery mode and the validated settings
  (settings.go), and scheduled direct messages (scheduled_dm.go). As in Go, the
  enumerations of types.go are strings with named constants.
\<close>

section \<open>Constants (types.go, account.go, settings.go)\<close>

abbreviation JobPublicReply :: string where "JobPublicReply \<equiv> ''public_reply''"
abbreviation JobPrivateMessage :: string where "JobPrivateMessage \<equiv> ''private_message''"
abbreviation JobKeywordResponse :: string where "JobKeywordResponse \<equiv> ''keyword_response''"

abbreviation DeliveryTargetPrivate :: string where "DeliveryTargetPrivate \<equiv> ''private''"
abbreviation DeliveryTargetPublic :: string where "DeliveryTargetPublic \<equiv> ''public''"

abbreviation AccountRoleSpammer :: string where "AccountRoleSpammer \<equiv> ''spammer''"
abbreviation AccountRoleScoutAnalyst :: string where "AccountRoleScoutAnalyst \<equiv> ''scout_analyst''"

abbreviation AccountActive :: string where "AccountActive \<equiv> ''active''"
abbreviation AccountStopped :: string where "AccountStopped \<equiv> ''stopped''"
abbreviation AccountLimited :: string where "AccountLimited \<equiv> ''limited''"
abbreviation AccountError :: string where "AccountError \<equiv> ''error''"
abbreviation AccountFloodWait :: string where "AccountFloodWait \<equiv> ''flood_wait''"

abbreviation ProxyModeAssigned :: string where "ProxyModeAssigned \<equiv> ''assigned''"
abbreviation ProxyModeGlobal :: string where "ProxyModeGlobal \<equiv> ''global''"
abbreviation ProxyModeDirect :: string where "ProxyModeDirect \<equiv> ''direct''"
abbreviation ProxyModeUnassigned :: string where "ProxyModeUnassigned \<equiv> ''unassigned''"

abbreviation KeywordDeliveryModeComments :: string where "KeywordDeliveryModeComments \<equiv> ''comments''"
abbreviation KeywordDeliveryModePrivate :: string where "KeywordDeliveryModePrivate \<equiv> ''private''"
abbreviation KeywordDeliveryModeBoth :: string where "KeywordDeliveryModeBoth \<equiv> ''both''"

section \<open>Accounts (account.go)\<close>

record Account =
  acc_ID :: ID
  acc_DisplayName :: string
  acc_Role :: string
  acc_SessionPath :: string
  acc_Status :: string
  acc_ProxyProfileID :: "ID option"
  acc_ProxyMode :: string
  acc_PublicRepliesSent :: nat
  acc_PrivateMessagesSent :: nat
  acc_NextDelivery :: string
  acc_PrivateMessagesClosed :: nat
  acc_LastActivityAt :: "time option"
  acc_FloodWaitUntil :: "time option"
  acc_LastError :: string
  acc_CreatedAt :: time
  acc_UpdatedAt :: time

definition EffectiveNextDelivery :: "Account \<Rightarrow> string" where
  "EffectiveNextDelivery a =
     (if acc_NextDelivery a = DeliveryTargetPublic then DeliveryTargetPublic
      else DeliveryTargetPrivate)"

definition Eligible :: "Account \<Rightarrow> bool" where
  "Eligible a \<longleftrightarrow>
     acc_ProxyMode a \<noteq> ProxyModeUnassigned \<and>
     acc_Status a \<in> {AccountActive, AccountStopped, ''joining'', ''ready'', ''partial''}"

section \<open>Outgoing jobs (job.go)\<close>

record OutgoingMessageJob =
  job_ID :: ID
  job_Type :: string
  job_AccountID :: "ID option"
  job_ChannelID :: ID
  job_RuleID :: ID
  job_TargetTelegramID :: string
  job_ReplyToMessageID :: string
  job_Text :: string
  job_AllowPrivate :: bool
  job_KeywordDeliveryMode :: string
  job_FallbackToPublic :: bool
  job_Status :: string
  job_Attempts :: nat
  job_NextAttemptAt :: time
  job_CreatedAt :: time

record KeywordDeliveryOutcome =
  out_JobID :: ID
  out_AccountID :: ID
  out_ChannelID :: ID
  out_AccountTitleSnapshot :: string
  out_Type :: string
  out_AdvanceTo :: "string option"
  out_CompletedAt :: time

record KeywordDeliveryFailure =
  fail_JobID :: ID
  fail_AccountID :: "ID option"
  fail_AccountTitleSnapshot :: string
  fail_Type :: "string option"
  fail_ErrorCode :: string
  fail_FailedAt :: time
  fail_NextAttemptAt :: time

record OutgoingMessageEvent =
  ev_ID :: ID
  ev_JobID :: ID
  ev_AccountID :: ID
  ev_ChannelID :: ID
  ev_Type :: string
  ev_Success :: bool
  ev_ErrorCode :: string
  ev_CreatedAt :: time

record LiveDeliveryDraft =
  draft_SourceMessage :: string
  draft_TriggerCanonicalID :: ID
  draft_TriggerSnapshot :: string
  draft_TriggeredAt :: time

section \<open>Delivery errors (delivery_errors.go)\<close>

text \<open>
  A Go error is a chain of wrappers around a cause. The chains the delivery code builds are
  the constructors here; \<^verbatim>\<open>errors.As\<close> walks from the outermost wrapper to the cause and
  stops at the first one that fits. \<open>FloodErr\<close> is \<^verbatim>\<open>FloodWaitError\<close> of
  internal/telegram/gotd, the error with a \<^verbatim>\<open>RetryAfter\<close> method; \<open>JoinedErr\<close> is \<^verbatim>\<open>errors.Join\<close> of two errors, which \<^verbatim>\<open>errors.As\<close> searches
  depth first, left to right.
\<close>

datatype go_error =
    PlainErr string
  | FloodErr duration go_error
  | ClassifiedErr string go_error
  | PrivateClosedErr go_error
  | JoinedErr go_error go_error

abbreviation DeliveryFailurePermanent :: string where "DeliveryFailurePermanent \<equiv> ''permanent''"
abbreviation DeliveryFailureTransient :: string where "DeliveryFailureTransient \<equiv> ''transient''"

fun deliveryFailureClass :: "go_error \<Rightarrow> string option" where
  "deliveryFailureClass (PlainErr m) = None"
| "deliveryFailureClass (FloodErr d e) = deliveryFailureClass e"
| "deliveryFailureClass (ClassifiedErr c e) = Some c"
| "deliveryFailureClass (PrivateClosedErr e) = deliveryFailureClass e"
| "deliveryFailureClass (JoinedErr e f) =
     (case deliveryFailureClass e of None \<Rightarrow> deliveryFailureClass f | Some c \<Rightarrow> Some c)"

fun IsPrivateMessageClosed :: "go_error \<Rightarrow> bool" where
  "IsPrivateMessageClosed (PlainErr m) = False"
| "IsPrivateMessageClosed (FloodErr d e) = IsPrivateMessageClosed e"
| "IsPrivateMessageClosed (ClassifiedErr c e) = IsPrivateMessageClosed e"
| "IsPrivateMessageClosed (PrivateClosedErr e) = True"
| "IsPrivateMessageClosed (JoinedErr e f) = (IsPrivateMessageClosed e \<or> IsPrivateMessageClosed f)"

fun retryAfter :: "go_error \<Rightarrow> duration option" where
  "retryAfter (PlainErr m) = None"
| "retryAfter (FloodErr d e) = Some d"
| "retryAfter (ClassifiedErr c e) = retryAfter e"
| "retryAfter (PrivateClosedErr e) = retryAfter e"
| "retryAfter (JoinedErr e f) = (case retryAfter e of None \<Rightarrow> retryAfter f | Some d \<Rightarrow> Some d)"

definition PermanentDeliveryFailure :: "go_error option \<Rightarrow> go_error option" where
  "PermanentDeliveryFailure err = map_option (ClassifiedErr DeliveryFailurePermanent) err"

definition TransientDeliveryFailure :: "go_error option \<Rightarrow> go_error option" where
  "TransientDeliveryFailure err = map_option (ClassifiedErr DeliveryFailureTransient) err"

definition PrivateMessageClosed :: "go_error option \<Rightarrow> go_error option" where
  "PrivateMessageClosed err = map_option PrivateClosedErr err"

definition IsPermanentDeliveryFailure :: "go_error \<Rightarrow> bool" where
  "IsPermanentDeliveryFailure err \<longleftrightarrow> deliveryFailureClass err = Some DeliveryFailurePermanent"

definition IsTransientDeliveryFailure :: "go_error \<Rightarrow> bool" where
  "IsTransientDeliveryFailure err \<longleftrightarrow> deliveryFailureClass err = Some DeliveryFailureTransient"

lemma permanent_not_transient:
  "IsPermanentDeliveryFailure err \<Longrightarrow> \<not> IsTransientDeliveryFailure err"
  by (simp add: IsPermanentDeliveryFailure_def IsTransientDeliveryFailure_def)

section \<open>Settings (settings.go)\<close>

definition Normalized_mode :: "string \<Rightarrow> string" where
  "Normalized_mode mode =
     (if mode \<in> {KeywordDeliveryModeComments, KeywordDeliveryModePrivate, KeywordDeliveryModeBoth}
      then mode else KeywordDeliveryModeComments)"

lemma Normalized_mode_idem: "Normalized_mode (Normalized_mode m) = Normalized_mode m"
  by (simp add: Normalized_mode_def)

record JoinIntervalRange =
  MinMinutes :: int
  MaxMinutes :: int

datatype settings_error = ErrInvalidJoinInterval | ErrInvalidGroupRestHours | JSONError

definition NewJoinIntervalRange :: "int \<Rightarrow> int \<Rightarrow> settings_error + JoinIntervalRange" where
  "NewJoinIntervalRange minMinutes maxMinutes =
     (if minMinutes < 0 \<or> 3000 < minMinutes then Inl ErrInvalidJoinInterval
      else if maxMinutes < 0 \<or> 3000 < maxMinutes then Inl ErrInvalidJoinInterval
      else if maxMinutes < minMinutes then Inl ErrInvalidJoinInterval
      else Inr \<lparr>MinMinutes = minMinutes, MaxMinutes = maxMinutes\<rparr>)"

definition ValidateGroupRestHours :: "int \<Rightarrow> settings_error option" where
  "ValidateGroupRestHours hours =
     (if hours < 1 \<or> 720 < hours then Some ErrInvalidGroupRestHours else None)"

record AppSettings =
  RepliesPerMinute :: int
  MinIntervalSeconds :: int
  JoinIntervalEnabled :: bool
  JoinIntervalMinMinutes :: int
  JoinIntervalMaxMinutes :: int
  GroupRestHours :: int
  GroupRestEnabled :: bool
  DirectMessages :: bool
  Proxy :: string

definition zero_AppSettings :: AppSettings where
  "zero_AppSettings =
     \<lparr>RepliesPerMinute = 0, MinIntervalSeconds = 0, JoinIntervalEnabled = False,
      JoinIntervalMinMinutes = 0, JoinIntervalMaxMinutes = 0, GroupRestHours = 0,
      GroupRestEnabled = False, DirectMessages = False, Proxy = ''''\<rparr>"

definition DefaultAppSettings :: AppSettings where
  "DefaultAppSettings =
     \<lparr>RepliesPerMinute = 19, MinIntervalSeconds = 2, JoinIntervalEnabled = True,
      JoinIntervalMinMinutes = 10, JoinIntervalMaxMinutes = 60, GroupRestHours = 36,
      GroupRestEnabled = True, DirectMessages = False, Proxy = ''''\<rparr>"

definition Normalized :: "AppSettings \<Rightarrow> AppSettings" where
  "Normalized s =
     (if s = zero_AppSettings then DefaultAppSettings
      else if GroupRestHours s = 0 then s\<lparr>GroupRestHours := GroupRestHours DefaultAppSettings\<rparr>
      else s)"

definition AppSettings_JoinIntervalRange :: "AppSettings \<Rightarrow> settings_error + JoinIntervalRange" where
  "AppSettings_JoinIntervalRange s =
     (let n = Normalized s in
      NewJoinIntervalRange (JoinIntervalMinMinutes n) (JoinIntervalMaxMinutes n))"

text \<open>
  \<^verbatim>\<open>(*AppSettings).UnmarshalJSON\<close>: the JSON object is a partial record, \<open>present\<close> tells which
  fields it has, \<open>decode\<close> overwrites the fields it has in a settings value, or fails.
\<close>

definition UnmarshalAppSettings ::
  "AppSettings \<Rightarrow> (string \<Rightarrow> bool) \<Rightarrow> (AppSettings \<Rightarrow> AppSettings option)
     \<Rightarrow> settings_error + AppSettings" where
  "UnmarshalAppSettings s present decode =
     (let base = (if s = zero_AppSettings then DefaultAppSettings else s) in
      case decode base of
        None \<Rightarrow> Inl JSONError
      | Some d0 \<Rightarrow>
          (let d1 = (if \<not> present ''joinIntervalEnabled'' then d0\<lparr>JoinIntervalEnabled := True\<rparr> else d0);
               d2 = (if \<not> present ''joinIntervalMinMinutes''
                     then d1\<lparr>JoinIntervalMinMinutes := JoinIntervalMinMinutes DefaultAppSettings\<rparr> else d1);
               d3 = (if \<not> present ''joinIntervalMaxMinutes''
                     then d2\<lparr>JoinIntervalMaxMinutes := JoinIntervalMaxMinutes DefaultAppSettings\<rparr> else d2);
               d4 = (if \<not> present ''groupRestEnabled'' then d3\<lparr>GroupRestEnabled := True\<rparr> else d3);
               normalized = Normalized d4
           in case AppSettings_JoinIntervalRange normalized of
                Inl e \<Rightarrow> Inl e
              | Inr _ \<Rightarrow>
                  (case ValidateGroupRestHours (GroupRestHours normalized) of
                     Some e \<Rightarrow> Inl e
                   | None \<Rightarrow> Inr normalized)))"

definition valid_settings :: "AppSettings \<Rightarrow> bool" where
  "valid_settings s \<longleftrightarrow>
     0 \<le> JoinIntervalMinMinutes s \<and> JoinIntervalMinMinutes s \<le> JoinIntervalMaxMinutes s \<and>
     JoinIntervalMaxMinutes s \<le> 3000 \<and> 1 \<le> GroupRestHours s \<and> GroupRestHours s \<le> 720"

lemma Normalized_nonzero: "Normalized s \<noteq> zero_AppSettings"
  by (cases s) (auto simp: Normalized_def zero_AppSettings_def DefaultAppSettings_def)

lemma Normalized_idem: "Normalized (Normalized s) = Normalized s"
  by (cases s) (auto simp: Normalized_def zero_AppSettings_def DefaultAppSettings_def)

lemma NewJoinIntervalRange_Inr_iff:
  "NewJoinIntervalRange lo hi = Inr r \<longleftrightarrow>
     0 \<le> lo \<and> lo \<le> hi \<and> hi \<le> 3000 \<and> r = \<lparr>MinMinutes = lo, MaxMinutes = hi\<rparr>"
  by (auto simp: NewJoinIntervalRange_def)

lemma Unmarshal_valid:
  assumes "UnmarshalAppSettings s present decode = Inr t"
  shows "valid_settings t" "Normalized t = t"
  using assms unfolding UnmarshalAppSettings_def Let_def valid_settings_def
    AppSettings_JoinIntervalRange_def
  by (auto split: sum.splits option.splits if_split_asm
        simp: NewJoinIntervalRange_Inr_iff ValidateGroupRestHours_def Normalized_idem)

section \<open>Scheduled direct messages (scheduled_dm.go)\<close>

abbreviation DMPaused :: string where "DMPaused \<equiv> ''paused''"
abbreviation DMActive :: string where "DMActive \<equiv> ''active''"
abbreviation DMCompleted :: string where "DMCompleted \<equiv> ''completed''"
abbreviation DMCancelled :: string where "DMCancelled \<equiv> ''cancelled''"

abbreviation DeliveryPending :: string where "DeliveryPending \<equiv> ''pending''"
abbreviation DeliverySending :: string where "DeliverySending \<equiv> ''sending''"
abbreviation DeliverySent :: string where "DeliverySent \<equiv> ''sent''"
abbreviation DeliveryClosed :: string where "DeliveryClosed \<equiv> ''closed''"
abbreviation DeliveryFailed :: string where "DeliveryFailed \<equiv> ''failed''"

abbreviation RecurrenceOnce :: string where "RecurrenceOnce \<equiv> ''once''"

record ScheduledDMRecipient =
  rcp_TaskID :: ID
  rcp_Ordinal :: nat
  rcp_Username :: string
  rcp_Status :: string
  rcp_LastError :: string
  rcp_LastCheckedAt :: "time option"

record ScheduledDMTask =
  task_ID :: ID
  task_MessageText :: string
  task_Status :: string
  task_StartAt :: time
  task_Recurrence :: string
  task_MaxRuns :: int
  task_CompletedRuns :: int
  task_NextRunAt :: "time option"
  task_Recipients :: "ScheduledDMRecipient list"
  task_AccountIDs :: "ID list"
  task_CreatedAt :: time
  task_UpdatedAt :: time

record ScheduledDMDelivery =
  dlv_ID :: ID
  dlv_TaskID :: ID
  dlv_RunID :: ID
  dlv_RunNumber :: int
  dlv_Recipient :: string
  dlv_AccountID :: ID
  dlv_TelegramRandomID :: int
  dlv_LeaseToken :: string
  dlv_Status :: string
  dlv_AttemptedAt :: "time option"
  dlv_CompletedAt :: "time option"
  dlv_ErrorCode :: string

record ScheduledDMDeliveryResult =
  res_DeliveryID :: ID
  res_LeaseToken :: string
  res_Status :: string
  res_CompletedAt :: time
  res_ErrorCode :: string

definition RecurrenceDuration :: "string \<Rightarrow> duration option" where
  "RecurrenceDuration recurrence = map_of
     [(RecurrenceOnce, 0), (''5m'', 5 * Minute), (''10m'', 10 * Minute), (''30m'', 30 * Minute),
      (''1h'', Hour), (''2h'', 2 * Hour), (''3h'', 3 * Hour), (''4h'', 4 * Hour),
      (''5h'', 5 * Hour), (''6h'', 6 * Hour), (''7h'', 7 * Hour), (''8h'', 8 * Hour),
      (''9h'', 9 * Hour), (''10h'', 10 * Hour), (''11h'', 11 * Hour), (''12h'', 12 * Hour),
      (''daily'', 24 * Hour), (''weekly'', 7 * 24 * Hour)] recurrence"

datatype dm_domain_error = ErrScheduledDMMaxRuns | ErrScheduledDMRecurrence

definition NewScheduledDMTask :: "ScheduledDMTask \<Rightarrow> dm_domain_error + ScheduledDMTask" where
  "NewScheduledDMTask task =
     (if task_MaxRuns task < 1 \<or> 12 < task_MaxRuns task then Inl ErrScheduledDMMaxRuns
      else case RecurrenceDuration (task_Recurrence task) of
          None \<Rightarrow> Inl ErrScheduledDMRecurrence
        | Some _ \<Rightarrow> Inr (task\<lparr>task_Status := DMPaused\<rparr>))"

text \<open>Only the one-time recurrence has no interval; every other one is at least five minutes.\<close>

lemma RecurrenceDuration_cases:
  assumes "RecurrenceDuration r = Some d"
  shows "r = RecurrenceOnce \<and> d = 0 \<or> r \<noteq> RecurrenceOnce \<and> 5 * Minute \<le> d"
  using map_of_SomeD [OF assms [unfolded RecurrenceDuration_def]]
  by (elim set_ConsD [elim_format]) (auto simp: Minute_def Hour_def Second_def)

lemma RecurrenceDuration_zero_iff:
  "RecurrenceDuration r = Some 0 \<longleftrightarrow> r = RecurrenceOnce"
proof
  assume "RecurrenceDuration r = Some 0"
  then show "r = RecurrenceOnce"
    using RecurrenceDuration_cases [of r 0] by (auto simp: Minute_def Second_def)
qed (simp add: RecurrenceDuration_def)

end
