(* ===== verification/Db.thy ===== *)
theory Db
  imports Domain
begin

text \<open>
  The tables of \<^verbatim>\<open>data/app.db\<close> that delivery reads and writes
  (internal/repository/sqlite/migrations), as records of rows with the columns the queries
  mention, the errors the repositories return, and the constraints the schema enforces:
  primary keys, the \<^verbatim>\<open>CHECK\<close> of an account's status, and the foreign key of a job's account
  (\<^verbatim>\<open>PRAGMA foreign_keys\<close> is on, db.go).
\<close>

section \<open>Rows\<close>

record account_row =
  ar_id :: ID
  ar_display_name :: string
  ar_role :: string
  ar_status :: string
  ar_status_source :: string
  ar_flood_wait_until :: "stamp option"
  ar_session_path :: string
  ar_proxy_profile_id :: "ID option"
  ar_proxy_mode :: string
  ar_public_replies_sent :: nat
  ar_private_messages_sent :: nat
  ar_next_delivery :: string
  ar_private_messages_closed :: nat
  ar_last_activity_at :: "stamp option"
  ar_last_error :: string
  ar_legacy_pause_review_required :: bool
  ar_created_at :: stamp
  ar_updated_at :: stamp

text \<open>
  A row of \<^verbatim>\<open>outbound_channels\<close> or of \<^verbatim>\<open>scout_chats\<close>: \<open>ch_sent_count\<close> is the column
  \<^verbatim>\<open>sent_count\<close> of the first and \<^verbatim>\<open>message_count\<close> of the second, which alone has
  \<^verbatim>\<open>archived_at\<close>.
\<close>

record channel_row =
  ch_id :: ID
  ch_telegram_chat_id :: string
  ch_title :: string
  ch_link :: string
  ch_topic :: string
  ch_status :: string
  ch_active :: bool
  ch_removal_requested_at :: "stamp option"
  ch_archived_at :: "stamp option"
  ch_sent_count :: nat
  ch_last_activity_at :: "stamp option"
  ch_last_error :: string
  ch_created_at :: stamp
  ch_updated_at :: stamp

record membership_row =
  mr_account_id :: ID
  mr_catalog :: string
  mr_channel_id :: ID
  mr_is_member :: bool
  mr_status :: string
  mr_last_check_at :: "stamp option"
  mr_request_submitted_at :: "stamp option"
  mr_joined_at :: "stamp option"
  mr_join_not_before :: "stamp option"
  mr_rest_started_at :: "stamp option"
  mr_rest_until :: "stamp option"
  mr_rest_duration_hours :: int
  mr_last_error :: string

record job_row =
  jr_id :: ID
  jr_type :: string
  jr_account_id :: "ID option"
  jr_channel_id :: ID
  jr_rule_id :: ID
  jr_target_telegram_id :: string
  jr_reply_to_message_id :: string
  jr_text :: string
  jr_allow_private :: bool
  jr_keyword_delivery_mode :: string
  jr_fallback_to_public :: bool
  jr_status :: string
  jr_attempts :: nat
  jr_next_attempt_at :: stamp
  jr_created_at :: stamp
  jr_last_error :: string
  jr_lease_token :: string
  jr_lease_until :: "stamp option"
  jr_dead_lettered_at :: "stamp option"

record event_row =
  er_id :: ID
  er_job_id :: ID
  er_account_id :: ID
  er_channel_id :: ID
  er_type :: string
  er_success :: bool
  er_error_code :: string
  er_created_at :: stamp

record history_row =
  hr_id :: ID
  hr_job_id :: ID
  hr_source_message :: string
  hr_trigger_canonical_id :: "ID option"
  hr_trigger_snapshot :: string
  hr_triggered_at :: stamp
  hr_delivery_type :: "string option"
  hr_account_id :: "ID option"
  hr_account_title_snapshot :: string
  hr_final_status :: "string option"
  hr_error_code :: string
  hr_finalized_at :: "stamp option"

text \<open>
  \<open>db_rest_setting\<close> and \<open>db_join_setting\<close> are the JSON values \<^verbatim>\<open>$.groupRestEnabled\<close> and
  \<^verbatim>\<open>$.joinIntervalEnabled\<close> of the row \<^verbatim>\<open>app_settings\<close>, NULL when the row or the field is
  missing.
\<close>

record db =
  db_accounts :: "account_row list"
  db_outbound :: "channel_row list"
  db_scout :: "channel_row list"
  db_memberships :: "membership_row list"
  db_jobs :: "job_row list"
  db_events :: "event_row list"
  db_history :: "history_row list"
  db_canonical :: "ID list"
  db_rest_setting :: "bool option"
  db_join_setting :: "bool option"

section \<open>Errors\<close>

datatype db_error =
    ErrInvalidJob
  | ErrJobTypeRequired
  | ErrDraftRequired
  | ErrIdentityMismatch
  | ErrIDsRequired
  | ErrLeaseInvalid
  | ErrLeaseTokenRequired
  | ErrJobNotFound
  | ErrJobNotPending
  | ErrJobNotClaimed
  | ErrLeaseNotActive
  | ErrNotPendingForLease
  | ErrNotPendingForPrivate
  | ErrNotPendingForAccount
  | ErrCompletionCount
  | ErrOutcomeType
  | ErrInvalidTarget
  | ErrCodeRequired
  | ErrAccountNotFound
  | ErrChannelNotFound
  | ErrUnsupportedType
  | ErrNoRows
  | ErrNotAwaitingReview
  | ErrUnsupportedCatalog
  | ErrLinkRequired
  | ErrMembershipMismatch
  | ErrRestoreCount
  | ErrRemovalCount
  | ErrBeingRemoved
  | ErrParseTime
  | ErrConstraint

section \<open>Constraints\<close>

definition account_status_ok :: "string \<Rightarrow> bool" where
  "account_status_ok s \<longleftrightarrow>
     s \<in> {''ready'', ''joining'', ''partial'', ''error'', ''flood_wait'', ''paused'',
          ''collecting'', ''stopped''}"

definition job_status_ok :: "string \<Rightarrow> bool" where
  "job_status_ok s \<longleftrightarrow> s \<in> {''queued'', ''delayed'', ''done''}"

definition account_exists :: "db \<Rightarrow> ID \<Rightarrow> bool" where
  "account_exists d a \<longleftrightarrow> sql_exists (\<lambda>r. ar_id r = a) (db_accounts d)"

text \<open>
  The schema's invariant: primary keys are unique, a history row belongs to one job, the
  \<^verbatim>\<open>CHECK\<close> constraints hold, and a job's account and an event's job exist.
\<close>

definition schema_ok :: "db \<Rightarrow> bool" where
  "schema_ok d \<longleftrightarrow>
     distinct (map ar_id (db_accounts d)) \<and>
     distinct (map ch_id (db_outbound d)) \<and>
     distinct (map ch_id (db_scout d)) \<and>
     distinct (map jr_id (db_jobs d)) \<and>
     distinct (map er_id (db_events d)) \<and>
     distinct (map hr_job_id (db_history d)) \<and>
     (\<forall>r \<in> set (db_accounts d). account_status_ok (ar_status r)) \<and>
     (\<forall>r \<in> set (db_jobs d). job_status_ok (jr_status r) \<and>
        (\<forall>a. jr_account_id r = Some a \<longrightarrow> account_exists d a)) \<and>
     (\<forall>e \<in> set (db_events d). er_job_id e \<in> jr_id ` set (db_jobs d))"

abbreviation the_job :: "db \<Rightarrow> ID \<Rightarrow> job_row option" where
  "the_job d i \<equiv> sql_select (\<lambda>r. jr_id r = i) (db_jobs d)"

abbreviation the_account :: "db \<Rightarrow> ID \<Rightarrow> account_row option" where
  "the_account d a \<equiv> sql_select (\<lambda>r. ar_id r = a) (db_accounts d)"

lemma account_exists_iff: "account_exists d a \<longleftrightarrow> (\<exists>r. the_account d a = Some r)"
  by (metis (mono_tags, lifting) account_exists_def not_None_eq sql_exists_iff sql_select_None_iff)

end
