(* ===== verification/AccountStore.thy ===== *)
theory AccountStore
  imports Db "HOL-Library.Multiset"
begin

text \<open>
  The account repository of internal/repository/sqlite/production_store.go: reading accounts,
  recovering expired flood waits, and the runtime transitions of an account's status; and the
  group rests the scheduler asks for. \<^verbatim>\<open>time.Now\<close> is the argument \<open>now\<close>.
\<close>

section \<open>Reading accounts\<close>

definition encodeAccountStatus :: "string \<Rightarrow> string" where
  "encodeAccountStatus status =
     (if status = AccountActive then ''ready''
      else if status = AccountLimited then ''partial''
      else status)"

definition decodeAccountStatus :: "string \<Rightarrow> string" where
  "decodeAccountStatus status =
     (if status \<in> {''ready'', ''collecting''} then AccountActive else status)"

definition parse_opt :: "stamp option \<Rightarrow> time option option" where
  "parse_opt s = (case s of None \<Rightarrow> Some None | Some x \<Rightarrow> map_option Some (parseTime x))"

lemma parse_opt_format [simp]: "parse_opt (Some (formatTime t)) = Some (Some t)"
  by (simp add: parse_opt_def parse_format)

definition scan_account :: "account_row \<Rightarrow> Account option" where
  "scan_account r =
     (case parse_opt (ar_last_activity_at r) of
        None \<Rightarrow> None
      | Some lastActivity \<Rightarrow>
     (case parse_opt (ar_flood_wait_until r) of
        None \<Rightarrow> None
      | Some floodWait \<Rightarrow>
     (case parseTime (ar_created_at r) of
        None \<Rightarrow> None
      | Some createdAt \<Rightarrow>
     (case parseTime (ar_updated_at r) of
        None \<Rightarrow> None
      | Some updatedAt \<Rightarrow>
          Some \<lparr>acc_ID = ar_id r, acc_DisplayName = ar_display_name r, acc_Role = ar_role r,
                acc_SessionPath = ar_session_path r,
                acc_Status = decodeAccountStatus (ar_status r),
                acc_ProxyProfileID = ar_proxy_profile_id r, acc_ProxyMode = ar_proxy_mode r,
                acc_PublicRepliesSent = ar_public_replies_sent r,
                acc_PrivateMessagesSent = ar_private_messages_sent r,
                acc_NextDelivery = ar_next_delivery r,
                acc_PrivateMessagesClosed = ar_private_messages_closed r,
                acc_LastActivityAt = lastActivity, acc_FloodWaitUntil = floodWait,
                acc_LastError = ar_last_error r,
                acc_CreatedAt = createdAt, acc_UpdatedAt = updatedAt\<rparr>))))"

fun scan_all :: "account_row list \<Rightarrow> db_error + Account list" where
  "scan_all [] = Inr []"
| "scan_all (r # rs) =
     (case scan_account r of
        None \<Rightarrow> Inl ErrParseTime
      | Some a \<Rightarrow> (case scan_all rs of Inl e \<Rightarrow> Inl e | Inr as \<Rightarrow> Inr (a # as)))"

definition listAccounts :: "db \<Rightarrow> db_error + Account list" where
  "listAccounts d = scan_all (sort_key (\<lambda>r. (ar_created_at r, ar_id r)) (db_accounts d))"

definition recover_flood_wait :: "time \<Rightarrow> account_row \<Rightarrow> bool" where
  "recover_flood_wait now r \<longleftrightarrow>
     ar_status r = ''flood_wait'' \<and>
     (case ar_flood_wait_until r of None \<Rightarrow> False | Some u \<Rightarrow> u \<le> formatTime now)"

definition listActiveAccounts :: "time \<Rightarrow> (db, db_error, Account list) op" where
  "listActiveAccounts now d =
     (let d' = d\<lparr>db_accounts := sql_update (recover_flood_wait now)
                   (\<lambda>r. r\<lparr>ar_status := ''ready'', ar_flood_wait_until := None,
                           ar_last_error := '''', ar_updated_at := formatTime now\<rparr>)
                   (db_accounts d)\<rparr>
      in case listAccounts d' of
           Inl e \<Rightarrow> (Inl e, d')
         | Inr accounts \<Rightarrow> (Inr (filter Eligible accounts), d'))"

section \<open>Status transitions\<close>

definition find_account_by_id :: "ID \<Rightarrow> Account list \<Rightarrow> Account option" where
  "find_account_by_id accountID accounts = find (\<lambda>a. acc_ID a = accountID) accounts"

definition listed_account :: "ID \<Rightarrow> db \<Rightarrow> db_error + Account" where
  "listed_account accountID d =
     (case listAccounts d of
        Inl e \<Rightarrow> Inl e
      | Inr accounts \<Rightarrow>
          (case find_account_by_id accountID accounts of
             None \<Rightarrow> Inl ErrAccountNotFound
           | Some a \<Rightarrow> Inr a))"

definition MarkValidated :: "ID \<Rightarrow> time \<Rightarrow> (db, db_error, unit) op" where
  "MarkValidated accountID at d =
     (if sql_affected (\<lambda>r. ar_id r = accountID) (db_accounts d) \<noteq> 1 then (Inl ErrAccountNotFound, d)
      else (Inr (), d\<lparr>db_accounts := sql_update (\<lambda>r. ar_id r = accountID)
             (\<lambda>r. r\<lparr>ar_status := ''ready'', ar_status_source := ''runtime'',
                     ar_legacy_pause_review_required := False, ar_flood_wait_until := None,
                     ar_last_error := '''', ar_last_activity_at := Some (formatTime at),
                     ar_updated_at := formatTime at\<rparr>) (db_accounts d)\<rparr>))"

definition SetAccountRole :: "ID \<Rightarrow> string \<Rightarrow> time \<Rightarrow> (db, db_error, Account) op" where
  "SetAccountRole accountID role at d =
     (if account_exists d accountID \<and> role \<notin> {AccountRoleSpammer, AccountRoleScoutAnalyst}
      then (Inl ErrConstraint, d)
      else if sql_affected (\<lambda>r. ar_id r = accountID) (db_accounts d) \<noteq> 1
      then (Inl ErrAccountNotFound, d)
      else let d' = d\<lparr>db_accounts := sql_update (\<lambda>r. ar_id r = accountID)
                 (\<lambda>r. r\<lparr>ar_role := role, ar_updated_at := formatTime at\<rparr>) (db_accounts d)\<rparr>
           in (listed_account accountID d', d'))"

definition flood_wait_open :: "time \<Rightarrow> account_row \<Rightarrow> bool" where
  "flood_wait_open at r \<longleftrightarrow>
     (case ar_flood_wait_until r of None \<Rightarrow> False | Some u \<Rightarrow> formatTime at < u)"

definition ResumeLegacyPaused :: "ID \<Rightarrow> time \<Rightarrow> (db, db_error, Account) op" where
  "ResumeLegacyPaused accountID at d =
     (let p = (\<lambda>r. ar_id r = accountID \<and> ar_status r = ''paused'' \<and>
                   ar_legacy_pause_review_required r) in
      if sql_affected p (db_accounts d) \<noteq> 1 then (Inl ErrNotAwaitingReview, d)
      else let d' = d\<lparr>db_accounts := sql_update p
                 (\<lambda>r. r\<lparr>ar_status := (if flood_wait_open at r then ''flood_wait'' else ''stopped''),
                         ar_status_source := ''runtime'',
                         ar_legacy_pause_review_required := False,
                         ar_last_error := (if flood_wait_open at r then ''telegram flood wait'' else ''''),
                         ar_updated_at := formatTime at\<rparr>) (db_accounts d)\<rparr>
           in (listed_account accountID d', d'))"

definition RecordFloodWait :: "ID \<Rightarrow> time \<Rightarrow> time \<Rightarrow> (db, db_error, unit) op" where
  "RecordFloodWait accountID until at d =
     (if sql_affected (\<lambda>r. ar_id r = accountID) (db_accounts d) \<noteq> 1 then (Inl ErrAccountNotFound, d)
      else (Inr (), d\<lparr>db_accounts := sql_update (\<lambda>r. ar_id r = accountID)
             (\<lambda>r. r\<lparr>ar_status := ''flood_wait'', ar_status_source := ''runtime'',
                     ar_legacy_pause_review_required := False,
                     ar_flood_wait_until := Some (formatTime until),
                     ar_last_error := ''telegram flood wait'',
                     ar_updated_at := formatTime at\<rparr>) (db_accounts d)\<rparr>))"

definition RecordRuntimeStatus :: "ID \<Rightarrow> string \<Rightarrow> string \<Rightarrow> time \<Rightarrow> (db, db_error, unit) op" where
  "RecordRuntimeStatus accountID status errorCode at d =
     (let override = (status = AccountError \<and> errorCode = ''rpc_auth_key_duplicated'');
          keep = (\<lambda>r. \<not> override \<and> ar_status r = ''flood_wait'' \<and> flood_wait_open at r);
          f = (\<lambda>r. r\<lparr>ar_status := (if keep r then ar_status r else status),
                      ar_status_source := ''runtime'',
                      ar_legacy_pause_review_required := False,
                      ar_last_error := (if keep r then ar_last_error r else errorCode),
                      ar_flood_wait_until := (if override then None else ar_flood_wait_until r),
                      ar_updated_at := formatTime at\<rparr>);
          p = (\<lambda>r. ar_id r = accountID)
      in if \<exists>r \<in> set (db_accounts d). p r \<and> \<not> account_status_ok (ar_status (f r))
         then (Inl ErrConstraint, d)
         else if sql_affected p (db_accounts d) \<noteq> 1 then (Inl ErrAccountNotFound, d)
         else (Inr (), d\<lparr>db_accounts := sql_update p f (db_accounts d)\<rparr>))"

section \<open>Group rests\<close>

text \<open>
  The latest open rest of each account, as the map the scheduler reads: the rows are folded
  in table order, as the loop over the result set does.
\<close>

definition note_rest :: "time \<Rightarrow> ID \<Rightarrow> time \<Rightarrow> (ID \<rightharpoonup> time) \<Rightarrow> (ID \<rightharpoonup> time)" where
  "note_rest now accountID value active =
     (if \<not> After value now then active
      else case active accountID of
          None \<Rightarrow> active(accountID \<mapsto> value)
        | Some latest \<Rightarrow> if After value latest then active(accountID \<mapsto> value) else active)"

fun collect_rests :: "time \<Rightarrow> membership_row list \<Rightarrow> (ID \<rightharpoonup> time) \<Rightarrow> db_error + (ID \<rightharpoonup> time)" where
  "collect_rests now [] active = Inr active"
| "collect_rests now (r # rs) active =
     (case mr_rest_until r of
        None \<Rightarrow> collect_rests now rs active
      | Some u \<Rightarrow>
          (case parseTime u of
             None \<Rightarrow> Inl ErrParseTime
           | Some value \<Rightarrow>
               collect_rests now rs (note_rest now (mr_account_id r) value active)))"

definition ActiveGroupRestUntil :: "ID list \<Rightarrow> time \<Rightarrow> db \<Rightarrow> db_error + (ID \<rightharpoonup> time)" where
  "ActiveGroupRestUntil accountIDs now d =
     (if accountIDs = [] then Inr Map.empty
      else collect_rests now (filter (\<lambda>r. mr_account_id r \<in> set accountIDs) (db_memberships d)) Map.empty)"

section \<open>Properties\<close>

lemma scan_account_fields:
  assumes "scan_account r = Some a"
  shows "acc_ID a = ar_id r" "acc_Role a = ar_role r" "acc_ProxyMode a = ar_proxy_mode r"
    "acc_Status a = decodeAccountStatus (ar_status r)" "acc_NextDelivery a = ar_next_delivery r"
    "parse_opt (ar_flood_wait_until r) = Some (acc_FloodWaitUntil a)"
  using assms by (auto simp: scan_account_def split: option.splits)

lemma scan_all_memD:
  "scan_all rs = Inr as \<Longrightarrow> a \<in> set as \<Longrightarrow> \<exists>r \<in> set rs. scan_account r = Some a"
  by (induction rs arbitrary: as) (auto split: option.splits sum.splits)

lemma scan_all_ids: "scan_all rs = Inr as \<Longrightarrow> map acc_ID as = map ar_id rs"
  by (induction rs arbitrary: as) (auto split: option.splits sum.splits dest: scan_account_fields)

lemma listAccounts_memD:
  assumes "listAccounts d = Inr as" "a \<in> set as"
  shows "\<exists>r \<in> set (db_accounts d). scan_account r = Some a"
  using scan_all_memD [OF assms [unfolded listAccounts_def]] by auto

text \<open>The accounts listed are the table's, one for each row, in order of creation.\<close>

lemma listAccounts_ids:
  assumes "listAccounts d = Inr as"
  shows "set (map acc_ID as) = set (map ar_id (db_accounts d))"
    and "distinct (map ar_id (db_accounts d)) \<Longrightarrow> distinct (map acc_ID as)"
proof -
  have "map acc_ID as = map ar_id (sort_key (\<lambda>r. (ar_created_at r, ar_id r)) (db_accounts d))"
    using assms by (simp add: listAccounts_def scan_all_ids)
  then have "mset (map acc_ID as) = mset (map ar_id (db_accounts d))" by simp
  then show "set (map acc_ID as) = set (map ar_id (db_accounts d))"
    and "distinct (map ar_id (db_accounts d)) \<Longrightarrow> distinct (map acc_ID as)"
    by (metis set_mset_mset, metis distinct_count_atmost_1 set_mset_mset)
qed

lemma listed_account_row:
  assumes "listed_account i d = Inr a"
  shows "acc_ID a = i \<and> (\<exists>r \<in> set (db_accounts d). scan_account r = Some a)"
  using assms unfolding listed_account_def find_account_by_id_def
  by (auto split: sum.splits option.splits simp: find_Some_iff dest!: listAccounts_memD nth_mem)

text \<open>An account in flood wait is never eligible, and listing recovers only expired waits.\<close>

lemma flood_wait_not_eligible:
  "scan_account r = Some a \<Longrightarrow> ar_status r = ''flood_wait'' \<Longrightarrow> \<not> Eligible a"
  using scan_account_fields(4) [of r a] by (auto simp: Eligible_def decodeAccountStatus_def)

lemma listActive_eligible:
  "listActiveAccounts now d = (Inr as, d') \<Longrightarrow> \<forall>a \<in> set as. Eligible a"
  by (auto simp: listActiveAccounts_def Let_def split: sum.splits)

lemma decode_encode_status:
  "s \<noteq> ''ready'' \<Longrightarrow> s \<noteq> ''collecting'' \<Longrightarrow> s \<noteq> AccountLimited \<Longrightarrow>
     decodeAccountStatus (encodeAccountStatus s) = s"
  by (auto simp: decodeAccountStatus_def encodeAccountStatus_def)

lemma note_rest_sound:
  "note_rest now b v active a = Some u \<Longrightarrow> active a = Some u \<or> (a = b \<and> u = v \<and> After u now)"
  by (auto simp: note_rest_def split: if_splits option.splits)

lemma note_rest_mono: "active a = Some u \<Longrightarrow> \<exists>v. note_rest now b w active a = Some v \<and> u \<le> v"
  by (auto simp: note_rest_def After_def split: option.splits)

lemma note_rest_complete: "After v now \<Longrightarrow> \<exists>w. note_rest now b v active b = Some w \<and> v \<le> w"
  by (auto simp: note_rest_def After_def split: option.splits)

lemma collect_rests_sound:
  "collect_rests now rs active = Inr m \<Longrightarrow> m a = Some u \<Longrightarrow>
     active a = Some u \<or>
     (After u now \<and> (\<exists>r \<in> set rs. mr_account_id r = a \<and> Option.bind (mr_rest_until r) parseTime = Some u))"
proof (induction now rs active rule: collect_rests.induct)
  case (2 now r rs active)
  then show ?case
    by (auto split: option.splits dest!: note_rest_sound)
qed simp

lemma collect_rests_mono:
  "collect_rests now rs active = Inr m \<Longrightarrow> active a = Some u \<Longrightarrow> \<exists>v. m a = Some v \<and> u \<le> v"
proof (induction now rs active arbitrary: u rule: collect_rests.induct)
  case (2 now r rs active)
  show ?case
  proof (cases "mr_rest_until r")
    case None
    with 2 show ?thesis by simp
  next
    case (Some s)
    with "2.prems"(1) obtain t where v: "parseTime s = Some t"
      and rest: "collect_rests now rs (note_rest now (mr_account_id r) t active) = Inr m"
      by (auto split: option.splits)
    obtain w where "note_rest now (mr_account_id r) t active a = Some w" "u \<le> w"
      using note_rest_mono [where active = active and a = a, OF "2.prems"(2)] by blast
    with "2.IH"(2) [OF Some v rest] show ?thesis by (meson order_trans)
  qed
qed simp

lemma collect_rests_complete:
  assumes "collect_rests now rs active = Inr m" "r \<in> set rs"
    "Option.bind (mr_rest_until r) parseTime = Some u" "After u now"
  shows "\<exists>v. m (mr_account_id r) = Some v \<and> u \<le> v"
  using assms
proof (induction now rs active rule: collect_rests.induct)
  case (2 now r' rs active)
  show ?case
  proof (cases "r' = r")
    case True
    with "2.prems" have
      rest: "collect_rests now rs (note_rest now (mr_account_id r) u active) = Inr m"
      by (auto simp: bind_eq_Some_conv)
    obtain w where w: "note_rest now (mr_account_id r) u active (mr_account_id r) = Some w" "u \<le> w"
      using note_rest_complete [OF "2.prems"(4)] by blast
    with collect_rests_mono [where a = "mr_account_id r", OF rest w(1)] show ?thesis by (meson order_trans)
  next
    case False
    with 2 show ?thesis by (auto split: option.splits)
  qed
qed simp

text \<open>
  The scheduler's view of rests: an account is mapped to an instant exactly when it has a rest
  still open, and then to the end of its last one.
\<close>

lemma ActiveGroupRestUntil_spec:
  assumes "ActiveGroupRestUntil ids now d = Inr m"
  shows "m a = Some u \<Longrightarrow> After u now \<and> a \<in> set ids \<and>
           (\<exists>r \<in> set (db_memberships d). mr_account_id r = a \<and>
              Option.bind (mr_rest_until r) parseTime = Some u)"
    and "r \<in> set (db_memberships d) \<Longrightarrow> mr_account_id r \<in> set ids \<Longrightarrow>
           Option.bind (mr_rest_until r) parseTime = Some w \<Longrightarrow> After w now \<Longrightarrow>
           \<exists>v. m (mr_account_id r) = Some v \<and> w \<le> v"
proof -
  show "After u now \<and> a \<in> set ids \<and> (\<exists>r \<in> set (db_memberships d). mr_account_id r = a \<and>
              Option.bind (mr_rest_until r) parseTime = Some u)" if "m a = Some u"
    using assms that unfolding ActiveGroupRestUntil_def
    by (auto split: if_splits dest!: collect_rests_sound)
  show "\<exists>v. m (mr_account_id r) = Some v \<and> w \<le> v"
    if "r \<in> set (db_memberships d)" "mr_account_id r \<in> set ids"
      "Option.bind (mr_rest_until r) parseTime = Some w" "After w now"
  proof -
    have "collect_rests now (filter (\<lambda>r. mr_account_id r \<in> set ids) (db_memberships d)) Map.empty = Inr m"
      using assms that(2) by (auto simp: ActiveGroupRestUntil_def split: if_splits)
    from collect_rests_complete [OF this _ that(3,4)] that(1,2) show ?thesis by simp
  qed
qed

end
