(* ===== verification/JobStore.thy ===== *)
theory JobStore
  imports AccountStore
begin

text \<open>
  The outgoing job queue (internal/repository/sqlite/job_store.go): one definition per
  repository method, on the tables of theory Db. A method's \<^verbatim>\<open>BeginTx ... Commit\<close> is
  \<open>in_tx\<close>; a single statement that fails its row count has changed no row. The clock
  \<^verbatim>\<open>r.now()\<close> is the argument \<open>now\<close>, read once per call. Failures of the driver itself
  (I/O, a cancelled context) are not modelled: they abort the call and roll it back.
\<close>

definition maxDeliveryAttempts :: nat where
  "maxDeliveryAttempts = 8"

definition pending :: "job_row \<Rightarrow> bool" where
  "pending r \<longleftrightarrow> jr_status r = ''queued'' \<or> jr_status r = ''delayed''"

section \<open>Enqueueing\<close>

definition prepareEnqueue :: "time \<Rightarrow> OutgoingMessageJob \<Rightarrow> db_error + OutgoingMessageJob" where
  "prepareEnqueue now job =
     (if job_ID job = '''' \<or>
         (job_Type job \<noteq> JobPublicReply \<and> job_Type job \<noteq> JobPrivateMessage \<and>
          job_Type job \<noteq> JobKeywordResponse)
      then Inl ErrInvalidJob
      else Inr (job\<lparr>job_Status := (if job_Status job = '''' then ''queued'' else job_Status job),
                    job_NextAttemptAt := (if IsZero (job_NextAttemptAt job) then now else job_NextAttemptAt job),
                    job_CreatedAt := (if IsZero (job_CreatedAt job) then now else job_CreatedAt job)\<rparr>))"

definition row_of_job :: "OutgoingMessageJob \<Rightarrow> job_row" where
  "row_of_job job =
     \<lparr>jr_id = job_ID job, jr_type = job_Type job, jr_account_id = job_AccountID job,
      jr_channel_id = job_ChannelID job, jr_rule_id = job_RuleID job,
      jr_target_telegram_id = job_TargetTelegramID job,
      jr_reply_to_message_id = job_ReplyToMessageID job, jr_text = job_Text job,
      jr_allow_private = job_AllowPrivate job,
      jr_keyword_delivery_mode = job_KeywordDeliveryMode job,
      jr_fallback_to_public = job_FallbackToPublic job, jr_status = job_Status job,
      jr_attempts = job_Attempts job, jr_next_attempt_at = formatTime (job_NextAttemptAt job),
      jr_created_at = formatTime (job_CreatedAt job), jr_last_error = '''',
      jr_lease_token = '''', jr_lease_until = None, jr_dead_lettered_at = None\<rparr>"

text \<open>
  \<^verbatim>\<open>INSERT ... ON CONFLICT(id) DO NOTHING\<close>: the \<^verbatim>\<open>CHECK\<close> constraints are tested first, then the
  primary key, then the foreign key of a row that was inserted.
\<close>

definition insertJob :: "OutgoingMessageJob \<Rightarrow> (db, db_error, nat) op" where
  "insertJob job d =
     (if \<not> job_status_ok (job_Status job) \<or>
         job_Type job \<notin> {JobPublicReply, JobPrivateMessage, JobKeywordResponse}
      then (Inl ErrConstraint, d)
      else if sql_exists (\<lambda>r. jr_id r = job_ID job) (db_jobs d) then (Inr 0, d)
      else if (case job_AccountID job of None \<Rightarrow> False | Some a \<Rightarrow> \<not> account_exists d a)
      then (Inl ErrConstraint, d)
      else (Inr 1, d\<lparr>db_jobs := db_jobs d @ [row_of_job job]\<rparr>))"

definition Enqueue :: "time \<Rightarrow> OutgoingMessageJob \<Rightarrow> (db, db_error, unit) op" where
  "Enqueue now job d =
     (case prepareEnqueue now job of
        Inl e \<Rightarrow> (Inl e, d)
      | Inr job' \<Rightarrow>
          (case insertJob job' d of
             (Inl e, d') \<Rightarrow> (Inl e, d')
           | (Inr _, d') \<Rightarrow> (Inr (), d')))"

definition matchingKeywordJobIdentity :: "OutgoingMessageJob \<Rightarrow> db \<Rightarrow> db_error + bool" where
  "matchingKeywordJobIdentity job d =
     (case the_job d (job_ID job) of
        None \<Rightarrow> Inl ErrNoRows
      | Some r \<Rightarrow> Inr (jr_type r = job_Type job \<and> jr_channel_id r = job_ChannelID job \<and>
                       jr_rule_id r = job_RuleID job \<and>
                       jr_target_telegram_id r = job_TargetTelegramID job \<and>
                       jr_reply_to_message_id r = job_ReplyToMessageID job \<and>
                       jr_keyword_delivery_mode r = job_KeywordDeliveryMode job \<and>
                       jr_fallback_to_public r = job_FallbackToPublic job))"

definition history_of_draft :: "db \<Rightarrow> ID \<Rightarrow> LiveDeliveryDraft \<Rightarrow> history_row" where
  "history_of_draft d jobID draft =
     \<lparr>hr_id = jobID @ '':live'', hr_job_id = jobID,
      hr_source_message = draft_SourceMessage draft,
      hr_trigger_canonical_id =
        (if draft_TriggerCanonicalID draft \<in> set (db_canonical d)
         then Some (draft_TriggerCanonicalID draft) else None),
      hr_trigger_snapshot = draft_TriggerSnapshot draft,
      hr_triggered_at = formatTime (draft_TriggeredAt draft),
      hr_delivery_type = None, hr_account_id = None, hr_account_title_snapshot = '''',
      hr_final_status = None, hr_error_code = '''', hr_finalized_at = None\<rparr>"

definition insertHistory :: "ID \<Rightarrow> LiveDeliveryDraft \<Rightarrow> (db, db_error, unit) op" where
  "insertHistory jobID draft d =
     (if sql_exists (\<lambda>h. hr_job_id h = jobID) (db_history d) then (Inr (), d)
      else if sql_exists (\<lambda>h. hr_id h = jobID @ '':live'') (db_history d) then (Inl ErrConstraint, d)
      else (Inr (), d\<lparr>db_history := db_history d @ [history_of_draft d jobID draft]\<rparr>))"

definition EnqueueKeywordResponse ::
  "time \<Rightarrow> OutgoingMessageJob \<Rightarrow> LiveDeliveryDraft \<Rightarrow> (db, db_error, unit) op" where
  "EnqueueKeywordResponse now job draft d =
     (if job_Type job \<noteq> JobKeywordResponse then (Inl ErrJobTypeRequired, d)
      else if draft_SourceMessage draft = '''' \<or> draft_TriggerSnapshot draft = '''' \<or>
              IsZero (draft_TriggeredAt draft) then (Inl ErrDraftRequired, d)
      else case prepareEnqueue now job of
          Inl e \<Rightarrow> (Inl e, d)
        | Inr job' \<Rightarrow>
            in_tx (\<lambda>d.
              case insertJob job' d of
                (Inl e, d1) \<Rightarrow> (Inl e, d1)
              | (Inr inserted, d1) \<Rightarrow>
                  if inserted = 0 then
                    (case matchingKeywordJobIdentity job' d1 of
                       Inl e \<Rightarrow> (Inl e, d1)
                     | Inr matches \<Rightarrow>
                         if \<not> matches then (Inl ErrIdentityMismatch, d1)
                         else insertHistory (job_ID job') draft d1)
                  else insertHistory (job_ID job') draft d1) d)"

section \<open>Choosing a job\<close>

definition channel_open :: "channel_row list \<Rightarrow> ID \<Rightarrow> bool" where
  "channel_open rows channelID \<longleftrightarrow>
     sql_exists (\<lambda>c. ch_id c = channelID \<and> ch_active c \<and> ch_removal_requested_at c = None) rows"

definition channel_allows :: "db \<Rightarrow> job_row \<Rightarrow> bool" where
  "channel_allows d r \<longleftrightarrow>
     jr_type r = JobPrivateMessage \<or> channel_open (db_outbound d) (jr_channel_id r) \<or>
     channel_open (db_scout d) (jr_channel_id r)"

definition lease_free :: "stamp \<Rightarrow> job_row \<Rightarrow> bool" where
  "lease_free at r \<longleftrightarrow>
     jr_lease_token r = '''' \<or> (case jr_lease_until r of None \<Rightarrow> True | Some u \<Rightarrow> u \<le> at)"

definition due :: "db \<Rightarrow> time \<Rightarrow> job_row \<Rightarrow> bool" where
  "due d now r \<longleftrightarrow>
     pending r \<and> jr_next_attempt_at r \<le> formatTime now \<and> lease_free (formatTime now) r \<and>
     channel_allows d r"

definition job_order :: "job_row \<Rightarrow> stamp \<times> stamp \<times> ID" where
  "job_order r = (jr_next_attempt_at r, jr_created_at r, jr_id r)"

definition scan_job :: "job_row \<Rightarrow> OutgoingMessageJob option" where
  "scan_job r =
     (case parseTime (jr_next_attempt_at r) of
        None \<Rightarrow> None
      | Some nextAttemptAt \<Rightarrow>
     (case parseTime (jr_created_at r) of
        None \<Rightarrow> None
      | Some createdAt \<Rightarrow>
          Some \<lparr>job_ID = jr_id r, job_Type = jr_type r, job_AccountID = jr_account_id r,
                job_ChannelID = jr_channel_id r, job_RuleID = jr_rule_id r,
                job_TargetTelegramID = jr_target_telegram_id r,
                job_ReplyToMessageID = jr_reply_to_message_id r, job_Text = jr_text r,
                job_AllowPrivate = jr_allow_private r,
                job_KeywordDeliveryMode = jr_keyword_delivery_mode r,
                job_FallbackToPublic = jr_fallback_to_public r, job_Status = jr_status r,
                job_Attempts = jr_attempts r, job_NextAttemptAt = nextAttemptAt,
                job_CreatedAt = createdAt\<rparr>))"

definition NextDue :: "time \<Rightarrow> db \<Rightarrow> db_error + OutgoingMessageJob option" where
  "NextDue now d =
     (case sql_first job_order (due d now) (db_jobs d) of
        None \<Rightarrow> Inr None
      | Some r \<Rightarrow> (case scan_job r of None \<Rightarrow> Inl ErrParseTime | Some job \<Rightarrow> Inr (Some job)))"

definition CanDispatch :: "ID \<Rightarrow> ID \<Rightarrow> db \<Rightarrow> db_error + bool" where
  "CanDispatch jobID accountID d =
     (if jobID = '''' \<or> accountID = '''' then Inl ErrIDsRequired
      else Inr (sql_exists
             (\<lambda>r. jr_id r = jobID \<and> jr_account_id r = Some accountID \<and> pending r \<and> channel_allows d r)
             (db_jobs d)))"

section \<open>Claims and leases\<close>

definition coalesce_id :: "ID option \<Rightarrow> ID" where
  "coalesce_id a = (case a of None \<Rightarrow> '''' | Some i \<Rightarrow> i)"

definition Acquire ::
  "ID \<Rightarrow> ID \<Rightarrow> string \<Rightarrow> time \<Rightarrow> time \<Rightarrow> (db, db_error, ID \<times> bool) op" where
  "Acquire jobID accountID token now leaseUntil d =
     (if jobID = '''' \<or> accountID = '''' \<or> token = '''' \<or> \<not> After leaseUntil now
      then (Inl ErrLeaseInvalid, d)
      else
        let p = (\<lambda>r. jr_id r = jobID \<and> pending r \<and>
                     (jr_account_id r = None \<or> jr_account_id r = Some accountID) \<and>
                     lease_free (formatTime now) r);
            affected = sql_affected p (db_jobs d)
        in if affected \<noteq> 0 \<and> \<not> account_exists d accountID then (Inl ErrConstraint, d)
           else let d' = d\<lparr>db_jobs := sql_update p
                    (\<lambda>r. r\<lparr>jr_account_id :=
                             (case jr_account_id r of None \<Rightarrow> Some accountID | Some a \<Rightarrow> Some a),
                           jr_lease_token := token,
                           jr_lease_until := Some (formatTime leaseUntil)\<rparr>) (db_jobs d)\<rparr>
                in case the_job d' jobID of
                     None \<Rightarrow> (Inl ErrJobNotFound, d')
                   | Some r \<Rightarrow>
                       if \<not> pending r then (Inr (coalesce_id (jr_account_id r), False), d')
                       else (Inr (coalesce_id (jr_account_id r), affected = 1), d'))"

definition Claim :: "ID \<Rightarrow> ID \<Rightarrow> (db, db_error, ID) op" where
  "Claim jobID accountID d =
     (if jobID = '''' \<or> accountID = '''' then (Inl ErrIDsRequired, d)
      else in_tx (\<lambda>d.
        let p = (\<lambda>r. jr_id r = jobID \<and> pending r \<and> jr_account_id r = None) in
        if sql_affected p (db_jobs d) \<noteq> 0 \<and> \<not> account_exists d accountID
        then (Inl ErrConstraint, d)
        else let d' = d\<lparr>db_jobs := sql_update p (\<lambda>r. r\<lparr>jr_account_id := Some accountID\<rparr>) (db_jobs d)\<rparr>
             in case the_job d' jobID of
                  None \<Rightarrow> (Inl ErrJobNotFound, d')
                | Some r \<Rightarrow>
                    if \<not> pending r then (Inl ErrJobNotPending, d')
                    else if coalesce_id (jr_account_id r) = '''' then (Inl ErrJobNotClaimed, d')
                    else (Inr (coalesce_id (jr_account_id r)), d')) d)"

section \<open>Completion\<close>

definition done_row :: "job_row \<Rightarrow> job_row" where
  "done_row r = r\<lparr>jr_status := ''done'', jr_last_error := '''', jr_lease_token := '''',
                  jr_lease_until := None\<rparr>"

definition pending_job_of :: "ID \<Rightarrow> ID \<Rightarrow> string \<Rightarrow> job_row \<Rightarrow> bool" where
  "pending_job_of jobID accountID leaseToken r \<longleftrightarrow>
     jr_id r = jobID \<and> jr_account_id r = Some accountID \<and> pending r \<and>
     (if leaseToken = '''' then jr_lease_token r = '''' else jr_lease_token r = leaseToken)"

definition markPendingJobDone :: "ID \<Rightarrow> ID \<Rightarrow> string \<Rightarrow> db \<Rightarrow> nat \<times> db" where
  "markPendingJobDone jobID accountID leaseToken d =
     (sql_affected (pending_job_of jobID accountID leaseToken) (db_jobs d),
      d\<lparr>db_jobs := sql_update (pending_job_of jobID accountID leaseToken) done_row (db_jobs d)\<rparr>)"

definition event_row_of :: "ID \<Rightarrow> OutgoingMessageEvent \<Rightarrow> event_row" where
  "event_row_of jobID event =
     \<lparr>er_id = ev_ID event, er_job_id = jobID, er_account_id = ev_AccountID event,
      er_channel_id = ev_ChannelID event, er_type = ev_Type event, er_success = ev_Success event,
      er_error_code = ev_ErrorCode event, er_created_at = formatTime (ev_CreatedAt event)\<rparr>"

definition count_delivery :: "string \<Rightarrow> stamp \<Rightarrow> account_row \<Rightarrow> account_row" where
  "count_delivery type at r =
     (let r' = (if type = JobPrivateMessage
                then r\<lparr>ar_private_messages_sent := ar_private_messages_sent r + 1\<rparr>
                else r\<lparr>ar_public_replies_sent := ar_public_replies_sent r + 1\<rparr>)
      in r'\<lparr>ar_last_activity_at := Some at, ar_flood_wait_until := None,
            ar_last_error := '''', ar_updated_at := at\<rparr>)"

definition recordSuccessfulDelivery ::
  "ID \<Rightarrow> OutgoingMessageEvent \<Rightarrow> bool \<Rightarrow> (db, db_error, unit) op" where
  "recordSuccessfulDelivery jobID event requireChannel d =
     (if sql_exists (\<lambda>e. er_id e = ev_ID event) (db_events d) \<or>
         \<not> sql_exists (\<lambda>r. jr_id r = jobID) (db_jobs d)
      then (Inl ErrConstraint, d)
      else
        let d1 = d\<lparr>db_events := db_events d @ [event_row_of jobID event]\<rparr>;
            at = formatTime (ev_CreatedAt event)
        in if ev_Type event \<noteq> JobPrivateMessage \<and> ev_Type event \<noteq> JobPublicReply
           then (Inl ErrUnsupportedType, d1)
           else if sql_affected (\<lambda>r. ar_id r = ev_AccountID event) (db_accounts d1) \<noteq> 1
           then (Inl ErrAccountNotFound, d1)
           else
             let d2 = d1\<lparr>db_accounts := sql_update (\<lambda>r. ar_id r = ev_AccountID event)
                           (count_delivery (ev_Type event) at) (db_accounts d1)\<rparr>
             in if ev_ChannelID event = '''' then (Inr (), d2)
                else
                  let p = (\<lambda>c. ch_id c = ev_ChannelID event);
                      d3 = d2\<lparr>db_outbound := sql_update p
                             (\<lambda>c. c\<lparr>ch_sent_count := ch_sent_count c + 1,
                                     ch_last_activity_at := Some at, ch_updated_at := at\<rparr>)
                             (db_outbound d2)\<rparr>
                  in if requireChannel \<and> sql_affected p (db_outbound d2) \<noteq> 1
                     then (Inl ErrChannelNotFound, d3)
                     else (Inr (), d3))"

definition complete :: "ID \<Rightarrow> string \<Rightarrow> OutgoingMessageEvent \<Rightarrow> (db, db_error, bool) op" where
  "complete jobID token event d =
     (if jobID = '''' \<or> ev_AccountID event = '''' then (Inl ErrIDsRequired, d)
      else in_tx (\<lambda>d.
        let (affected, d1) = markPendingJobDone jobID (ev_AccountID event) token d in
        if affected = 0 then
          (case the_job d1 jobID of
             None \<Rightarrow> (Inl ErrJobNotFound, d1)
           | Some r \<Rightarrow>
               if jr_status r = ''done'' \<and> coalesce_id (jr_account_id r) = ev_AccountID event
               then (Inr False, d1)
               else (Inl ErrNotPendingForLease, d1))
        else if affected \<noteq> 1 then (Inl ErrCompletionCount, d1)
        else (case recordSuccessfulDelivery jobID event False d1 of
                (Inl e, d2) \<Rightarrow> (Inl e, d2)
              | (Inr _, d2) \<Rightarrow> (Inr True, d2))) d)"

definition Complete :: "ID \<Rightarrow> OutgoingMessageEvent \<Rightarrow> (db, db_error, bool) op" where
  "Complete jobID event = complete jobID '''' event"

definition CompleteLease :: "ID \<Rightarrow> string \<Rightarrow> OutgoingMessageEvent \<Rightarrow> (db, db_error, bool) op" where
  "CompleteLease jobID token event d =
     (if token = '''' then (Inl ErrLeaseTokenRequired, d) else complete jobID token event d)"

text \<open>\<^verbatim>\<open>MarkDone\<close> is two transactions: an error of the second leaves the claim.\<close>

definition MarkDone :: "ID \<Rightarrow> OutgoingMessageEvent \<Rightarrow> (db, db_error, unit) op" where
  "MarkDone jobID event d =
     (case Claim jobID (ev_AccountID event) d of
        (Inl e, d1) \<Rightarrow> (Inl e, d1)
      | (Inr _, d1) \<Rightarrow>
          (case Complete jobID event d1 of
             (Inl e, d2) \<Rightarrow> (Inl e, d2)
           | (Inr _, d2) \<Rightarrow> (Inr (), d2)))"

section \<open>Keyword responses\<close>

definition private_pending :: "ID \<Rightarrow> ID \<Rightarrow> job_row \<Rightarrow> bool" where
  "private_pending jobID accountID r \<longleftrightarrow>
     jr_id r = jobID \<and> jr_account_id r = Some accountID \<and> jr_type r = JobKeywordResponse \<and>
     pending r \<and> (jr_allow_private r \<or> jr_keyword_delivery_mode r = KeywordDeliveryModePrivate)"

definition isPrivateClosedEvent :: "ID \<Rightarrow> ID \<Rightarrow> ID \<Rightarrow> db \<Rightarrow> bool" where
  "isPrivateClosedEvent eventID jobID accountID d =
     (case sql_select (\<lambda>e. er_id e = eventID) (db_events d) of
        None \<Rightarrow> False
      | Some e \<Rightarrow> er_job_id e = jobID \<and> er_account_id e = accountID \<and>
                  er_type e = JobPrivateMessage \<and> \<not> er_success e \<and>
                  er_error_code e = ''private_message_closed'')"

definition close_private_job :: "bool \<Rightarrow> job_row \<Rightarrow> job_row" where
  "close_private_job terminal r =
     r\<lparr>jr_allow_private := False,
       jr_keyword_delivery_mode :=
         (if jr_keyword_delivery_mode r = KeywordDeliveryModePrivate \<and> jr_fallback_to_public r
          then KeywordDeliveryModeComments else jr_keyword_delivery_mode r),
       jr_fallback_to_public := False,
       jr_status := (if terminal then ''done'' else jr_status r),
       jr_lease_token := (if terminal then '''' else jr_lease_token r),
       jr_lease_until := (if terminal then None else jr_lease_until r),
       jr_last_error := ''private_message_closed''\<rparr>"

definition open_history :: "ID \<Rightarrow> history_row \<Rightarrow> bool" where
  "open_history jobID h \<longleftrightarrow> hr_job_id h = jobID \<and> hr_final_status h = None"

definition close_private_history :: "bool \<Rightarrow> ID \<Rightarrow> stamp \<Rightarrow> history_row \<Rightarrow> history_row" where
  "close_private_history terminal accountID at h =
     h\<lparr>hr_delivery_type := (if terminal then Some JobPrivateMessage else hr_delivery_type h),
       hr_account_id := (if terminal then Some accountID else hr_account_id h),
       hr_final_status := (if terminal then Some ''not_delivered'' else hr_final_status h),
       hr_error_code := ''private_message_closed'',
       hr_finalized_at := (if terminal then Some at else hr_finalized_at h)\<rparr>"

definition private_closed_event :: "ID \<Rightarrow> stamp \<Rightarrow> job_row \<Rightarrow> event_row" where
  "private_closed_event accountID at r =
     \<lparr>er_id = jr_id r @ '':private_closed'', er_job_id = jr_id r, er_account_id = accountID,
      er_channel_id = jr_channel_id r, er_type = JobPrivateMessage, er_success = False,
      er_error_code = ''private_message_closed'', er_created_at = at\<rparr>"

definition count_closed :: "account_row \<Rightarrow> account_row" where
  "count_closed r = r\<lparr>ar_private_messages_closed := ar_private_messages_closed r + 1,
                      ar_next_delivery := DeliveryTargetPublic\<rparr>"

definition private_terminal :: "job_row \<Rightarrow> bool" where
  "private_terminal j \<longleftrightarrow>
     jr_keyword_delivery_mode j = KeywordDeliveryModePrivate \<and> \<not> jr_fallback_to_public j"

definition RecordPrivateClosed_tx :: "ID \<Rightarrow> ID \<Rightarrow> stamp \<Rightarrow> (db, db_error, unit) op" where
  "RecordPrivateClosed_tx jobID accountID at d =
     (case sql_select (\<lambda>r. jr_id r = jobID \<and> jr_account_id r = Some accountID) (db_jobs d) of
        None \<Rightarrow> (Inl ErrNoRows, d)
      | Some j \<Rightarrow>
          let eventID = jobID @ '':private_closed'';
              events = map (private_closed_event accountID at)
                         (filter (private_pending jobID accountID) (db_jobs d));
              inserted = (if sql_exists (\<lambda>e. er_id e = eventID) (db_events d) then 0
                          else length events)
          in if inserted = 0 then
               (if isPrivateClosedEvent eventID jobID accountID d then (Inr (), d)
                else (Inl ErrNotPendingForPrivate, d))
             else
               let d1 = d\<lparr>db_events := db_events d @ events\<rparr>
               in if inserted \<noteq> 1 then (Inl ErrCompletionCount, d1)
                  else if sql_affected (\<lambda>r. ar_id r = accountID) (db_accounts d1) \<noteq> 1
                  then (Inl ErrAccountNotFound, d1)
                  else
                    let d2 = d1\<lparr>db_accounts :=
                               sql_update (\<lambda>r. ar_id r = accountID) count_closed (db_accounts d1)\<rparr>
                    in if sql_affected (private_pending jobID accountID) (db_jobs d2) \<noteq> 1
                       then (Inl ErrNotPendingForPrivate, d2)
                       else (Inr (), d2\<lparr>
                         db_jobs := sql_update (private_pending jobID accountID)
                           (close_private_job (private_terminal j)) (db_jobs d2),
                         db_history := sql_update (open_history jobID)
                           (close_private_history (private_terminal j) accountID at)
                           (db_history d2)\<rparr>))"

definition RecordPrivateClosed :: "ID \<Rightarrow> ID \<Rightarrow> time \<Rightarrow> (db, db_error, unit) op" where
  "RecordPrivateClosed jobID accountID closedAt d =
     (if jobID = '''' \<or> accountID = '''' then (Inl ErrIDsRequired, d)
      else in_tx (RecordPrivateClosed_tx jobID accountID (formatTime closedAt)) d)"

definition keyword_pending :: "KeywordDeliveryOutcome \<Rightarrow> job_row \<Rightarrow> bool" where
  "keyword_pending outcome r \<longleftrightarrow>
     jr_id r = out_JobID outcome \<and> jr_account_id r = Some (out_AccountID outcome) \<and>
     jr_channel_id r = out_ChannelID outcome \<and> jr_type r = JobKeywordResponse \<and> pending r"

text \<open>\<^verbatim>\<open>UPDATE ... RETURNING channel_id\<close> of which the first row is scanned.\<close>

definition markKeywordResponseDone :: "KeywordDeliveryOutcome \<Rightarrow> db \<Rightarrow> ID option \<times> db" where
  "markKeywordResponseDone outcome d =
     (map_option jr_channel_id (sql_select (keyword_pending outcome) (db_jobs d)),
      d\<lparr>db_jobs := sql_update (keyword_pending outcome) done_row (db_jobs d)\<rparr>)"

definition isCompletedKeywordDelivery ::
  "KeywordDeliveryOutcome \<Rightarrow> ID \<Rightarrow> db \<Rightarrow> db_error + bool" where
  "isCompletedKeywordDelivery outcome eventID d =
     (case the_job d (out_JobID outcome) of
        None \<Rightarrow> Inl ErrJobNotFound
      | Some r \<Rightarrow>
          if jr_status r \<noteq> ''done'' \<or> jr_type r \<noteq> JobKeywordResponse \<or>
             coalesce_id (jr_account_id r) \<noteq> out_AccountID outcome then Inr False
          else (case sql_select (\<lambda>e. er_id e = eventID \<and> er_job_id e = out_JobID outcome) (db_events d) of
                  None \<Rightarrow> Inr False
                | Some e \<Rightarrow> Inr (er_account_id e = out_AccountID outcome \<and>
                                  er_channel_id e = out_ChannelID outcome \<and>
                                  er_type e = out_Type outcome \<and> er_success e)))"

definition finalize_success :: "KeywordDeliveryOutcome \<Rightarrow> history_row \<Rightarrow> history_row" where
  "finalize_success outcome h =
     (let t = TrimSpace (out_AccountTitleSnapshot outcome);
          accountTitle = (if t = '''' then out_AccountID outcome else t)
      in h\<lparr>hr_delivery_type := Some (out_Type outcome),
           hr_account_id := Some (out_AccountID outcome),
           hr_account_title_snapshot := accountTitle,
           hr_final_status := Some ''successful'',
           hr_error_code := (if hr_error_code h = ''private_message_closed''
                             then hr_error_code h else ''''),
           hr_finalized_at := Some (formatTime (out_CompletedAt outcome))\<rparr>)"

definition finalizeKeywordSuccess :: "KeywordDeliveryOutcome \<Rightarrow> db \<Rightarrow> db" where
  "finalizeKeywordSuccess outcome d =
     d\<lparr>db_history := sql_update (open_history (out_JobID outcome)) (finalize_success outcome)
                      (db_history d)\<rparr>"

definition keyword_event :: "KeywordDeliveryOutcome \<Rightarrow> ID \<Rightarrow> OutgoingMessageEvent" where
  "keyword_event outcome channelID =
     \<lparr>ev_ID = out_JobID outcome @ '':'' @ out_Type outcome, ev_JobID = out_JobID outcome,
      ev_AccountID = out_AccountID outcome, ev_ChannelID = channelID,
      ev_Type = out_Type outcome, ev_Success = True, ev_ErrorCode = '''',
      ev_CreatedAt = out_CompletedAt outcome\<rparr>"

definition CompleteKeywordResponse_tx :: "KeywordDeliveryOutcome \<Rightarrow> (db, db_error, bool) op" where
  "CompleteKeywordResponse_tx outcome d =
     (let (stored, d1) = markKeywordResponseDone outcome d;
          eventID = out_JobID outcome @ '':'' @ out_Type outcome
      in case stored of
           None \<Rightarrow>
             (case isCompletedKeywordDelivery outcome eventID d1 of
                Inl e \<Rightarrow> (Inl e, d1)
              | Inr identical \<Rightarrow>
                  if identical then (Inr False, d1) else (Inl ErrNotPendingForAccount, d1))
         | Some channelID \<Rightarrow>
             (case recordSuccessfulDelivery (out_JobID outcome) (keyword_event outcome channelID) True d1 of
                (Inl e, d2) \<Rightarrow> (Inl e, d2)
              | (Inr _, d2) \<Rightarrow>
                  let d3 = finalizeKeywordSuccess outcome d2
                  in case out_AdvanceTo outcome of
                       None \<Rightarrow> (Inr True, d3)
                     | Some t \<Rightarrow>
                         if sql_affected (\<lambda>r. ar_id r = out_AccountID outcome) (db_accounts d3) \<noteq> 1
                         then (Inl ErrAccountNotFound, d3)
                         else (Inr True, d3\<lparr>db_accounts :=
                                sql_update (\<lambda>r. ar_id r = out_AccountID outcome)
                                  (\<lambda>r. r\<lparr>ar_next_delivery := t\<rparr>) (db_accounts d3)\<rparr>)))"

definition CompleteKeywordResponse :: "KeywordDeliveryOutcome \<Rightarrow> (db, db_error, bool) op" where
  "CompleteKeywordResponse outcome d =
     (if out_JobID outcome = '''' \<or> out_AccountID outcome = '''' then (Inl ErrIDsRequired, d)
      else if out_Type outcome \<noteq> JobPublicReply \<and> out_Type outcome \<noteq> JobPrivateMessage
      then (Inl ErrOutcomeType, d)
      else if (case out_AdvanceTo outcome of
                 None \<Rightarrow> False
               | Some t \<Rightarrow> t \<noteq> DeliveryTargetPrivate \<and> t \<noteq> DeliveryTargetPublic)
      then (Inl ErrInvalidTarget, d)
      else in_tx (CompleteKeywordResponse_tx outcome) d)"

section \<open>Delays\<close>

text \<open>
  The row a counted failure leaves: one more attempt, delayed until the given time, or done
  and dead-lettered when the attempts are used up.
\<close>

definition delay_row :: "stamp \<Rightarrow> string \<Rightarrow> stamp \<Rightarrow> job_row \<Rightarrow> job_row" where
  "delay_row next reason at r =
     r\<lparr>jr_status := (if maxDeliveryAttempts \<le> jr_attempts r + 1 then ''done'' else ''delayed''),
       jr_attempts := jr_attempts r + 1, jr_next_attempt_at := next, jr_last_error := reason,
       jr_dead_lettered_at := (if maxDeliveryAttempts \<le> jr_attempts r + 1
                               then Some at else jr_dead_lettered_at r)\<rparr>"

definition release_lease :: "job_row \<Rightarrow> job_row" where
  "release_lease r = r\<lparr>jr_lease_token := '''', jr_lease_until := None\<rparr>"

definition DelayUntil :: "time \<Rightarrow> ID \<Rightarrow> string \<Rightarrow> time \<Rightarrow> (db, db_error, unit) op" where
  "DelayUntil now jobID reason nextAttemptAt d =
     (let p = (\<lambda>r. jr_id r = jobID \<and> pending r) in
      if sql_affected p (db_jobs d) \<noteq> 1 then (Inl ErrJobNotPending, d)
      else (Inr (), d\<lparr>db_jobs := sql_update p
              (delay_row (formatTime nextAttemptAt) reason (formatTime now)) (db_jobs d)\<rparr>))"

definition Delay :: "time \<Rightarrow> ID \<Rightarrow> string \<Rightarrow> (db, db_error, unit) op" where
  "Delay now jobID reason = DelayUntil now jobID reason (now + 2 * Second)"

definition DelayLeaseUntil ::
  "time \<Rightarrow> ID \<Rightarrow> string \<Rightarrow> string \<Rightarrow> time \<Rightarrow> (db, db_error, unit) op" where
  "DelayLeaseUntil now jobID token reason nextAttemptAt d =
     (if token = '''' then (Inl ErrLeaseTokenRequired, d)
      else
        let p = (\<lambda>r. jr_id r = jobID \<and> jr_lease_token r = token \<and> pending r) in
        if sql_affected p (db_jobs d) \<noteq> 1 then (Inl ErrLeaseNotActive, d)
        else (Inr (), d\<lparr>db_jobs := sql_update p
                (\<lambda>r. release_lease (delay_row (formatTime nextAttemptAt) reason (formatTime now) r))
                (db_jobs d)\<rparr>))"

definition DelayLease :: "time \<Rightarrow> ID \<Rightarrow> string \<Rightarrow> string \<Rightarrow> (db, db_error, unit) op" where
  "DelayLease now jobID token reason = DelayLeaseUntil now jobID token reason (now + 2 * Second)"

definition restReason :: string where
  "restReason = ''account_group_rest''"

definition rest_enabled :: "db \<Rightarrow> bool" where
  "rest_enabled d = (case db_rest_setting d of None \<Rightarrow> True | Some b \<Rightarrow> b)"

definition DelayTransientUntil :: "ID \<Rightarrow> string \<Rightarrow> time \<Rightarrow> (db, db_error, unit) op" where
  "DelayTransientUntil jobID reason nextAttemptAt d =
     (let p = (\<lambda>r. jr_id r = jobID \<and> pending r \<and> (reason \<noteq> restReason \<or> rest_enabled d)) in
      if sql_affected p (db_jobs d) \<noteq> 1
      then (if reason = restReason \<and> \<not> rest_enabled d then (Inr (), d) else (Inl ErrJobNotPending, d))
      else (Inr (), d\<lparr>db_jobs := sql_update p
              (\<lambda>r. r\<lparr>jr_status := ''delayed'', jr_next_attempt_at := formatTime nextAttemptAt,
                      jr_last_error := reason\<rparr>) (db_jobs d)\<rparr>))"

definition DelayTransient :: "time \<Rightarrow> ID \<Rightarrow> string \<Rightarrow> (db, db_error, unit) op" where
  "DelayTransient now jobID reason = DelayTransientUntil jobID reason (now + 2 * Second)"

definition DelayTransientLeaseUntil ::
  "time \<Rightarrow> ID \<Rightarrow> string \<Rightarrow> string \<Rightarrow> time \<Rightarrow> (db, db_error, unit) op" where
  "DelayTransientLeaseUntil now jobID token reason nextAttemptAt d =
     (if token = '''' then (Inl ErrLeaseTokenRequired, d)
      else
        let p = (\<lambda>r. jr_id r = jobID \<and> jr_lease_token r = token \<and> pending r);
            off = (reason = restReason \<and> \<not> rest_enabled d)
        in if sql_affected p (db_jobs d) \<noteq> 1 then (Inl ErrLeaseNotActive, d)
           else (Inr (), d\<lparr>db_jobs := sql_update p
                   (\<lambda>r. release_lease
                     (r\<lparr>jr_status := (if off then ''queued'' else ''delayed''),
                        jr_next_attempt_at := (if off then formatTime now else formatTime nextAttemptAt),
                        jr_last_error := (if off then '''' else reason)\<rparr>)) (db_jobs d)\<rparr>))"

definition DelayTransientLease :: "time \<Rightarrow> ID \<Rightarrow> string \<Rightarrow> string \<Rightarrow> (db, db_error, unit) op" where
  "DelayTransientLease now jobID token reason =
     DelayTransientLeaseUntil now jobID token reason (now + 2 * Second)"

definition ReleaseGroupRestDelays :: "time \<Rightarrow> (db, db_error, unit) op" where
  "ReleaseGroupRestDelays now d =
     (Inr (), d\<lparr>db_jobs := sql_update (\<lambda>r. jr_status r = ''delayed'' \<and> jr_last_error r = restReason)
        (\<lambda>r. r\<lparr>jr_status := ''queued'', jr_next_attempt_at := formatTime now, jr_last_error := ''''\<rparr>)
        (db_jobs d)\<rparr>)"

definition ClearGroupRests :: "time \<Rightarrow> (db, db_error, unit) op" where
  "ClearGroupRests now =
     in_tx (\<lambda>d. ReleaseGroupRestDelays now
       (d\<lparr>db_memberships := sql_update
            (\<lambda>m. mr_rest_started_at m \<noteq> None \<or> mr_rest_until m \<noteq> None \<or> mr_rest_duration_hours m \<noteq> 0)
            (\<lambda>m. m\<lparr>mr_rest_started_at := None, mr_rest_until := None, mr_rest_duration_hours := 0\<rparr>)
            (db_memberships d)\<rparr>))"

definition failure_metadata :: "KeywordDeliveryFailure \<Rightarrow> history_row \<Rightarrow> history_row" where
  "failure_metadata failure h =
     h\<lparr>hr_delivery_type := (case fail_Type failure of None \<Rightarrow> hr_delivery_type h | Some t \<Rightarrow> Some t),
       hr_account_id := (case fail_AccountID failure of None \<Rightarrow> hr_account_id h | Some a \<Rightarrow> Some a),
       hr_account_title_snapshot :=
         (if fail_AccountID failure = None then hr_account_title_snapshot h
          else fail_AccountTitleSnapshot failure)\<rparr>"

definition persistKeywordFailureMetadata :: "KeywordDeliveryFailure \<Rightarrow> db \<Rightarrow> db" where
  "persistKeywordFailureMetadata failure d =
     d\<lparr>db_history := sql_update (open_history (fail_JobID failure)) (failure_metadata failure)
                      (db_history d)\<rparr>"

definition finalizeKeywordFailure :: "KeywordDeliveryFailure \<Rightarrow> time \<Rightarrow> db \<Rightarrow> db" where
  "finalizeKeywordFailure failure failedAt d =
     d\<lparr>db_history := sql_update (open_history (fail_JobID failure))
         (\<lambda>h. h\<lparr>hr_final_status := Some ''not_delivered'', hr_error_code := fail_ErrorCode failure,
                 hr_finalized_at := Some (formatTime failedAt)\<rparr>) (db_history d)\<rparr>"

definition completedKeywordFailure :: "KeywordDeliveryFailure \<Rightarrow> (db, db_error, unit) op" where
  "completedKeywordFailure failure d =
     (case the_job d (fail_JobID failure) of
        None \<Rightarrow> (Inl ErrJobNotPending, d)
      | Some r \<Rightarrow>
          let finalStatus = (case sql_select (\<lambda>h. hr_job_id h = fail_JobID failure) (db_history d) of
                               None \<Rightarrow> '''' | Some h \<Rightarrow> coalesce_id (hr_final_status h))
          in if jr_status r = ''done'' \<and> finalStatus = ''not_delivered'' then (Inr (), d)
             else (Inl ErrJobNotPending, d))"

definition DelayKeywordFailure_tx ::
  "time \<Rightarrow> time \<Rightarrow> KeywordDeliveryFailure \<Rightarrow> (db, db_error, unit) op" where
  "DelayKeywordFailure_tx failedAt nextAttemptAt failure d =
     (let p = (\<lambda>r. jr_id r = fail_JobID failure \<and> jr_type r = JobKeywordResponse \<and> pending r);
          f = (\<lambda>r. release_lease (delay_row (formatTime nextAttemptAt) (fail_ErrorCode failure)
                                    (formatTime failedAt) r))
      in case sql_select p (db_jobs d) of
           None \<Rightarrow> completedKeywordFailure failure d
         | Some r \<Rightarrow>
             let d1 = d\<lparr>db_jobs := sql_update p f (db_jobs d)\<rparr>;
                 d2 = persistKeywordFailureMetadata failure d1
             in if maxDeliveryAttempts \<le> jr_attempts (f r)
                then (Inr (), finalizeKeywordFailure failure failedAt d2)
                else (Inr (), d2))"

definition DelayKeywordFailure :: "time \<Rightarrow> KeywordDeliveryFailure \<Rightarrow> (db, db_error, unit) op" where
  "DelayKeywordFailure now failure d =
     (if fail_JobID failure = '''' \<or> fail_ErrorCode failure = '''' then (Inl ErrCodeRequired, d)
      else if (case fail_Type failure of
                 None \<Rightarrow> False | Some t \<Rightarrow> t \<noteq> JobPublicReply \<and> t \<noteq> JobPrivateMessage)
      then (Inl ErrOutcomeType, d)
      else
        let failedAt = (if IsZero (fail_FailedAt failure) then now else fail_FailedAt failure);
            nextAttemptAt = (if IsZero (fail_NextAttemptAt failure) then failedAt + 2 * Second
                             else fail_NextAttemptAt failure)
        in in_tx (DelayKeywordFailure_tx failedAt nextAttemptAt failure) d)"

end
