(* ===== verification/JobMachine.thy ===== *)
theory JobMachine
  imports JobStore
begin

text \<open>
  The life of one job as an abstract state machine, and the simulation: whatever repository
  method runs, every stored job either stays as it is or makes moves of the machine, and
  jobs are only ever added at the end of the table. The invariants of the queue are then
  rule inductions over the moves. \<open>known a\<close> says that the account \<open>a\<close> exists.
\<close>

section \<open>The machine\<close>

inductive job_move :: "(ID \<Rightarrow> bool) \<Rightarrow> job_row \<Rightarrow> job_row \<Rightarrow> bool" for known where
  claim: "pending r \<Longrightarrow> jr_account_id r = None \<Longrightarrow> known a \<Longrightarrow>
          job_move known r (r\<lparr>jr_account_id := Some a\<rparr>)"
| lease: "pending r \<Longrightarrow> jr_account_id r = Some a \<Longrightarrow> t \<noteq> '''' \<Longrightarrow>
          job_move known r (r\<lparr>jr_lease_token := t, jr_lease_until := Some u\<rparr>)"
| unlease: "pending r \<Longrightarrow> job_move known r (release_lease r)"
| postpone: "pending r \<Longrightarrow> status = ''queued'' \<or> status = ''delayed'' \<Longrightarrow>
          job_move known r
            (r\<lparr>jr_status := status, jr_next_attempt_at := n, jr_last_error := e\<rparr>)"
| fail: "pending r \<Longrightarrow> job_move known r (delay_row n e at r)"
| fail_release: "pending r \<Longrightarrow> job_move known r (release_lease (delay_row n e at r))"
| close_private: "pending r \<Longrightarrow> jr_account_id r = Some a \<Longrightarrow> jr_type r = JobKeywordResponse \<Longrightarrow>
          job_move known r (close_private_job terminal r)"
| finish: "pending r \<Longrightarrow> jr_account_id r = Some a \<Longrightarrow> job_move known r (done_row r)"

lemmas row_defs = delay_row_def release_lease_def done_row_def close_private_job_def

inductive_cases job_moveE: "job_move known r r'"

abbreviation job_moves :: "(ID \<Rightarrow> bool) \<Rightarrow> job_row \<Rightarrow> job_row \<Rightarrow> bool" where
  "job_moves known \<equiv> (job_move known)\<^sup>*\<^sup>*"

text \<open>What no move touches.\<close>

definition job_identity :: "job_row \<Rightarrow> ID \<times> string \<times> ID \<times> ID \<times> string \<times> string \<times> string \<times> stamp" where
  "job_identity r = (jr_id r, jr_type r, jr_channel_id r, jr_rule_id r, jr_target_telegram_id r,
                     jr_reply_to_message_id r, jr_text r, jr_created_at r)"

lemma job_move_identity: "job_move known r r' \<Longrightarrow> job_identity r' = job_identity r"
  by (erule job_moveE) (simp_all add: job_identity_def row_defs)

lemma job_moves_identity: "job_moves known r r' \<Longrightarrow> job_identity r' = job_identity r"
  by (induction rule: rtranclp_induct) (simp_all add: job_move_identity)

lemma job_moves_id: "job_moves known r r' \<Longrightarrow> jr_id r' = jr_id r"
  using job_moves_identity by (fastforce simp: job_identity_def)

text \<open>Only a pending job moves: a job that is done stays as it is.\<close>

lemma job_move_pending: "job_move known r r' \<Longrightarrow> pending r"
  by (erule job_moveE) simp_all

lemma job_moves_done: "job_moves known r r' \<Longrightarrow> \<not> pending r \<Longrightarrow> r' = r"
  by (erule converse_rtranclpE) (auto dest: job_move_pending)

text \<open>A claim is never taken back or moved to another account.\<close>

lemma job_move_account:
  "job_move known r r' \<Longrightarrow> jr_account_id r = Some a \<Longrightarrow> jr_account_id r' = Some a"
  by (erule job_moveE) (simp_all add: row_defs)

lemma job_moves_account:
  "job_moves known r r' \<Longrightarrow> jr_account_id r = Some a \<Longrightarrow> jr_account_id r' = Some a"
  by (induction rule: rtranclp_induct) (simp_all add: job_move_account)

text \<open>Attempts only grow, and permission to write privately is only ever withdrawn.\<close>

lemma job_move_attempts: "job_move known r r' \<Longrightarrow> jr_attempts r \<le> jr_attempts r'"
  by (erule job_moveE) (simp_all add: row_defs)

lemma job_moves_attempts: "job_moves known r r' \<Longrightarrow> jr_attempts r \<le> jr_attempts r'"
  by (induction rule: rtranclp_induct) (auto dest: job_move_attempts)

lemma job_moves_allow_private:
  "job_moves known r r' \<Longrightarrow> \<not> jr_allow_private r \<Longrightarrow> \<not> jr_allow_private r'"
  by (induction rule: rtranclp_induct) (auto elim!: job_moveE simp: row_defs)

section \<open>The invariant of a row\<close>

text \<open>
  A job's status is one of the three the schema admits, its account exists, a job still
  pending has fewer than eight counted attempts, no job has more than eight, and a
  dead-lettered job is done after eight of them.
\<close>

definition job_row_ok :: "(ID \<Rightarrow> bool) \<Rightarrow> job_row \<Rightarrow> bool" where
  "job_row_ok known r \<longleftrightarrow>
     job_status_ok (jr_status r) \<and> pred_option known (jr_account_id r) \<and>
     (pending r \<longrightarrow> jr_attempts r < maxDeliveryAttempts) \<and>
     jr_attempts r \<le> maxDeliveryAttempts \<and>
     (jr_dead_lettered_at r \<noteq> None \<longrightarrow>
        jr_status r = ''done'' \<and> jr_attempts r = maxDeliveryAttempts)"

lemma job_row_ok_pending:
  assumes "pending r" "job_row_ok known r"
  shows "jr_attempts r < maxDeliveryAttempts" "jr_dead_lettered_at r = None"
  using assms by (auto simp: job_row_ok_def pending_def)

lemma pending_status_ok: "pending r \<Longrightarrow> job_status_ok (jr_status r)"
  by (auto simp: pending_def job_status_ok_def)

lemma job_row_ok_pendingI:
  "pending r \<Longrightarrow> pred_option known (jr_account_id r) \<Longrightarrow> jr_attempts r < maxDeliveryAttempts \<Longrightarrow>
     jr_dead_lettered_at r = None \<Longrightarrow> job_row_ok known r"
  by (simp add: job_row_ok_def pending_status_ok)

lemma job_row_ok_doneI:
  "jr_status r = ''done'' \<Longrightarrow> pred_option known (jr_account_id r) \<Longrightarrow>
     jr_attempts r \<le> maxDeliveryAttempts \<Longrightarrow>
     (jr_dead_lettered_at r \<noteq> None \<Longrightarrow> jr_attempts r = maxDeliveryAttempts) \<Longrightarrow> job_row_ok known r"
  by (auto simp: job_row_ok_def pending_def job_status_ok_def)

lemma delay_row_pending_or_done:
  "if maxDeliveryAttempts \<le> jr_attempts r + 1 then jr_status (delay_row n e at r) = ''done''
   else pending (delay_row n e at r)"
  by (simp add: delay_row_def pending_def)

lemma job_row_ok_release [simp]: "job_row_ok known (release_lease r) = job_row_ok known r"
  by (simp add: job_row_ok_def release_lease_def pending_def)

lemma job_row_ok_delay:
  assumes "pending r" "job_row_ok known r"
  shows "job_row_ok known (delay_row n e at r)"
proof -
  have "pred_option known (jr_account_id r)" using assms(2) by (simp add: job_row_ok_def)
  note facts = this job_row_ok_pending [OF assms]
  show ?thesis
  proof (cases "maxDeliveryAttempts \<le> jr_attempts r + 1")
    case True
    with facts show ?thesis by (intro job_row_ok_doneI) (simp_all add: delay_row_def)
  next
    case False
    with facts show ?thesis by (intro job_row_ok_pendingI) (simp_all add: delay_row_def pending_def)
  qed
qed

lemma job_row_ok_close_private:
  assumes "pending r" "job_row_ok known r"
  shows "job_row_ok known (close_private_job terminal r)"
proof -
  have "pred_option known (jr_account_id r)" using assms(2) by (simp add: job_row_ok_def)
  note facts = this job_row_ok_pending [OF assms] assms(1)
  show ?thesis
  proof (cases terminal)
    case True
    with facts show ?thesis by (intro job_row_ok_doneI) (simp_all add: close_private_job_def)
  next
    case False
    with facts show ?thesis
      by (intro job_row_ok_pendingI) (simp_all add: close_private_job_def pending_def)
  qed
qed

lemma job_row_ok_move:
  assumes move: "job_move known r r'" and ok: "job_row_ok known r"
  shows "job_row_ok known r'"
proof -
  have p: "pending r" using move by (rule job_move_pending)
  note facts = job_row_ok_pending [OF p ok]
  have acc: "pred_option known (jr_account_id r)" using ok by (simp add: job_row_ok_def)
  show ?thesis using move
  proof cases
    case (finish a)
    then show ?thesis using facts acc by (intro job_row_ok_doneI) (simp_all add: done_row_def)
  next
    case (postpone status n e)
    then show ?thesis using facts acc by (intro job_row_ok_pendingI) (simp_all add: pending_def)
  next
    case (claim a)
    then show ?thesis using p facts by (intro job_row_ok_pendingI) (simp_all add: pending_def)
  next
    case (lease a t u)
    then show ?thesis using p facts acc by (intro job_row_ok_pendingI) (simp_all add: pending_def)
  qed (use ok p in \<open>simp_all add: job_row_ok_delay job_row_ok_close_private\<close>)
qed

lemma job_row_ok_moves: "job_moves known r r' \<Longrightarrow> job_row_ok known r \<Longrightarrow> job_row_ok known r'"
  by (induction rule: rtranclp_induct) (auto intro: job_row_ok_move)

section \<open>Tables of jobs\<close>

text \<open>Rows move in place; new rows are appended.\<close>

definition jobs_move :: "(ID \<Rightarrow> bool) \<Rightarrow> job_row list \<Rightarrow> job_row list \<Rightarrow> job_row list \<Rightarrow> bool" where
  "jobs_move known rows new rows' \<longleftrightarrow>
     (\<exists>moved. rows' = moved @ new \<and> list_all2 (job_moves known) rows moved)"

lemma jobs_move_refl [intro, simp]: "jobs_move known rows [] rows"
  by (simp add: jobs_move_def list_all2_refl)

lemma jobs_move_append [intro]: "jobs_move known rows new (rows @ new)"
  unfolding jobs_move_def by (auto simp: list_all2_refl)

lemma jobs_move_update:
  assumes "\<And>r. r \<in> set rows \<Longrightarrow> p r \<Longrightarrow> job_moves known r (f r)"
  shows "jobs_move known rows [] (sql_update p f rows)"
  unfolding jobs_move_def using assms
  by (auto simp: sql_update_def list_all2_conv_all_nth)

lemma jobs_move_trans:
  assumes "jobs_move known a new b" "jobs_move known b [] c"
  shows "\<exists>new'. jobs_move known a new' c \<and> list_all2 (job_moves known) new new'"
proof -
  obtain m where b: "b = m @ new" and am: "list_all2 (job_moves known) a m"
    using assms(1) by (auto simp: jobs_move_def)
  have "list_all2 (job_moves known) (m @ new) c"
    using assms(2) b by (auto simp: jobs_move_def)
  then obtain m' new' where c: "c = m' @ new'" and mm: "list_all2 (job_moves known) m m'"
    and nn: "list_all2 (job_moves known) new new'"
    by (auto simp: list_all2_append1)
  have "list_all2 (job_moves known) a m'"
    using am mm by (rule list_all2_trans [rotated]) simp
  with c nn show ?thesis by (auto simp: jobs_move_def)
qed

lemma jobs_move_trans0:
  "jobs_move known a [] b \<Longrightarrow> jobs_move known b [] c \<Longrightarrow> jobs_move known a [] c"
  using jobs_move_trans by fastforce

lemma job_moves_map_id: "list_all2 (job_moves known) a m \<Longrightarrow> map jr_id m = map jr_id a"
  by (induction rule: list_all2_induct) (simp_all add: job_moves_id)

lemma jobs_move_ids: "jobs_move known a new b \<Longrightarrow> map jr_id b = map jr_id a @ map jr_id new"
  unfolding jobs_move_def by (auto simp: job_moves_map_id)

text \<open>The row of a job, before and after.\<close>

lemma jobs_move_select:
  assumes "jobs_move known a new b" "sql_select (\<lambda>r. jr_id r = i) a = Some r"
  shows "\<exists>r'. sql_select (\<lambda>r. jr_id r = i) b = Some r' \<and> job_moves known r r'"
proof -
  obtain m where b: "b = m @ new" and am: "list_all2 (job_moves known) a m"
    using assms(1) by (auto simp: jobs_move_def)
  from am assms(2) have "\<exists>r'. sql_select (\<lambda>r. jr_id r = i) m = Some r' \<and> job_moves known r r'"
    by (induction rule: list_all2_induct) (auto split: if_splits dest: job_moves_id)
  with b show ?thesis by (auto simp: sql_select_append)
qed

lemma jobs_move_rows_ok:
  assumes "jobs_move known a new b" "\<forall>r \<in> set a. job_row_ok known r" "\<forall>r \<in> set new. job_row_ok known r"
  shows "\<forall>r \<in> set b. job_row_ok known r"
proof -
  obtain m where b: "b = m @ new" and am: "list_all2 (job_moves known) a m"
    using assms(1) by (auto simp: jobs_move_def)
  from am assms(2) have "\<forall>r \<in> set m. job_row_ok known r"
    by (induction rule: list_all2_induct) (auto intro: job_row_ok_moves)
  with b assms(3) show ?thesis by auto
qed

end
