(* ===== verification/JobQueue.thy ===== *)
theory JobQueue
  imports JobMachine
begin

text \<open>
  The queue as its clients see it: the repository methods that change it, as calls, and the
  proof that each call simulates the machine of theory JobMachine on every stored job.
\<close>

section \<open>Calls\<close>

datatype queue_call =
    CallEnqueue OutgoingMessageJob
  | CallEnqueueKeyword OutgoingMessageJob LiveDeliveryDraft
  | CallAcquire ID ID string time
  | CallClaim ID ID
  | CallComplete ID OutgoingMessageEvent
  | CallCompleteLease ID string OutgoingMessageEvent
  | CallMarkDone ID OutgoingMessageEvent
  | CallRecordPrivateClosed ID ID time
  | CallCompleteKeyword KeywordDeliveryOutcome
  | CallDelay ID string
  | CallDelayUntil ID string time
  | CallDelayLease ID string string
  | CallDelayLeaseUntil ID string string time
  | CallDelayTransient ID string
  | CallDelayTransientUntil ID string time
  | CallDelayTransientLease ID string string
  | CallDelayTransientLeaseUntil ID string string time
  | CallReleaseGroupRestDelays
  | CallClearGroupRests
  | CallDelayKeywordFailure KeywordDeliveryFailure

fun perform :: "time \<Rightarrow> queue_call \<Rightarrow> db \<Rightarrow> db" where
  "perform now (CallEnqueue job) d = snd (Enqueue now job d)"
| "perform now (CallEnqueueKeyword job draft) d = snd (EnqueueKeywordResponse now job draft d)"
| "perform now (CallAcquire j a t u) d = snd (Acquire j a t now u d)"
| "perform now (CallClaim j a) d = snd (Claim j a d)"
| "perform now (CallComplete j e) d = snd (Complete j e d)"
| "perform now (CallCompleteLease j t e) d = snd (CompleteLease j t e d)"
| "perform now (CallMarkDone j e) d = snd (MarkDone j e d)"
| "perform now (CallRecordPrivateClosed j a t) d = snd (RecordPrivateClosed j a t d)"
| "perform now (CallCompleteKeyword out) d = snd (CompleteKeywordResponse out d)"
| "perform now (CallDelay j r) d = snd (Delay now j r d)"
| "perform now (CallDelayUntil j r n) d = snd (DelayUntil now j r n d)"
| "perform now (CallDelayLease j t r) d = snd (DelayLease now j t r d)"
| "perform now (CallDelayLeaseUntil j t r n) d = snd (DelayLeaseUntil now j t r n d)"
| "perform now (CallDelayTransient j r) d = snd (DelayTransient now j r d)"
| "perform now (CallDelayTransientUntil j r n) d = snd (DelayTransientUntil j r n d)"
| "perform now (CallDelayTransientLease j t r) d = snd (DelayTransientLease now j t r d)"
| "perform now (CallDelayTransientLeaseUntil j t r n) d = snd (DelayTransientLeaseUntil now j t r n d)"
| "perform now CallReleaseGroupRestDelays d = snd (ReleaseGroupRestDelays now d)"
| "perform now CallClearGroupRests d = snd (ClearGroupRests now d)"
| "perform now (CallDelayKeywordFailure f) d = snd (DelayKeywordFailure now f d)"

fun serve :: "(time \<times> queue_call) list \<Rightarrow> db \<Rightarrow> db" where
  "serve [] d = d"
| "serve ((now, c) # cs) d = serve cs (perform now c d)"

section \<open>Simulation\<close>

text \<open>
  One call appends at most one job, under an id not in use, and moves the others. No
  account, channel or canonical term is added or removed.
\<close>

definition queue_sim :: "db \<Rightarrow> job_row list \<Rightarrow> db \<Rightarrow> bool" where
  "queue_sim d new d' \<longleftrightarrow>
     jobs_move (account_exists d) (db_jobs d) new (db_jobs d') \<and>
     map ar_id (db_accounts d') = map ar_id (db_accounts d) \<and>
     map ar_status (db_accounts d') = map ar_status (db_accounts d) \<and>
     map ch_id (db_outbound d') = map ch_id (db_outbound d) \<and> db_scout d' = db_scout d"

lemma account_exists_ids: "account_exists d a \<longleftrightarrow> a \<in> set (map ar_id (db_accounts d))"
  by (auto simp: account_exists_def sql_exists_iff)

lemma queue_sim_accounts: "queue_sim d new d' \<Longrightarrow> account_exists d' = account_exists d"
  by (rule ext) (simp add: account_exists_ids queue_sim_def del: list.set_map)

lemma queue_sim_refl [intro, simp]: "queue_sim d [] d"
  by (simp add: queue_sim_def)

lemma queue_sim_trans0: "queue_sim d [] d1 \<Longrightarrow> queue_sim d1 [] d2 \<Longrightarrow> queue_sim d [] d2"
  using queue_sim_accounts [of d "[]" d1] jobs_move_trans0 by (fastforce simp: queue_sim_def)

lemma queue_sim_in_tx:
  "(\<And>x d'. m d = (Inr x, d') \<Longrightarrow> queue_sim d [] d') \<Longrightarrow> queue_sim d [] (snd (in_tx m d))"
  by (rule in_tx_keeps) auto

lemma queue_sim_update:
  "(\<And>r. r \<in> set (db_jobs d) \<Longrightarrow> p r \<Longrightarrow> job_moves (account_exists d) r (f r)) \<Longrightarrow>
     queue_sim d [] (d\<lparr>db_jobs := sql_update p f (db_jobs d)\<rparr>)"
  by (simp add: queue_sim_def jobs_move_update)

lemma queue_sim_others:
  "db_jobs d' = db_jobs d \<Longrightarrow> map ar_id (db_accounts d') = map ar_id (db_accounts d) \<Longrightarrow>
   map ar_status (db_accounts d') = map ar_status (db_accounts d) \<Longrightarrow>
   map ch_id (db_outbound d') = map ch_id (db_outbound d) \<Longrightarrow> db_scout d' = db_scout d \<Longrightarrow>
   queue_sim d [] d'"
  by (simp add: queue_sim_def)

subsection \<open>Moves of the updates\<close>

lemmas one_move = r_into_rtranclp [of "job_move known" for known]

lemma moves_fail: "pending r \<Longrightarrow> job_moves known r (delay_row n e at r)"
  by (rule one_move) (rule job_move.fail)

lemma moves_fail_release: "pending r \<Longrightarrow> job_moves known r (release_lease (delay_row n e at r))"
  by (rule one_move) (rule job_move.fail_release)

lemma moves_postpone:
  "pending r \<Longrightarrow> s = ''queued'' \<or> s = ''delayed'' \<Longrightarrow>
     job_moves known r (r\<lparr>jr_status := s, jr_next_attempt_at := n, jr_last_error := e\<rparr>)"
  by (rule one_move) (rule job_move.postpone)

lemma moves_postpone_release:
  assumes "pending r" "s = ''queued'' \<or> s = ''delayed''"
  shows "job_moves known r
           (release_lease (r\<lparr>jr_status := s, jr_next_attempt_at := n, jr_last_error := e\<rparr>))"
proof -
  have "pending (r\<lparr>jr_status := s, jr_next_attempt_at := n, jr_last_error := e\<rparr>)"
    using assms(2) by (auto simp: pending_def)
  with moves_postpone [OF assms] show ?thesis
    by (meson job_move.unlease rtranclp.rtrancl_into_rtrancl)
qed

lemma moves_acquire:
  assumes "pending r" "jr_account_id r = None \<or> jr_account_id r = Some a" "t \<noteq> ''''"
    and "known a"
  shows "job_moves known r
           (r\<lparr>jr_account_id := (case jr_account_id r of None \<Rightarrow> Some a | Some b \<Rightarrow> Some b),
              jr_lease_token := t, jr_lease_until := Some u\<rparr>)"
proof (cases "jr_account_id r")
  case None
  let ?r = "r\<lparr>jr_account_id := Some a\<rparr>"
  have "job_move known r ?r" using assms None by (intro job_move.claim)
  moreover have "job_move known ?r (?r\<lparr>jr_lease_token := t, jr_lease_until := Some u\<rparr>)"
    using assms by (intro job_move.lease [where a = a]) (simp_all add: pending_def)
  ultimately show ?thesis using None by (simp add: converse_rtranclp_into_rtranclp)
next
  case (Some b)
  have same: "r\<lparr>jr_account_id := Some b, jr_lease_token := t, jr_lease_until := Some u\<rparr> =
        r\<lparr>jr_lease_token := t, jr_lease_until := Some u\<rparr>" using Some by (cases r) simp
  have "job_move known r (r\<lparr>jr_lease_token := t, jr_lease_until := Some u\<rparr>)"
    using Some assms by (intro job_move.lease [where a = a]) simp_all
  with Some show ?thesis by (simp add: same)
qed

lemma moves_finish:
  "pending r \<Longrightarrow> jr_account_id r = Some a \<Longrightarrow> job_moves known r (done_row r)"
  by (rule one_move) (rule job_move.finish)

lemma moves_close_private:
  "pending r \<Longrightarrow> jr_account_id r = Some a \<Longrightarrow> jr_type r = JobKeywordResponse \<Longrightarrow>
     job_moves known r (close_private_job terminal r)"
  by (rule one_move) (rule job_move.close_private)

subsection \<open>Each method\<close>

lemma sim_Acquire: "queue_sim d [] (snd (Acquire j a t now u d))"
  unfolding Acquire_def Let_def
  by (auto intro!: queue_sim_update moves_acquire simp: sql_affected_0_iff
      split: option.splits if_splits)

lemma moves_claim:
  "pending r \<Longrightarrow> jr_account_id r = None \<Longrightarrow> known a \<Longrightarrow>
     job_moves known r (r\<lparr>jr_account_id := Some a\<rparr>)"
  by (rule one_move) (rule job_move.claim)

lemma sim_Claim: "queue_sim d [] (snd (Claim j a d))"
proof -
  let ?p = "\<lambda>r. jr_id r = j \<and> pending r \<and> jr_account_id r = None"
  have "queue_sim d [] (d\<lparr>db_jobs := sql_update ?p (\<lambda>r. r\<lparr>jr_account_id := Some a\<rparr>) (db_jobs d)\<rparr>)"
    if "\<not> (sql_affected ?p (db_jobs d) \<noteq> 0 \<and> \<not> account_exists d a)"
    using that by (intro queue_sim_update moves_claim) (auto simp: sql_affected_0_iff)
  then show ?thesis
    unfolding Claim_def Let_def
    by (auto intro!: queue_sim_in_tx split: option.splits if_splits)
qed

lemma sim_fail:
  "(\<And>r. p r \<Longrightarrow> pending r) \<Longrightarrow>
     queue_sim d [] (d\<lparr>db_jobs := sql_update p (delay_row n e at) (db_jobs d)\<rparr>)"
  by (auto intro!: queue_sim_update moves_fail)

lemma sim_DelayUntil: "queue_sim d [] (snd (DelayUntil now j e n d))"
  unfolding DelayUntil_def Let_def by (auto intro: sim_fail)

lemma sim_DelayLeaseUntil: "queue_sim d [] (snd (DelayLeaseUntil now j t e n d))"
  unfolding DelayLeaseUntil_def Let_def by (auto intro!: queue_sim_update moves_fail_release)

lemma sim_DelayTransientUntil: "queue_sim d [] (snd (DelayTransientUntil j e n d))"
  unfolding DelayTransientUntil_def Let_def by (auto intro!: queue_sim_update moves_postpone)

lemma sim_DelayTransientLeaseUntil: "queue_sim d [] (snd (DelayTransientLeaseUntil now j t e n d))"
  unfolding DelayTransientLeaseUntil_def Let_def
  by (auto intro!: queue_sim_update moves_postpone_release)

lemma sim_ReleaseGroupRestDelays: "queue_sim d [] (snd (ReleaseGroupRestDelays now d))"
  unfolding ReleaseGroupRestDelays_def
  by (auto intro!: queue_sim_update moves_postpone simp: pending_def)

lemma sim_ClearGroupRests: "queue_sim d [] (snd (ClearGroupRests now d))"
  unfolding ClearGroupRests_def
proof (rule queue_sim_in_tx)
  fix x d'
  let ?d = "d\<lparr>db_memberships := sql_update
            (\<lambda>m. mr_rest_started_at m \<noteq> None \<or> mr_rest_until m \<noteq> None \<or> mr_rest_duration_hours m \<noteq> 0)
            (\<lambda>m. m\<lparr>mr_rest_started_at := None, mr_rest_until := None, mr_rest_duration_hours := 0\<rparr>)
            (db_memberships d)\<rparr>"
  assume "ReleaseGroupRestDelays now ?d = (Inr x, d')"
  then have "queue_sim ?d [] d'"
    using sim_ReleaseGroupRestDelays [of ?d now] by (simp only: snd_conv)
  moreover have "queue_sim d [] ?d" by (rule queue_sim_others) simp_all
  ultimately show "queue_sim d [] d'" by (rule queue_sim_trans0 [rotated])
qed

lemma sim_done:
  "(\<And>r. p r \<Longrightarrow> pending r \<and> (\<exists>a. jr_account_id r = Some a)) \<Longrightarrow>
     queue_sim d [] (d\<lparr>db_jobs := sql_update p done_row (db_jobs d)\<rparr>)"
  by (rule queue_sim_update) (use moves_finish in blast)

lemma sim_markPendingJobDone: "queue_sim d [] (snd (markPendingJobDone j a t d))"
  unfolding markPendingJobDone_def by (auto simp: pending_job_of_def intro!: sim_done)

text \<open>Recording a delivery touches the events, the account's and the channel's counters.\<close>

lemma count_delivery_id [simp]: "ar_id (count_delivery t at r) = ar_id r"
  by (simp add: count_delivery_def Let_def)

lemma count_delivery_status [simp]: "ar_status (count_delivery t at r) = ar_status r"
  by (simp add: count_delivery_def Let_def)

lemma record_jobs [simp]: "db_jobs (snd (recordSuccessfulDelivery j e req d)) = db_jobs d"
  by (simp add: recordSuccessfulDelivery_def Let_def)

lemma record_scout [simp]: "db_scout (snd (recordSuccessfulDelivery j e req d)) = db_scout d"
  by (simp add: recordSuccessfulDelivery_def Let_def)

lemma record_history [simp]: "db_history (snd (recordSuccessfulDelivery j e req d)) = db_history d"
  by (simp add: recordSuccessfulDelivery_def Let_def)

lemma sim_recordSuccessfulDelivery: "queue_sim d [] (snd (recordSuccessfulDelivery j e req d))"
proof (rule queue_sim_others)
  let ?d = "snd (recordSuccessfulDelivery j e req d)"
  show "map ar_id (db_accounts ?d) = map ar_id (db_accounts d)"
    "map ar_status (db_accounts ?d) = map ar_status (db_accounts d)"
    "map ch_id (db_outbound ?d) = map ch_id (db_outbound d)"
    by (simp_all add: recordSuccessfulDelivery_def Let_def sql_simps)
qed simp_all

lemma sim_complete: "queue_sim d [] (snd (complete j t e d))"
proof (cases "j = '''' \<or> ev_AccountID e = ''''")
  case False
  obtain affected d1 where m: "markPendingJobDone j (ev_AccountID e) t d = (affected, d1)"
    by fastforce
  then have s1: "queue_sim d [] d1" by (metis sim_markPendingJobDone snd_conv)
  obtain res d2 where r: "recordSuccessfulDelivery j e False d1 = (res, d2)" by fastforce
  have "queue_sim d1 [] d2" using r by (metis sim_recordSuccessfulDelivery snd_conv)
  with s1 have "queue_sim d [] d2" by (rule queue_sim_trans0)
  then show ?thesis
    using False m r s1 by (auto simp: complete_def intro!: queue_sim_in_tx
        split: option.splits if_splits sum.splits)
qed (auto simp: complete_def)

lemma sim_Complete: "queue_sim d [] (snd (Complete j e d))"
  by (simp add: Complete_def sim_complete)

lemma sim_CompleteLease: "queue_sim d [] (snd (CompleteLease j t e d))"
  by (simp add: CompleteLease_def sim_complete)

lemma sim_MarkDone: "queue_sim d [] (snd (MarkDone j e d))"
proof -
  obtain r1 d1 where c: "Claim j (ev_AccountID e) d = (r1, d1)" by fastforce
  then have s1: "queue_sim d [] d1" by (metis sim_Claim snd_conv)
  obtain r2 d2 where f: "Complete j e d1 = (r2, d2)" by fastforce
  have "queue_sim d1 [] d2" using f by (metis sim_Complete snd_conv)
  with s1 have "queue_sim d [] d2" by (rule queue_sim_trans0)
  with c f s1 show ?thesis by (simp add: MarkDone_def split: sum.splits)
qed

text \<open>What the transaction of a refused private dialogue has written when it succeeds.\<close>

lemma RecordPrivateClosed_tx_ok:
  assumes "RecordPrivateClosed_tx j a at d = (Inr (), d')"
  shows "d' = d \<or> (\<exists>r terminal. r \<in> set (db_jobs d) \<and> private_pending j a r \<and>
    d' = d\<lparr>db_events := db_events d @ [private_closed_event a at r],
      db_accounts := sql_update (\<lambda>r. ar_id r = a) count_closed (db_accounts d),
      db_jobs := sql_update (private_pending j a) (close_private_job terminal) (db_jobs d),
      db_history := sql_update (open_history j) (close_private_history terminal a at) (db_history d)\<rparr>)"
proof -
  have one: "\<exists>r. r \<in> set (db_jobs d) \<and> private_pending j a r \<and>
      filter (private_pending j a) (db_jobs d) = [r]"
    if "length (filter (private_pending j a) (db_jobs d)) = Suc 0"
  proof -
    have "\<exists>r. filter (private_pending j a) (db_jobs d) = [r]"
      using that by (simp add: length_Suc_conv)
    then obtain r where r: "filter (private_pending j a) (db_jobs d) = [r]" ..
    have "r \<in> set (filter (private_pending j a) (db_jobs d))" unfolding r by simp
    then have "r \<in> set (db_jobs d)" "private_pending j a r" by simp_all
    with r show ?thesis by blast
  qed
  show ?thesis
  proof (cases "sql_select (\<lambda>r. jr_id r = j \<and> jr_account_id r = Some a) (db_jobs d)")
    case None
    with assms show ?thesis by (simp add: RecordPrivateClosed_tx_def)
  next
    case (Some r0)
    show ?thesis
    proof (cases "d' = d")
      case False
      with assms Some
      have "length (filter (private_pending j a) (db_jobs d)) = Suc 0" and
        d': "d' = d\<lparr>db_events := db_events d @ map (private_closed_event a at)
                 (filter (private_pending j a) (db_jobs d)),
          db_accounts := sql_update (\<lambda>r. ar_id r = a) count_closed (db_accounts d),
          db_jobs := sql_update (private_pending j a) (close_private_job (private_terminal r0)) (db_jobs d),
          db_history := sql_update (open_history j)
            (close_private_history (private_terminal r0) a at) (db_history d)\<rparr>"
        by (simp_all add: RecordPrivateClosed_tx_def Let_def split: if_splits)
      from one [OF this(1)] obtain r where r: "r \<in> set (db_jobs d)" "private_pending j a r"
        "filter (private_pending j a) (db_jobs d) = [r]" by blast
      show ?thesis
        by (intro disjI2 exI [of _ r] exI [of _ "private_terminal r0"] conjI r(1,2))
           (simp only: d' r(3) list.map)
    qed simp
  qed
qed

lemma sim_RecordPrivateClosed: "queue_sim d [] (snd (RecordPrivateClosed j a t d))"
proof -
  have "queue_sim d [] (snd (in_tx (RecordPrivateClosed_tx j a at) d))" for at
  proof (rule queue_sim_in_tx)
    fix x d'
    assume "RecordPrivateClosed_tx j a at d = (Inr x, d')"
    then have "RecordPrivateClosed_tx j a at d = (Inr (), d')" by simp
    from RecordPrivateClosed_tx_ok [OF this] consider "d' = d" | terminal where
      "db_jobs d' = sql_update (private_pending j a) (close_private_job terminal) (db_jobs d)"
      "db_accounts d' = sql_update (\<lambda>r. ar_id r = a) count_closed (db_accounts d)"
      "db_outbound d' = db_outbound d" "db_scout d' = db_scout d"
      by auto
    then show "queue_sim d [] d'"
    proof cases
      case (2 terminal)
      then show ?thesis
        by (auto simp: queue_sim_def private_pending_def count_closed_def sql_simps
            intro!: jobs_move_update moves_close_private)
    qed simp
  qed
  then show ?thesis by (simp add: RecordPrivateClosed_def)
qed

lemma sim_markKeywordResponseDone: "queue_sim d [] (snd (markKeywordResponseDone out d))"
  unfolding markKeywordResponseDone_def by (auto simp: keyword_pending_def intro!: sim_done)

lemma sim_history: "queue_sim d [] (d\<lparr>db_history := h\<rparr>)"
  by (rule queue_sim_others) simp_all

lemma sim_advance:
  "queue_sim d [] (d\<lparr>db_accounts := sql_update p (\<lambda>r. r\<lparr>ar_next_delivery := t\<rparr>) (db_accounts d)\<rparr>)"
  by (rule queue_sim_others) (simp_all add: sql_simps)

lemma sim_CompleteKeywordResponse_tx: "queue_sim d [] (snd (CompleteKeywordResponse_tx out d))"
proof -
  obtain stored d1 where m: "markKeywordResponseDone out d = (stored, d1)" by fastforce
  then have s1: "queue_sim d [] d1" by (metis sim_markKeywordResponseDone snd_conv)
  show ?thesis
  proof (cases stored)
    case None
    with m s1 show ?thesis by (simp add: CompleteKeywordResponse_tx_def split: sum.splits)
  next
    case (Some channelID)
    obtain res d2 where r: "recordSuccessfulDelivery (out_JobID out) (keyword_event out channelID) True d1
        = (res, d2)" by fastforce
    have "queue_sim d1 [] d2" using r by (metis sim_recordSuccessfulDelivery snd_conv)
    with s1 have s2: "queue_sim d [] d2" by (rule queue_sim_trans0)
    moreover have "queue_sim d2 [] (finalizeKeywordSuccess out d2)"
      unfolding finalizeKeywordSuccess_def by (rule sim_history)
    ultimately have s3: "queue_sim d [] (finalizeKeywordSuccess out d2)" by (rule queue_sim_trans0)
    show ?thesis using m Some r s2 s3 queue_sim_trans0 [OF s3 sim_advance]
      by (simp add: CompleteKeywordResponse_tx_def Let_def split: sum.splits option.splits)
  qed
qed

lemma sim_CompleteKeywordResponse: "queue_sim d [] (snd (CompleteKeywordResponse out d))"
proof -
  have "queue_sim d [] (snd (in_tx (CompleteKeywordResponse_tx out) d))"
    by (rule queue_sim_in_tx) (metis sim_CompleteKeywordResponse_tx snd_conv)
  then show ?thesis by (simp add: CompleteKeywordResponse_def)
qed

lemma completedKeywordFailure_db [simp]: "snd (completedKeywordFailure f d) = d"
  by (simp add: completedKeywordFailure_def Let_def split: option.splits)

lemma sim_DelayKeywordFailure_tx: "queue_sim d [] (snd (DelayKeywordFailure_tx at nxt f d))"
proof -
  let ?p = "\<lambda>r. jr_id r = fail_JobID f \<and> jr_type r = JobKeywordResponse \<and> pending r"
  have rows: "queue_sim d [] d'"
    if "db_jobs d' = sql_update ?p (\<lambda>r. release_lease (delay_row n e at r)) (db_jobs d)"
      "db_accounts d' = db_accounts d" "db_outbound d' = db_outbound d" "db_scout d' = db_scout d"
    for d' n e at
    using that by (auto simp: queue_sim_def intro!: jobs_move_update moves_fail_release)
  show ?thesis
    unfolding DelayKeywordFailure_tx_def Let_def
    by (auto intro!: rows simp: finalizeKeywordFailure_def persistKeywordFailureMetadata_def
        split: option.split)
qed

lemma sim_DelayKeywordFailure: "queue_sim d [] (snd (DelayKeywordFailure now f d))"
proof -
  have "queue_sim d [] (snd (in_tx (DelayKeywordFailure_tx at nxt f) d))" for at nxt
    by (rule queue_sim_in_tx) (metis sim_DelayKeywordFailure_tx snd_conv)
  then show ?thesis by (simp add: DelayKeywordFailure_def Let_def)
qed

subsection \<open>New jobs\<close>

lemma insertJob_cases:
  assumes "insertJob job d = (res, d')"
  shows "d' = d \<or> (res = Inr 1 \<and> job_status_ok (job_Status job) \<and> the_job d (job_ID job) = None \<and>
           pred_option (account_exists d) (job_AccountID job) \<and>
           d' = d\<lparr>db_jobs := db_jobs d @ [row_of_job job]\<rparr>)"
  using assms
  by (auto simp: insertJob_def sql_exists_iff sql_select_None_iff split: if_splits option.splits)

definition new_job_ok :: "db \<Rightarrow> nat \<Rightarrow> job_row list \<Rightarrow> bool" where
  "new_job_ok d attempts new \<longleftrightarrow>
     new = [] \<or> (\<exists>r. new = [r] \<and> the_job d (jr_id r) = None \<and> jr_attempts r = attempts \<and>
       job_status_ok (jr_status r) \<and> pred_option (account_exists d) (jr_account_id r) \<and>
       jr_lease_token r = '''' \<and> jr_dead_lettered_at r = None)"

lemma sim_insertJob:
  assumes "insertJob job d = (res, d')"
  shows "\<exists>new. queue_sim d new d' \<and> new_job_ok d (job_Attempts job) new"
proof (cases "d' = d")
  case True
  then show ?thesis using queue_sim_refl by (auto simp: new_job_ok_def)
next
  case False
  with insertJob_cases [OF assms]
  have "queue_sim d [row_of_job job] d'" "new_job_ok d (job_Attempts job) [row_of_job job]"
    by (auto simp: queue_sim_def new_job_ok_def row_of_job_def)
  then show ?thesis by blast
qed

lemma prepareEnqueue_keeps:
  "prepareEnqueue now job = Inr job' \<Longrightarrow>
     job_Attempts job' = job_Attempts job \<and> job_ID job' = job_ID job \<and> job_ID job \<noteq> ''''"
  by (auto simp: prepareEnqueue_def split: if_splits)

lemma sim_Enqueue: "\<exists>new. queue_sim d new (snd (Enqueue now job d)) \<and> new_job_ok d (job_Attempts job) new"
proof (cases "prepareEnqueue now job")
  case (Inl e)
  then show ?thesis using queue_sim_refl by (auto simp: Enqueue_def new_job_ok_def)
next
  case (Inr job')
  obtain res d' where i: "insertJob job' d = (res, d')" by fastforce
  with sim_insertJob [OF i] Inr prepareEnqueue_keeps [OF Inr] show ?thesis
    by (simp add: Enqueue_def split: sum.splits)
qed

lemma insertHistory_sim: "queue_sim d [] (snd (insertHistory j draft d))"
  by (simp add: insertHistory_def sim_history)

lemma queue_sim_then_history:
  "queue_sim d new d1 \<Longrightarrow> queue_sim d new (snd (insertHistory j draft d1))"
  by (simp add: insertHistory_def queue_sim_def account_exists_ids)

lemma sim_EnqueueKeywordResponse:
  "\<exists>new. queue_sim d new (snd (EnqueueKeywordResponse now job draft d)) \<and>
         new_job_ok d (job_Attempts job) new"
proof -
  have none: "\<exists>new. queue_sim d new d \<and> new_job_ok d (job_Attempts job) new"
    using queue_sim_refl by (auto simp: new_job_ok_def)
  show ?thesis
  proof (cases "prepareEnqueue now job")
    case (Inl e)
    with none show ?thesis by (simp add: EnqueueKeywordResponse_def)
  next
    case (Inr job')
    obtain res d1 where i: "insertJob job' d = (res, d1)" by fastforce
    have s: "\<exists>new. queue_sim d new d1 \<and> new_job_ok d (job_Attempts job) new"
      using sim_insertJob [OF i] prepareEnqueue_keeps [OF Inr] by simp
    have h: "\<exists>new. queue_sim d new d2 \<and> new_job_ok d (job_Attempts job) new"
      if "insertHistory (job_ID job') draft d1 = (Inr x, d2)" for x d2
      using s queue_sim_then_history [of d _ d1 "job_ID job'" draft] that by (metis snd_conv)
    show ?thesis
      unfolding EnqueueKeywordResponse_def Inr
      by (auto simp: in_tx_def i none split: sum.splits prod.splits if_splits dest!: h)
  qed
qed

section \<open>Sequences of calls\<close>

text \<open>
  \<open>call_ok\<close> is what the program's callers respect: a job is enqueued with fewer than
  eight attempts (they pass none), and a completion reports a success.
\<close>

fun call_ok :: "queue_call \<Rightarrow> bool" where
  "call_ok (CallEnqueue job) = (job_Attempts job < maxDeliveryAttempts)"
| "call_ok (CallEnqueueKeyword job draft) = (job_Attempts job < maxDeliveryAttempts)"
| "call_ok (CallComplete j e) = ev_Success e"
| "call_ok (CallCompleteLease j t e) = ev_Success e"
| "call_ok (CallMarkDone j e) = ev_Success e"
| "call_ok _ = True"

definition new_jobs_ok :: "db \<Rightarrow> queue_call \<Rightarrow> job_row list \<Rightarrow> bool" where
  "new_jobs_ok d c new \<longleftrightarrow>
     length new \<le> 1 \<and> (\<forall>r \<in> set new. the_job d (jr_id r) = None \<and>
       (call_ok c \<longrightarrow> job_row_ok (account_exists d) r))"

lemma new_jobs_ok_Nil [simp]: "new_jobs_ok d c []"
  by (simp add: new_jobs_ok_def)

lemma new_job_ok_imp:
  assumes "new_job_ok d n new" "call_ok c \<Longrightarrow> n < maxDeliveryAttempts"
  shows "new_jobs_ok d c new"
  using assms by (auto simp: new_job_ok_def new_jobs_ok_def job_row_ok_def)

lemmas sim_methods =
  sim_Acquire sim_Claim sim_Complete sim_CompleteLease sim_MarkDone sim_RecordPrivateClosed
  sim_CompleteKeywordResponse sim_DelayUntil sim_DelayLeaseUntil sim_DelayTransientUntil
  sim_DelayTransientLeaseUntil sim_ReleaseGroupRestDelays sim_ClearGroupRests
  sim_DelayKeywordFailure

fun enqueues :: "queue_call \<Rightarrow> bool" where
  "enqueues (CallEnqueue job) = True"
| "enqueues (CallEnqueueKeyword job draft) = True"
| "enqueues _ = False"

lemma perform_sim_moves: "\<not> enqueues c \<Longrightarrow> queue_sim d [] (perform now c d)"
  by (cases c)
     (simp_all add: Delay_def DelayLease_def DelayTransient_def DelayTransientLease_def sim_methods)

lemma perform_sim: "\<exists>new. queue_sim d new (perform now c d) \<and> new_jobs_ok d c new"
proof (cases "enqueues c")
  case False
  then show ?thesis using perform_sim_moves new_jobs_ok_Nil by blast
next
  case True
  then show ?thesis
  proof (cases c)
    case (CallEnqueue job)
    then show ?thesis using sim_Enqueue [of d now job] new_job_ok_imp [of d "job_Attempts job" _ c]
      by fastforce
  next
    case (CallEnqueueKeyword job draft)
    then show ?thesis
      using sim_EnqueueKeywordResponse [of d now job draft] new_job_ok_imp [of d "job_Attempts job" _ c]
      by fastforce
  qed simp_all
qed

definition queue_ok :: "db \<Rightarrow> bool" where
  "queue_ok d \<longleftrightarrow>
     distinct (map jr_id (db_jobs d)) \<and> (\<forall>r \<in> set (db_jobs d). job_row_ok (account_exists d) r)"

lemma perform_queue_ok: "queue_ok d \<Longrightarrow> call_ok c \<Longrightarrow> queue_ok (perform now c d)"
proof -
  assume ok: "queue_ok d" and c: "call_ok c"
  obtain new where sim: "queue_sim d new (perform now c d)" and new: "new_jobs_ok d c new"
    using perform_sim by blast
  have acc: "account_exists (perform now c d) = account_exists d" using sim by (rule queue_sim_accounts)
  have moves: "jobs_move (account_exists d) (db_jobs d) new (db_jobs (perform now c d))"
    using sim by (simp add: queue_sim_def)
  have one: "distinct (map jr_id new)"
    using new by (cases new) (simp_all add: new_jobs_ok_def)
  have apart: "set (map jr_id (db_jobs d)) \<inter> set (map jr_id new) = {}"
    using new unfolding new_jobs_ok_def sql_select_None_iff by fastforce
  have "distinct (map jr_id (db_jobs (perform now c d)))"
    using ok one apart by (simp only: jobs_move_ids [OF moves] queue_ok_def distinct_append simp_thms)
  moreover have "\<forall>r \<in> set (db_jobs (perform now c d)). job_row_ok (account_exists d) r"
  proof (rule jobs_move_rows_ok [OF moves])
    show "\<forall>r \<in> set (db_jobs d). job_row_ok (account_exists d) r" using ok unfolding queue_ok_def by blast
    show "\<forall>r \<in> set new. job_row_ok (account_exists d) r" using new c unfolding new_jobs_ok_def by blast
  qed
  ultimately show "queue_ok (perform now c d)" unfolding queue_ok_def acc by blast
qed

text \<open>The row of a stored job after any sequence of calls.\<close>

lemma perform_job:
  "the_job d j = Some r \<Longrightarrow>
     \<exists>r'. the_job (perform now c d) j = Some r' \<and> job_moves (account_exists d) r r'"
  using perform_sim [of d now c] jobs_move_select by (fastforce simp: queue_sim_def)

lemma perform_accounts: "account_exists (perform now c d) = account_exists d"
  using perform_sim queue_sim_accounts by blast

lemma serve_job:
  "the_job d j = Some r \<Longrightarrow>
     \<exists>r'. the_job (serve cs d) j = Some r' \<and> job_moves (account_exists d) r r'"
proof (induction cs arbitrary: d r)
  case Nil
  then show ?case by simp
next
  case (Cons call cs)
  obtain now c where call: "call = (now, c)" by fastforce
  obtain r1 where r1: "the_job (perform now c d) j = Some r1" "job_moves (account_exists d) r r1"
    using perform_job Cons.prems by blast
  from Cons.IH [OF r1(1)] r1(2) show ?case
    by (auto simp: call perform_accounts intro: rtranclp_trans)
qed

end
