(* ===== verification/JobBooks.thy ===== *)
theory JobBooks
  imports JobQueue
begin

text \<open>
  Deliveries are booked exactly once: what the calls of the queue do to the events, to the
  accounts' counters and to the delivery history. \<open>ledger\<close> abstracts a repository
  method to one of three bookings; every method is shown to make one of them, and the
  balance of the books is then an invariant of the bookings.
\<close>

section \<open>Bookings\<close>

definition counters :: "account_row \<Rightarrow> ID \<times> nat \<times> nat \<times> nat" where
  "counters r = (ar_id r, ar_public_replies_sent r, ar_private_messages_sent r,
                 ar_private_messages_closed r)"

inductive ledger :: "db \<Rightarrow> db \<Rightarrow> bool" where
  quiet: "db_events d' = db_events d \<Longrightarrow>
          map counters (db_accounts d') = map counters (db_accounts d) \<Longrightarrow> ledger d d'"
| delivered: "the_job d (er_job_id e) = Some r \<Longrightarrow> pending r \<Longrightarrow>
          the_job d' (er_job_id e) = Some r' \<Longrightarrow> jr_status r' = ''done'' \<Longrightarrow>
          jr_account_id r = Some (er_account_id e) \<Longrightarrow> er_success e \<Longrightarrow>
          er_type e = JobPublicReply \<or> er_type e = JobPrivateMessage \<Longrightarrow>
          db_events d' = db_events d @ [e] \<Longrightarrow>
          map counters (db_accounts d') = map counters (sql_update (\<lambda>r. ar_id r = er_account_id e)
            (count_delivery (er_type e) at) (db_accounts d)) \<Longrightarrow> ledger d d'"
| closed: "\<not> er_success e \<Longrightarrow> db_events d' = db_events d @ [e] \<Longrightarrow>
          map counters (db_accounts d') = map counters (sql_update (\<lambda>r. ar_id r = er_account_id e)
            count_closed (db_accounts d)) \<Longrightarrow> ledger d d'"

inductive_cases ledgerE: "ledger d d'"

lemma ledger_refl [intro, simp]: "ledger d d"
  by (rule ledger.quiet) simp_all

lemma ledger_in_tx: "(\<And>x d'. m d = (Inr x, d') \<Longrightarrow> ledger d d') \<Longrightarrow> ledger d (snd (in_tx m d))"
  by (rule in_tx_keeps) auto

section \<open>The books balance\<close>

abbreviation success_of_job :: "ID \<Rightarrow> event_row \<Rightarrow> bool" where
  "success_of_job j e \<equiv> er_success e \<and> er_job_id e = j"

text \<open>
  Each counter of an account is the number of the events it sums up; a job has at most one
  event of a successful delivery, and only when it is done.
\<close>

definition balanced :: "event_row list \<Rightarrow> ID \<times> nat \<times> nat \<times> nat \<Rightarrow> bool" where
  "balanced events c = (case c of (a, public, private, closed) \<Rightarrow>
     public = sql_affected (\<lambda>e. er_account_id e = a \<and> er_success e \<and> er_type e = JobPublicReply) events \<and>
     private = sql_affected (\<lambda>e. er_account_id e = a \<and> er_success e \<and> er_type e = JobPrivateMessage) events \<and>
     closed = sql_affected (\<lambda>e. er_account_id e = a \<and> \<not> er_success e) events)"

definition delivered_once :: "db \<Rightarrow> bool" where
  "delivered_once d \<longleftrightarrow>
     (\<forall>j. sql_affected (success_of_job j) (db_events d) \<le>
            (case the_job d j of None \<Rightarrow> 0 | Some r \<Rightarrow> if jr_status r = ''done'' then 1 else 0))"

definition books_ok :: "db \<Rightarrow> bool" where
  "books_ok d \<longleftrightarrow>
     (\<forall>r \<in> set (db_accounts d). balanced (db_events d) (counters r)) \<and> delivered_once d"

lemma sql_affected_append [simp]:
  "sql_affected p (xs @ ys) = sql_affected p xs + sql_affected p ys"
  by (simp add: sql_affected_def)

lemma ball_counters: "(\<forall>r \<in> set rows. P (counters r)) \<longleftrightarrow> (\<forall>c \<in> set (map counters rows). P c)"
  by auto

lemma public_not_private: "JobPublicReply \<noteq> JobPrivateMessage"
  by simp

lemma counters_count_delivery:
  "counters (count_delivery t at r) =
     (if t = JobPrivateMessage
      then (ar_id r, ar_public_replies_sent r, ar_private_messages_sent r + 1, ar_private_messages_closed r)
      else (ar_id r, ar_public_replies_sent r + 1, ar_private_messages_sent r, ar_private_messages_closed r))"
  by (simp add: counters_def count_delivery_def Let_def)

lemma counters_count_closed:
  "counters (count_closed r) =
     (ar_id r, ar_public_replies_sent r, ar_private_messages_sent r, ar_private_messages_closed r + 1)"
  by (simp add: counters_def count_closed_def)

lemma balanced_count_delivery:
  assumes bal: "balanced events (counters r)" and e: "er_success e" "er_account_id e = a"
    and t: "er_type e = JobPublicReply \<or> er_type e = JobPrivateMessage"
  shows "balanced (events @ [e])
           (counters (if ar_id r = a then count_delivery (er_type e) at r else r))"
proof (cases "ar_id r = a")
  case True
  show ?thesis
  proof (cases "er_type e = JobPrivateMessage")
    case t: True
    then show ?thesis using bal e True public_not_private
      by (simp add: balanced_def counters_count_delivery) (simp add: counters_def)
  next
    case False
    then have "er_type e = JobPublicReply" using t by blast
    then show ?thesis using bal e True public_not_private False
      by (simp add: balanced_def counters_count_delivery) (simp add: counters_def)
  qed
next
  case False
  with bal e show ?thesis by (simp add: balanced_def counters_def)
qed

lemma balanced_count_closed:
  assumes "balanced events (counters r)" "\<not> er_success e" "er_account_id e = a"
  shows "balanced (events @ [e]) (counters (if ar_id r = a then count_closed r else r))"
proof (cases "ar_id r = a")
  case True
  with assms show ?thesis
    by (simp add: balanced_def counters_count_closed) (simp add: counters_def)
next
  case False
  with assms show ?thesis by (simp add: balanced_def counters_def)
qed

lemma balanced_update:
  assumes "\<forall>r \<in> set rows. balanced events (counters r)"
    and "\<And>r. balanced events (counters r) \<Longrightarrow> balanced events' (counters (if p r then f r else r))"
  shows "\<forall>c \<in> set (map counters (sql_update p f rows)). balanced events' c"
  using assms by (simp only: set_map set_sql_update image_image ball_simps) blast

lemma ledger_balanced:
  assumes "ledger d d'" "\<forall>r \<in> set (db_accounts d). balanced (db_events d) (counters r)"
  shows "\<forall>r \<in> set (db_accounts d'). balanced (db_events d') (counters r)"
  using assms(1)
proof cases
  case quiet
  with assms(2) show ?thesis by (simp only: ball_counters)
next
  case (delivered e r r' at)
  show ?thesis
    unfolding ball_counters delivered(8,9)
    by (rule balanced_update [OF assms(2)]) (rule balanced_count_delivery, use delivered in auto)
next
  case (closed e)
  show ?thesis
    unfolding ball_counters closed(2,3)
    by (rule balanced_update [OF assms(2)]) (rule balanced_count_closed, use closed in auto)
qed

lemma pending_not_done: "pending r \<Longrightarrow> jr_status r \<noteq> ''done''"
  by (auto simp: pending_def)

lemma moves_keep_done: "job_moves known r r' \<Longrightarrow> jr_status r = ''done'' \<Longrightarrow> r' = r"
  by (auto dest!: job_moves_done simp: pending_def)

lemma delivered_once_mono:
  assumes once: "delivered_once d" and sim: "queue_sim d new d'"
  shows "sql_affected (success_of_job j) (db_events d) \<le>
           (case the_job d' j of None \<Rightarrow> 0 | Some r \<Rightarrow> if jr_status r = ''done'' then 1 else 0)"
proof (cases "the_job d j")
  case None
  then have "sql_affected (success_of_job j) (db_events d) = 0"
    using once [unfolded delivered_once_def, rule_format, of j] by simp
  then show ?thesis by simp
next
  case (Some r)
  obtain r' where r': "the_job d' j = Some r'" "job_moves (account_exists d) r r'"
    using jobs_move_select [of "account_exists d" "db_jobs d" new "db_jobs d'" j r] sim Some
    by (auto simp: queue_sim_def)
  have "sql_affected (success_of_job j) (db_events d) \<le> (if jr_status r = ''done'' then 1 else 0)"
    using once [unfolded delivered_once_def, rule_format, of j] Some by simp
  with r' moves_keep_done show ?thesis by (fastforce split: if_splits)
qed

lemma ledger_delivered_once:
  assumes led: "ledger d d'" and sim: "queue_sim d new d'" and once: "delivered_once d"
  shows "delivered_once d'"
  unfolding delivered_once_def
proof
  fix j
  note mono = delivered_once_mono [OF once sim, of j]
  from led show "sql_affected (success_of_job j) (db_events d') \<le>
      (case the_job d' j of None \<Rightarrow> 0 | Some r \<Rightarrow> if jr_status r = ''done'' then 1 else 0)"
  proof cases
    case quiet
    with mono show ?thesis by simp
  next
    case (delivered e r r' at)
    show ?thesis
    proof (cases "j = er_job_id e")
      case True
      have "sql_affected (success_of_job j) (db_events d) \<le> 0"
        using once [unfolded delivered_once_def, rule_format, of j] pending_not_done [OF delivered(2)]
          delivered(1) True by simp
      with True delivered show ?thesis by simp
    next
      case False
      with mono delivered show ?thesis by simp
    qed
  next
    case (closed e)
    with mono show ?thesis by simp
  qed
qed

lemma ledger_books_ok: "ledger d d' \<Longrightarrow> queue_sim d new d' \<Longrightarrow> books_ok d \<Longrightarrow> books_ok d'"
  unfolding books_ok_def using ledger_balanced ledger_delivered_once by blast

section \<open>Each method makes one booking\<close>

lemma ledger_quiet:
  "db_events d' = db_events d \<Longrightarrow> db_accounts d' = db_accounts d \<Longrightarrow> ledger d d'"
  by (rule ledger.quiet) simp_all

lemma ledger_jobs: "ledger d (d\<lparr>db_jobs := x\<rparr>)"
  by (rule ledger_quiet) simp_all

lemma ledger_Enqueue: "ledger d (snd (Enqueue now job d))"
  by (rule ledger_quiet) (auto simp: Enqueue_def insertJob_def split: sum.splits option.splits if_splits)

lemma ledger_insertHistory: "db_events (snd (insertHistory j dr d)) = db_events d \<and>
    db_accounts (snd (insertHistory j dr d)) = db_accounts d"
  by (simp add: insertHistory_def)

lemma ledger_EnqueueKeywordResponse: "ledger d (snd (EnqueueKeywordResponse now job draft d))"
proof -
  have keep: "db_events d' = db_events d \<and> db_accounts d' = db_accounts d"
    if "insertJob job' d = (r, d1)" "insertHistory j draft d1 = (x, d')" for job' r d1 j x d'
    using ledger_insertHistory [of j draft d1] insertJob_cases [OF that(1)] that(2) by auto
  show ?thesis
    unfolding EnqueueKeywordResponse_def
    by (auto intro!: ledger_in_tx split: sum.splits prod.splits if_splits dest!: keep
        intro: ledger_quiet)
qed

lemma ledger_delays:
  "ledger d (snd (DelayUntil now j e n d))"
  "ledger d (snd (DelayLeaseUntil now j t e n d))"
  "ledger d (snd (DelayTransientUntil j e n d))"
  "ledger d (snd (DelayTransientLeaseUntil now j t e n d))"
  "ledger d (snd (ReleaseGroupRestDelays now d))"
  by (simp_all add: DelayUntil_def DelayLeaseUntil_def DelayTransientUntil_def
      DelayTransientLeaseUntil_def ReleaseGroupRestDelays_def Let_def ledger_jobs)

lemma ledger_ClearGroupRests: "ledger d (snd (ClearGroupRests now d))"
  unfolding ClearGroupRests_def
  by (rule ledger_in_tx) (auto simp: ReleaseGroupRestDelays_def intro!: ledger_quiet)

lemma ledger_Acquire: "ledger d (snd (Acquire j a t now u d))"
  unfolding Acquire_def Let_def by (simp add: ledger_jobs split: option.split)

lemma ledger_Claim: "ledger d (snd (Claim j a d))"
  unfolding Claim_def Let_def
  by (auto intro!: ledger_in_tx ledger_jobs split: option.splits if_splits)

lemma ledger_DelayKeywordFailure_tx: "ledger d (snd (DelayKeywordFailure_tx at nxt f d))"
  by (rule ledger_quiet)
     (simp_all add: DelayKeywordFailure_tx_def Let_def finalizeKeywordFailure_def
       persistKeywordFailureMetadata_def split: option.split)

lemma ledger_DelayKeywordFailure: "ledger d (snd (DelayKeywordFailure now f d))"
proof -
  have "ledger d (snd (in_tx (DelayKeywordFailure_tx at nxt f) d))" for at nxt
    by (rule ledger_in_tx) (metis ledger_DelayKeywordFailure_tx snd_conv)
  then show ?thesis by (simp add: DelayKeywordFailure_def Let_def)
qed

subsection \<open>Successful deliveries\<close>

lemma recordSuccessfulDelivery_ok:
  assumes "recordSuccessfulDelivery j ev req d = (Inr (), d')"
  shows "db_jobs d' = db_jobs d" "db_history d' = db_history d"
    "db_events d' = db_events d @ [event_row_of j ev]"
    "\<not> sql_exists (\<lambda>e. er_id e = ev_ID ev) (db_events d)"
    "ev_Type ev = JobPrivateMessage \<or> ev_Type ev = JobPublicReply"
    "db_accounts d' = sql_update (\<lambda>r. ar_id r = ev_AccountID ev)
       (count_delivery (ev_Type ev) (formatTime (ev_CreatedAt ev))) (db_accounts d)"
    "sql_affected (\<lambda>r. ar_id r = ev_AccountID ev) (db_accounts d) = 1"
  using assms unfolding recordSuccessfulDelivery_def Let_def
  by (auto split: if_splits)

text \<open>The row a keyed update has marked done, before and after.\<close>

lemma marked_done:
  assumes "queue_ok d" and p: "\<And>r. p r \<Longrightarrow> jr_id r = j" and "sql_select p (db_jobs d) = Some r"
  shows "the_job d j = Some r" "p r"
    "the_job (d\<lparr>db_jobs := sql_update p done_row (db_jobs d)\<rparr>) j = Some (done_row r)"
proof -
  have r: "r \<in> set (db_jobs d)" "p r" using sql_select_SomeD [OF assms(3)] by auto
  then show sel: "the_job d j = Some r" "p r"
    using sql_select_key [of jr_id "db_jobs d" r] assms(1) p by (auto simp: queue_ok_def)
  have "the_job (d\<lparr>db_jobs := sql_update p done_row (db_jobs d)\<rparr>) j =
        map_option (\<lambda>r. if p r then done_row r else r) (the_job d j)"
    by (simp add: sql_select_update done_row_def)
  with sel show "the_job (d\<lparr>db_jobs := sql_update p done_row (db_jobs d)\<rparr>) j = Some (done_row r)"
    by simp
qed

lemma ledger_success:
  assumes ok: "queue_ok d" and p: "\<And>r. p r \<Longrightarrow> jr_id r = j \<and> pending r \<and> jr_account_id r = Some a"
    and sel: "sql_select p (db_jobs d) = Some r"
    and rec: "recordSuccessfulDelivery j ev req
        (d\<lparr>db_jobs := sql_update p done_row (db_jobs d)\<rparr>) = (Inr (), d')"
    and ev: "ev_AccountID ev = a" "ev_Success ev"
    and keep: "db_jobs d'' = db_jobs d'" "db_events d'' = db_events d'"
      "map counters (db_accounts d'') = map counters (db_accounts d')"
  shows "ledger d d''"
proof -
  note marked = marked_done [OF ok _ sel, of j] and rec = recordSuccessfulDelivery_ok [OF rec]
  have r: "the_job d j = Some r" "p r" using marked p by blast+
  have d': "the_job d'' j = Some (done_row r)"
    using marked(3) p by (simp add: keep rec(1))
  show ?thesis
  proof (rule ledger.delivered [where e = "event_row_of j ev" and r = r and r' = "done_row r"])
    show "map counters (db_accounts d'') = map counters (sql_update
        (\<lambda>r. ar_id r = er_account_id (event_row_of j ev))
        (count_delivery (er_type (event_row_of j ev)) (formatTime (ev_CreatedAt ev))) (db_accounts d))"
      using keep(3) rec(6) by (simp add: event_row_of_def)
    show "er_type (event_row_of j ev) = JobPublicReply \<or> er_type (event_row_of j ev) = JobPrivateMessage"
      using rec(5) by (auto simp: event_row_of_def)
  qed (use r d' p [OF r(2)] ev rec(3) keep(2) in \<open>simp_all add: event_row_of_def done_row_def\<close>)
qed

lemma sql_select_affected: "sql_affected p rows \<noteq> 0 \<longleftrightarrow> (\<exists>r. sql_select p rows = Some r)"
  by (metis not_None_eq sql_affected_0_iff sql_select_None_iff)

lemma pending_job_of_D:
  "pending_job_of j a t r \<Longrightarrow> jr_id r = j \<and> pending r \<and> jr_account_id r = Some a"
  by (simp add: pending_job_of_def)

lemma ledger_complete:
  assumes "queue_ok d" "ev_Success ev"
  shows "ledger d (snd (complete j t ev d))"
proof -
  let ?d1 = "d\<lparr>db_jobs := sql_update (pending_job_of j (ev_AccountID ev) t) done_row (db_jobs d)\<rparr>"
  have rec: "ledger d d'"
    if "recordSuccessfulDelivery j ev False ?d1 = (Inr (), d')"
      "sql_affected (pending_job_of j (ev_AccountID ev) t) (db_jobs d) \<noteq> 0" for d'
  proof -
    have "\<exists>r. sql_select (pending_job_of j (ev_AccountID ev) t) (db_jobs d) = Some r"
      using that(2) sql_select_affected by blast
    then obtain r where "sql_select (pending_job_of j (ev_AccountID ev) t) (db_jobs d) = Some r" ..
    from ledger_success [OF assms(1) pending_job_of_D this that(1)] assms(2) show ?thesis by simp
  qed
  have quiet: "ledger d ?d1" by (rule ledger_jobs)
  have "ledger d d'" if "complete j t ev d = (Inr x, d')" for x d'
  proof (cases "sql_affected (pending_job_of j (ev_AccountID ev) t) (db_jobs d) = 0")
    case True
    with that quiet show ?thesis
      by (auto simp: complete_def markPendingJobDone_def in_tx_ok split: option.splits if_splits)
  next
    case False
    with that show ?thesis
      by (intro rec) (auto simp: complete_def markPendingJobDone_def in_tx_ok
          split: if_splits sum.splits prod.splits)
  qed
  moreover have "d' = d" if "complete j t ev d = (Inl e, d')" for e d'
    using that unfolding complete_def by (auto split: if_splits dest: in_tx_error)
  ultimately show ?thesis by (cases "complete j t ev d"; cases "fst (complete j t ev d)") auto
qed

lemma ledger_CompleteLease:
  "queue_ok d \<Longrightarrow> ev_Success ev \<Longrightarrow> ledger d (snd (CompleteLease j t ev d))"
  by (simp add: CompleteLease_def ledger_complete)

lemma keyword_pending_D:
  "keyword_pending out r \<Longrightarrow>
     jr_id r = out_JobID out \<and> pending r \<and> jr_account_id r = Some (out_AccountID out)"
  by (simp add: keyword_pending_def)

lemma counters_advance:
  "map counters (sql_update p (\<lambda>r. r\<lparr>ar_next_delivery := t\<rparr>) rows) = map counters rows"
  by (rule map_key_sql_update) (simp add: counters_def)

lemma ledger_CompleteKeywordResponse:
  assumes "queue_ok d"
  shows "ledger d (snd (CompleteKeywordResponse out d))"
proof -
  let ?d1 = "d\<lparr>db_jobs := sql_update (keyword_pending out) done_row (db_jobs d)\<rparr>"
  have rec: "ledger d d''"
    if "recordSuccessfulDelivery (out_JobID out) (keyword_event out ch) True ?d1 = (Inr (), d')"
      "sql_select (keyword_pending out) (db_jobs d) = Some r"
      "db_jobs d'' = db_jobs d'" "db_events d'' = db_events d'"
      "map counters (db_accounts d'') = map counters (db_accounts d')" for d' d'' ch r
    by (rule ledger_success [OF assms keyword_pending_D that(2,1) _ _ that(3-5)])
       (simp_all add: keyword_event_def)
  have quiet: "ledger d ?d1" by (rule ledger_jobs)
  have "ledger d (snd (in_tx (CompleteKeywordResponse_tx out) d))"
  proof (rule ledger_in_tx)
    fix x d'
    assume tx: "CompleteKeywordResponse_tx out d = (Inr x, d')"
    show "ledger d d'"
    proof (cases "sql_select (keyword_pending out) (db_jobs d)")
      case None
      with tx quiet show ?thesis
        by (auto simp: CompleteKeywordResponse_tx_def markKeywordResponseDone_def Let_def
            split: sum.splits if_splits)
    next
      case (Some r)
      obtain res d2 where r2: "recordSuccessfulDelivery (out_JobID out)
          (keyword_event out (jr_channel_id r)) True ?d1 = (res, d2)" by fastforce
      have ok: "res = Inr ()"
        using tx Some r2 by (cases res)
          (simp_all add: CompleteKeywordResponse_tx_def markKeywordResponseDone_def Let_def)
      have "db_jobs d' = db_jobs d2 \<and> db_events d' = db_events d2 \<and>
          map counters (db_accounts d') = map counters (db_accounts d2)"
        using tx Some r2 ok
        by (auto simp: CompleteKeywordResponse_tx_def markKeywordResponseDone_def Let_def
            finalizeKeywordSuccess_def counters_advance split: option.splits if_splits)
      with rec [of "jr_channel_id r" d2 r d'] r2 ok Some show ?thesis by simp
    qed
  qed
  then show ?thesis by (simp add: CompleteKeywordResponse_def)
qed

subsection \<open>A private dialogue refused\<close>

lemma ledger_RecordPrivateClosed: "ledger d (snd (RecordPrivateClosed j a t d))"
proof -
  have "ledger d (snd (in_tx (RecordPrivateClosed_tx j a at) d))" for at
  proof (rule ledger_in_tx)
    fix x d'
    assume "RecordPrivateClosed_tx j a at d = (Inr x, d')"
    then have "RecordPrivateClosed_tx j a at d = (Inr (), d')" by simp
    from RecordPrivateClosed_tx_ok [OF this] consider "d' = d" | r where
      "db_accounts d' = sql_update (\<lambda>r. ar_id r = a) count_closed (db_accounts d)"
      "db_events d' = db_events d @ [private_closed_event a at r]"
      by auto
    then show "ledger d d'"
    proof cases
      case (2 r)
      then show ?thesis
        by (intro ledger.closed [where e = "private_closed_event a at r"])
           (simp_all add: private_closed_event_def)
    qed simp
  qed
  then show ?thesis by (simp add: RecordPrivateClosed_def)
qed

section \<open>Sequences of calls\<close>

lemmas ledger_methods =
  ledger_Enqueue ledger_EnqueueKeywordResponse ledger_delays ledger_ClearGroupRests
  ledger_Acquire ledger_Claim ledger_DelayKeywordFailure ledger_CompleteKeywordResponse
  ledger_RecordPrivateClosed

lemma MarkDone_cases:
  obtains "snd (MarkDone j e d) = snd (Claim j (ev_AccountID e) d)"
  | "snd (MarkDone j e d) = snd (Complete j e (snd (Claim j (ev_AccountID e) d)))"
  by (cases "Claim j (ev_AccountID e) d"; cases "fst (Claim j (ev_AccountID e) d)";
      cases "Complete j e (snd (Claim j (ev_AccountID e) d))";
      cases "fst (Complete j e (snd (Claim j (ev_AccountID e) d)))")
     (auto simp: MarkDone_def)

text \<open>Every call but the two-step \<^verbatim>\<open>MarkDone\<close> is one booking.\<close>

lemma perform_ledger:
  assumes "queue_ok d" "call_ok c" "\<nexists>j e. c = CallMarkDone j e"
  shows "ledger d (perform now c d)"
  using assms
  by (cases c) (simp_all add: Delay_def DelayLease_def DelayTransient_def DelayTransientLease_def
      Complete_def ledger_methods ledger_complete ledger_CompleteLease)

lemma perform_books_ok:
  assumes ok: "queue_ok d" "call_ok c" and books: "books_ok d"
  shows "books_ok (perform now c d)"
proof (cases "\<exists>j e. c = CallMarkDone j e")
  case False
  obtain new where "queue_sim d new (perform now c d)" using perform_sim by blast
  with perform_ledger ok False books show ?thesis by (blast intro: ledger_books_ok)
next
  case True
  then obtain j e where c: "c = CallMarkDone j e" by blast
  let ?d1 = "perform now (CallClaim j (ev_AccountID e)) d"
  have d1: "queue_ok ?d1" "books_ok ?d1"
    using perform_queue_ok [OF ok(1), of "CallClaim j (ev_AccountID e)"]
      ledger_books_ok [OF ledger_Claim sim_Claim books] by simp_all
  have "books_ok (snd (Complete j e ?d1))"
    using ledger_books_ok [OF _ sim_Complete d1(2)] ledger_complete [OF d1(1)] ok(2) c
    by (simp add: Complete_def)
  with d1(2) c show ?thesis by (cases rule: MarkDone_cases [of j e d]) simp_all
qed

lemma serve_books_ok:
  assumes "queue_ok d" "books_ok d" "\<forall>(now, c) \<in> set cs. call_ok c"
  shows "queue_ok (serve cs d) \<and> books_ok (serve cs d)"
  using assms
proof (induction cs arbitrary: d)
  case Nil
  then show ?case by simp
next
  case (Cons call cs)
  obtain now c where call: "call = (now, c)" by fastforce
  from Cons show ?case
    by (auto simp: call intro!: Cons.IH perform_queue_ok perform_books_ok)
qed

section \<open>The delivery history\<close>

text \<open>
  A history row is opened with the job and gets its outcome at most once: a row with an
  outcome never changes afterwards, and the job of a row that gets one is done.
\<close>

definition job_done :: "db \<Rightarrow> ID \<Rightarrow> bool" where
  "job_done d j \<longleftrightarrow> (case the_job d j of None \<Rightarrow> False | Some r \<Rightarrow> jr_status r = ''done'')"

definition history_step :: "db \<Rightarrow> db \<Rightarrow> bool" where
  "history_step d d' \<longleftrightarrow>
     (\<forall>h \<in> set (db_history d). hr_final_status h \<noteq> None \<longrightarrow> h \<in> set (db_history d')) \<and>
     (\<forall>h \<in> set (db_history d'). hr_final_status h \<noteq> None \<longrightarrow>
        h \<in> set (db_history d) \<or> job_done d' (hr_job_id h)) \<and>
     hr_job_id ` set (db_history d) \<subseteq> hr_job_id ` set (db_history d')"

definition history_ok :: "db \<Rightarrow> bool" where
  "history_ok d \<longleftrightarrow>
     (\<forall>h \<in> set (db_history d). hr_final_status h \<noteq> None \<longrightarrow> job_done d (hr_job_id h))"

lemma job_doneE:
  assumes "job_done d j"
  obtains r where "the_job d j = Some r" "jr_status r = ''done''"
  using assms by (cases "the_job d j") (auto simp: job_done_def)

lemma job_done_stays:
  assumes "queue_sim d new d'" "job_done d j"
  shows "job_done d' j"
proof -
  obtain r where r: "the_job d j = Some r" "jr_status r = ''done''"
    using assms(2) by (rule job_doneE)
  obtain r' where "the_job d' j = Some r'" "job_moves (account_exists d) r r'"
    using jobs_move_select [of "account_exists d" "db_jobs d" new "db_jobs d'" j r] assms(1) r(1)
    by (auto simp: queue_sim_def)
  with moves_keep_done r(2) show ?thesis by (fastforce simp: job_done_def)
qed

lemma history_step_ok: "history_step d d' \<Longrightarrow> queue_sim d new d' \<Longrightarrow> history_ok d \<Longrightarrow> history_ok d'"
  unfolding history_step_def history_ok_def using job_done_stays by blast

lemma history_same: "db_history d' = db_history d \<Longrightarrow> history_step d d'"
  by (simp add: history_step_def)

lemma history_refl [intro, simp]: "history_step d d"
  by (simp add: history_same)

lemma history_insert: "history_step d (snd (insertHistory j draft d))"
  by (auto simp: history_step_def insertHistory_def history_of_draft_def)

lemma history_update:
  assumes "db_history d' = sql_update (open_history j) f (db_history d)"
    and "\<And>h. open_history j h \<Longrightarrow> hr_job_id (f h) = hr_job_id h"
    and "job_done d' j \<or> (\<forall>h. open_history j h \<longrightarrow> hr_final_status (f h) = None)"
  shows "history_step d d'"
proof -
  have "map hr_job_id (db_history d') = map hr_job_id (db_history d)"
    using assms(1,2) by (simp add: map_key_sql_update)
  then have "hr_job_id ` set (db_history d) = hr_job_id ` set (db_history d')" by (metis set_map)
  moreover have "(\<forall>h \<in> set (db_history d). hr_final_status h \<noteq> None \<longrightarrow> h \<in> set (db_history d')) \<and>
     (\<forall>h \<in> set (db_history d'). hr_final_status h \<noteq> None \<longrightarrow>
        h \<in> set (db_history d) \<or> job_done d' (hr_job_id h))"
    using assms by (auto simp: set_sql_update open_history_def)
  ultimately show ?thesis by (simp add: history_step_def)
qed

lemma history_in_tx:
  "(\<And>x d'. m d = (Inr x, d') \<Longrightarrow> history_step d d') \<Longrightarrow> history_step d (snd (in_tx m d))"
  by (rule in_tx_keeps) auto

lemma history_Enqueue: "history_step d (snd (Enqueue now job d))"
  by (rule history_same) (auto simp: Enqueue_def insertJob_def split: sum.splits option.splits if_splits)

lemma history_EnqueueKeywordResponse: "history_step d (snd (EnqueueKeywordResponse now job draft d))"
proof -
  have keep: "history_step d d'"
    if "insertJob job' d = (r, d1)" "insertHistory j draft d1 = (x, d')" for job' r d1 j x d'
    using history_insert [of d1 j draft] insertJob_cases [OF that(1)] that(2)
    by (auto simp: history_step_def insertHistory_def history_of_draft_def split: if_splits)
  show ?thesis
    unfolding EnqueueKeywordResponse_def
    by (auto intro!: history_in_tx split: sum.splits prod.splits if_splits intro: keep)
qed

lemma history_moves:
  "history_step d (snd (DelayUntil now j e n d))"
  "history_step d (snd (DelayLeaseUntil now j t e n d))"
  "history_step d (snd (DelayTransientUntil j e n d))"
  "history_step d (snd (DelayTransientLeaseUntil now j t e n d))"
  "history_step d (snd (ReleaseGroupRestDelays now d))"
  "history_step d (snd (Acquire j a t now u d))"
  by (simp_all add: DelayUntil_def DelayLeaseUntil_def DelayTransientUntil_def Acquire_def
      DelayTransientLeaseUntil_def ReleaseGroupRestDelays_def Let_def history_same split: option.split)

lemma history_ClearGroupRests: "history_step d (snd (ClearGroupRests now d))"
  unfolding ClearGroupRests_def
  by (rule history_in_tx) (auto simp: ReleaseGroupRestDelays_def intro!: history_same)

lemma history_Claim: "history_step d (snd (Claim j a d))"
  unfolding Claim_def Let_def
  by (auto intro!: history_in_tx intro: history_same split: option.splits if_splits)

lemma history_complete: "history_step d (snd (complete j t e d))"
proof -
  have "db_history d' = db_history d" if "complete j t e d = (Inr x, d')" for x d'
    using that by (auto simp: complete_def markPendingJobDone_def in_tx_ok
        dest!: recordSuccessfulDelivery_ok(2) split: if_splits sum.splits prod.splits option.splits)
  moreover have "d' = d" if "complete j t e d = (Inl x, d')" for x d'
    using that unfolding complete_def by (auto split: if_splits dest: in_tx_error)
  ultimately show ?thesis
    by (cases "complete j t e d"; cases "fst (complete j t e d)") (auto intro: history_same)
qed

lemma history_CompleteLease: "history_step d (snd (CompleteLease j t e d))"
  by (simp add: CompleteLease_def history_complete)

lemma history_CompleteKeywordResponse:
  assumes "queue_ok d"
  shows "history_step d (snd (CompleteKeywordResponse out d))"
proof -
  let ?d1 = "d\<lparr>db_jobs := sql_update (keyword_pending out) done_row (db_jobs d)\<rparr>"
  have "history_step d (snd (in_tx (CompleteKeywordResponse_tx out) d))"
  proof (rule history_in_tx)
    fix x d'
    assume tx: "CompleteKeywordResponse_tx out d = (Inr x, d')"
    show "history_step d d'"
    proof (cases "sql_select (keyword_pending out) (db_jobs d)")
      case None
      with tx show ?thesis
        by (auto simp: CompleteKeywordResponse_tx_def markKeywordResponseDone_def Let_def
            intro!: history_same split: sum.splits if_splits)
    next
      case (Some r)
      obtain res d2 where r2: "recordSuccessfulDelivery (out_JobID out)
          (keyword_event out (jr_channel_id r)) True ?d1 = (res, d2)" by fastforce
      have "res = Inr ()"
        using tx Some r2 by (cases res)
          (simp_all add: CompleteKeywordResponse_tx_def markKeywordResponseDone_def Let_def)
      note rec = recordSuccessfulDelivery_ok [OF r2 [unfolded this]]
      have "db_jobs d' = db_jobs d2 \<and> db_history d' =
          sql_update (open_history (out_JobID out)) (finalize_success out) (db_history d2)"
        using tx Some r2 \<open>res = Inr ()\<close>
        by (auto simp: CompleteKeywordResponse_tx_def markKeywordResponseDone_def Let_def
            finalizeKeywordSuccess_def split: option.splits if_splits)
      moreover have "job_done d' (out_JobID out)"
        using marked_done(3) [OF assms _ Some, of "out_JobID out"] calculation rec(1)
        by (simp add: job_done_def keyword_pending_def done_row_def)
      ultimately show ?thesis
        using rec(2) by (intro history_update [of _ "out_JobID out" "finalize_success out"])
          (simp_all add: finalize_success_def Let_def)
    qed
  qed
  then show ?thesis by (simp add: CompleteKeywordResponse_def)
qed

lemma history_RecordPrivateClosed:
  assumes "queue_ok d"
  shows "history_step d (snd (RecordPrivateClosed j a t d))"
proof -
  have "history_step d (snd (in_tx (RecordPrivateClosed_tx j a at) d))" for at
  proof (rule history_in_tx)
    fix x d'
    assume "RecordPrivateClosed_tx j a at d = (Inr x, d')"
    then have "RecordPrivateClosed_tx j a at d = (Inr (), d')" by simp
    from RecordPrivateClosed_tx_ok [OF this] consider "d' = d" | r terminal where
      "r \<in> set (db_jobs d)" "private_pending j a r"
      "db_jobs d' = sql_update (private_pending j a) (close_private_job terminal) (db_jobs d)"
      "db_history d' = sql_update (open_history j) (close_private_history terminal a at) (db_history d)"
      by auto
    then show "history_step d d'"
    proof cases
      case (2 r terminal)
      have "the_job d j = Some r"
        using sql_select_key [of jr_id "db_jobs d" r] assms 2(1,2)
        by (simp add: queue_ok_def private_pending_def)
      then have "the_job d' j = Some (close_private_job terminal r)"
        using 2(2) by (simp add: 2(3) sql_select_update close_private_job_def)
      then have "terminal \<Longrightarrow> job_done d' j" by (simp add: job_done_def close_private_job_def)
      then show ?thesis
        by (intro history_update [OF 2(4)])
           (auto simp: close_private_history_def open_history_def)
    qed simp
  qed
  then show ?thesis by (simp add: RecordPrivateClosed_def)
qed

lemma sql_update_twice:
  "(\<And>r. p r \<Longrightarrow> p (f r)) \<Longrightarrow> sql_update p g (sql_update p f rows) = sql_update p (\<lambda>r. g (f r)) rows"
  by (induction rows) auto

lemma open_history_metadata: "open_history j h \<Longrightarrow> open_history j (failure_metadata f h)"
  by (simp add: open_history_def failure_metadata_def)

lemma history_DelayKeywordFailure_tx:
  assumes "queue_ok d"
  shows "history_step d (snd (DelayKeywordFailure_tx at nxt f d))"
proof -
  let ?p = "\<lambda>r. jr_id r = fail_JobID f \<and> jr_type r = JobKeywordResponse \<and> pending r"
  let ?f = "\<lambda>r. release_lease (delay_row (formatTime nxt) (fail_ErrorCode f) (formatTime at) r)"
  show ?thesis
  proof (cases "sql_select ?p (db_jobs d)")
    case None
    then show ?thesis by (simp add: DelayKeywordFailure_tx_def Let_def)
  next
    case (Some r)
    have r: "?p r" "the_job d (fail_JobID f) = Some r"
      using sql_select_SomeD [OF Some] sql_select_key [of jr_id "db_jobs d" r] assms
      by (auto simp: queue_ok_def)
    let ?d' = "snd (DelayKeywordFailure_tx at nxt f d)"
    have jobs: "db_jobs ?d' = sql_update ?p ?f (db_jobs d)"
      by (simp add: DelayKeywordFailure_tx_def Let_def Some persistKeywordFailureMetadata_def
          finalizeKeywordFailure_def)
    have job: "the_job ?d' (fail_JobID f) = Some (?f r)"
      using r by (simp add: jobs sql_select_update release_lease_def delay_row_def)
    show ?thesis
    proof (cases "maxDeliveryAttempts \<le> jr_attempts (?f r)")
      case True
      then have "job_done ?d' (fail_JobID f)"
        using job by (simp add: job_done_def release_lease_def delay_row_def)
      moreover have hist: "db_history ?d' = sql_update (open_history (fail_JobID f))
          (\<lambda>h. failure_metadata f h \<lparr>hr_final_status := Some ''not_delivered'',
             hr_error_code := fail_ErrorCode f, hr_finalized_at := Some (formatTime at)\<rparr>) (db_history d)"
        using True by (simp add: DelayKeywordFailure_tx_def Let_def Some persistKeywordFailureMetadata_def
            finalizeKeywordFailure_def sql_update_twice open_history_metadata)
      ultimately show ?thesis by (intro history_update [OF hist]) (simp_all add: failure_metadata_def)
    next
      case False
      then have hist:
        "db_history ?d' = sql_update (open_history (fail_JobID f)) (failure_metadata f) (db_history d)"
        by (simp add: DelayKeywordFailure_tx_def Let_def Some persistKeywordFailureMetadata_def)
      show ?thesis
        by (intro history_update [OF hist]) (auto simp: failure_metadata_def open_history_def)
    qed
  qed
qed

lemma history_DelayKeywordFailure:
  assumes "queue_ok d"
  shows "history_step d (snd (DelayKeywordFailure now f d))"
proof -
  have "history_step d (snd (in_tx (DelayKeywordFailure_tx at nxt f) d))" for at nxt
    by (rule history_in_tx) (metis history_DelayKeywordFailure_tx [OF assms] snd_conv)
  then show ?thesis by (simp add: DelayKeywordFailure_def Let_def)
qed

lemmas history_methods =
  history_Enqueue history_EnqueueKeywordResponse history_moves history_ClearGroupRests
  history_Claim history_complete history_CompleteLease history_CompleteKeywordResponse
  history_RecordPrivateClosed history_DelayKeywordFailure

lemma perform_history:
  assumes "queue_ok d" "\<nexists>j e. c = CallMarkDone j e"
  shows "history_step d (perform now c d)"
  using assms
  by (cases c) (simp_all add: Delay_def DelayLease_def DelayTransient_def DelayTransientLease_def
      Complete_def history_methods)

text \<open>The rows with an outcome, and the invariant, over one call and over many.\<close>

definition outcomes :: "db \<Rightarrow> history_row set" where
  "outcomes d = {h \<in> set (db_history d). hr_final_status h \<noteq> None}"

lemma history_step_outcomes: "history_step d d' \<Longrightarrow> outcomes d \<subseteq> outcomes d'"
  by (auto simp: history_step_def outcomes_def)

definition history_jobs :: "db \<Rightarrow> ID set" where
  "history_jobs d = hr_job_id ` set (db_history d)"

lemma history_step_jobs: "history_step d d' \<Longrightarrow> history_jobs d \<subseteq> history_jobs d'"
  by (simp add: history_step_def history_jobs_def)

lemma perform_outcomes:
  assumes ok: "queue_ok d"
  shows "outcomes d \<subseteq> outcomes (perform now c d) \<and> (history_ok d \<longrightarrow> history_ok (perform now c d))"
proof (cases "\<exists>j e. c = CallMarkDone j e")
  case False
  obtain new where "queue_sim d new (perform now c d)" using perform_sim by blast
  with perform_history [OF ok False] show ?thesis
    using history_step_outcomes history_step_ok by blast
next
  case True
  then obtain j e where c: "c = CallMarkDone j e" by blast
  let ?d1 = "snd (Claim j (ev_AccountID e) d)"
  have d1: "outcomes d \<subseteq> outcomes ?d1" "history_ok d \<longrightarrow> history_ok ?d1"
    using history_step_outcomes [OF history_Claim] history_step_ok [OF history_Claim sim_Claim]
    by blast+
  have "outcomes ?d1 \<subseteq> outcomes (snd (Complete j e ?d1))"
    "history_ok ?d1 \<longrightarrow> history_ok (snd (Complete j e ?d1))"
    unfolding Complete_def
    using history_step_outcomes [OF history_complete] history_step_ok [OF history_complete sim_complete]
    by blast+
  note d2 = this
  show ?thesis
  proof (cases rule: MarkDone_cases [of j e d])
    case 1
    show ?thesis unfolding c perform.simps 1 using d1 by (rule conjI)
  next
    case 2
    show ?thesis unfolding c perform.simps 2
      using subset_trans [OF d1(1) d2(1)] d1(2) d2(2) by blast
  qed
qed

lemma perform_history_jobs:
  assumes "queue_ok d"
  shows "history_jobs d \<subseteq> history_jobs (perform now c d)"
proof (cases "\<exists>j e. c = CallMarkDone j e")
  case False
  with perform_history [OF assms] history_step_jobs show ?thesis by blast
next
  case True
  then obtain j e where c: "c = CallMarkDone j e" by blast
  let ?d1 = "snd (Claim j (ev_AccountID e) d)"
  have "history_jobs d \<subseteq> history_jobs ?d1" "history_jobs ?d1 \<subseteq> history_jobs (snd (Complete j e ?d1))"
    unfolding Complete_def by (intro history_step_jobs history_Claim history_complete)+
  then show ?thesis by (cases rule: MarkDone_cases [of j e d]) (auto simp: c)
qed

lemma serve_history_jobs:
  assumes "queue_ok d" "\<forall>(now, c) \<in> set cs. call_ok c"
  shows "history_jobs d \<subseteq> history_jobs (serve cs d)"
  using assms
proof (induction cs arbitrary: d)
  case (Cons call cs)
  obtain now c where call: "call = (now, c)" by fastforce
  have "queue_ok (perform now c d)" using Cons.prems call by (auto intro: perform_queue_ok)
  from Cons.IH [OF this] perform_history_jobs [OF Cons.prems(1), of now c] Cons.prems(2) show ?case
    by (auto simp: call)
qed simp

lemma serve_outcomes:
  assumes "queue_ok d" "\<forall>(now, c) \<in> set cs. call_ok c"
  shows "outcomes d \<subseteq> outcomes (serve cs d) \<and> (history_ok d \<longrightarrow> history_ok (serve cs d))"
  using assms
proof (induction cs arbitrary: d)
  case Nil
  then show ?case by simp
next
  case (Cons call cs)
  obtain now c where call: "call = (now, c)" by fastforce
  have "queue_ok (perform now c d)" using Cons.prems call by (auto intro: perform_queue_ok)
  from Cons.IH [OF this] perform_outcomes [OF Cons.prems(1), of now c] Cons.prems(2) show ?case
    by (auto simp: call)
qed

text \<open>The invariant of the database under the queue.\<close>

definition queue_inv :: "db \<Rightarrow> bool" where
  "queue_inv d \<longleftrightarrow> queue_ok d \<and> books_ok d \<and> history_ok d"

lemma perform_queue_inv: "queue_inv d \<Longrightarrow> call_ok c \<Longrightarrow> queue_inv (perform now c d)"
  using perform_queue_ok perform_books_ok perform_outcomes unfolding queue_inv_def by blast

end
