(* ===== verification/JobLease.thy ===== *)
theory JobLease
  imports JobBooks
begin

text \<open>
  Leases, the choice of the next job, and completion seen from one caller: who may dispatch
  a job, for how long, and what a repeated completion does.
\<close>

section \<open>Choosing a job\<close>

lemma NextDue_Some:
  assumes "NextDue now d = Inr (Some job)"
  shows "\<exists>r \<in> set (db_jobs d). due d now r \<and> scan_job r = Some job \<and>
           (\<forall>s \<in> set (db_jobs d). due d now s \<longrightarrow> job_order r \<le> job_order s)"
  using assms by (auto simp: NextDue_def split: option.splits dest: sql_first_SomeD)

lemma NextDue_None:
  assumes "NextDue now d = Inr None"
  shows "\<forall>r \<in> set (db_jobs d). \<not> due d now r"
  using assms by (auto simp: NextDue_def sql_first_None_iff split: option.splits)

text \<open>A job whose deadline is a second past, unleased and allowed, is due.\<close>

lemma due_after_gap:
  assumes "pending r" "jr_lease_token r = ''''" "channel_allows d r"
    and "jr_next_attempt_at r = formatTime t" "t + Second \<le> now"
  shows "due d now r"
  using assms format_le_of_gap [OF assms(5)] by (simp add: due_def lease_free_def)

section \<open>Leases\<close>

definition leased :: "db \<Rightarrow> ID \<Rightarrow> string \<Rightarrow> stamp \<Rightarrow> bool" where
  "leased d j token until \<longleftrightarrow>
     token \<noteq> '''' \<and> (\<exists>r. the_job d j = Some r \<and> jr_lease_token r = token \<and> jr_lease_until r = Some until)"

lemma Acquire_True:
  assumes ok: "queue_ok d" and acq: "Acquire j a token now until d = (Inr (b, True), d')"
  shows "leased d' j token (formatTime until)"
    and "\<exists>r. the_job d' j = Some r \<and> jr_account_id r = Some a \<and> pending r \<and> b = a"
proof -
  let ?p = "\<lambda>r. jr_id r = j \<and> pending r \<and> (jr_account_id r = None \<or> jr_account_id r = Some a) \<and>
      lease_free (formatTime now) r"
  let ?f = "\<lambda>r. r\<lparr>jr_account_id := (case jr_account_id r of None \<Rightarrow> Some a | Some x \<Rightarrow> Some x),
      jr_lease_token := token, jr_lease_until := Some (formatTime until)\<rparr>"
  have token: "token \<noteq> ''''" and one: "sql_affected ?p (db_jobs d) = 1"
    and d': "d' = d\<lparr>db_jobs := sql_update ?p ?f (db_jobs d)\<rparr>"
    using acq by (auto simp: Acquire_def Let_def split: if_splits option.splits)
  obtain r where r: "r \<in> set (db_jobs d)" "?p r"
    using one sql_affected_pos_iff [of ?p "db_jobs d"] by auto
  have "the_job d j = Some r"
    using sql_select_key [of jr_id "db_jobs d" r] ok r by (simp add: queue_ok_def)
  then have job: "the_job d' j = Some (?f r)"
    using r(2) by (simp add: d' sql_select_update)
  then show "leased d' j token (formatTime until)" using token by (simp add: leased_def)
  have "b = coalesce_id (jr_account_id (?f r))"
    using acq job d' by (auto simp: Acquire_def Let_def split: if_splits option.splits)
  with job r(2) show "\<exists>r. the_job d' j = Some r \<and> jr_account_id r = Some a \<and> pending r \<and> b = a"
    by (auto simp: pending_def coalesce_id_def)
qed

text \<open>A statement keyed by a job's id that its row does not satisfy does nothing.\<close>

lemma keyed_no_row:
  assumes ok: "queue_ok d" and r: "the_job d j = Some r" and p: "\<And>x. p x \<Longrightarrow> jr_id x = j" and no: "\<not> p r"
  shows "sql_affected p (db_jobs d) = 0" "sql_update p f (db_jobs d) = db_jobs d"
proof -
  have "\<not> p x" if x: "x \<in> set (db_jobs d)" for x
  proof
    assume "p x"
    then have "the_job d j = Some x"
      using sql_select_key [of jr_id "db_jobs d" x] ok p x by (auto simp: queue_ok_def)
    with r no \<open>p x\<close> show False by simp
  qed
  then show "sql_affected p (db_jobs d) = 0" by (simp add: sql_affected_0_iff)
  then show "sql_update p f (db_jobs d) = db_jobs d" by (rule sql_update_affected_0)
qed

text \<open>While a lease runs in stored order, nobody else gets the job.\<close>

lemma Acquire_refused:
  assumes ok: "queue_ok d" and lease: "leased d j token until" and live: "\<not> until \<le> formatTime now"
  shows "snd (Acquire j a other now u d) = d \<and>
         (\<forall>b won. fst (Acquire j a other now u d) = Inr (b, won) \<longrightarrow> \<not> won)"
proof -
  obtain r where r: "the_job d j = Some r" "jr_lease_token r = token" "jr_lease_until r = Some until"
    and t: "token \<noteq> ''''" using lease by (auto simp: leased_def)
  let ?p = "\<lambda>r. jr_id r = j \<and> pending r \<and> (jr_account_id r = None \<or> jr_account_id r = Some a) \<and>
      lease_free (formatTime now) r"
  have no: "\<not> ?p r" using live r t by (simp add: lease_free_def)
  have "sql_affected ?p (db_jobs d) = 0"
    by (rule keyed_no_row(1) [OF ok r(1), where p = ?p]) (use no in simp_all)
  moreover have "d\<lparr>db_jobs := sql_update ?p f (db_jobs d)\<rparr> = d" for f
    using calculation by (simp add: sql_update_affected_0)
  ultimately show ?thesis
    unfolding Acquire_def Let_def using r(1) by (simp split: option.split)
qed

lemma lease_lasts:
  assumes "queue_ok d" "Acquire j a token now until d = (Inr (b, True), d')"
    and "queue_ok d'" "later + Second \<le> until"
  shows "snd (Acquire j a' other later u d') = d' \<and>
         (\<forall>b won. fst (Acquire j a' other later u d') = Inr (b, won) \<longrightarrow> \<not> won)"
  by (rule Acquire_refused [OF assms(3) Acquire_True(1) [OF assms(1,2)]])
     (use format_le_of_gap [OF assms(4)] in simp)

text \<open>A holder of another token can neither complete nor delay a leased job.\<close>

lemma wrong_token:
  assumes ok: "queue_ok d" and lease: "leased d j token until" and other: "other \<noteq> token" "other \<noteq> ''''"
  shows "DelayLeaseUntil now j other reason at d = (Inl ErrLeaseNotActive, d)"
    and "DelayTransientLeaseUntil now j other reason at d = (Inl ErrLeaseNotActive, d)"
    and "pending r' \<Longrightarrow> the_job d j = Some r' \<Longrightarrow> \<exists>e. CompleteLease j other ev d = (Inl e, d)"
proof -
  obtain r where r: "the_job d j = Some r" "jr_lease_token r = token"
    using lease by (auto simp: leased_def)
  let ?p = "\<lambda>r. jr_id r = j \<and> jr_lease_token r = other \<and> pending r"
  have "sql_affected ?p (db_jobs d) = 0"
    using keyed_no_row(1) [OF ok r(1), of ?p] r(2) other(1) by auto
  then show "DelayLeaseUntil now j other reason at d = (Inl ErrLeaseNotActive, d)"
    "DelayTransientLeaseUntil now j other reason at d = (Inl ErrLeaseNotActive, d)"
    using other by (simp_all add: DelayLeaseUntil_def DelayTransientLeaseUntil_def)
  let ?q = "pending_job_of j (ev_AccountID ev) other"
  have none: "sql_affected ?q (db_jobs d) = 0" "sql_update ?q done_row (db_jobs d) = db_jobs d"
    using keyed_no_row [OF ok r(1), of ?q] r(2) other by (auto simp: pending_job_of_def)
  show "\<exists>e. CompleteLease j other ev d = (Inl e, d)" if "pending r'" "the_job d j = Some r'"
    using that none pending_not_done [OF that(1)] other(2)
    by (simp add: CompleteLease_def complete_def in_tx_def markPendingJobDone_def)
qed

section \<open>Completing twice\<close>

lemma complete_again:
  assumes ok: "queue_ok d" and won: "complete j t ev d = (Inr True, d')" and ok': "queue_ok d'"
  shows "complete j t ev d' = (Inr False, d')"
proof -
  let ?p = "pending_job_of j (ev_AccountID ev) t"
  let ?d1 = "d\<lparr>db_jobs := sql_update ?p done_row (db_jobs d)\<rparr>"
  have ids: "j \<noteq> ''''" "ev_AccountID ev \<noteq> ''''"
    using won by (auto simp: complete_def split: if_splits)
  have aff: "sql_affected ?p (db_jobs d) = 1"
    and rec: "recordSuccessfulDelivery j ev False ?d1 = (Inr (), d')"
    using won ids by (auto simp: complete_def markPendingJobDone_def in_tx_ok
        split: if_splits option.splits sum.splits prod.splits)
  obtain r where sel: "sql_select ?p (db_jobs d) = Some r"
    using aff sql_select_affected [of ?p "db_jobs d"] by auto
  note marked = marked_done [OF ok _ sel, of j]
  have r: "?p r" and job: "the_job d' j = Some (done_row r)"
    using marked recordSuccessfulDelivery_ok(1) [OF rec] by (auto simp: pending_job_of_def)
  have "\<not> ?p (done_row r)" by (auto simp: pending_job_of_def done_row_def pending_def)
  then have none: "sql_affected ?p (db_jobs d') = 0" "sql_update ?p done_row (db_jobs d') = db_jobs d'"
    using keyed_no_row [OF ok' job, of ?p] by (auto simp: pending_job_of_def)
  have "jr_account_id (done_row r) = Some (ev_AccountID ev)" "jr_status (done_row r) = ''done''"
    using r by (simp_all add: pending_job_of_def done_row_def)
  with none job ids show ?thesis
    by (simp add: complete_def in_tx_def markPendingJobDone_def coalesce_id_def)
qed

section \<open>Counted and uncounted delays\<close>

lemma keyed_update_row:
  assumes "the_job d j = Some r" "\<And>x. p x \<Longrightarrow> jr_id (f x) = jr_id x" "p r"
  shows "the_job (d\<lparr>db_jobs := sql_update p f (db_jobs d)\<rparr>) j = Some (f r)"
  using assms by (simp add: sql_select_update)

lemma keyed_affected_1:
  assumes "queue_ok d" "the_job d j = Some r" "\<And>x. p x \<Longrightarrow> jr_id x = j" "p r"
  shows "sql_affected p (db_jobs d) = 1"
proof -
  have "sql_affected p (db_jobs d) \<le> 1"
    using sql_affected_key_le_1 [of jr_id "db_jobs d" p j] assms(1,3) by (simp add: queue_ok_def)
  moreover have "sql_affected p (db_jobs d) \<noteq> 0"
    using sql_select_SomeD [OF assms(2)] assms(4) by (auto simp: sql_affected_0_iff)
  ultimately show ?thesis by simp
qed

lemma DelayUntil_row:
  assumes "queue_ok d" "the_job d j = Some r" "pending r"
  shows "\<exists>d'. DelayUntil now j reason at d = (Inr (), d') \<and>
           the_job d' j = Some (delay_row (formatTime at) reason (formatTime now) r)"
proof -
  have "sql_affected (\<lambda>x. jr_id x = j \<and> pending x) (db_jobs d) = 1"
    using keyed_affected_1 [OF assms(1,2), of "\<lambda>x. jr_id x = j \<and> pending x"] sql_select_SomeD [OF assms(2)]
      assms(3) by simp
  moreover have "the_job (d\<lparr>db_jobs := sql_update (\<lambda>x. jr_id x = j \<and> pending x)
      (delay_row (formatTime at) reason (formatTime now)) (db_jobs d)\<rparr>) j =
      Some (delay_row (formatTime at) reason (formatTime now) r)"
    by (rule keyed_update_row [OF assms(2)])
       (use sql_select_SomeD [OF assms(2)] assms(3) in \<open>simp_all add: delay_row_def\<close>)
  ultimately show ?thesis by (simp add: DelayUntil_def)
qed

lemma DelayTransientUntil_row:
  assumes "queue_ok d" "the_job d j = Some r" "pending r" "reason \<noteq> restReason \<or> rest_enabled d"
  shows "\<exists>d'. DelayTransientUntil j reason at d = (Inr (), d') \<and>
           the_job d' j = Some (r\<lparr>jr_status := ''delayed'', jr_next_attempt_at := formatTime at,
                                 jr_last_error := reason\<rparr>)"
proof -
  let ?p = "\<lambda>x. jr_id x = j \<and> pending x \<and> (reason \<noteq> restReason \<or> rest_enabled d)"
  have "sql_affected ?p (db_jobs d) = 1"
    using keyed_affected_1 [OF assms(1,2), of ?p] sql_select_SomeD [OF assms(2)] assms(3,4) by simp
  moreover have "the_job (d\<lparr>db_jobs := sql_update ?p (\<lambda>r. r\<lparr>jr_status := ''delayed'',
      jr_next_attempt_at := formatTime at, jr_last_error := reason\<rparr>) (db_jobs d)\<rparr>) j =
      Some (r\<lparr>jr_status := ''delayed'', jr_next_attempt_at := formatTime at, jr_last_error := reason\<rparr>)"
    by (rule keyed_update_row [OF assms(2)]) (use sql_select_SomeD [OF assms(2)] assms(3,4) in simp_all)
  ultimately show ?thesis by (simp add: DelayTransientUntil_def)
qed

end
