(* ===== verification/QueueFacts.thy ===== *)
theory QueueFacts
  imports JobLease "HOL-Library.Code_Target_Nat"
begin

text \<open>
  The properties of the delivery queue (internal/repository/sqlite/job_store.go), for any
  sequence of repository calls and for the calls that hand a job out. The witnesses run on
  \<open>demo_db\<close>, one account, one channel and one queued job.
\<close>

section \<open>A small database for the witnesses\<close>

definition demo_account :: account_row where
  "demo_account =
     \<lparr>ar_id = ''a1'', ar_display_name = ''Ann'', ar_role = AccountRoleSpammer, ar_status = ''ready'',
      ar_status_source = '''', ar_flood_wait_until = None, ar_session_path = '''',
      ar_proxy_profile_id = None, ar_proxy_mode = ''direct'', ar_public_replies_sent = 0,
      ar_private_messages_sent = 0, ar_next_delivery = '''', ar_private_messages_closed = 0,
      ar_last_activity_at = None, ar_last_error = '''', ar_legacy_pause_review_required = False,
      ar_created_at = formatTime 1, ar_updated_at = formatTime 1\<rparr>"

definition demo_channel :: channel_row where
  "demo_channel =
     \<lparr>ch_id = ''c1'', ch_telegram_chat_id = ''100'', ch_title = ''Boats'', ch_link = ''https://t.me/boats'',
      ch_topic = ''boats'', ch_status = ''ready'', ch_active = True, ch_removal_requested_at = None,
      ch_archived_at = None, ch_sent_count = 0, ch_last_activity_at = None, ch_last_error = '''',
      ch_created_at = formatTime 1, ch_updated_at = formatTime 1\<rparr>"

definition demo_row :: job_row where
  "demo_row =
     \<lparr>jr_id = ''j1'', jr_type = JobPublicReply, jr_account_id = None, jr_channel_id = ''c1'',
      jr_rule_id = ''r1'', jr_target_telegram_id = ''42'', jr_reply_to_message_id = ''7'',
      jr_text = ''hi'', jr_allow_private = False, jr_keyword_delivery_mode = '''',
      jr_fallback_to_public = False, jr_status = ''queued'', jr_attempts = 0,
      jr_next_attempt_at = formatTime (10 * Second), jr_created_at = formatTime (10 * Second),
      jr_last_error = '''', jr_lease_token = '''', jr_lease_until = None, jr_dead_lettered_at = None\<rparr>"

definition demo_db :: db where
  "demo_db =
     \<lparr>db_accounts = [demo_account], db_outbound = [demo_channel], db_scout = [],
      db_memberships = [], db_jobs = [demo_row], db_events = [], db_history = [],
      db_canonical = [], db_rest_setting = None, db_join_setting = None\<rparr>"

definition demo_event :: OutgoingMessageEvent where
  "demo_event =
     \<lparr>ev_ID = ''e1'', ev_JobID = ''j1'', ev_AccountID = ''a1'', ev_ChannelID = ''c1'',
      ev_Type = JobPublicReply, ev_Success = True, ev_ErrorCode = '''', ev_CreatedAt = 12 * Second\<rparr>"

definition demo_calls :: "(time \<times> queue_call) list" where
  "demo_calls =
     [(11 * Second, CallAcquire ''j1'' ''a1'' ''t1'' (16 * Second)),
      (12 * Second, CallCompleteLease ''j1'' ''t1'' demo_event)]"

lemma demo_inv: "queue_inv demo_db"
  by (simp add: queue_inv_def queue_ok_def books_ok_def history_ok_def delivered_once_def
      balanced_def counters_def demo_db_def demo_account_def demo_row_def job_row_ok_def
      job_status_ok_def pending_def maxDeliveryAttempts_def)

lemma demo_calls_ok: "\<forall>(now, c) \<in> set demo_calls. call_ok c"
  by (simp add: demo_calls_def demo_event_def)

section \<open>Stored times and settings\<close>



text \<open>
  C39. Decoded settings are valid. Whatever object is decoded over whatever settings, when decoding
  succeeds the result has join intervals and rests within their limits, and normalising it
  again changes nothing.
\<close>

theorem decoded_settings_are_valid:
  assumes "UnmarshalAppSettings s present decode = Inr t"
  shows "valid_settings t \<and> Normalized t = t"
  using Unmarshal_valid [OF assms] by blast

definition demo_decode :: "AppSettings \<Rightarrow> AppSettings option" where
  "demo_decode s = Some (s\<lparr>JoinIntervalMinMinutes := 15, GroupRestEnabled := False\<rparr>)"

lemma decoded_settings_are_valid_witness:
  "\<exists>t. UnmarshalAppSettings zero_AppSettings (\<lambda>f. f = ''joinIntervalMinMinutes'') demo_decode = Inr t \<and>
     valid_settings t \<and> GroupRestEnabled t \<and> JoinIntervalMinMinutes t = 15"
proof -
  have "case UnmarshalAppSettings zero_AppSettings (\<lambda>f. f = ''joinIntervalMinMinutes'') demo_decode of
      Inr t \<Rightarrow> GroupRestEnabled t \<and> JoinIntervalMinMinutes t = 15 | Inl _ \<Rightarrow> False" by code_simp
  then obtain t where t: "UnmarshalAppSettings zero_AppSettings (\<lambda>f. f = ''joinIntervalMinMinutes'') demo_decode = Inr t"
    "GroupRestEnabled t" "JoinIntervalMinMinutes t = 15" by (auto split: sum.splits)
  with decoded_settings_are_valid [OF t(1)] show ?thesis by blast
qed

section \<open>The queue: properties\<close>

text \<open>
  C1. Exactly-once accounting. Whatever sequence of repository calls runs, whatever each of
  them returns, every job has at most one event of a successful delivery, every account's
  counters of public replies, private messages and refused dialogues equal the numbers of its
  events, and a delivery history row has an outcome only when its job is done.
\<close>

theorem deliveries_are_booked_once:
  assumes "queue_inv d" and "\<forall>(now, c) \<in> set cs. call_ok c"
  shows "(\<forall>j. sql_affected (\<lambda>e. er_success e \<and> er_job_id e = j) (db_events (serve cs d)) \<le> 1) \<and>
    (\<forall>r \<in> set (db_accounts (serve cs d)). balanced (db_events (serve cs d)) (counters r)) \<and>
    (\<forall>h \<in> set (db_history (serve cs d)). hr_final_status h \<noteq> None \<longrightarrow>
       job_done (serve cs d) (hr_job_id h))"
proof -
  have books: "books_ok (serve cs d)" "history_ok (serve cs d)"
    using assms serve_books_ok serve_outcomes unfolding queue_inv_def by blast+
  have "sql_affected (\<lambda>e. er_success e \<and> er_job_id e = j) (db_events (serve cs d)) \<le> 1" for j
  proof -
    have "(case the_job (serve cs d) j of None \<Rightarrow> 0 | Some r \<Rightarrow> if jr_status r = ''done'' then 1 else 0)
        \<le> (1::nat)" by (simp split: option.split)
    moreover have "sql_affected (success_of_job j) (db_events (serve cs d)) \<le>
        (case the_job (serve cs d) j of None \<Rightarrow> 0 | Some r \<Rightarrow> if jr_status r = ''done'' then 1 else 0)"
      using books(1) unfolding books_ok_def delivered_once_def by blast
    ultimately show ?thesis by (rule le_trans [rotated])
  qed
  with books show ?thesis by (simp add: books_ok_def history_ok_def)
qed

lemma demo_served: "db_events (serve demo_calls demo_db) = [event_row_of ''j1'' demo_event]"
  by code_simp

lemma deliveries_are_booked_once_witness:
  "sql_affected (\<lambda>e. er_success e \<and> er_job_id e = ''j1'') (db_events (serve demo_calls demo_db)) \<le> 1 \<and>
   db_events (serve demo_calls demo_db) = [event_row_of ''j1'' demo_event]"
  using deliveries_are_booked_once [OF demo_inv demo_calls_ok] demo_served by blast

text \<open>
  C11. A job keeps its identity, its first claim and its end. Whatever calls follow, a stored
  job is still there with the same type, channel, rule, target, text and creation time; an
  account that claimed it is never replaced; its attempts never go down; permission to write
  privately is never given back; and once it is done its row does not change at all.
\<close>

theorem jobs_keep_their_claim_and_end:
  assumes "the_job d j = Some r"
  shows "\<exists>r'. the_job (serve cs d) j = Some r' \<and> job_identity r' = job_identity r \<and>
    (\<forall>a. jr_account_id r = Some a \<longrightarrow> jr_account_id r' = Some a) \<and>
    jr_attempts r \<le> jr_attempts r' \<and> (\<not> jr_allow_private r \<longrightarrow> \<not> jr_allow_private r') \<and>
    (jr_status r = ''done'' \<longrightarrow> r' = r)"
  using serve_job [OF assms, of cs] job_moves_identity job_moves_account job_moves_attempts
    job_moves_allow_private moves_keep_done by metis

lemma jobs_keep_their_claim_and_end_witness:
  "\<exists>r'. the_job (serve demo_calls demo_db) ''j1'' = Some r' \<and> job_identity r' = job_identity demo_row"
proof -
  have "the_job demo_db ''j1'' = Some demo_row" by (simp add: demo_db_def demo_row_def)
  from jobs_keep_their_claim_and_end [OF this, of demo_calls] show ?thesis by blast
qed

text \<open>
  C12. Attempts are bounded. In any state calls lead to, a job has at most eight counted
  attempts, a job still pending fewer than eight, and a dead-lettered job is done after eight.
\<close>

theorem attempts_are_bounded:
  assumes "queue_inv d" and "\<forall>(now, c) \<in> set cs. call_ok c" and "r \<in> set (db_jobs (serve cs d))"
  shows "jr_attempts r \<le> maxDeliveryAttempts \<and> (pending r \<longrightarrow> jr_attempts r < maxDeliveryAttempts) \<and>
    (jr_dead_lettered_at r \<noteq> None \<longrightarrow> jr_status r = ''done'' \<and> jr_attempts r = maxDeliveryAttempts)"
proof -
  have "queue_ok (serve cs d)" using assms(1,2) serve_books_ok unfolding queue_inv_def by blast
  with assms(3) have "job_row_ok (account_exists (serve cs d)) r" unfolding queue_ok_def by blast
  then show ?thesis unfolding job_row_ok_def by blast
qed

definition demo_failures :: "(time \<times> queue_call) list" where
  "demo_failures = map (\<lambda>i. (int i * Minute, CallDelay ''j1'' ''send_failed'')) [0..<8]"

lemma demo_failures_rows:
  "map (\<lambda>r. (jr_status r, jr_attempts r)) (db_jobs (serve demo_failures demo_db)) = [(''done'', 8)]"
  by code_simp

lemma attempts_are_bounded_witness:
  "list_all (\<lambda>r. jr_attempts r \<le> maxDeliveryAttempts) (db_jobs (serve demo_failures demo_db)) \<and>
   map (\<lambda>r. (jr_status r, jr_attempts r)) (db_jobs (serve demo_failures demo_db)) = [(''done'', 8)]"
proof -
  have "\<forall>(now, c) \<in> set demo_failures. call_ok c" by (auto simp: demo_failures_def)
  from attempts_are_bounded [OF demo_inv this] demo_failures_rows show ?thesis
    by (auto simp: list_all_iff)
qed

text \<open>
  C13. An outcome in the delivery history is final: a row that has one is found unchanged after
  any calls.
\<close>

theorem outcomes_are_final:
  assumes "queue_inv d" and "\<forall>(now, c) \<in> set cs. call_ok c"
  shows "outcomes d \<subseteq> outcomes (serve cs d)"
  using assms serve_outcomes unfolding queue_inv_def by blast

lemma outcomes_are_final_witness:
  "outcomes (serve demo_calls demo_db) \<subseteq> outcomes (serve demo_failures (serve demo_calls demo_db))"
proof -
  have inv: "queue_inv (serve demo_calls demo_db)"
    using demo_inv demo_calls_ok serve_books_ok serve_outcomes unfolding queue_inv_def by blast
  have "\<forall>(now, c) \<in> set demo_failures. call_ok c" by (auto simp: demo_failures_def)
  from outcomes_are_final [OF inv this] show ?thesis .
qed


section \<open>Handing jobs out\<close>

text \<open>
  The queue hands out the first of the due jobs. The job NextDue returns is the job of a due
  row, least in the order of deadline, creation time and id among the due rows; when it returns
  none, no row is due.
\<close>

theorem next_due_is_the_first:
  "(\<forall>job. NextDue now d = Inr (Some job) \<longrightarrow>
      (\<exists>r \<in> set (db_jobs d). due d now r \<and> scan_job r = Some job \<and>
         (\<forall>s \<in> set (db_jobs d). due d now s \<longrightarrow> job_order r \<le> job_order s))) \<and>
   (NextDue now d = Inr None \<longrightarrow> (\<forall>r \<in> set (db_jobs d). \<not> due d now r))"
  using NextDue_Some NextDue_None by blast

lemma demo_due: "\<exists>job. NextDue (12 * Second) demo_db = Inr (Some job) \<and> job_ID job = ''j1''"
proof -
  have "case NextDue (12 * Second) demo_db of Inr (Some job) \<Rightarrow> job_ID job = ''j1'' | _ \<Rightarrow> False"
    by code_simp
  then show ?thesis by (auto split: sum.splits option.splits)
qed

lemma next_due_is_the_first_witness:
  "\<exists>job. NextDue (12 * Second) demo_db = Inr (Some job) \<and>
     (\<exists>r. r \<in> set (db_jobs demo_db) \<and> due demo_db (12 * Second) r \<and> scan_job r = Some job)"
  using next_due_is_the_first [of "12 * Second" demo_db] demo_due by blast


lemma demo_acquired:
  "fst (Acquire ''j1'' ''a1'' ''t1'' (11 * Second) (16 * Second) demo_db) = Inr (''a1'', True)"
  by code_simp


text \<open>
  Completing a job twice does nothing the second time: the call that repeats a successful
  completion reports that nothing was completed and leaves the database as it is.
\<close>

theorem completion_is_idempotent:
  assumes "queue_inv d" "ev_Success ev" "complete j t ev d = (Inr True, d')"
  shows "complete j t ev d' = (Inr False, d')"
proof -
  have "queue_inv d'"
    using perform_queue_inv [OF assms(1), of "CallComplete j ev" 0]
      perform_queue_inv [OF assms(1), of "CallCompleteLease j t ev" 0] assms(2,3)
    by (cases "t = ''''") (simp_all add: Complete_def CompleteLease_def)
  with assms show ?thesis using complete_again unfolding queue_inv_def by blast
qed

lemma completion_is_idempotent_witness:
  "let d = snd (Claim ''j1'' ''a1'' demo_db);
       d' = snd (complete ''j1'' '''' demo_event d)
   in complete ''j1'' '''' demo_event d' = (Inr False, d')"
proof -
  let ?d = "snd (Claim ''j1'' ''a1'' demo_db)"
  let ?d' = "snd (complete ''j1'' '''' demo_event ?d)"
  have "queue_inv (perform 0 (CallClaim ''j1'' ''a1'') demo_db)"
    by (rule perform_queue_inv [OF demo_inv]) simp
  then have inv: "queue_inv ?d" by simp
  have "fst (complete ''j1'' '''' demo_event ?d) = Inr True" by code_simp
  then have "complete ''j1'' '''' demo_event ?d = (Inr True, ?d')" by (metis prod.collapse)
  from completion_is_idempotent [OF inv _ this] show ?thesis by (simp add: Let_def demo_event_def)
qed




text \<open>
  A pending job can always be put off, and only failures are counted. A counted delay adds one
  attempt and either leaves the job pending until the time given or, at the eighth attempt, ends
  it as dead-lettered; a transient delay leaves the attempts alone and the job pending, with the
  time and the reason given.
\<close>

theorem only_failures_are_counted:
  assumes "queue_inv d" "the_job d j = Some r" "pending r"
  shows "(\<exists>d' r'. DelayUntil now j reason at d = (Inr (), d') \<and> the_job d' j = Some r' \<and>
      jr_attempts r' = jr_attempts r + 1 \<and>
      (if jr_attempts r + 1 = maxDeliveryAttempts
       then jr_status r' = ''done'' \<and> jr_dead_lettered_at r' = Some (formatTime now)
       else pending r' \<and> jr_next_attempt_at r' = formatTime at)) \<and>
    (reason \<noteq> restReason \<longrightarrow>
      (\<exists>d' r'. DelayTransientUntil j reason at d = (Inr (), d') \<and> the_job d' j = Some r' \<and>
        jr_attempts r' = jr_attempts r \<and> pending r' \<and> jr_last_error r' = reason \<and>
        jr_next_attempt_at r' = formatTime at))"
proof -
  have ok: "queue_ok d" using assms(1) by (simp add: queue_inv_def)
  have "r \<in> set (db_jobs d)" using sql_select_SomeD [OF assms(2)] by simp
  then have few: "jr_attempts r < maxDeliveryAttempts"
    using ok assms(3) unfolding queue_ok_def job_row_ok_def by blast
  obtain d' where counted: "DelayUntil now j reason at d = (Inr (), d')"
    "the_job d' j = Some (delay_row (formatTime at) reason (formatTime now) r)"
    using DelayUntil_row [OF ok assms(2,3)] by blast
  let ?r = "delay_row (formatTime at) reason (formatTime now) r"
  have row: "jr_attempts ?r = jr_attempts r + 1 \<and>
      (if jr_attempts r + 1 = maxDeliveryAttempts
       then jr_status ?r = ''done'' \<and> jr_dead_lettered_at ?r = Some (formatTime now)
       else pending ?r \<and> jr_next_attempt_at ?r = formatTime at)"
    using few by (auto simp: delay_row_def pending_def)
  show ?thesis
  proof (intro conjI impI)
    show "\<exists>d' r'. DelayUntil now j reason at d = (Inr (), d') \<and> the_job d' j = Some r' \<and>
      jr_attempts r' = jr_attempts r + 1 \<and>
      (if jr_attempts r + 1 = maxDeliveryAttempts
       then jr_status r' = ''done'' \<and> jr_dead_lettered_at r' = Some (formatTime now)
       else pending r' \<and> jr_next_attempt_at r' = formatTime at)"
      using counted row by blast
    assume "reason \<noteq> restReason"
    then show "\<exists>d' r'. DelayTransientUntil j reason at d = (Inr (), d') \<and> the_job d' j = Some r' \<and>
        jr_attempts r' = jr_attempts r \<and> pending r' \<and> jr_last_error r' = reason \<and>
        jr_next_attempt_at r' = formatTime at"
      using DelayTransientUntil_row [OF ok assms(2,3), of reason at] by (auto simp: pending_def)
  qed
qed

lemma only_failures_are_counted_witness:
  "(\<exists>d' r'. DelayUntil (12 * Second) ''j1'' ''send_failed'' (20 * Second) demo_db = (Inr (), d') \<and>
     the_job d' ''j1'' = Some r' \<and> jr_attempts r' = 1) \<and>
   (\<exists>d' r'. DelayTransientUntil ''j1'' ''offline'' (20 * Second) demo_db = (Inr (), d') \<and>
     the_job d' ''j1'' = Some r' \<and> jr_attempts r' = 0)"
proof -
  have job: "the_job demo_db ''j1'' = Some demo_row" "pending demo_row"
    by (simp_all add: demo_db_def demo_row_def pending_def)
  have "jr_attempts demo_row = 0" "''offline'' \<noteq> restReason" by (simp_all add: demo_row_def restReason_def)
  with only_failures_are_counted [OF demo_inv job, of "12 * Second" "''send_failed''" "20 * Second"]
    only_failures_are_counted [OF demo_inv job, of "12 * Second" "''offline''" "20 * Second"]
  show ?thesis by auto
qed

end
