(* ===== verification/Pacing.thy ===== *)
theory Pacing
  imports Prelude "HOL-Library.Sublist"
begin

text \<open>
  What a rate limiter promises, stated for the list of requests it grants, and the two
  interfaces through which the limiters of the program are shown to keep it: a minimum gap
  between grants, and a cap on the grants of one minute. \<open>grants\<close> runs a limiter over
  a list of requests; the lemmas about a run are proved once per interface.
\<close>

fun grants :: "('s \<Rightarrow> 'i \<Rightarrow> bool \<times> 's) \<Rightarrow> 's \<Rightarrow> 'i list \<Rightarrow> 'i list" where
  "grants allow s [] = []"
| "grants allow s (i # is) =
     (case allow s i of
        (True, s') \<Rightarrow> i # grants allow s' is
      | (False, s') \<Rightarrow> grants allow s' is)"

lemma subseq_grants: "subseq (grants allow s is) is"
  by (induction "is" arbitrary: s) (auto split: prod.splits bool.splits)

definition spaced :: "duration \<Rightarrow> time list \<Rightarrow> bool" where
  "spaced gap ts \<longleftrightarrow> sorted_wrt (\<lambda>a b. a + gap \<le> b) ts"

definition in_window :: "time \<Rightarrow> time \<Rightarrow> bool" where
  "in_window t g \<longleftrightarrow> t - Minute < g \<and> g \<le> t"

definition capped :: "nat \<Rightarrow> time list \<Rightarrow> bool" where
  "capped cap ts \<longleftrightarrow> (\<forall>t. length (filter (in_window t) ts) \<le> cap)"

lemma spaced_subseq: "subseq xs ys \<Longrightarrow> spaced gap ys \<Longrightarrow> spaced gap xs"
  unfolding spaced_def
proof (induction rule: list_emb.induct)
  case (list_emb_Cons2 x y xs ys)
  then show ?case by (auto dest: list_emb_set)
qed auto

lemma capped_subseq:
  assumes "subseq xs ys" "capped cap ys"
  shows "capped cap xs"
  unfolding capped_def
proof
  fix t
  have "subseq (filter (in_window t) xs) (filter (in_window t) ys)"
    using assms(1) by (rule subseq_filter)
  then have "length (filter (in_window t) xs) \<le> length (filter (in_window t) ys)"
    by (rule list_emb_length)
  with assms(2) show "length (filter (in_window t) xs) \<le> cap"
    unfolding capped_def using le_trans by blast
qed

section \<open>A minimum gap\<close>

locale gap_limiter =
  fixes allow :: "'s \<Rightarrow> 'i \<Rightarrow> bool \<times> 's"
    and time_of :: "'i \<Rightarrow> time"
    and last_grant :: "'s \<Rightarrow> time"
    and gap :: duration
    and inv :: "'s \<Rightarrow> bool"
  assumes gap_nonneg: "0 \<le> gap"
    and gap_inv: "inv s \<Longrightarrow> allow s i = (b, s') \<Longrightarrow> inv s'"
    and gap_granted: "inv s \<Longrightarrow> allow s i = (True, s') \<Longrightarrow>
           (IsZero (last_grant s) \<or> gap \<le> time_of i - last_grant s) \<and> last_grant s' = time_of i"
    and gap_denied: "inv s \<Longrightarrow> allow s i = (False, s') \<Longrightarrow> last_grant s' = last_grant s"
begin

lemma grants_after_last:
  assumes "inv s" "\<forall>i \<in> set is. 0 < time_of i"
  shows "\<forall>g \<in> set (grants allow s is).
           IsZero (last_grant s) \<or> last_grant s + gap \<le> time_of g"
  using assms
proof (induction "is" arbitrary: s)
  case Nil
  then show ?case by simp
next
  case (Cons i "is")
  obtain b s' where step: "allow s i = (b, s')" by fastforce
  have IH: "\<forall>g \<in> set (grants allow s' is). IsZero (last_grant s') \<or> last_grant s' + gap \<le> time_of g"
    using Cons.IH [of s'] Cons.prems gap_inv [OF _ step] by simp
  show ?case
  proof (cases b)
    case True
    then have "IsZero (last_grant s) \<or> gap \<le> time_of i - last_grant s" "last_grant s' = time_of i"
      using gap_granted Cons.prems(1) step by auto
    then show ?thesis
      using True step IH Cons.prems gap_nonneg by (fastforce simp: IsZero_def)
  next
    case False
    then show ?thesis using step IH Cons.prems(1) gap_denied [of s i s'] by simp
  qed
qed

lemma grants_spaced:
  assumes "inv s" "\<forall>i \<in> set is. 0 < time_of i"
  shows "spaced gap (map time_of (grants allow s is))"
  using assms
proof (induction "is" arbitrary: s)
  case Nil
  then show ?case by (simp add: spaced_def)
next
  case (Cons i "is")
  obtain b s' where step: "allow s i = (b, s')" by fastforce
  have inv': "inv s'" using Cons.prems(1) step by (rule gap_inv)
  with Cons have IH: "spaced gap (map time_of (grants allow s' is))" by simp
  show ?case
  proof (cases b)
    case True
    then have "last_grant s' = time_of i" using gap_granted Cons.prems(1) step by auto
    then have "\<forall>g \<in> set (grants allow s' is). time_of i + gap \<le> time_of g"
      using grants_after_last [OF inv', of "is"] Cons.prems by (auto simp: IsZero_def)
    with True step IH show ?thesis by (auto simp: spaced_def)
  next
    case False
    with step IH show ?thesis by simp
  qed
qed

end

section \<open>A cap per minute\<close>

text \<open>
  \<open>counted\<close> selects the requests the window counts (all of them, or those of one account).
  A limiter keeps a list of past grants, from which it only ever drops grants that have left
  the minute before the request at hand.
\<close>

locale window_limiter =
  fixes allow :: "'s \<Rightarrow> 'i \<Rightarrow> bool \<times> 's"
    and time_of :: "'i \<Rightarrow> time"
    and counted :: "'i \<Rightarrow> bool"
    and kept :: "'s \<Rightarrow> time list"
    and cap :: nat
    and inv :: "'s \<Rightarrow> bool"
  assumes window_inv: "inv s \<Longrightarrow> allow s i = (b, s') \<Longrightarrow> inv s'"
    and window_granted: "inv s \<Longrightarrow> allow s i = (True, s') \<Longrightarrow> counted i \<Longrightarrow>
           length (filter (\<lambda>g. time_of i - Minute < g) (kept s)) < cap \<and>
           kept s' = filter (\<lambda>g. time_of i - Minute < g) (kept s) @ [time_of i]"
    and window_denied: "inv s \<Longrightarrow> allow s i = (False, s') \<Longrightarrow> counted i \<Longrightarrow>
           kept s' = kept s \<or> kept s' = filter (\<lambda>g. time_of i - Minute < g) (kept s)"
    and window_other: "inv s \<Longrightarrow> allow s i = (b, s') \<Longrightarrow> \<not> counted i \<Longrightarrow> kept s' = kept s"
begin

text \<open>
  \<open>tracks past s now\<close>: of the grants \<open>past\<close>, the limiter still keeps every one
  of the last minute before any request from \<open>now\<close> on.
\<close>

definition tracks :: "time list \<Rightarrow> 's \<Rightarrow> time \<Rightarrow> bool" where
  "tracks past s now \<longleftrightarrow>
     (\<forall>g \<in> set past. g \<le> now) \<and> capped cap past \<and>
     (\<forall>w \<ge> now - Minute. filter (\<lambda>g. w < g) (kept s) = filter (\<lambda>g. w < g) past)"

lemma tracks_later: "tracks past s now \<Longrightarrow> now \<le> now' \<Longrightarrow> tracks past s now'"
  unfolding tracks_def by (meson diff_right_mono order_trans)

lemma filter_tail: "w \<le> v \<Longrightarrow> filter (\<lambda>g. v < g) (filter (\<lambda>g. w < (g::int)) xs) = filter (\<lambda>g. v < g) xs"
  by (induction xs) auto

lemma tracks_grant:
  assumes inv: "inv s" and tr: "tracks past s (time_of i)" and step: "allow s i = (True, s')" and c: "counted i"
  shows "tracks (past @ [time_of i]) s' (time_of i)"
proof -
  let ?n = "time_of i"
  have le: "\<forall>g \<in> set past. g \<le> ?n" and cap: "capped cap past"
    and same: "\<And>w. ?n - Minute \<le> w \<Longrightarrow> filter (\<lambda>g. w < g) (kept s) = filter (\<lambda>g. w < g) past"
    using tr by (auto simp: tracks_def)
  have few: "length (filter (\<lambda>g. ?n - Minute < g) (kept s)) < cap"
    and new: "kept s' = filter (\<lambda>g. ?n - Minute < g) (kept s) @ [?n]"
    using window_granted [OF inv step c] by auto
  have few': "length (filter (\<lambda>g. ?n - Minute < g) past) < cap"
    using few same [of "?n - Minute"] by simp
  have "capped cap (past @ [?n])"
    unfolding capped_def
  proof
    fix t
    show "length (filter (in_window t) (past @ [?n])) \<le> cap"
    proof (cases "in_window t ?n")
      case True
      have "filter (in_window t) past = filter (in_window t) (filter (\<lambda>g. ?n - Minute < g) past)"
        using True by (induction past) (auto simp: in_window_def)
      then have "length (filter (in_window t) past) \<le> length (filter (\<lambda>g. ?n - Minute < g) past)"
        by (metis length_filter_le)
      with True few' show ?thesis by simp
    next
      case False
      with cap show ?thesis by (simp add: capped_def)
    qed
  qed
  moreover have "filter (\<lambda>g. w < g) (kept s') = filter (\<lambda>g. w < g) (past @ [?n])"
    if "?n - Minute \<le> w" for w
    using same [OF that] filter_tail [OF that, of "kept s"] by (simp add: new)
  ultimately show ?thesis using le by (auto simp: tracks_def)
qed

lemma tracks_deny:
  assumes inv: "inv s" and tr: "tracks past s (time_of i)" and step: "allow s i = (False, s')" and c: "counted i"
  shows "tracks past s' (time_of i)"
  using window_denied [OF inv step c] tr filter_tail [of "time_of i - Minute" _ "kept s"]
  by (auto simp: tracks_def)

lemma grants_capped_from:
  assumes "inv s" "tracks past s now" "sorted (map time_of is)" "\<forall>i \<in> set is. now \<le> time_of i"
  shows "capped cap (past @ map time_of (filter counted (grants allow s is)))"
  using assms
proof (induction "is" arbitrary: past s now)
  case Nil
  then show ?case by (simp add: tracks_def)
next
  case (Cons i "is")
  obtain b s' where step: "allow s i = (b, s')" by fastforce
  have inv': "inv s'" using Cons.prems(1) step by (rule window_inv)
  have now: "tracks past s (time_of i)"
    using Cons.prems by (auto intro: tracks_later)
  have later: "sorted (map time_of is)" "\<forall>j \<in> set is. time_of i \<le> time_of j"
    using Cons.prems(3) by auto
  consider (grant) "b" "counted i" | (deny) "\<not> b" "counted i" | (other) "\<not> counted i" by blast
  then show ?case
  proof cases
    case grant
    then have "tracks (past @ [time_of i]) s' (time_of i)"
      using tracks_grant Cons.prems(1) now step by simp
    from Cons.IH [OF inv' this later] show ?thesis using grant step by simp
  next
    case deny
    then have "tracks past s' (time_of i)"
      using tracks_deny Cons.prems(1) now step by simp
    from Cons.IH [OF inv' this later] show ?thesis using deny step by simp
  next
    case other
    then have "tracks past s' (time_of i)"
      using window_other [OF Cons.prems(1) step] now by (simp add: tracks_def)
    from Cons.IH [OF inv' this later] show ?thesis using other step by (cases b) auto
  qed
qed

lemma grants_capped:
  assumes "inv s" "kept s = []" "sorted (map time_of is)"
  shows "capped cap (map time_of (filter counted (grants allow s is)))"
proof (cases "is")
  case Nil
  then show ?thesis by (simp add: capped_def)
next
  case (Cons i rest)
  have "tracks [] s (time_of i)" using assms(2) by (simp add: tracks_def capped_def)
  moreover have "\<forall>j \<in> set is. time_of i \<le> time_of j" using assms(3) Cons by auto
  ultimately show ?thesis
    using grants_capped_from [of s "[]" "time_of i" "is"] assms(1,3) by simp
qed

end

end
