(* ===== verification/RateLimit.thy ===== *)
theory RateLimit
  imports Domain Pacing
begin

text \<open>
  The scheduler's helpers: the round robin account selector (internal/usecase/selector.go)
  and the in-memory limiter (internal/usecase/ratelimit.go).
\<close>

section \<open>RoundRobinSelector\<close>

record RoundRobinSelector =
  rr_next :: nat

definition NewRoundRobinSelector :: RoundRobinSelector where
  "NewRoundRobinSelector = \<lparr>rr_next = 0\<rparr>"

definition eligible_spammers :: "Account list \<Rightarrow> Account list" where
  "eligible_spammers accounts =
     filter (\<lambda>a. Eligible a \<and> acc_Role a = AccountRoleSpammer) accounts"

text \<open>The result is \<open>None\<close> for the error \<^verbatim>\<open>no eligible accounts\<close>.\<close>

definition Next ::
  "RoundRobinSelector \<Rightarrow> Account list \<Rightarrow> Account option \<times> RoundRobinSelector" where
  "Next s accounts =
     (let eligible = eligible_spammers accounts in
      if eligible = [] then (None, s)
      else (Some (eligible ! (rr_next s mod length eligible)), s\<lparr>rr_next := rr_next s + 1\<rparr>))"

lemma Next_SomeD:
  assumes "Next s accounts = (Some a, s')"
  shows "a \<in> set accounts \<and> Eligible a \<and> acc_Role a = AccountRoleSpammer
         \<and> rr_next s' = Suc (rr_next s)"
proof -
  have ne: "eligible_spammers accounts \<noteq> []"
    and a: "a = eligible_spammers accounts ! (rr_next s mod length (eligible_spammers accounts))"
    and s': "rr_next s' = Suc (rr_next s)"
    using assms by (auto simp: Next_def Let_def split: if_splits)
  from ne a have "a \<in> set (eligible_spammers accounts)" by simp
  with s' show ?thesis by (simp add: eligible_spammers_def)
qed

lemma Next_None_iff:
  "fst (Next s accounts) = None \<longleftrightarrow> (\<forall>a \<in> set accounts. \<not> (Eligible a \<and> acc_Role a = AccountRoleSpammer))"
  by (auto simp: Next_def Let_def eligible_spammers_def filter_empty_conv)

text \<open>\<open>n\<close> selections from an unchanging list of accounts.\<close>

fun selections :: "nat \<Rightarrow> RoundRobinSelector \<Rightarrow> Account list \<Rightarrow> Account list" where
  "selections 0 s accounts = []"
| "selections (Suc n) s accounts =
     (case Next s accounts of
        (None, s') \<Rightarrow> []
      | (Some a, s') \<Rightarrow> a # selections n s' accounts)"

lemma selections_nth:
  assumes "eligible_spammers accounts \<noteq> []"
  shows "selections n s accounts =
     map (\<lambda>i. eligible_spammers accounts ! ((rr_next s + i) mod length (eligible_spammers accounts))) [0..<n]"
proof (induction n arbitrary: s)
  case 0
  then show ?case by simp
next
  case (Suc n)
  show ?case
    using assms
    by (simp add: Next_def Let_def Suc map_upt_Suc del: upt_Suc)
qed

lemma mod_add_left_eq_imp: "(a + i) mod n = (a + j) mod n \<Longrightarrow> i mod n = j mod (n::nat)"
proof (induction i j rule: linorder_wlog)
  case (le i j)
  then have "n dvd (a + j) - (a + i)" by (metis add_le_cancel_left mod_eq_dvd_iff_nat)
  then have "n dvd j - i" by simp
  with le(1) show ?case by (metis mod_eq_dvd_iff_nat)
qed simp

text \<open>
  Fairness: any run of as many selections as there are eligible accounts picks each of them
  exactly once.
\<close>

lemma round_of_selections:
  assumes ne: "eligible_spammers accounts \<noteq> []" and d: "distinct (eligible_spammers accounts)"
  shows "distinct (selections (length (eligible_spammers accounts)) s accounts)"
    and "set (selections (length (eligible_spammers accounts)) s accounts) =
         set (eligible_spammers accounts)"
proof -
  let ?e = "eligible_spammers accounts"
  let ?n = "length ?e"
  let ?sel = "selections ?n s accounts"
  have inj: "inj_on (\<lambda>i. ?e ! ((rr_next s + i) mod ?n)) {0..<?n}"
  proof (rule inj_onI)
    fix i j
    assume ij: "i \<in> {0..<?n}" "j \<in> {0..<?n}"
      and eq: "?e ! ((rr_next s + i) mod ?n) = ?e ! ((rr_next s + j) mod ?n)"
    then have "(rr_next s + i) mod ?n = (rr_next s + j) mod ?n"
      using d ne by (simp add: nth_eq_iff_index_eq)
    then have "i mod ?n = j mod ?n" by (rule mod_add_left_eq_imp)
    with ij show "i = j" by simp
  qed
  show dist: "distinct ?sel"
    using inj by (simp add: selections_nth [OF ne] distinct_map)
  have "set ?sel \<subseteq> set ?e"
    using ne by (auto simp: selections_nth [OF ne])
  moreover have "card (set ?sel) = card (set ?e)"
  proof -
    have "length ?sel = ?n" by (simp add: selections_nth [OF ne])
    then show ?thesis using distinct_card [OF dist] distinct_card [OF d] by simp
  qed
  ultimately show "set ?sel = set ?e" by (simp add: card_subset_eq)
qed

section \<open>MemoryLimiter\<close>

record MemoryLimiter =
  ml_interval :: duration
  ml_maxPerMinute :: int
  ml_lastGlobal :: time
  ml_perAccount :: "ID \<Rightarrow> time list"

definition NewMemoryLimiter :: "duration \<Rightarrow> int \<Rightarrow> MemoryLimiter" where
  "NewMemoryLimiter interval maxPerMinute =
     \<lparr>ml_interval = interval, ml_maxPerMinute = maxPerMinute, ml_lastGlobal = 0,
      ml_perAccount = (\<lambda>_. [])\<rparr>"

definition Allow :: "MemoryLimiter \<Rightarrow> ID \<Rightarrow> time \<Rightarrow> bool \<times> MemoryLimiter" where
  "Allow l accountID now =
     (if \<not> IsZero (ml_lastGlobal l) \<and> now - ml_lastGlobal l < ml_interval l then (False, l)
      else
        let windowStart = now - Minute;
            kept = filter (\<lambda>ts. After ts windowStart) (ml_perAccount l accountID)
        in if ml_maxPerMinute l \<le> int (length kept)
           then (False, l\<lparr>ml_perAccount := (ml_perAccount l)(accountID := kept)\<rparr>)
           else (True, l\<lparr>ml_perAccount := (ml_perAccount l)(accountID := kept @ [now]),
                          ml_lastGlobal := now\<rparr>))"

text \<open>The limiter as a step on one request: an account and the time it asks.\<close>

definition Allow_req :: "MemoryLimiter \<Rightarrow> ID \<times> time \<Rightarrow> bool \<times> MemoryLimiter" where
  "Allow_req l req = Allow l (fst req) (snd req)"

definition ml_config :: "duration \<Rightarrow> int \<Rightarrow> MemoryLimiter \<Rightarrow> bool" where
  "ml_config interval maxPerMinute l \<longleftrightarrow>
     ml_interval l = interval \<and> ml_maxPerMinute l = maxPerMinute"

lemma ml_config_New: "ml_config d m (NewMemoryLimiter d m)"
  by (simp add: ml_config_def NewMemoryLimiter_def)

interpretation memory_gap: gap_limiter Allow_req snd ml_lastGlobal "max 0 d" "\<lambda>l. 0 \<le> d \<and> ml_config d m l"
  by unfold_locales
    (auto simp: Allow_req_def Allow_def ml_config_def Let_def go_time split: if_split_asm)

interpretation memory_window:
  window_limiter Allow_req snd "\<lambda>req. fst req = a" "\<lambda>l. ml_perAccount l a" "nat m" "ml_config d m"
  by unfold_locales
    (auto simp: Allow_req_def Allow_def ml_config_def Let_def go_time split: if_split_asm)

text \<open>
  A run of the limiter from its start never grants twice within its interval, whatever the
  account, and never grants an account more than its maximum in any minute.
\<close>

lemma memory_limiter_spaced:
  assumes "\<forall>r \<in> set reqs. 0 < snd r" "0 \<le> d"
  shows "spaced d (map snd (grants Allow_req (NewMemoryLimiter d m) reqs))"
  using memory_gap.grants_spaced [of d m "NewMemoryLimiter d m" reqs] assms ml_config_New by simp

lemma memory_limiter_capped:
  assumes "sorted (map snd reqs)"
  shows "capped (nat m)
           (map snd (filter (\<lambda>r. fst r = a) (grants Allow_req (NewMemoryLimiter d m) reqs)))"
  using memory_window.grants_capped [OF ml_config_New _ assms]
  by (simp add: NewMemoryLimiter_def)

end
