(* ===== verification/RuntimeConfig.thy ===== *)
theory RuntimeConfig
  imports Prelude "HOL-Library.Word"
begin

text \<open>
  The settings in force (internal/usecase/runtimeconfig/store.go): snapshots published under
  growing revisions, and subscribers that get the newest one through a channel with room for
  one value. A snapshot is a value here; the code copies its slices and maps wherever one
  enters or leaves the store, so that nobody holds a reference into it.
\<close>

section \<open>Snapshots\<close>

record RateLimits =
  RepliesPerMinute :: int
  MinIntervalSeconds :: int

record CanonicalTrigger =
  ct_ID :: string
  ct_Canonical :: string
  ct_Forms :: "string list"

type_synonym revision = "64 word"

record Snapshot =
  snap_Revision :: revision
  snap_MembershipRevision :: revision
  snap_OutboundPaused :: bool
  snap_Roles :: "ID \<rightharpoonup> string"
  snap_CatalogAssignments :: "string \<rightharpoonup> ID list"
  snap_Keywords :: "string list"
  snap_MinusKeywords :: "string list"
  snap_CanonicalTriggers :: "CanonicalTrigger list"
  snap_SharedReply :: string
  snap_PrivateReply :: string
  snap_PrivateReplyPresent :: bool
  snap_DeliveryMode :: string
  snap_RateLimits :: RateLimits
  snap_DirectMessages :: bool
  snap_DirectMessageKeywords :: "string list"
  snap_ProxyAssignments :: "ID \<rightharpoonup> string"

definition empty_snapshot :: Snapshot where
  "empty_snapshot =
     \<lparr>snap_Revision = 0, snap_MembershipRevision = 0, snap_OutboundPaused = False,
      snap_Roles = Map.empty, snap_CatalogAssignments = Map.empty, snap_Keywords = [],
      snap_MinusKeywords = [], snap_CanonicalTriggers = [], snap_SharedReply = '''',
      snap_PrivateReply = '''', snap_PrivateReplyPresent = False, snap_DeliveryMode = '''',
      snap_RateLimits = \<lparr>RepliesPerMinute = 0, MinIntervalSeconds = 0\<rparr>,
      snap_DirectMessages = False, snap_DirectMessageKeywords = [], snap_ProxyAssignments = Map.empty\<rparr>"

section \<open>State\<close>

text \<open>
  A channel of a subscription: the value it holds, whether it is closed, and the flag of the
  \<^verbatim>\<open>sync.Once\<close> of its \<^verbatim>\<open>unsubscribe\<close>. \<open>chan_taken\<close> records what its receiver has taken from
  it so far, in order; the code keeps no such list. A channel is named by its index in
  \<open>cs_chans\<close>, the channels ever made.
\<close>

record updates_chan =
  chan_pending :: "Snapshot option"
  chan_closed :: bool
  chan_once :: bool
  chan_taken :: "Snapshot list"

record subscriber =
  sub_after :: revision
  sub_updates :: nat

record config_store =
  cs_current :: "Snapshot option"
  cs_revision :: revision
  cs_subscribers :: "subscriber list"
  cs_chans :: "updates_chan list"

section \<open>Operations\<close>

definition NewStore :: "Snapshot \<Rightarrow> config_store" where
  "NewStore initial =
     \<lparr>cs_current = Some (initial\<lparr>snap_Revision := 1\<rparr>), cs_revision = 1, cs_subscribers = [], cs_chans = []\<rparr>"

definition Current :: "config_store \<Rightarrow> Snapshot" where
  "Current s = (case cs_current s of None \<Rightarrow> empty_snapshot | Some c \<Rightarrow> c)"

text \<open>
  A send that does not wait: \<open>None\<close> is the panic of a send on a closed channel, the flag says
  whether the value was taken in.
\<close>

definition try_send :: "Snapshot \<Rightarrow> updates_chan \<Rightarrow> (bool \<times> updates_chan) option" where
  "try_send next ch =
     (if chan_closed ch then None
      else if chan_pending ch = None then Some (True, ch\<lparr>chan_pending := Some next\<rparr>)
      else Some (False, ch))"

definition take_pending :: "updates_chan \<Rightarrow> updates_chan" where
  "take_pending ch =
     (case chan_pending ch of
        None \<Rightarrow> ch
      | Some v \<Rightarrow> ch\<lparr>chan_pending := None, chan_taken := chan_taken ch @ [v]\<rparr>)"

text \<open>
  \<^verbatim>\<open>replacePending\<close>: its three selects. The receiver runs beside it: \<open>steals\<close> says that it
  takes the old value between the first and the second select; otherwise the second select
  throws the old value away.
\<close>

definition replacePending :: "bool \<Rightarrow> Snapshot \<Rightarrow> updates_chan \<Rightarrow> updates_chan option" where
  "replacePending steals next ch =
     (case try_send next ch of
        None \<Rightarrow> None
      | Some (True, ch1) \<Rightarrow> Some ch1
      | Some (False, ch1) \<Rightarrow>
          let ch2 = (if steals then take_pending ch1 else ch1);
              ch3 = ch2\<lparr>chan_pending := None\<rparr>
          in map_option snd (try_send next ch3))"

fun notify :: "(nat \<Rightarrow> bool) \<Rightarrow> Snapshot \<Rightarrow> subscriber list \<Rightarrow> updates_chan list \<Rightarrow> updates_chan list option" where
  "notify steals next [] chans = Some chans"
| "notify steals next (x # xs) chans =
     (if sub_after x < snap_Revision next
      then (case replacePending (steals (sub_updates x)) next (chans ! sub_updates x) of
              None \<Rightarrow> None
            | Some ch \<Rightarrow> notify steals next xs (chans[sub_updates x := ch]))
      else notify steals next xs chans)"

definition publishLocked :: "(nat \<Rightarrow> bool) \<Rightarrow> Snapshot \<Rightarrow> config_store \<Rightarrow> (revision \<times> config_store) option" where
  "publishLocked steals next s =
     (let revision = cs_revision s + 1;
          next' = next\<lparr>snap_Revision := revision\<rparr>
      in case notify steals next' (cs_subscribers s) (cs_chans s) of
           None \<Rightarrow> None
         | Some chans \<Rightarrow>
             Some (revision, s\<lparr>cs_revision := revision, cs_current := Some next', cs_chans := chans\<rparr>))"

definition Publish :: "(nat \<Rightarrow> bool) \<Rightarrow> Snapshot \<Rightarrow> config_store \<Rightarrow> (revision \<times> config_store) option" where
  "Publish steals next s = publishLocked steals next s"

definition UpdateConfig ::
  "(nat \<Rightarrow> bool) \<Rightarrow> (Snapshot \<Rightarrow> Snapshot) option \<Rightarrow> config_store \<Rightarrow> (revision \<times> config_store) option" where
  "UpdateConfig steals mutate s =
     (let next = Current s in
      publishLocked steals (case mutate of None \<Rightarrow> next | Some f \<Rightarrow> f next) s)"

definition Subscribe :: "revision \<Rightarrow> config_store \<Rightarrow> (nat \<times> config_store) option" where
  "Subscribe after s =
     (let c = length (cs_chans s);
          ch = \<lparr>chan_pending = None, chan_closed = False, chan_once = False, chan_taken = []\<rparr>;
          subs = cs_subscribers s @ [\<lparr>sub_after = after, sub_updates = c\<rparr>]
      in case (case cs_current s of
                 Some cur \<Rightarrow> if after < snap_Revision cur then replacePending False cur ch else Some ch
               | None \<Rightarrow> Some ch) of
           None \<Rightarrow> None
         | Some ch' \<Rightarrow> Some (c, s\<lparr>cs_subscribers := subs, cs_chans := cs_chans s @ [ch']\<rparr>))"

fun remove_subscriber :: "nat \<Rightarrow> subscriber list \<Rightarrow> subscriber list" where
  "remove_subscriber c [] = []"
| "remove_subscriber c (x # xs) = (if sub_updates x = c then xs else x # remove_subscriber c xs)"

text \<open>The \<^verbatim>\<open>unsubscribe\<close> of channel \<open>c\<close>; closing a closed channel panics.\<close>

definition unsubscribe :: "nat \<Rightarrow> config_store \<Rightarrow> config_store option" where
  "unsubscribe c s =
     (let ch = cs_chans s ! c in
      if chan_once ch then Some s
      else if chan_closed ch then None
      else Some (s\<lparr>cs_subscribers := remove_subscriber c (cs_subscribers s),
                   cs_chans := (cs_chans s)[c := ch\<lparr>chan_closed := True, chan_once := True\<rparr>]\<rparr>))"

text \<open>The receiver of channel \<open>c\<close> takes what it holds.\<close>

definition receive_update :: "nat \<Rightarrow> config_store \<Rightarrow> config_store" where
  "receive_update c s = s\<lparr>cs_chans := (cs_chans s)[c := take_pending (cs_chans s ! c)]\<rparr>"

section \<open>Runs\<close>

datatype config_call =
    CallPublish "nat \<Rightarrow> bool" Snapshot
  | CallUpdate "nat \<Rightarrow> bool" "(Snapshot \<Rightarrow> Snapshot) option"
  | CallSubscribe revision
  | CallUnsubscribe nat
  | CallReceive nat

text \<open>Only channels that were made can be unsubscribed from or received on.\<close>

fun config_step :: "config_call \<Rightarrow> config_store \<Rightarrow> config_store option" where
  "config_step (CallPublish steals next) s = map_option snd (Publish steals next s)"
| "config_step (CallUpdate steals mutate) s = map_option snd (UpdateConfig steals mutate s)"
| "config_step (CallSubscribe after) s = map_option snd (Subscribe after s)"
| "config_step (CallUnsubscribe c) s = (if c < length (cs_chans s) then unsubscribe c s else Some s)"
| "config_step (CallReceive c) s = Some (if c < length (cs_chans s) then receive_update c s else s)"

fun run_config :: "config_call list \<Rightarrow> config_store \<Rightarrow> config_store option" where
  "run_config [] s = Some s"
| "run_config (c # cs) s = (case config_step c s of None \<Rightarrow> None | Some s' \<Rightarrow> run_config cs s')"

fun publishes :: "config_call \<Rightarrow> bool" where
  "publishes (CallPublish _ _) = True"
| "publishes (CallUpdate _ _) = True"
| "publishes _ = False"

end
