(* ===== verification/Outbound.thy ===== *)
theory Outbound
  imports AccountStore Pacing RuntimeConfig
begin

text \<open>
  The final policy boundary before a Telegram send (internal/telegram/gotd/outbound.go).
  The account repository is the record \<open>delivery_store\<close> of the two operations the adapter
  calls under the account's lock; the Telegram client is the parameter \<open>api\<close>, a function
  of the call made and of a state of its own. \<open>ow_log\<close> lists the calls made to it with
  the time of their request.
\<close>

section \<open>State\<close>

record Outbound =
  ob_lastGlobal :: time
  ob_history :: "time list"

datatype api_call =
    ApiPublicReply Account OutgoingMessageJob
  | ApiPrivateMessage Account OutgoingMessageJob
  | ApiScheduledMessage Account ScheduledDMDelivery string
  | ApiResolveUsername Account string

record 's delivery_store =
  ds_account :: "ID \<Rightarrow> 's \<Rightarrow> go_error + Account"
  ds_flood :: "ID \<Rightarrow> time \<Rightarrow> time \<Rightarrow> 's \<Rightarrow> go_error option \<times> 's"

record ('s, 'n) ob_world =
  ow_store :: 's
  ow_out :: Outbound
  ow_net :: 'n
  ow_log :: "(time \<times> api_call) list"

text \<open>
  What the request finds: the clock, \<^verbatim>\<open>ctx.Err()\<close> and \<^verbatim>\<open>config.Current()\<close>. The flags of
  \<open>ob_config\<close> say which of the adapter's fields are not nil and which optional
  interfaces the client and the repository implement.
\<close>

record ob_env =
  oe_now :: time
  oe_ctx_err :: "go_error option"
  oe_snapshot :: Snapshot

record ob_config =
  oc_api :: bool
  oc_others :: bool
  oc_leases :: bool
  oc_resolver :: bool
  oc_scheduled :: bool

section \<open>The rate reservation\<close>

text \<open>\<^verbatim>\<open>time.Duration\<close> is a 64-bit integer: the product of the interval wraps around.\<close>

definition wrap64 :: "int \<Rightarrow> int" where
  "wrap64 x = (x + 2 ^ 63) mod 2 ^ 64 - 2 ^ 63"

definition reserve :: "time \<Rightarrow> RateLimits \<Rightarrow> Outbound \<Rightarrow> bool \<times> Outbound" where
  "reserve now limits s =
     (let m = RepliesPerMinute limits;
          maxPerMinute = (if m \<le> 0 \<or> 19 < m then 19 else m);
          i = wrap64 (MinIntervalSeconds limits * Second);
          interval = (if i < 2 * Second then 2 * Second else i)
      in if \<not> IsZero (ob_lastGlobal s) \<and> now - ob_lastGlobal s < interval then (False, s)
         else
           let window = now - Minute;
               kept = filter (\<lambda>sentAt. After sentAt window) (ob_history s);
               s' = s\<lparr>ob_history := kept\<rparr>
           in if maxPerMinute \<le> int (length kept) then (False, s')
              else (True, s'\<lparr>ob_history := kept @ [now], ob_lastGlobal := now\<rparr>))"

section \<open>Sends\<close>

definition call_api ::
  "(api_call \<Rightarrow> 'n \<Rightarrow> go_error option \<times> 'n) \<Rightarrow> time \<Rightarrow> api_call \<Rightarrow>
     ('s, 'n) ob_world \<Rightarrow> go_error option \<times> ('s, 'n) ob_world" where
  "call_api api now c w =
     (case api c (ow_net w) of
        (r, n) \<Rightarrow> (r, w\<lparr>ow_net := n, ow_log := ow_log w @ [(now, c)]\<rparr>))"

text \<open>
  The only error type with a \<^verbatim>\<open>RetryAfter\<close> method is \<^verbatim>\<open>FloodWaitError\<close>, so
  \<^verbatim>\<open>errors.As(err, &flood)\<close> finds the one \<open>retryAfter\<close> finds.
\<close>

definition record_flood ::
  "'s delivery_store \<Rightarrow> ID \<Rightarrow> time \<Rightarrow> go_error \<Rightarrow> ('s, 'n) ob_world \<Rightarrow>
     go_error option \<times> ('s, 'n) ob_world" where
  "record_flood store accountID now err w =
     (case retryAfter err of
        None \<Rightarrow> (Some err, w)
      | Some d \<Rightarrow>
          (case ds_flood store accountID (now + d) now (ow_store w) of
             (Some saveErr, s) \<Rightarrow> (Some (JoinedErr err saveErr), w\<lparr>ow_store := s\<rparr>)
           | (None, s) \<Rightarrow> (Some err, w\<lparr>ow_store := s\<rparr>)))"

text \<open>The body run under the account's lease, and the classification of its error.\<close>

definition leased_send ::
  "'s delivery_store \<Rightarrow> ob_env \<Rightarrow> bool \<Rightarrow>
     (Account \<Rightarrow> Snapshot \<Rightarrow> ('s, 'n) ob_world \<Rightarrow> go_error option \<times> ('s, 'n) ob_world) \<Rightarrow>
     Account \<Rightarrow> ('s, 'n) ob_world \<Rightarrow> go_error option \<times> ('s, 'n) ob_world" where
  "leased_send store env reserveMessageRate send authoritative w =
     (if acc_Role authoritative \<noteq> AccountRoleSpammer
      then (PermanentDeliveryFailure (Some (PlainErr ''scout accounts cannot send Telegram messages'')), w)
      else if \<not> Eligible authoritative
      then (TransientDeliveryFailure (Some (PlainErr ''outbound account is not active'')), w)
      else case oe_ctx_err env of
        Some e \<Rightarrow> (Some e, w)
      | None \<Rightarrow>
          let snapshot = oe_snapshot env;
              now = oe_now env;
              (granted, out') = (if reserveMessageRate then reserve now (snap_RateLimits snapshot) (ow_out w)
                                 else (True, ow_out w));
              w1 = w\<lparr>ow_out := out'\<rparr>
          in if \<not> granted
             then (TransientDeliveryFailure (Some (PlainErr ''outbound Telegram rate limit reached'')), w1)
             else (case send authoritative snapshot w1 of
                     (None, w2) \<Rightarrow> (None, w2)
                   | (Some err, w2) \<Rightarrow> record_flood store (acc_ID authoritative) now err w2))"

definition classify_send :: "go_error option \<Rightarrow> go_error option" where
  "classify_send r =
     (case r of
        None \<Rightarrow> None
      | Some err \<Rightarrow>
          if IsPermanentDeliveryFailure err \<or> IsTransientDeliveryFailure err then Some err
          else (case retryAfter err of
                  Some d \<Rightarrow> if 0 < d then Some err else TransientDeliveryFailure (Some err)
                | None \<Rightarrow> TransientDeliveryFailure (Some err)))"

definition sendWithLease ::
  "ob_config \<Rightarrow> 's delivery_store \<Rightarrow> ob_env \<Rightarrow> Account \<Rightarrow> bool \<Rightarrow>
     (Account \<Rightarrow> Snapshot \<Rightarrow> ('s, 'n) ob_world \<Rightarrow> go_error option \<times> ('s, 'n) ob_world) \<Rightarrow>
     ('s, 'n) ob_world \<Rightarrow> go_error option \<times> ('s, 'n) ob_world" where
  "sendWithLease cfg store env account reserveMessageRate send w =
     (if \<not> oc_api cfg \<or> \<not> oc_others cfg
      then (PermanentDeliveryFailure (Some (PlainErr ''outbound sender is not configured'')), w)
      else if acc_Role account = AccountRoleScoutAnalyst
      then (PermanentDeliveryFailure (Some (PlainErr ''scout accounts cannot send Telegram messages'')), w)
      else if \<not> oc_leases cfg
      then (PermanentDeliveryFailure (Some (PlainErr ''outbound account repository does not support account send leases'')), w)
      else case ds_account store (acc_ID account) (ow_store w) of
        Inl err \<Rightarrow> (classify_send (Some err), w)
      | Inr authoritative \<Rightarrow>
          (case leased_send store env reserveMessageRate send authoritative w of
             (r, w') \<Rightarrow> (classify_send r, w')))"

definition reply_text :: "bool \<Rightarrow> Snapshot \<Rightarrow> string" where
  "reply_text private snapshot =
     (if private then
        (if snap_PrivateReply snapshot = '''' \<and> \<not> snap_PrivateReplyPresent snapshot
         then snap_SharedReply snapshot else snap_PrivateReply snapshot)
      else snap_SharedReply snapshot)"

definition send_job ::
  "(api_call \<Rightarrow> 'n \<Rightarrow> go_error option \<times> 'n) \<Rightarrow> time \<Rightarrow> OutgoingMessageJob \<Rightarrow> bool \<Rightarrow>
     Account \<Rightarrow> Snapshot \<Rightarrow> ('s, 'n) ob_world \<Rightarrow> go_error option \<times> ('s, 'n) ob_world" where
  "send_job api now job private authoritative snapshot w =
     (let job' = job\<lparr>job_Text := reply_text private snapshot\<rparr> in
      if job_Text job' = ''''
      then (PermanentDeliveryFailure (Some (PlainErr ''selected reply is empty'')), w)
      else if private then call_api api now (ApiPrivateMessage authoritative job') w
      else call_api api now (ApiPublicReply authoritative job') w)"

definition SendPublicReply where
  "SendPublicReply cfg store api env account job =
     sendWithLease cfg store env account True (send_job api (oe_now env) job False)"

definition SendPrivateMessage where
  "SendPrivateMessage cfg store api env account job =
     sendWithLease cfg store env account True (send_job api (oe_now env) job True)"

definition ResolveUsername where
  "ResolveUsername cfg store api env account username w =
     (if \<not> oc_api cfg
      then (TransientDeliveryFailure (Some (PlainErr ''outbound sender is not configured'')), w)
      else if \<not> oc_resolver cfg
      then (PermanentDeliveryFailure (Some (PlainErr ''scheduled username resolver is not configured'')), w)
      else sendWithLease cfg store env account False
             (\<lambda>authoritative _. call_api api (oe_now env) (ApiResolveUsername authoritative username)) w)"

definition SendScheduledPrivateMessage where
  "SendScheduledPrivateMessage cfg store api env account delivery messageText w =
     (if \<not> oc_api cfg
      then (PermanentDeliveryFailure (Some (PlainErr ''outbound sender is not configured'')), w)
      else if TrimSpace messageText = ''''
      then (PermanentDeliveryFailure (Some (PlainErr ''selected reply is empty'')), w)
      else if \<not> oc_scheduled cfg
      then (PermanentDeliveryFailure (Some (PlainErr ''scheduled private message sender is not configured'')), w)
      else sendWithLease cfg store env account True
             (\<lambda>authoritative _. call_api api (oe_now env)
                (ApiScheduledMessage authoritative delivery messageText)) w)"

section \<open>What a request does\<close>

datatype ob_request =
    ReqJob bool Account OutgoingMessageJob ob_env
  | ReqScheduled Account ScheduledDMDelivery string ob_env
  | ReqResolve Account string ob_env

fun req_env :: "ob_request \<Rightarrow> ob_env" where
  "req_env (ReqJob private a job env) = env"
| "req_env (ReqScheduled a dlv text env) = env"
| "req_env (ReqResolve a username env) = env"

definition req_time :: "ob_request \<Rightarrow> time" where
  "req_time req = oe_now (req_env req)"

fun req_account :: "ob_request \<Rightarrow> Account" where
  "req_account (ReqJob private a job env) = a"
| "req_account (ReqScheduled a dlv text env) = a"
| "req_account (ReqResolve a username env) = a"

fun ob_request_exec where
  "ob_request_exec cfg store api (ReqJob private a job env) =
     (if private then SendPrivateMessage cfg store api env a job
      else SendPublicReply cfg store api env a job)"
| "ob_request_exec cfg store api (ReqScheduled a dlv text env) =
     SendScheduledPrivateMessage cfg store api env a dlv text"
| "ob_request_exec cfg store api (ReqResolve a username env) =
     ResolveUsername cfg store api env a username"

fun serve_requests where
  "serve_requests cfg store api [] w = w"
| "serve_requests cfg store api (req # reqs) w =
     serve_requests cfg store api reqs (snd (ob_request_exec cfg store api req w))"

text \<open>The account a request is admitted with, before the reservation.\<close>

definition admit ::
  "ob_config \<Rightarrow> 's delivery_store \<Rightarrow> ob_env \<Rightarrow> Account \<Rightarrow> 's \<Rightarrow> Account option" where
  "admit cfg store env account s =
     (if oc_api cfg \<and> oc_others cfg \<and> oc_leases cfg \<and> acc_Role account \<noteq> AccountRoleScoutAnalyst
      then (case ds_account store (acc_ID account) s of
              Inl _ \<Rightarrow> None
            | Inr a \<Rightarrow> if acc_Role a = AccountRoleSpammer \<and> Eligible a \<and> oe_ctx_err env = None
                       then Some a else None)
      else None)"

lemma admit_SomeD:
  "admit cfg store env account s = Some a \<Longrightarrow>
     ds_account store (acc_ID account) s = Inr a \<and> acc_Role a = AccountRoleSpammer \<and> Eligible a"
  by (auto simp: admit_def split: if_splits sum.splits)

lemma sendWithLease_rejected:
  assumes "admit cfg store env account (ow_store w) = None"
  shows "snd (sendWithLease cfg store env account rate send w) = w"
  using assms
  by (auto simp: sendWithLease_def admit_def leased_send_def split: sum.splits option.splits prod.splits if_splits)

lemma sendWithLease_admitted:
  assumes "admit cfg store env account (ow_store w) = Some a"
  shows "snd (sendWithLease cfg store env account rate send w) =
    (case (if rate then reserve (oe_now env) (snap_RateLimits (oe_snapshot env)) (ow_out w)
           else (True, ow_out w)) of
       (granted, out') \<Rightarrow>
         if \<not> granted then w\<lparr>ow_out := out'\<rparr>
         else (case send a (oe_snapshot env) (w\<lparr>ow_out := out'\<rparr>) of
                 (None, w2) \<Rightarrow> w2
               | (Some err, w2) \<Rightarrow> snd (record_flood store (acc_ID a) (oe_now env) err w2)))"
proof -
  have adm: "oc_api cfg" "oc_others cfg" "oc_leases cfg" "acc_Role account \<noteq> AccountRoleScoutAnalyst"
    "ds_account store (acc_ID account) (ow_store w) = Inr a"
    and a: "acc_Role a = AccountRoleSpammer" "Eligible a" "oe_ctx_err env = None"
    using assms by (auto simp: admit_def split: if_splits sum.splits)
  have "snd (sendWithLease cfg store env account rate send w) = snd (leased_send store env rate send a w)"
    using adm by (simp add: sendWithLease_def split: prod.split)
  also have "leased_send store env rate send a w =
     (case (if rate then reserve (oe_now env) (snap_RateLimits (oe_snapshot env)) (ow_out w)
            else (True, ow_out w)) of
       (granted, out') \<Rightarrow>
         if \<not> granted
         then (TransientDeliveryFailure (Some (PlainErr ''outbound Telegram rate limit reached'')),
               w\<lparr>ow_out := out'\<rparr>)
         else (case send a (oe_snapshot env) (w\<lparr>ow_out := out'\<rparr>) of
                 (None, w2) \<Rightarrow> (None, w2)
               | (Some err, w2) \<Rightarrow> record_flood store (acc_ID a) (oe_now env) err w2))"
    unfolding leased_send_def Let_def using a by simp
  finally show ?thesis by (simp split: prod.split option.split)
qed

lemma record_flood_log [simp]:
  "ow_log (snd (record_flood store a now err w)) = ow_log w"
  "ow_out (snd (record_flood store a now err w)) = ow_out w"
  by (simp_all add: record_flood_def split: option.split prod.split)

text \<open>
  A send body appends at most one call for the account it is given, and leaves the
  reservations alone.
\<close>

fun call_account :: "api_call \<Rightarrow> Account" where
  "call_account (ApiPublicReply a job) = a"
| "call_account (ApiPrivateMessage a job) = a"
| "call_account (ApiScheduledMessage a dlv text) = a"
| "call_account (ApiResolveUsername a username) = a"

fun is_message :: "api_call \<Rightarrow> bool" where
  "is_message (ApiResolveUsername a username) = False"
| "is_message _ = True"

fun call_text :: "api_call \<Rightarrow> string" where
  "call_text (ApiPublicReply a job) = job_Text job"
| "call_text (ApiPrivateMessage a job) = job_Text job"
| "call_text (ApiScheduledMessage a dlv text) = text"
| "call_text (ApiResolveUsername a username) = username"

definition logs_one ::
  "time \<Rightarrow> (api_call \<Rightarrow> bool) \<Rightarrow>
     (Account \<Rightarrow> Snapshot \<Rightarrow> ('s, 'n) ob_world \<Rightarrow> go_error option \<times> ('s, 'n) ob_world) \<Rightarrow> bool" where
  "logs_one now ok send \<longleftrightarrow>
     (\<forall>a snapshot w. let w' = snd (send a snapshot w) in
        ow_out w' = ow_out w \<and>
        (ow_log w' = ow_log w \<or> (\<exists>c. ow_log w' = ow_log w @ [(now, c)] \<and> call_account c = a \<and> ok c)))"

lemma logs_one_call:
  "(\<And>a snapshot. call_account (c a snapshot) = a \<and> ok (c a snapshot)) \<Longrightarrow>
     logs_one now ok (\<lambda>a snapshot. call_api api now (c a snapshot))"
  by (auto simp: logs_one_def call_api_def Let_def split: prod.split)

lemma logs_one_job:
  "logs_one now (\<lambda>c. is_message c \<and> call_text c \<noteq> '''') (send_job api now job private)"
  by (auto simp: logs_one_def send_job_def call_api_def Let_def split: prod.split)

text \<open>One request, whatever it is: the calls it adds and the reservation they rest on.\<close>

definition reserved :: "ob_config \<Rightarrow> 's delivery_store \<Rightarrow> ob_request \<Rightarrow> ('s, 'n) ob_world \<Rightarrow> bool" where
  "reserved cfg store req w \<longleftrightarrow>
     admit cfg store (req_env req) (req_account req) (ow_store w) \<noteq> None \<and>
     (case req of
        ReqJob private a job env \<Rightarrow> True
      | ReqScheduled a dlv text env \<Rightarrow> TrimSpace text \<noteq> '''' \<and> oc_scheduled cfg
      | ReqResolve a username env \<Rightarrow> False) \<and>
     fst (reserve (req_time req) (snap_RateLimits (oe_snapshot (req_env req))) (ow_out w))"

lemma sendWithLease_log:
  assumes one: "logs_one (oe_now env) ok send"
    and w': "w' = snd (sendWithLease cfg store env account rate send w)"
  shows "ow_log w' = ow_log w \<or>
    (\<exists>c a. ow_log w' = ow_log w @ [(oe_now env, c)] \<and> ok c \<and> call_account c = a \<and>
       admit cfg store env account (ow_store w) = Some a \<and>
       (rate \<longrightarrow> fst (reserve (oe_now env) (snap_RateLimits (oe_snapshot env)) (ow_out w))))"
proof (cases "admit cfg store env account (ow_store w)")
  case None
  then show ?thesis by (simp add: w' sendWithLease_rejected)
next
  case (Some a)
  let ?res = "if rate then reserve (oe_now env) (snap_RateLimits (oe_snapshot env)) (ow_out w)
              else (True, ow_out w)"
  obtain g out' where g: "?res = (g, out')" by fastforce
  show ?thesis
  proof (cases g)
    case False
    with Some g show ?thesis by (simp add: w' sendWithLease_admitted)
  next
    case True
    let ?w1 = "w\<lparr>ow_out := out'\<rparr>"
    obtain r w2 where s: "send a (oe_snapshot env) ?w1 = (r, w2)" by fastforce
    have log: "ow_log w' = ow_log w2"
      using Some g True s by (simp add: w' sendWithLease_admitted split: option.split)
    have "ow_log w2 = ow_log ?w1 \<or>
        (\<exists>c. ow_log w2 = ow_log ?w1 @ [(oe_now env, c)] \<and> call_account c = a \<and> ok c)"
      using one s unfolding logs_one_def Let_def by (metis snd_conv)
    moreover have "rate \<longrightarrow> fst (reserve (oe_now env) (snap_RateLimits (oe_snapshot env)) (ow_out w))"
      using g True by auto
    ultimately show ?thesis using log Some by auto
  qed
qed

lemma sendWithLease_out:
  assumes one: "logs_one (oe_now env) ok send"
  shows "ow_out (snd (sendWithLease cfg store env account rate send w)) =
    (if admit cfg store env account (ow_store w) \<noteq> None \<and> rate
     then snd (reserve (oe_now env) (snap_RateLimits (oe_snapshot env)) (ow_out w)) else ow_out w)"
proof (cases "admit cfg store env account (ow_store w)")
  case None
  then show ?thesis by (simp add: sendWithLease_rejected)
next
  case (Some a)
  have same: "ow_out (snd (send a sn u)) = ow_out u" for sn u
    using one by (simp add: logs_one_def Let_def)
  obtain g out' where g: "(if rate then reserve (oe_now env) (snap_RateLimits (oe_snapshot env)) (ow_out w)
              else (True, ow_out w)) = (g, out')" by fastforce
  have "ow_out (snd (sendWithLease cfg store env account rate send w)) = out'"
  proof (cases g)
    case False
    with Some g show ?thesis by (simp add: sendWithLease_admitted)
  next
    case True
    obtain r w2 where "send a (oe_snapshot env) (w\<lparr>ow_out := out'\<rparr>) = (r, w2)" by fastforce
    with same [of "oe_snapshot env" "w\<lparr>ow_out := out'\<rparr>"] Some g True show ?thesis
      by (simp add: sendWithLease_admitted split: option.split)
  qed
  with g Some show ?thesis by (cases rate) auto
qed

text \<open>Whether a request comes to the point where a reservation is tried.\<close>

definition tries_reserve :: "ob_config \<Rightarrow> 's delivery_store \<Rightarrow> ob_request \<Rightarrow> ('s, 'n) ob_world \<Rightarrow> bool" where
  "tries_reserve cfg store req w \<longleftrightarrow>
     admit cfg store (req_env req) (req_account req) (ow_store w) \<noteq> None \<and>
     (case req of
        ReqJob private a job env \<Rightarrow> True
      | ReqScheduled a dlv text env \<Rightarrow> TrimSpace text \<noteq> '''' \<and> oc_scheduled cfg
      | ReqResolve a username env \<Rightarrow> False)"

abbreviation req_reserve :: "ob_request \<Rightarrow> Outbound \<Rightarrow> bool \<times> Outbound" where
  "req_reserve req \<equiv> reserve (req_time req) (snap_RateLimits (oe_snapshot (req_env req)))"

lemma reserved_iff:
  "reserved cfg store req w \<longleftrightarrow> tries_reserve cfg store req w \<and> fst (req_reserve req (ow_out w))"
  by (auto simp: reserved_def tries_reserve_def)

lemma admit_api: "admit cfg store env a s \<noteq> None \<Longrightarrow> oc_api cfg"
  by (auto simp: admit_def split: if_splits)

text \<open>The calls of one request.\<close>

definition call_fits :: "ob_config \<Rightarrow> 's delivery_store \<Rightarrow> ob_request \<Rightarrow> ('s, 'n) ob_world \<Rightarrow> api_call \<Rightarrow> bool" where
  "call_fits cfg store req w c \<longleftrightarrow>
     admit cfg store (req_env req) (req_account req) (ow_store w) = Some (call_account c) \<and>
     (is_message c \<longrightarrow> reserved cfg store req w \<and> call_text c \<noteq> '''')"

lemma TrimSpace_Nil_iff: "TrimSpace s \<noteq> '''' \<Longrightarrow> s \<noteq> ''''"
  using set_TrimSpace [of s] by auto

lemma request_log:
  "let w' = snd (ob_request_exec cfg store api req w) in
   ow_log w' = ow_log w \<or>
   (\<exists>c. ow_log w' = ow_log w @ [(req_time req, c)] \<and> call_fits cfg store req w c)"
proof (cases req)
  case (ReqJob priv a job env)
  note log = sendWithLease_log [OF logs_one_job [of "oe_now env" api job priv] refl,
      of cfg store a True w]
  have "snd (ob_request_exec cfg store api req w) =
      snd (sendWithLease cfg store env a True (send_job api (oe_now env) job priv) w)"
    by (simp add: ReqJob SendPrivateMessage_def SendPublicReply_def)
  with log show ?thesis
    by (auto simp: ReqJob req_time_def call_fits_def reserved_def Let_def)
next
  case (ReqScheduled a dlv msg env)
  have one: "logs_one (oe_now env) (\<lambda>c. is_message c \<and> call_text c = msg)
      (\<lambda>auth _. call_api api (oe_now env) (ApiScheduledMessage auth dlv msg))"
    by (rule logs_one_call) simp
  note log = sendWithLease_log [OF one refl, of cfg store a True w]
  show ?thesis
  proof (cases "oc_api cfg \<and> TrimSpace msg \<noteq> '''' \<and> oc_scheduled cfg")
    case True
    then have "snd (ob_request_exec cfg store api req w) = snd (sendWithLease cfg store env a True
        (\<lambda>auth _. call_api api (oe_now env) (ApiScheduledMessage auth dlv msg)) w)"
      by (simp add: ReqScheduled SendScheduledPrivateMessage_def)
    with log True show ?thesis
      by (auto simp: ReqScheduled req_time_def call_fits_def reserved_def Let_def dest: TrimSpace_Nil_iff)
  next
    case False
    then show ?thesis by (auto simp: ReqScheduled SendScheduledPrivateMessage_def Let_def)
  qed
next
  case (ReqResolve a username env)
  have one: "logs_one (oe_now env) (\<lambda>c. \<not> is_message c)
      (\<lambda>auth _. call_api api (oe_now env) (ApiResolveUsername auth username))"
    by (rule logs_one_call) simp
  note log = sendWithLease_log [OF one refl, of cfg store a False w]
  then show ?thesis
    by (auto simp: ReqResolve ResolveUsername_def req_time_def call_fits_def Let_def)
qed

lemma request_out:
  "ow_out (snd (ob_request_exec cfg store api req w)) =
     (if tries_reserve cfg store req w then snd (req_reserve req (ow_out w)) else ow_out w)"
proof (cases req)
  case (ReqJob priv a job env)
  have "snd (ob_request_exec cfg store api req w) =
      snd (sendWithLease cfg store env a True (send_job api (oe_now env) job priv) w)"
    by (simp add: ReqJob SendPrivateMessage_def SendPublicReply_def)
  then show ?thesis
    using sendWithLease_out [OF logs_one_job [of "oe_now env" api job priv], of cfg store a True w]
    by (simp add: ReqJob req_time_def tries_reserve_def)
next
  case (ReqScheduled a dlv msg env)
  have one: "logs_one (oe_now env) (\<lambda>c. is_message c \<and> call_text c = msg)
      (\<lambda>auth _. call_api api (oe_now env) (ApiScheduledMessage auth dlv msg))"
    by (rule logs_one_call) simp
  show ?thesis
    using sendWithLease_out [OF one, of cfg store a True w] admit_api [of cfg store env a "ow_store w"]
    by (auto simp: ReqScheduled SendScheduledPrivateMessage_def req_time_def tries_reserve_def)
next
  case (ReqResolve a username env)
  have one: "logs_one (oe_now env) (\<lambda>c. \<not> is_message c)
      (\<lambda>auth _. call_api api (oe_now env) (ApiResolveUsername auth username))"
    by (rule logs_one_call) simp
  show ?thesis
    using sendWithLease_out [OF one, of cfg store a False w]
    by (simp add: ReqResolve ResolveUsername_def req_time_def tries_reserve_def)
qed

section \<open>Pacing of the sends\<close>

lemma reserve_granted:
  assumes "reserve now limits s = (True, s')"
  shows "IsZero (ob_lastGlobal s) \<or> 2 * Second \<le> now - ob_lastGlobal s"
    "ob_lastGlobal s' = now"
    "length (filter (\<lambda>g. now - Minute < g) (ob_history s)) < 19"
    "ob_history s' = filter (\<lambda>g. now - Minute < g) (ob_history s) @ [now]"
  using assms by (auto simp: reserve_def Let_def After_def split: if_splits)

lemma reserve_denied:
  assumes "reserve now limits s = (False, s')"
  shows "ob_lastGlobal s' = ob_lastGlobal s"
    "ob_history s' = ob_history s \<or> ob_history s' = filter (\<lambda>g. now - Minute < g) (ob_history s)"
  using assms by (auto simp: reserve_def Let_def After_def split: if_splits)

definition serve_one ::
  "ob_config \<Rightarrow> 's delivery_store \<Rightarrow> (api_call \<Rightarrow> 'n \<Rightarrow> go_error option \<times> 'n) \<Rightarrow>
     ('s, 'n) ob_world \<Rightarrow> ob_request \<Rightarrow> bool \<times> ('s, 'n) ob_world" where
  "serve_one cfg store api w req =
     (reserved cfg store req w, snd (ob_request_exec cfg store api req w))"

lemma serve_one_cases:
  assumes "serve_one cfg store api w req = (b, w')"
  shows "(b \<and> req_reserve req (ow_out w) = (True, ow_out w')) \<or>
         (\<not> b \<and> (ow_out w' = ow_out w \<or> req_reserve req (ow_out w) = (False, ow_out w')))"
proof -
  have w': "ow_out w' = (if tries_reserve cfg store req w then snd (req_reserve req (ow_out w)) else ow_out w)"
    and b: "b = (tries_reserve cfg store req w \<and> fst (req_reserve req (ow_out w)))"
    using assms request_out [of cfg store api req w] by (auto simp: serve_one_def reserved_iff)
  obtain g out' where "req_reserve req (ow_out w) = (g, out')" by fastforce
  with w' b show ?thesis by (cases g) auto
qed

interpretation outbound_gap:
  gap_limiter "serve_one cfg store api" req_time "\<lambda>w. ob_lastGlobal (ow_out w)" "2 * Second" "\<lambda>_. True"
proof
  fix s :: "('a, 'b) ob_world" and i s'
  assume "serve_one cfg store api s i = (True, s')"
  from serve_one_cases [OF this] show
    "(IsZero (ob_lastGlobal (ow_out s)) \<or> 2 * Second \<le> req_time i - ob_lastGlobal (ow_out s)) \<and>
     ob_lastGlobal (ow_out s') = req_time i"
    using reserve_granted(1,2) by auto
next
  fix s :: "('a, 'b) ob_world" and i s'
  assume "serve_one cfg store api s i = (False, s')"
  from serve_one_cases [OF this] show "ob_lastGlobal (ow_out s') = ob_lastGlobal (ow_out s)"
    using reserve_denied(1) by auto
qed (simp_all add: Second_def)

interpretation outbound_window:
  window_limiter "serve_one cfg store api" req_time "\<lambda>_. True" "\<lambda>w. ob_history (ow_out w)" 19 "\<lambda>_. True"
proof
  fix s :: "('a, 'b) ob_world" and i s'
  assume "serve_one cfg store api s i = (True, s')"
  from serve_one_cases [OF this] show
    "length (filter (\<lambda>g. req_time i - Minute < g) (ob_history (ow_out s))) < 19 \<and>
     ob_history (ow_out s') = filter (\<lambda>g. req_time i - Minute < g) (ob_history (ow_out s)) @ [req_time i]"
    using reserve_granted(3,4) by auto
next
  fix s :: "('a, 'b) ob_world" and i s'
  assume "serve_one cfg store api s i = (False, s')"
  from serve_one_cases [OF this] show
    "ob_history (ow_out s') = ob_history (ow_out s) \<or>
     ob_history (ow_out s') = filter (\<lambda>g. req_time i - Minute < g) (ob_history (ow_out s))"
    using reserve_denied(2) by auto
qed simp_all

definition message_times :: "('s, 'n) ob_world \<Rightarrow> time list" where
  "message_times w = map fst (filter (\<lambda>e. is_message (snd e)) (ow_log w))"

lemma grants_serve_one:
  "grants (serve_one cfg store api) w (req # reqs) =
     (let rest = grants (serve_one cfg store api) (snd (ob_request_exec cfg store api req w)) reqs in
      if reserved cfg store req w then req # rest else rest)"
  by (simp add: serve_one_def [of cfg store api w req] Let_def split: bool.split)

lemma message_times_granted:
  "\<exists>ts. message_times (serve_requests cfg store api reqs w) = message_times w @ ts \<and>
        subseq ts (map req_time (grants (serve_one cfg store api) w reqs))"
proof (induction reqs arbitrary: w)
  case Nil
  then show ?case by simp
next
  case (Cons req reqs)
  let ?w' = "snd (ob_request_exec cfg store api req w)"
  obtain ts where ts: "message_times (serve_requests cfg store api reqs ?w') = message_times ?w' @ ts"
    "subseq ts (map req_time (grants (serve_one cfg store api) ?w' reqs))"
    using Cons.IH by blast
  have "message_times ?w' = message_times w \<or>
      (reserved cfg store req w \<and> message_times ?w' = message_times w @ [req_time req])"
    using request_log [of cfg store api req w]
    by (auto simp: message_times_def call_fits_def Let_def split: if_splits)
  with ts show ?case
    by (cases "reserved cfg store req w")
       (auto simp: grants_serve_one Let_def simp del: grants.simps)
qed

section \<open>Who sends, and what the caller is told\<close>

text \<open>Every call goes out for the account its repository holds, a spammer that may send.\<close>

lemma serve_requests_log:
  "\<exists>new. ow_log (serve_requests cfg store api reqs w) = ow_log w @ new \<and>
     (\<forall>(t, c) \<in> set new. acc_Role (call_account c) = AccountRoleSpammer \<and> Eligible (call_account c) \<and>
        t \<in> req_time ` set reqs \<and> (is_message c \<longrightarrow> call_text c \<noteq> ''''))"
proof (induction reqs arbitrary: w)
  case Nil
  then show ?case by simp
next
  case (Cons req reqs)
  let ?w' = "snd (ob_request_exec cfg store api req w)"
  obtain new where new: "ow_log (serve_requests cfg store api reqs ?w') = ow_log ?w' @ new"
    "\<forall>(t, c) \<in> set new. acc_Role (call_account c) = AccountRoleSpammer \<and> Eligible (call_account c) \<and>
        t \<in> req_time ` set reqs \<and> (is_message c \<longrightarrow> call_text c \<noteq> '''')"
    using Cons.IH by blast
  from request_log [of cfg store api req w] consider "ow_log ?w' = ow_log w"
    | c where "ow_log ?w' = ow_log w @ [(req_time req, c)]" "call_fits cfg store req w c"
    by (auto simp: Let_def)
  then show ?case
  proof cases
    case 1
    with new show ?thesis by (intro exI [of _ new]) auto
  next
    case (2 c)
    have "acc_Role (call_account c) = AccountRoleSpammer \<and> Eligible (call_account c) \<and>
        (is_message c \<longrightarrow> call_text c \<noteq> '''')"
      using 2(2) admit_SomeD [of cfg store _ _ "ow_store w" "call_account c"]
      unfolding call_fits_def by auto
    with new 2(1) show ?thesis by (intro exI [of _ "(req_time req, c) # new"]) auto
  qed
qed

definition told :: "go_error \<Rightarrow> bool" where
  "told err \<longleftrightarrow> IsPermanentDeliveryFailure err \<or> IsTransientDeliveryFailure err \<or>
     (\<exists>d > 0. retryAfter err = Some d)"

lemma classify_send_told: "classify_send r = Some err \<Longrightarrow> told err"
  by (auto simp: classify_send_def told_def TransientDeliveryFailure_def IsTransientDeliveryFailure_def
      split: option.splits if_splits)

lemma permanent_told: "told (ClassifiedErr DeliveryFailurePermanent e)"
  by (simp add: told_def IsPermanentDeliveryFailure_def)

lemma transient_told: "told (ClassifiedErr DeliveryFailureTransient e)"
  by (simp add: told_def IsTransientDeliveryFailure_def)

lemma sendWithLease_told:
  "fst (sendWithLease cfg store env account rate send w) = Some err \<Longrightarrow> told err"
  by (auto simp: sendWithLease_def PermanentDeliveryFailure_def permanent_told
      split: if_splits sum.splits prod.splits dest: classify_send_told)

lemma request_told: "fst (ob_request_exec cfg store api req w) = Some err \<Longrightarrow> told err"
  by (cases req)
     (auto simp: SendPrivateMessage_def SendPublicReply_def SendScheduledPrivateMessage_def
       ResolveUsername_def PermanentDeliveryFailure_def TransientDeliveryFailure_def
       permanent_told transient_told split: if_splits dest: sendWithLease_told)

section \<open>Flood waits\<close>

text \<open>
  What the adapter relies on: the lease hands out the account asked for, and an account
  whose flood wait was saved may not send.
\<close>

lemma joined_error_grows: "JoinedErr e f \<noteq> e"
  by (induction e arbitrary: f) auto

locale account_leases =
  fixes store :: "'s delivery_store"
  assumes lease_id: "ds_account store i s = Inr a \<Longrightarrow> acc_ID a = i"
    and flood_blocks: "ds_flood store i until at s = (None, s') \<Longrightarrow>
           ds_account store i s' = Inr a \<Longrightarrow> \<not> Eligible a"
begin

text \<open>
  When Telegram answers a call with a flood wait and the wait is saved, the account is not
  admitted again until somebody changes the store.
\<close>

lemma flood_stops:
  assumes "record_flood store i now err w = (Some err, w')" "retryAfter err = Some d"
    and "acc_ID account = i"
  shows "admit cfg store env account (ow_store w') = None"
proof -
  obtain r s where f: "ds_flood store i (now + d) now (ow_store w) = (r, s)" by fastforce
  with assms(1,2) joined_error_grows have "r = None" "ow_store w' = s"
    by (auto simp: record_flood_def split: option.splits)
  with f show ?thesis
    using flood_blocks [of i "now + d" now "ow_store w" s] assms(3)
    by (auto simp: admit_def split: sum.splits)
qed

end

text \<open>The SQLite repository: \<^verbatim>\<open>WithAccountLease\<close> looks the account up in the list of all.\<close>

definition db_go_error :: "db_error \<Rightarrow> go_error" where
  "db_go_error e = PlainErr (if e = ErrAccountNotFound then ''outbound account not found''
                             else ''repository error'')"

definition sqlite_accounts :: "db delivery_store" where
  "sqlite_accounts =
     \<lparr>ds_account = (\<lambda>i d. case listed_account i d of Inl e \<Rightarrow> Inl (db_go_error e) | Inr a \<Rightarrow> Inr a),
      ds_flood = (\<lambda>i until at d. case RecordFloodWait i until at d of
                    (Inl e, d') \<Rightarrow> (Some (db_go_error e), d')
                  | (Inr _, d') \<Rightarrow> (None, d'))\<rparr>"

lemma RecordFloodWait_blocks:
  assumes "RecordFloodWait i until at d = (Inr x, d')" "listed_account i d' = Inr a"
  shows "\<not> Eligible a"
proof -
  obtain r where r: "r \<in> set (db_accounts d')" "scan_account r = Some a" "acc_ID a = i"
    using listed_account_row [OF assms(2)] by auto
  have "ar_id r = i" using scan_account_fields(1) [OF r(2)] r(3) by simp
  have d': "db_accounts d' = sql_update (\<lambda>r. ar_id r = i)
      (\<lambda>r. r\<lparr>ar_status := ''flood_wait'', ar_status_source := ''runtime'',
              ar_legacy_pause_review_required := False,
              ar_flood_wait_until := Some (formatTime until),
              ar_last_error := ''telegram flood wait'',
              ar_updated_at := formatTime at\<rparr>) (db_accounts d)"
    using assms(1) unfolding RecordFloodWait_def by (cases "sql_affected (\<lambda>r. ar_id r = i) (db_accounts d) = 1") auto
  from r(1) \<open>ar_id r = i\<close> have "ar_status r = ''flood_wait''"
    unfolding d' by (elim sql_update_memE) simp_all
  with r(2) show ?thesis by (rule flood_wait_not_eligible)
qed

lemma sqlite_accountD: "ds_account sqlite_accounts i s = Inr a \<Longrightarrow> listed_account i s = Inr a"
  by (simp add: sqlite_accounts_def split: sum.splits)

lemma sqlite_floodD:
  "ds_flood sqlite_accounts i until at s = (None, s') \<Longrightarrow> RecordFloodWait i until at s = (Inr (), s')"
  by (cases "RecordFloodWait i until at s") (auto simp: sqlite_accounts_def split: sum.splits)

interpretation sqlite_leases: account_leases sqlite_accounts
proof (unfold_locales, goal_cases)
  case (1 i s a)
  then show ?case using sqlite_accountD listed_account_row by blast
next
  case (2 i until at s s' a)
  show ?case by (rule RecordFloodWait_blocks [OF sqlite_floodD [OF 2(1)] sqlite_accountD [OF 2(2)]])
qed

end
