(* ===== verification/Scheduler.thy ===== *)
theory Scheduler
  imports RateLimit JobBooks Outbound
begin

text \<open>
  The delivery loop (internal/usecase/scheduler.go). Its collaborators are the fields of
  \<open>sched_env\<close>, functions of a store of any type; an optional Go interface is a flag beside
  the functions it has, a nil collaborator is \<open>None\<close> or a flag. \<open>ss_sent\<close> lists the
  requests made to the messenger, each with the time of the round and the store it was made in.
\<close>

section \<open>Collaborators and state\<close>

datatype sched_error =
    RepoError db_error
  | SettingsError
  | NoDurableClaims
  | NoKeywordDelivery
  | NoDispatchChecks
  | NoRestDelays

record 's sched_env =
  jobs_NextDue :: "'s \<Rightarrow> sched_error + OutgoingMessageJob option"
  jobs_Delay :: "ID \<Rightarrow> string \<Rightarrow> ('s, sched_error, unit) op"
  jobs_durable :: bool
  jobs_Claim :: "ID \<Rightarrow> ID \<Rightarrow> ('s, sched_error, ID) op"
  jobs_Complete :: "ID \<Rightarrow> OutgoingMessageEvent \<Rightarrow> ('s, sched_error, bool) op"
  jobs_guard :: bool
  jobs_CanDispatch :: "ID \<Rightarrow> ID \<Rightarrow> 's \<Rightarrow> sched_error + bool"
  jobs_keyword :: bool
  jobs_RecordPrivateClosed :: "ID \<Rightarrow> ID \<Rightarrow> time \<Rightarrow> ('s, sched_error, unit) op"
  jobs_CompleteKeywordResponse :: "KeywordDeliveryOutcome \<Rightarrow> ('s, sched_error, bool) op"
  jobs_DelayKeywordFailure :: "KeywordDeliveryFailure \<Rightarrow> ('s, sched_error, unit) op"
  jobs_transient :: bool
  jobs_DelayTransientUntil :: "ID \<Rightarrow> string \<Rightarrow> time \<Rightarrow> ('s, sched_error, unit) op"
  jobs_delayed :: bool
  jobs_DelayUntil :: "ID \<Rightarrow> string \<Rightarrow> time \<Rightarrow> ('s, sched_error, unit) op"
  jobs_releases :: bool
  jobs_ReleaseGroupRestDelays :: "('s, sched_error, unit) op"
  accounts_ListActive :: "('s, sched_error, Account list) op"
  groupRests :: bool
  rests_ActiveGroupRestUntil :: "ID list \<Rightarrow> time \<Rightarrow> 's \<Rightarrow> sched_error + (ID \<rightharpoonup> time)"
  restEnabled :: "('s \<Rightarrow> sched_error + bool) option"
  available :: "(ID \<Rightarrow> 's \<Rightarrow> bool) option"
  telegram_SendPublicReply :: "Account \<Rightarrow> OutgoingMessageJob \<Rightarrow> 's \<Rightarrow> go_error option \<times> 's"
  telegram_SendPrivateMessage :: "Account \<Rightarrow> OutgoingMessageJob \<Rightarrow> 's \<Rightarrow> go_error option \<times> 's"

record 's send_request =
  sent_at :: time
  sent_private :: bool
  sent_by :: Account
  sent_job :: OutgoingMessageJob
  sent_in :: 's

record 's scheduler =
  ss_store :: 's
  ss_selector :: RoundRobinSelector
  ss_limiter :: "MemoryLimiter option"
  ss_sent :: "'s send_request list"

text \<open>Sequencing with Go's early return on an error, and an operation on the store.\<close>

definition then_op :: "('w, 'e, 'a) op \<Rightarrow> ('a \<Rightarrow> ('w, 'e, 'b) op) \<Rightarrow> ('w, 'e, 'b) op" where
  "then_op m f w = (case m w of (Inl e, w') \<Rightarrow> (Inl e, w') | (Inr x, w') \<Rightarrow> f x w')"

definition on_store :: "('s, 'e, 'a) op \<Rightarrow> ('s scheduler, 'e, 'a) op" where
  "on_store m w = (case m (ss_store w) of (r, s) \<Rightarrow> (r, w\<lparr>ss_store := s\<rparr>))"

definition reading :: "('s \<Rightarrow> 'e + 'a) \<Rightarrow> ('s scheduler, 'e, 'a) op" where
  "reading q w = (q (ss_store w), w)"

definition return_op :: "'a \<Rightarrow> ('w, 'e, 'a) op" where
  "return_op x w = (Inr x, w)"

definition fail_op :: "'e \<Rightarrow> ('w, 'e, 'a) op" where
  "fail_op e w = (Inl e, w)"

section \<open>Small decisions\<close>

definition findAccount :: "Account list \<Rightarrow> ID \<Rightarrow> Account option" where
  "findAccount accounts accountID = find (\<lambda>a. acc_ID a = accountID) accounts"

definition keywordPrivateTurn :: "OutgoingMessageJob \<Rightarrow> Account \<Rightarrow> bool" where
  "keywordPrivateTurn job account =
     (if job_KeywordDeliveryMode job = KeywordDeliveryModePrivate
      then TrimSpace (job_TargetTelegramID job) \<noteq> ''''
      else if job_KeywordDeliveryMode job = KeywordDeliveryModeComments then False
      else job_AllowPrivate job \<and> TrimSpace (job_TargetTelegramID job) \<noteq> '''' \<and>
           EffectiveNextDelivery account = DeliveryTargetPrivate)"

definition deliveryRequiresPublic :: "OutgoingMessageJob \<Rightarrow> Account \<Rightarrow> bool" where
  "deliveryRequiresPublic job account =
     (if job_Type job = JobPublicReply then True
      else if job_Type job = JobKeywordResponse then \<not> keywordPrivateTurn job account
      else False)"

definition groupRestIsEnabled :: "'s sched_env \<Rightarrow> 's \<Rightarrow> sched_error + bool" where
  "groupRestIsEnabled E s = (case restEnabled E of None \<Rightarrow> Inr True | Some resolver \<Rightarrow> resolver s)"

definition canDispatch :: "'s sched_env \<Rightarrow> ID \<Rightarrow> ID \<Rightarrow> 's \<Rightarrow> sched_error + bool" where
  "canDispatch E jobID accountID s =
     (if \<not> jobs_guard E then Inl NoDispatchChecks else jobs_CanDispatch E jobID accountID s)"

section \<open>Delays\<close>

definition retry_at :: "time \<Rightarrow> go_error option \<Rightarrow> time" where
  "retry_at now sendErr =
     (case Option.bind sendErr retryAfter of
        Some d \<Rightarrow> if 0 < d then now + d else now + 2 * Second
      | None \<Rightarrow> now + 2 * Second)"

definition delayKeywordFailure ::
  "'s sched_env \<Rightarrow> OutgoingMessageJob \<Rightarrow> time \<Rightarrow> string \<Rightarrow> Account option \<Rightarrow> string option \<Rightarrow>
     go_error option \<Rightarrow> ('s scheduler, sched_error, unit) op" where
  "delayKeywordFailure E job now errorCode account deliveryType sendErr =
     on_store (jobs_DelayKeywordFailure E
       \<lparr>fail_JobID = job_ID job, fail_AccountID = map_option acc_ID account,
        fail_AccountTitleSnapshot = (case account of None \<Rightarrow> '''' | Some a \<Rightarrow> acc_DisplayName a),
        fail_Type = deliveryType, fail_ErrorCode = errorCode, fail_FailedAt = now,
        fail_NextAttemptAt = retry_at now sendErr\<rparr>)"

text \<open>
  The choice the rounds make at every failure before a send: a keyword job keeps the failure
  in its history, any other job is only delayed.
\<close>

definition delay_failure ::
  "'s sched_env \<Rightarrow> OutgoingMessageJob \<Rightarrow> time \<Rightarrow> bool \<Rightarrow> string \<Rightarrow> Account option \<Rightarrow>
     ('s scheduler, sched_error, unit) op" where
  "delay_failure E job now keyword reason account =
     (if keyword then delayKeywordFailure E job now reason account None None
      else on_store (jobs_Delay E (job_ID job) reason))"

definition delaySendFailure ::
  "'s sched_env \<Rightarrow> ID \<Rightarrow> time \<Rightarrow> go_error \<Rightarrow> ('s scheduler, sched_error, unit) op" where
  "delaySendFailure E jobID now sendErr =
     (case retryAfter sendErr of
        Some d \<Rightarrow>
          if 0 < d \<and> jobs_delayed E
          then on_store (jobs_DelayUntil E jobID ''send_failed'' (now + d))
          else on_store (jobs_Delay E jobID ''send_failed'')
      | None \<Rightarrow> on_store (jobs_Delay E jobID ''send_failed''))"

definition delayForGroupRest ::
  "'s sched_env \<Rightarrow> OutgoingMessageJob \<Rightarrow> bool \<Rightarrow> time \<Rightarrow> ('s scheduler, sched_error, unit) op" where
  "delayForGroupRest E job keyword until =
     then_op (reading (groupRestIsEnabled E)) (\<lambda>enabled.
       if \<not> enabled then return_op ()
       else then_op
         (if keyword \<or> jobs_transient E
          then on_store (jobs_DelayTransientUntil E (job_ID job) restReason until)
          else if jobs_delayed E then on_store (jobs_DelayUntil E (job_ID job) restReason until)
          else fail_op NoRestDelays)
         (\<lambda>_. then_op (reading (groupRestIsEnabled E)) (\<lambda>enabled.
            if enabled then return_op ()
            else if jobs_releases E then on_store (jobs_ReleaseGroupRestDelays E)
            else return_op ())))"

definition resting :: "(ID \<rightharpoonup> time) \<Rightarrow> time \<Rightarrow> Account \<Rightarrow> time option" where
  "resting active now account =
     (case active (acc_ID account) of
        None \<Rightarrow> None | Some until \<Rightarrow> if After until now then Some until else None)"

definition delayClaimedPublicForRest ::
  "'s sched_env \<Rightarrow> OutgoingMessageJob \<Rightarrow> Account \<Rightarrow> time \<Rightarrow> bool \<Rightarrow> ('s scheduler, sched_error, bool) op" where
  "delayClaimedPublicForRest E job account now keyword =
     (if \<not> groupRests E then return_op False
      else then_op (reading (groupRestIsEnabled E)) (\<lambda>enabled.
        if \<not> enabled then return_op False
        else then_op (reading (rests_ActiveGroupRestUntil E [acc_ID account] now)) (\<lambda>active.
          case resting active now account of
            None \<Rightarrow> return_op False
          | Some until \<Rightarrow>
              then_op (delayForGroupRest E job keyword until) (\<lambda>_. return_op True))))"

text \<open>
  The accounts that may take an unclaimed job now, and the earliest end of a rest among those
  left out.
\<close>

fun split_resting ::
  "OutgoingMessageJob \<Rightarrow> (ID \<rightharpoonup> time) \<Rightarrow> time \<Rightarrow> Account list \<Rightarrow> Account list \<Rightarrow> time option \<Rightarrow>
     Account list \<times> time option" where
  "split_resting job active now [] eligible earliest = (eligible, earliest)"
| "split_resting job active now (a # as) eligible earliest =
     (case (if deliveryRequiresPublic job a then resting active now a else None) of
        None \<Rightarrow> split_resting job active now as (eligible @ [a]) earliest
      | Some until \<Rightarrow> split_resting job active now as eligible
          (case earliest of
             None \<Rightarrow> Some until
           | Some e \<Rightarrow> if Before until e then Some until else Some e))"

definition filterRestingPublicCandidates ::
  "'s sched_env \<Rightarrow> OutgoingMessageJob \<Rightarrow> Account list \<Rightarrow> time \<Rightarrow> 's \<Rightarrow>
     sched_error + Account list \<times> time option" where
  "filterRestingPublicCandidates E job accounts now s =
     (let candidates = eligible_spammers accounts;
          publicIDs = map acc_ID (filter (deliveryRequiresPublic job) candidates)
      in if publicIDs = [] \<or> \<not> groupRests E then Inr (candidates, None)
         else (case groupRestIsEnabled E s of
                 Inl e \<Rightarrow> Inl e
               | Inr enabled \<Rightarrow>
                   if \<not> enabled then Inr (candidates, None)
                   else (case rests_ActiveGroupRestUntil E publicIDs now s of
                           Inl e \<Rightarrow> Inl e
                         | Inr active \<Rightarrow> Inr (split_resting job active now candidates [] None))))"

section \<open>Sends\<close>

definition send_message ::
  "'s sched_env \<Rightarrow> time \<Rightarrow> bool \<Rightarrow> Account \<Rightarrow> OutgoingMessageJob \<Rightarrow>
     ('s scheduler, sched_error, go_error option) op" where
  "send_message E now private account job w =
     (case (if private then telegram_SendPrivateMessage E account job (ss_store w)
            else telegram_SendPublicReply E account job (ss_store w)) of
        (err, s) \<Rightarrow>
          (Inr err, w\<lparr>ss_store := s,
             ss_sent := ss_sent w @ [\<lparr>sent_at = now, sent_private = private, sent_by = account,
                                      sent_job = job, sent_in = ss_store w\<rparr>]\<rparr>))"

text \<open>The guard, and nothing more if it refuses; \<open>None\<close> is the early \<^verbatim>\<open>return nil\<close>.\<close>

definition guarded_send ::
  "'s sched_env \<Rightarrow> time \<Rightarrow> bool \<Rightarrow> Account \<Rightarrow> OutgoingMessageJob \<Rightarrow>
     ('s scheduler, sched_error, go_error option option) op" where
  "guarded_send E now private account job =
     then_op (reading (canDispatch E (job_ID job) (acc_ID account))) (\<lambda>allowed.
       if \<not> allowed then return_op None
       else then_op (send_message E now private account job) (\<lambda>err. return_op (Some err)))"

definition keyword_outcome ::
  "OutgoingMessageJob \<Rightarrow> Account \<Rightarrow> string \<Rightarrow> string option \<Rightarrow> time \<Rightarrow> KeywordDeliveryOutcome" where
  "keyword_outcome job account actualType advanceTo now =
     \<lparr>out_JobID = job_ID job, out_AccountID = acc_ID account, out_ChannelID = job_ChannelID job,
      out_AccountTitleSnapshot = acc_DisplayName account, out_Type = actualType,
      out_AdvanceTo = advanceTo, out_CompletedAt = now\<rparr>"

text \<open>The end of a keyword response: delay after an error, completion otherwise.\<close>

definition finish_keyword ::
  "'s sched_env \<Rightarrow> time \<Rightarrow> OutgoingMessageJob \<Rightarrow> Account \<Rightarrow> string \<Rightarrow> string option \<Rightarrow>
     go_error option \<Rightarrow> ('s scheduler, sched_error, unit) op" where
  "finish_keyword E now job account actualType advanceTo err =
     (case err of
        Some e \<Rightarrow> delayKeywordFailure E job now ''send_failed'' (Some account) (Some actualType) (Some e)
      | None \<Rightarrow>
          then_op (on_store (jobs_CompleteKeywordResponse E
                     (keyword_outcome job account actualType advanceTo now))) (\<lambda>_. return_op ()))"

definition runKeywordResponse ::
  "'s sched_env \<Rightarrow> time \<Rightarrow> OutgoingMessageJob \<Rightarrow> Account \<Rightarrow> ('s scheduler, sched_error, unit) op" where
  "runKeywordResponse E now job account =
     (if keywordPrivateTurn job account then
        then_op (guarded_send E now True account job) (\<lambda>r.
          case r of
            None \<Rightarrow> return_op ()
          | Some err \<Rightarrow>
              if (case err of None \<Rightarrow> False | Some e \<Rightarrow> IsPrivateMessageClosed e)
              then then_op (on_store (jobs_RecordPrivateClosed E (job_ID job) (acc_ID account) now)) (\<lambda>_.
                     if job_KeywordDeliveryMode job = KeywordDeliveryModePrivate \<and>
                        \<not> job_FallbackToPublic job
                     then return_op ()
                     else on_store (jobs_DelayTransientUntil E (job_ID job)
                            ''private_message_closed'' (now + 2 * Second)))
              else finish_keyword E now job account JobPrivateMessage
                     (if err = None \<and> job_KeywordDeliveryMode job = ''''
                      then Some DeliveryTargetPublic else None) err)
      else
        then_op (delayClaimedPublicForRest E job account now True) (\<lambda>delayed.
          if delayed then return_op ()
          else then_op (guarded_send E now False account job) (\<lambda>r.
            case r of
              None \<Rightarrow> return_op ()
            | Some err \<Rightarrow>
                finish_keyword E now job account JobPublicReply
                  (if err = None \<and> job_KeywordDeliveryMode job = '''' \<and> job_AllowPrivate job
                   then Some DeliveryTargetPrivate else None) err)))"

section \<open>One round\<close>

definition limiter_allow ::
  "ID \<Rightarrow> time \<Rightarrow> ('s scheduler, sched_error, bool) op" where
  "limiter_allow accountID now w =
     (case ss_limiter w of
        None \<Rightarrow> (Inr True, w)
      | Some l \<Rightarrow> (case Allow l accountID now of (b, l') \<Rightarrow> (Inr b, w\<lparr>ss_limiter := Some l'\<rparr>)))"

text \<open>The plain deliveries: what follows the switch on the job's type.\<close>

definition finish_plain ::
  "'s sched_env \<Rightarrow> ID \<Rightarrow> time \<Rightarrow> OutgoingMessageJob \<Rightarrow> Account \<Rightarrow> go_error option option \<Rightarrow>
     ('s scheduler, sched_error, unit) op" where
  "finish_plain E eventID now job account r =
     (case r of
        None \<Rightarrow> return_op ()
      | Some (Some err) \<Rightarrow> delaySendFailure E (job_ID job) now err
      | Some None \<Rightarrow>
          then_op (on_store (jobs_Complete E (job_ID job)
            \<lparr>ev_ID = eventID, ev_JobID = job_ID job, ev_AccountID = acc_ID account,
             ev_ChannelID = job_ChannelID job, ev_Type = job_Type job, ev_Success = True,
             ev_ErrorCode = '''', ev_CreatedAt = now\<rparr>)) (\<lambda>_. return_op ()))"

definition dispatch ::
  "'s sched_env \<Rightarrow> ID \<Rightarrow> time \<Rightarrow> bool \<Rightarrow> OutgoingMessageJob \<Rightarrow> Account \<Rightarrow>
     ('s scheduler, sched_error, unit) op" where
  "dispatch E eventID now keyword job account =
     then_op (limiter_allow (acc_ID account) now) (\<lambda>granted.
       if \<not> granted then delay_failure E job now keyword ''rate_limited'' (Some account)
       else if job_Type job = JobKeywordResponse then runKeywordResponse E now job account
       else if job_Type job = JobPublicReply then
         then_op (delayClaimedPublicForRest E job account now False) (\<lambda>delayed.
           if delayed then return_op ()
           else then_op (guarded_send E now False account job) (finish_plain E eventID now job account))
       else if job_Type job = JobPrivateMessage then
         then_op (guarded_send E now True account job) (finish_plain E eventID now job account)
       else on_store (jobs_Delay E (job_ID job) ''unsupported_job_type''))"

definition select_next :: "Account list \<Rightarrow> ('s scheduler, sched_error, Account option) op" where
  "select_next candidates w =
     (case Next (ss_selector w) candidates of (a, sel) \<Rightarrow> (Inr a, w\<lparr>ss_selector := sel\<rparr>))"

text \<open>A job with an account, and the choice and claim of one for a job without.\<close>

definition dispatch_claimed ::
  "'s sched_env \<Rightarrow> ID \<Rightarrow> time \<Rightarrow> bool \<Rightarrow> Account list \<Rightarrow> OutgoingMessageJob \<Rightarrow> ID \<Rightarrow>
     ('s scheduler, sched_error, unit) op" where
  "dispatch_claimed E eventID now keyword accounts job claimed =
     (case findAccount accounts claimed of
        None \<Rightarrow> delay_failure E job now keyword ''claimed_account_unavailable'' None
      | Some account \<Rightarrow>
          dispatch E eventID now keyword (job\<lparr>job_AccountID := Some claimed\<rparr>) account)"

definition claim_and_dispatch ::
  "'s sched_env \<Rightarrow> ID \<Rightarrow> time \<Rightarrow> bool \<Rightarrow> Account list \<Rightarrow> OutgoingMessageJob \<Rightarrow> Account option \<Rightarrow>
     ('s scheduler, sched_error, unit) op" where
  "claim_and_dispatch E eventID now keyword accounts job selected =
     (case selected of
        None \<Rightarrow> delay_failure E job now keyword ''no_eligible_account'' None
      | Some account \<Rightarrow>
          then_op (on_store (jobs_Claim E (job_ID job) (acc_ID account)))
            (dispatch_claimed E eventID now keyword accounts job))"

definition run_unclaimed ::
  "'s sched_env \<Rightarrow> ID \<Rightarrow> time \<Rightarrow> bool \<Rightarrow> Account list \<Rightarrow> OutgoingMessageJob \<Rightarrow>
     ('s scheduler, sched_error, unit) op" where
  "run_unclaimed E eventID now keyword accounts job =
     then_op (reading (filterRestingPublicCandidates E job accounts now)) (\<lambda>found.
       let (candidates, earliest) = found in
       if candidates = [] \<and> earliest \<noteq> None
       then delayForGroupRest E job keyword (the earliest)
       else then_op (select_next candidates)
              (claim_and_dispatch E eventID now keyword accounts job))"

definition run_job ::
  "'s sched_env \<Rightarrow> ID \<Rightarrow> time \<Rightarrow> OutgoingMessageJob \<Rightarrow> Account list \<Rightarrow>
     ('s scheduler, sched_error, unit) op" where
  "run_job E eventID now job accounts =
     (let keyword = (job_Type job = JobKeywordResponse) in
      if \<not> jobs_durable E then fail_op NoDurableClaims
      else if keyword \<and> \<not> jobs_keyword E then fail_op NoKeywordDelivery
      else case job_AccountID job of
             Some claimed \<Rightarrow> dispatch_claimed E eventID now keyword accounts job claimed
           | None \<Rightarrow> run_unclaimed E eventID now keyword accounts job)"

definition filter_available :: "'s sched_env \<Rightarrow> Account list \<Rightarrow> 's \<Rightarrow> sched_error + Account list" where
  "filter_available E listed s =
     Inr (case available E of None \<Rightarrow> listed | Some up \<Rightarrow> filter (\<lambda>a. up (acc_ID a) s) listed)"

definition RunOnce ::
  "'s sched_env \<Rightarrow> ID \<Rightarrow> time \<Rightarrow> ('s scheduler, sched_error, unit) op" where
  "RunOnce E eventID now =
     then_op (reading (jobs_NextDue E)) (\<lambda>due.
       case due of
         None \<Rightarrow> return_op ()
       | Some job \<Rightarrow>
           then_op (on_store (accounts_ListActive E)) (\<lambda>listed.
             then_op (reading (filter_available E listed)) (run_job E eventID now job)))"

section \<open>The rounds keep what the collaborators keep\<close>

text \<open>
  The contract of the collaborators: an invariant of the store that every operation keeps,
  whatever its result, and that a completion keeps when it reports a success.
\<close>

locale delivery_collaborators =
  fixes E :: "'s sched_env"
    and inv :: "'s \<Rightarrow> bool"
  assumes keep_Delay: "inv s \<Longrightarrow> inv (snd (jobs_Delay E j r s))"
    and keep_Claim: "inv s \<Longrightarrow> inv (snd (jobs_Claim E j a s))"
    and keep_Complete: "inv s \<Longrightarrow> ev_Success e \<Longrightarrow> inv (snd (jobs_Complete E j e s))"
    and keep_RecordPrivateClosed: "inv s \<Longrightarrow> inv (snd (jobs_RecordPrivateClosed E j a t s))"
    and keep_CompleteKeyword: "inv s \<Longrightarrow> inv (snd (jobs_CompleteKeywordResponse E out s))"
    and keep_DelayKeyword: "inv s \<Longrightarrow> inv (snd (jobs_DelayKeywordFailure E f s))"
    and keep_DelayTransient: "inv s \<Longrightarrow> inv (snd (jobs_DelayTransientUntil E j r t s))"
    and keep_DelayUntil: "inv s \<Longrightarrow> inv (snd (jobs_DelayUntil E j r t s))"
    and keep_Release: "inv s \<Longrightarrow> inv (snd (jobs_ReleaseGroupRestDelays E s))"
    and keep_ListActive: "inv s \<Longrightarrow> inv (snd (accounts_ListActive E s))"
    and keep_public: "inv s \<Longrightarrow> inv (snd (telegram_SendPublicReply E acc job s))"
    and keep_private: "inv s \<Longrightarrow> inv (snd (telegram_SendPrivateMessage E acc job s))"
begin

abbreviation kept :: "('s scheduler, 'e, 'a) op \<Rightarrow> bool" where
  "kept m \<equiv> (\<forall>w. inv (ss_store w) \<longrightarrow> inv (ss_store (snd (m w))))"

lemma kept_then: "kept m \<Longrightarrow> (\<And>x. kept (f x)) \<Longrightarrow> kept (then_op m f)"
  by (fastforce simp: then_op_def split: prod.splits sum.splits)

lemma kept_store: "(\<And>s. inv s \<Longrightarrow> inv (snd (m s))) \<Longrightarrow> kept (on_store m)"
  by (auto simp: on_store_def split: prod.splits) (metis snd_conv)

lemma kept_pure:
  "kept (reading q)" "kept (return_op x)" "kept (fail_op e)" "kept (limiter_allow a now)"
  "kept (select_next as)"
  by (auto simp: reading_def return_op_def fail_op_def limiter_allow_def select_next_def
      split: option.split prod.split)

lemma kept_send: "kept (send_message E now private acc job)"
  using keep_public keep_private
  by (auto simp: send_message_def split: prod.splits if_splits) (metis snd_conv)+

lemma kept_guarded: "kept (guarded_send E now private acc job)"
  unfolding guarded_send_def by (intro kept_then kept_pure) (simp add: kept_pure kept_then kept_send)

lemma kept_if: "kept m \<Longrightarrow> kept m' \<Longrightarrow> kept (if b then m else m')"
  by simp

lemma kept_ops:
  "kept (on_store (jobs_Delay E j r))" "kept (on_store (jobs_Claim E j a))"
  "kept (on_store (jobs_RecordPrivateClosed E j a t))"
  "kept (on_store (jobs_CompleteKeywordResponse E out))"
  "kept (on_store (jobs_DelayKeywordFailure E f))"
  "kept (on_store (jobs_DelayTransientUntil E j r t))" "kept (on_store (jobs_DelayUntil E j r t))"
  "kept (on_store (jobs_ReleaseGroupRestDelays E))" "kept (on_store (accounts_ListActive E))"
  by (rule kept_store, erule keep_Delay keep_Claim keep_RecordPrivateClosed keep_CompleteKeyword
      keep_DelayKeyword keep_DelayTransient keep_DelayUntil keep_Release keep_ListActive)+

lemma kept_delayKeywordFailure: "kept (delayKeywordFailure E job now code acc ty err)"
  unfolding delayKeywordFailure_def by (rule kept_ops)

lemma kept_delay_failure: "kept (delay_failure E job now keyword reason acc)"
  unfolding delay_failure_def by (intro kept_if kept_delayKeywordFailure kept_ops)

lemma kept_delaySendFailure: "kept (delaySendFailure E j now err)"
  unfolding delaySendFailure_def by (cases "retryAfter err") (simp_all add: kept_ops)

lemma kept_delayForGroupRest: "kept (delayForGroupRest E job keyword until)"
  unfolding delayForGroupRest_def by (intro kept_then kept_if kept_ops kept_pure)

lemma kept_delayClaimed: "kept (delayClaimedPublicForRest E job acc now keyword)"
proof -
  have "kept (case resting active now acc of None \<Rightarrow> return_op False
      | Some until \<Rightarrow> then_op (delayForGroupRest E job keyword until) (\<lambda>_. return_op True))" for active
    by (cases "resting active now acc")
       (simp_all add: kept_pure kept_then kept_delayForGroupRest)
  then show ?thesis
    unfolding delayClaimedPublicForRest_def by (intro kept_then kept_if kept_ops kept_pure)
qed

lemma kept_finish_keyword: "kept (finish_keyword E now job acc ty adv err)"
proof -
  have "kept (then_op (on_store (jobs_CompleteKeywordResponse E out)) (\<lambda>_. return_op ()))" for out
    by (intro kept_then kept_ops kept_pure)
  then show ?thesis
    unfolding finish_keyword_def by (cases err) (simp_all add: kept_delayKeywordFailure)
qed

lemma kept_runKeywordResponse: "kept (runKeywordResponse E now job acc)"
proof -
  let ?closed = "then_op (on_store (jobs_RecordPrivateClosed E (job_ID job) (acc_ID acc) now)) (\<lambda>_.
      if job_KeywordDeliveryMode job = KeywordDeliveryModePrivate \<and> \<not> job_FallbackToPublic job
      then return_op ()
      else on_store (jobs_DelayTransientUntil E (job_ID job) ''private_message_closed'' (now + 2 * Second)))"
  have closed: "kept ?closed" by (intro kept_then kept_if kept_ops kept_pure)
  have after: "kept (case r of
      None \<Rightarrow> return_op ()
    | Some err \<Rightarrow>
        if (case err of None \<Rightarrow> False | Some e \<Rightarrow> IsPrivateMessageClosed e) then ?closed
        else finish_keyword E now job acc JobPrivateMessage
               (if err = None \<and> job_KeywordDeliveryMode job = '''' then Some DeliveryTargetPublic
                else None) err)" for r
  proof (cases r)
    case None
    then show ?thesis by (simp add: kept_pure)
  next
    case (Some err)
    show ?thesis unfolding Some option.case by (intro kept_if closed kept_finish_keyword)
  qed
  have public: "kept (case r of
      None \<Rightarrow> return_op ()
    | Some err \<Rightarrow> finish_keyword E now job acc JobPublicReply
        (if err = None \<and> job_KeywordDeliveryMode job = '''' \<and> job_AllowPrivate job
         then Some DeliveryTargetPrivate else None) err)" for r
    by (cases r) (simp_all add: kept_pure kept_finish_keyword)
  show ?thesis
    unfolding runKeywordResponse_def
    by (intro kept_if kept_then kept_guarded kept_delayClaimed kept_pure after public)
qed

lemma kept_finish_plain: "kept (finish_plain E eventID now job acc r)"
proof -
  have "kept (then_op (on_store (jobs_Complete E j e)) (\<lambda>_. return_op ()))" if "ev_Success e" for j e
    using keep_Complete that by (intro kept_then kept_store kept_pure) simp_all
  then show ?thesis
    unfolding finish_plain_def
    by (auto simp: kept_pure kept_delaySendFailure split: option.split)
qed

lemma kept_dispatch: "kept (dispatch E eventID now keyword job acc)"
proof -
  have rest: "kept (if delayed then return_op ()
      else then_op (guarded_send E now False acc job) (finish_plain E eventID now job acc))" for delayed
    by (intro kept_if kept_then kept_guarded kept_finish_plain kept_pure)
  show ?thesis
    unfolding dispatch_def
    by (intro kept_then kept_if kept_ops kept_pure kept_delay_failure kept_runKeywordResponse
        kept_delayClaimed rest kept_guarded kept_finish_plain)
qed

lemma kept_dispatch_claimed: "kept (dispatch_claimed E eventID now keyword accounts job claimed)"
  unfolding dispatch_claimed_def
  by (cases "findAccount accounts claimed") (simp_all add: kept_delay_failure kept_dispatch)

lemma kept_claim_and_dispatch: "kept (claim_and_dispatch E eventID now keyword accounts job selected)"
proof -
  have "kept (then_op (on_store (jobs_Claim E j a)) (dispatch_claimed E eventID now keyword accounts job))"
    for j a by (intro kept_then kept_ops kept_dispatch_claimed)
  then show ?thesis
    unfolding claim_and_dispatch_def by (cases selected) (simp_all add: kept_delay_failure)
qed

lemma kept_run_unclaimed: "kept (run_unclaimed E eventID now keyword accounts job)"
  unfolding run_unclaimed_def Let_def case_prod_unfold
  by (intro kept_then kept_if kept_pure kept_delayForGroupRest kept_claim_and_dispatch)

lemma kept_run_job: "kept (run_job E eventID now job accounts)"
  unfolding run_job_def Let_def
  by (cases "job_AccountID job")
     (simp_all add: kept_pure kept_run_unclaimed kept_dispatch_claimed)

lemma kept_RunOnce: "kept (RunOnce E eventID now)"
proof -
  have "kept (then_op (on_store (accounts_ListActive E)) (\<lambda>listed.
      then_op (reading (filter_available E listed)) (run_job E eventID now job)))" for job
    by (intro kept_then kept_ops(9) kept_pure kept_run_job)
  then have "kept (case due of None \<Rightarrow> return_op () | Some job \<Rightarrow>
      then_op (on_store (accounts_ListActive E)) (\<lambda>listed.
        then_op (reading (filter_available E listed)) (run_job E eventID now job)))" for due
    by (cases due) (simp_all add: kept_pure)
  then show ?thesis unfolding RunOnce_def by (intro kept_then kept_pure)
qed

lemma RunOnce_keeps: "inv (ss_store w) \<Longrightarrow> inv (ss_store (snd (RunOnce E eventID now w)))"
  using kept_RunOnce by blast

end

section \<open>At most one send a round\<close>

definition silent :: "('s scheduler, 'e, 'a) op \<Rightarrow> bool" where
  "silent m \<longleftrightarrow> (\<forall>w. ss_sent (snd (m w)) = ss_sent w)"

definition sends_at ::
  "('s send_request \<Rightarrow> bool) \<Rightarrow> ('s scheduler, 'e, 'a) op \<Rightarrow> 's scheduler \<Rightarrow> bool" where
  "sends_at P m w \<longleftrightarrow>
     ss_sent (snd (m w)) = ss_sent w \<or> (\<exists>r. ss_sent (snd (m w)) = ss_sent w @ [r] \<and> P r)"

definition sends_one :: "('s send_request \<Rightarrow> bool) \<Rightarrow> ('s scheduler, 'e, 'a) op \<Rightarrow> bool" where
  "sends_one P m \<longleftrightarrow> (\<forall>w. sends_at P m w)"

lemma silentD: "silent m \<Longrightarrow> ss_sent (snd (m w)) = ss_sent w"
  by (simp add: silent_def)

lemma silent_sends_one: "silent m \<Longrightarrow> sends_one P m"
  by (simp add: silent_def sends_one_def sends_at_def)

lemma sends_one_mono: "sends_one P m \<Longrightarrow> (\<And>r. P r \<Longrightarrow> Q r) \<Longrightarrow> sends_one Q m"
  unfolding sends_one_def sends_at_def by blast

lemma then_op_cases:
  obtains e w' where "m w = (Inl e, w')" "then_op m f w = (Inl e, w')"
  | x w' where "m w = (Inr x, w')" "then_op m f w = f x w'"
  by (cases "m w"; cases "fst (m w)") (auto simp: then_op_def)

lemma silent_then:
  assumes "silent m" "\<And>x. silent (f x)"
  shows "silent (then_op m f)"
  unfolding silent_def
proof
  fix w
  show "ss_sent (snd (then_op m f w)) = ss_sent w"
    using silentD [OF assms(1), of w] silentD [OF assms(2)]
    by (cases rule: then_op_cases [of m w f]) simp_all
qed

lemma sends_one_then:
  assumes "silent m" "\<And>x. sends_one P (f x)"
  shows "sends_one P (then_op m f)"
  unfolding sends_one_def
proof
  fix w
  show "sends_at P (then_op m f) w"
  proof (cases rule: then_op_cases [of m w f])
    case (1 e w')
    then show ?thesis using silentD [OF assms(1), of w] by (simp add: sends_at_def)
  next
    case (2 x w')
    have "sends_at P (f x) w'" using assms(2) by (simp add: sends_one_def)
    then show ?thesis using 2 silentD [OF assms(1), of w] by (simp add: sends_at_def)
  qed
qed

lemma sends_at_then_silent:
  assumes "sends_at P m w" "\<And>x. silent (f x)"
  shows "sends_at P (then_op m f) w"
  using assms(1) silentD [OF assms(2)]
  by (cases rule: then_op_cases [of m w f]) (simp_all add: sends_at_def)

lemma sends_one_then_silent:
  "sends_one P m \<Longrightarrow> (\<And>x. silent (f x)) \<Longrightarrow> sends_one P (then_op m f)"
  by (simp add: sends_one_def sends_at_then_silent)

lemma silent_pure [simp]:
  "silent (on_store m)" "silent (reading q)" "silent (return_op x)" "silent (fail_op e)"
  "silent (limiter_allow a now)" "silent (select_next as)"
  by (simp_all add: silent_def on_store_def reading_def return_op_def fail_op_def limiter_allow_def
      select_next_def split: option.split prod.split)

lemma silent_if: "silent m \<Longrightarrow> silent m' \<Longrightarrow> silent (if b then m else m')"
  by simp

lemma sends_one_if: "sends_one P m \<Longrightarrow> sends_one P m' \<Longrightarrow> sends_one P (if b then m else m')"
  by simp

lemma silent_delays [simp]:
  "silent (delayKeywordFailure E job now code acc ty err)"
  "silent (delay_failure E job now keyword reason acc)"
  "silent (delaySendFailure E j now e)"
  "silent (delayForGroupRest E job keyword until)"
  by (simp_all add: delayKeywordFailure_def delay_failure_def delaySendFailure_def
      delayForGroupRest_def silent_then split: option.split)

lemma silent_delayClaimed [simp]: "silent (delayClaimedPublicForRest E job acc now keyword)"
proof -
  have "silent (case resting active now acc of None \<Rightarrow> return_op False
      | Some until \<Rightarrow> then_op (delayForGroupRest E job keyword until) (\<lambda>_. return_op True))" for active
    by (simp add: silent_then split: option.split)
  then show ?thesis
    unfolding delayClaimedPublicForRest_def by (intro silent_then silent_if) simp_all
qed

lemma silent_finish [simp]:
  "silent (finish_keyword E now job acc ty adv err)" "silent (finish_plain E eventID now job acc r)"
  by (simp_all add: finish_keyword_def finish_plain_def silent_then split: option.split)

subsection \<open>What holds of a send\<close>

definition rests_allow :: "'s sched_env \<Rightarrow> time \<Rightarrow> Account \<Rightarrow> 's \<Rightarrow> bool" where
  "rests_allow E now account s \<longleftrightarrow>
     \<not> groupRests E \<or> groupRestIsEnabled E s = Inr False \<or>
     (\<exists>active. rests_ActiveGroupRestUntil E [acc_ID account] now s = Inr active \<and>
        resting active now account = None)"

definition send_allowed :: "'s sched_env \<Rightarrow> time \<Rightarrow> OutgoingMessageJob \<Rightarrow> Account \<Rightarrow> 's send_request \<Rightarrow> bool" where
  "send_allowed E now job account r \<longleftrightarrow>
     sent_at r = now \<and> sent_by r = account \<and> sent_job r = job \<and>
     canDispatch E (job_ID job) (acc_ID account) (sent_in r) = Inr True \<and>
     (sent_private r \<longrightarrow> job_Type job = JobPrivateMessage \<or>
        job_Type job = JobKeywordResponse \<and> keywordPrivateTurn job account) \<and>
     (\<not> sent_private r \<longrightarrow> deliveryRequiresPublic job account \<and> rests_allow E now account (sent_in r))"

text \<open>A send that the guard admitted, in the store the guard saw.\<close>

lemma guarded_send_at:
  assumes "\<And>r. sent_at r = now \<Longrightarrow> sent_private r = private \<Longrightarrow> sent_by r = acc \<Longrightarrow>
      sent_job r = job \<Longrightarrow> sent_in r = ss_store w \<Longrightarrow>
      canDispatch E (job_ID job) (acc_ID acc) (ss_store w) = Inr True \<Longrightarrow> P r"
  shows "sends_at P (guarded_send E now private acc job) w"
  using assms [of "\<lparr>sent_at = now, sent_private = private, sent_by = acc, sent_job = job, sent_in = ss_store w\<rparr>"]
  by (cases "private"; cases "canDispatch E (job_ID job) (acc_ID acc) (ss_store w)")
     (auto simp: sends_at_def guarded_send_def then_op_def reading_def return_op_def send_message_def
      split: prod.split)

lemma sends_one_private:
  assumes "job_Type job = JobPrivateMessage \<or> job_Type job = JobKeywordResponse \<and> keywordPrivateTurn job acc"
  shows "sends_one (send_allowed E now job acc) (guarded_send E now True acc job)"
  unfolding sends_one_def using assms by (auto simp: send_allowed_def intro: guarded_send_at)

lemma delayClaimed_False:
  "delayClaimedPublicForRest E job acc now keyword w = (Inr False, w') \<Longrightarrow>
     w' = w \<and> rests_allow E now acc (ss_store w)"
  by (auto simp: delayClaimedPublicForRest_def then_op_def reading_def return_op_def rests_allow_def
      split: if_splits sum.splits option.splits prod.splits)

lemma sends_one_public:
  assumes pub: "deliveryRequiresPublic job acc" and fin: "\<And>r. silent (finish r)"
  shows "sends_one (send_allowed E now job acc)
    (then_op (delayClaimedPublicForRest E job acc now keyword) (\<lambda>delayed.
       if delayed then return_op ()
       else then_op (guarded_send E now False acc job) finish))"
  unfolding sends_one_def
proof
  fix w
  let ?P = "send_allowed E now job acc"
  let ?rest = "delayClaimedPublicForRest E job acc now keyword"
  let ?f = "\<lambda>delayed. if delayed then return_op () else then_op (guarded_send E now False acc job) finish"
  note quiet = silentD [OF silent_delayClaimed, of E job acc now keyword w]
  show "sends_at ?P (then_op ?rest ?f) w"
  proof (cases rule: then_op_cases [of ?rest w ?f])
    case (1 e w')
    then show ?thesis using quiet by (simp add: sends_at_def)
  next
    case (2 delayed w')
    show ?thesis
    proof (cases delayed)
      case True
      then show ?thesis using 2 quiet by (simp add: sends_at_def return_op_def)
    next
      case False
      with 2(1) have "?rest w = (Inr False, w')" by simp
      from delayClaimed_False [OF this]
      have w': "w' = w" "rests_allow E now acc (ss_store w)" by blast+
      have "sends_at ?P (guarded_send E now False acc job) w"
        using w'(2) pub by (intro guarded_send_at) (auto simp: send_allowed_def)
      then have "sends_at ?P (then_op (guarded_send E now False acc job) finish) w"
        using fin by (rule sends_at_then_silent)
      then show ?thesis using 2(2) False w'(1) by (simp add: sends_at_def)
    qed
  qed
qed

lemma sends_one_keyword:
  assumes "job_Type job = JobKeywordResponse"
  shows "sends_one (send_allowed E now job acc) (runKeywordResponse E now job acc)"
proof (cases "keywordPrivateTurn job acc")
  case True
  have "silent (case r of None \<Rightarrow> return_op () | Some err \<Rightarrow>
      if (case err of None \<Rightarrow> False | Some e \<Rightarrow> IsPrivateMessageClosed e)
      then then_op (on_store (jobs_RecordPrivateClosed E (job_ID job) (acc_ID acc) now)) (\<lambda>_.
             if job_KeywordDeliveryMode job = KeywordDeliveryModePrivate \<and> \<not> job_FallbackToPublic job
             then return_op ()
             else on_store (jobs_DelayTransientUntil E (job_ID job)
                    ''private_message_closed'' (now + 2 * Second)))
      else finish_keyword E now job acc JobPrivateMessage (adv err) err)" for r adv
    by (auto intro!: silent_then split: option.split)
  with True assms show ?thesis
    unfolding runKeywordResponse_def by (simp add: sends_one_then_silent sends_one_private)
next
  case False
  with assms have "deliveryRequiresPublic job acc" by (simp add: deliveryRequiresPublic_def)
  moreover have "silent (case r of None \<Rightarrow> return_op () | Some err \<Rightarrow>
      finish_keyword E now job acc JobPublicReply (adv err) err)" for r adv
    by (simp split: option.split)
  ultimately show ?thesis
    unfolding runKeywordResponse_def using False by (simp add: sends_one_public)
qed

lemma sends_one_dispatch: "sends_one (send_allowed E now job acc) (dispatch E eventID now keyword job acc)"
proof -
  have "sends_one (send_allowed E now job acc)
     (if \<not> granted then delay_failure E job now keyword ''rate_limited'' (Some acc)
       else if job_Type job = JobKeywordResponse then runKeywordResponse E now job acc
       else if job_Type job = JobPublicReply then
         then_op (delayClaimedPublicForRest E job acc now False) (\<lambda>delayed.
           if delayed then return_op ()
           else then_op (guarded_send E now False acc job) (finish_plain E eventID now job acc))
       else if job_Type job = JobPrivateMessage then
         then_op (guarded_send E now True acc job) (finish_plain E eventID now job acc)
       else on_store (jobs_Delay E (job_ID job) ''unsupported_job_type''))" for granted
    by (simp add: silent_sends_one sends_one_keyword sends_one_public deliveryRequiresPublic_def
        sends_one_private sends_one_then_silent)
  then show ?thesis unfolding dispatch_def by (intro sends_one_then silent_pure)
qed

lemma findAccount_SomeD: "findAccount accounts i = Some a \<Longrightarrow> a \<in> set accounts \<and> acc_ID a = i"
  by (auto simp: findAccount_def find_Some_iff)

text \<open>The send of a round: of the due job, by one of the round's accounts, which holds its claim.\<close>

definition round_send :: "'s sched_env \<Rightarrow> time \<Rightarrow> OutgoingMessageJob \<Rightarrow> Account list \<Rightarrow> 's send_request \<Rightarrow> bool" where
  "round_send E now job accounts r \<longleftrightarrow>
     sent_job r = job\<lparr>job_AccountID := Some (acc_ID (sent_by r))\<rparr> \<and> sent_by r \<in> set accounts \<and>
     send_allowed E now (sent_job r) (sent_by r) r"

lemma sends_one_claimed:
  "sends_one (round_send E now job accounts) (dispatch_claimed E eventID now keyword accounts job claimed)"
proof (cases "findAccount accounts claimed")
  case None
  then show ?thesis by (simp add: dispatch_claimed_def silent_sends_one)
next
  case (Some a)
  with findAccount_SomeD [OF Some] show ?thesis
    unfolding dispatch_claimed_def
    by (auto simp: round_send_def send_allowed_def intro: sends_one_mono [OF sends_one_dispatch])
qed

lemma sends_one_run_job:
  "sends_one (round_send E now job accounts) (run_job E eventID now job accounts)"
proof -
  have claim: "sends_one (round_send E now job accounts)
      (claim_and_dispatch E eventID now keyword accounts job selected)" for keyword selected
    by (simp add: claim_and_dispatch_def silent_sends_one sends_one_then sends_one_claimed
        split: option.split)
  have "sends_one (round_send E now job accounts) (run_unclaimed E eventID now keyword accounts job)"
    for keyword
    unfolding run_unclaimed_def Let_def case_prod_unfold
    by (intro sends_one_then sends_one_if silent_pure silent_sends_one [OF silent_delays(4)] claim)
  then show ?thesis
    unfolding run_job_def Let_def
    by (simp add: silent_sends_one sends_one_claimed split: option.split)
qed

text \<open>The accounts of a round: the active ones, less those without a connection.\<close>

definition round_accounts :: "'s sched_env \<Rightarrow> 's \<Rightarrow> Account list" where
  "round_accounts E s =
     (case accounts_ListActive E s of
        (Inr listed, s') \<Rightarrow>
          (case available E of None \<Rightarrow> listed | Some up \<Rightarrow> filter (\<lambda>a. up (acc_ID a) s') listed)
      | (Inl _, s') \<Rightarrow> [])"

lemma RunOnce_sends:
  "sends_at (\<lambda>r. \<exists>job. jobs_NextDue E (ss_store w) = Inr (Some job) \<and>
       round_send E now job (round_accounts E (ss_store w)) r) (RunOnce E eventID now) w"
proof (cases "jobs_NextDue E (ss_store w)")
  case (Inl e)
  then show ?thesis by (simp add: RunOnce_def then_op_def reading_def sends_at_def)
next
  case (Inr due)
  show ?thesis
  proof (cases due)
    case None
    with Inr show ?thesis by (simp add: RunOnce_def then_op_def reading_def return_op_def sends_at_def)
  next
    case (Some job)
    obtain r s' where la: "accounts_ListActive E (ss_store w) = (r, s')" by fastforce
    show ?thesis
    proof (cases r)
      case (Inl e)
      with Inr Some la show ?thesis
        by (simp add: RunOnce_def then_op_def reading_def on_store_def sends_at_def)
    next
      case listed: (Inr listed)
      let ?w' = "w\<lparr>ss_store := s'\<rparr>"
      let ?accounts = "round_accounts E (ss_store w)"
      have run: "RunOnce E eventID now w = run_job E eventID now job ?accounts ?w'"
        using Inr Some la listed
        by (simp add: RunOnce_def then_op_def reading_def on_store_def filter_available_def round_accounts_def
            split: option.split)
      have "sends_at (round_send E now job ?accounts) (run_job E eventID now job ?accounts) ?w'"
        using sends_one_run_job unfolding sends_one_def by blast
      then show ?thesis using Inr Some by (auto simp: sends_at_def run)
    qed
  qed
qed

section \<open>The program's repositories\<close>

text \<open>
  The environment \<^verbatim>\<open>cmd/app\<close> wires: every optional interface is there, implemented on the
  tables of theory Db. The store is the database beside the state of the messenger;
  \<open>clock\<close> is the repositories' \<^verbatim>\<open>now()\<close>.
\<close>

definition repo_op :: "(db, db_error, 'a) op \<Rightarrow> (db \<times> 'n, sched_error, 'a) op" where
  "repo_op m s = (case m (fst s) of
     (Inl e, d) \<Rightarrow> (Inl (RepoError e), (d, snd s)) | (Inr x, d) \<Rightarrow> (Inr x, (d, snd s)))"

definition repo_read :: "(db \<Rightarrow> db_error + 'a) \<Rightarrow> db \<times> 'n \<Rightarrow> sched_error + 'a" where
  "repo_read q s = (case q (fst s) of Inl e \<Rightarrow> Inl (RepoError e) | Inr x \<Rightarrow> Inr x)"

text \<open>
  The messenger is the adapter of theory Outbound on the same database; beside the database
  the store then holds the adapter's reservations, the client's state and the log of its calls.
\<close>

type_synonym 'n messenger = "Outbound \<times> 'n \<times> (time \<times> api_call) list"

definition outbound_send ::
  "ob_config \<Rightarrow> (api_call \<Rightarrow> 'n \<Rightarrow> go_error option \<times> 'n) \<Rightarrow> ob_env \<Rightarrow> bool \<Rightarrow> Account \<Rightarrow>
     OutgoingMessageJob \<Rightarrow> db \<times> 'n messenger \<Rightarrow> go_error option \<times> (db \<times> 'n messenger)" where
  "outbound_send cfg api env private account job s =
     (case s of (d, out, net, log) \<Rightarrow>
        (case ob_request_exec cfg sqlite_accounts api (ReqJob private account job env)
                \<lparr>ow_store = d, ow_out = out, ow_net = net, ow_log = log\<rparr> of
           (r, w) \<Rightarrow> (r, (ow_store w, ow_out w, ow_net w, ow_log w))))"

definition sqlite_env ::
  "time \<Rightarrow> (db \<times> 'n messenger \<Rightarrow> sched_error + bool) \<Rightarrow> (ID \<Rightarrow> db \<times> 'n messenger \<Rightarrow> bool) \<Rightarrow>
     ob_config \<Rightarrow> (api_call \<Rightarrow> 'n \<Rightarrow> go_error option \<times> 'n) \<Rightarrow> ob_env \<Rightarrow>
     (db \<times> 'n messenger) sched_env" where
  "sqlite_env clock resolver up cfg api env =
     \<lparr>jobs_NextDue = repo_read (NextDue clock),
      jobs_Delay = (\<lambda>j r. repo_op (Delay clock j r)),
      jobs_durable = True,
      jobs_Claim = (\<lambda>j a. repo_op (Claim j a)),
      jobs_Complete = (\<lambda>j e. repo_op (Complete j e)),
      jobs_guard = True,
      jobs_CanDispatch = (\<lambda>j a. repo_read (CanDispatch j a)),
      jobs_keyword = True,
      jobs_RecordPrivateClosed = (\<lambda>j a t. repo_op (RecordPrivateClosed j a t)),
      jobs_CompleteKeywordResponse = (\<lambda>out. repo_op (CompleteKeywordResponse out)),
      jobs_DelayKeywordFailure = (\<lambda>f. repo_op (DelayKeywordFailure clock f)),
      jobs_transient = True,
      jobs_DelayTransientUntil = (\<lambda>j r t. repo_op (DelayTransientUntil j r t)),
      jobs_delayed = True,
      jobs_DelayUntil = (\<lambda>j r t. repo_op (DelayUntil clock j r t)),
      jobs_releases = True,
      jobs_ReleaseGroupRestDelays = repo_op (ReleaseGroupRestDelays clock),
      accounts_ListActive = repo_op (listActiveAccounts clock),
      groupRests = True,
      rests_ActiveGroupRestUntil = (\<lambda>ids t. repo_read (ActiveGroupRestUntil ids t)),
      restEnabled = Some resolver,
      available = Some up,
      telegram_SendPublicReply = outbound_send cfg api env False,
      telegram_SendPrivateMessage = outbound_send cfg api env True\<rparr>"

lemma queue_inv_frame:
  assumes "queue_inv d" "db_jobs d' = db_jobs d" "db_events d' = db_events d"
    and "db_history d' = db_history d" "map counters (db_accounts d') = map counters (db_accounts d)"
  shows "queue_inv d'"
proof -
  have "map ar_id (db_accounts d') = map ar_id (db_accounts d)"
    using arg_cong [OF assms(5), of "map fst"] by (simp add: counters_def comp_def)
  then have acc: "account_exists d' = account_exists d"
    by (intro ext) (simp add: account_exists_ids del: list.set_map)
  have done_eq: "job_done d' = job_done d" by (rule ext) (simp add: job_done_def assms(2))
  have "queue_ok d'" using assms(1) by (simp add: queue_inv_def queue_ok_def assms(2) acc)
  moreover have "books_ok d'"
    using assms(1) unfolding queue_inv_def books_ok_def ball_counters delivered_once_def assms(2,3,5) by blast
  moreover have "history_ok d'"
    using assms(1) by (simp add: queue_inv_def history_ok_def done_eq assms(4))
  ultimately show ?thesis by (simp add: queue_inv_def)
qed

lemma listActive_queue_inv: "queue_inv d \<Longrightarrow> queue_inv (snd (listActiveAccounts now d))"
  by (rule queue_inv_frame [of d])
     (simp_all add: listActiveAccounts_def Let_def sql_simps counters_def split: sum.split)

lemma RecordFloodWait_queue_inv: "queue_inv d \<Longrightarrow> queue_inv (snd (RecordFloodWait i until at d))"
  by (rule queue_inv_frame [of d]) (simp_all add: RecordFloodWait_def sql_simps counters_def)

lemma sqlite_flood_store:
  "queue_inv s \<Longrightarrow> queue_inv (snd (ds_flood sqlite_accounts i until at s))"
  using RecordFloodWait_queue_inv [of s i until at]
  by (cases "RecordFloodWait i until at s") (auto simp: sqlite_accounts_def split: sum.splits)

lemma record_flood_queue_inv:
  "queue_inv (ow_store w) \<Longrightarrow> queue_inv (ow_store (snd (record_flood sqlite_accounts i now err w)))"
  proof (cases "retryAfter err")
  case (Some d)
  obtain r s where f: "ds_flood sqlite_accounts i (now + d) now (ow_store w) = (r, s)" by fastforce
  assume "queue_inv (ow_store w)"
  from sqlite_flood_store [OF this, of i "now + d" now] f Some show ?thesis
    by (simp add: record_flood_def split: option.split)
qed (simp add: record_flood_def)

lemma send_job_store [simp]: "ow_store (snd (send_job api now job private a sn w)) = ow_store w"
  by (simp add: send_job_def call_api_def Let_def split: prod.split)

lemma sendWithLease_queue_inv:
  assumes "queue_inv (ow_store w)"
  shows "queue_inv (ow_store (snd (sendWithLease cfg sqlite_accounts env account rate
           (send_job api now job private) w)))"
proof (cases "admit cfg sqlite_accounts env account (ow_store w)")
  case None
  with assms show ?thesis by (simp add: sendWithLease_rejected)
next
  case (Some a)
  obtain g out' where g: "(if rate then reserve (oe_now env) (snap_RateLimits (oe_snapshot env)) (ow_out w)
              else (True, ow_out w)) = (g, out')" by fastforce
  obtain r w2 where s: "send_job api now job private a (oe_snapshot env) (w\<lparr>ow_out := out'\<rparr>) = (r, w2)"
    by fastforce
  have "ow_store w2 = ow_store w" using send_job_store [of api now job "private" a] s by (metis ob_world.select_convs(1) ob_world.update_convs(2) ob_world.surjective snd_conv)
  with assms Some g s show ?thesis
    by (cases g) (auto simp: sendWithLease_admitted record_flood_queue_inv split: option.split)
qed

lemma outbound_send_queue_inv:
  assumes "queue_inv (fst s)"
  shows "queue_inv (fst (snd (outbound_send cfg api env private account job s)))"
proof -
  obtain d out net log where s: "s = (d, out, net, log)" by (cases s) auto
  let ?w = "\<lparr>ow_store = d, ow_out = out, ow_net = net, ow_log = log\<rparr>"
  have "fst (snd (outbound_send cfg api env private account job s)) =
      ow_store (snd (sendWithLease cfg sqlite_accounts env account True
        (send_job api (oe_now env) job private) ?w))"
    by (simp add: s outbound_send_def SendPrivateMessage_def SendPublicReply_def split: prod.split)
  with sendWithLease_queue_inv [of ?w] assms s show ?thesis by simp
qed

lemma repo_op_keeps: "(\<And>d. queue_inv d \<Longrightarrow> queue_inv (snd (m d))) \<Longrightarrow>
    queue_inv (fst s) \<Longrightarrow> queue_inv (fst (snd (repo_op m s)))"
  by (simp add: repo_op_def split: prod.split sum.split) (metis snd_conv)

lemmas call_keeps = perform_queue_inv [of _ "CallDelay j r" for j r, simplified]
  perform_queue_inv [of _ "CallClaim j a" for j a, simplified]
  perform_queue_inv [of _ "CallComplete j e" for j e, simplified]
  perform_queue_inv [of _ "CallRecordPrivateClosed j a t" for j a t, simplified]
  perform_queue_inv [of _ "CallCompleteKeyword out" for out, simplified]
  perform_queue_inv [of _ "CallDelayKeywordFailure f" for f, simplified]
  perform_queue_inv [of _ "CallDelayTransientUntil j r t" for j r t, simplified]
  perform_queue_inv [of _ "CallDelayUntil j r t" for j r t, simplified]
  perform_queue_inv [of _ CallReleaseGroupRestDelays, simplified]

interpretation sqlite_delivery:
  delivery_collaborators "sqlite_env clock resolver up cfg api env" "\<lambda>s. queue_inv (fst s)"
  by unfold_locales
    (auto simp: sqlite_env_def intro: call_keeps listActive_queue_inv
      intro!: repo_op_keeps outbound_send_queue_inv)

end
