(* ===== verification/SendFacts.thy ===== *)
theory SendFacts
  imports QueueFacts Scheduler
begin

text \<open>
  The properties of the outbound adapter (internal/telegram/gotd/outbound.go), of the selection
  and pacing of accounts (internal/usecase/selector.go, ratelimit.go) and of a round of the
  delivery scheduler (internal/usecase/scheduler.go). The witnesses run the adapter on the
  accounts of \<open>demo_db\<close> with a messenger that accepts every call.
\<close>

section \<open>A small adapter\<close>

definition demo_sender :: Account where
  "demo_sender = (case listed_account ''a1'' demo_db of Inr a \<Rightarrow> a)"

definition demo_config :: ob_config where
  "demo_config = \<lparr>oc_api = True, oc_others = True, oc_leases = True, oc_resolver = True, oc_scheduled = True\<rparr>"

definition demo_snapshot :: Snapshot where
  "demo_snapshot =
     empty_snapshot\<lparr>snap_PrivateReply := ''hello'', snap_PrivateReplyPresent := True, snap_SharedReply := ''hi'',
      snap_RateLimits := \<lparr>RepliesPerMinute = 19, MinIntervalSeconds = 2\<rparr>\<rparr>"

definition demo_env :: "time \<Rightarrow> ob_env" where
  "demo_env t = \<lparr>oe_now = t, oe_ctx_err = None, oe_snapshot = demo_snapshot\<rparr>"

definition demo_job :: OutgoingMessageJob where
  "demo_job = (case scan_job demo_row of Some j \<Rightarrow> j)"

definition demo_requests :: "ob_request list" where
  "demo_requests = map (\<lambda>s. ReqJob False demo_sender demo_job (demo_env (s * Second))) [10, 11, 13]"

definition accepts :: "api_call \<Rightarrow> unit \<Rightarrow> go_error option \<times> unit" where
  "accepts c n = (None, n)"

definition demo_world :: "(db, unit) ob_world" where
  "demo_world = \<lparr>ow_store = demo_db, ow_out = \<lparr>ob_lastGlobal = 0, ob_history = []\<rparr>, ow_net = (), ow_log = []\<rparr>"

section \<open>The outbound adapter\<close>

text \<open>
  C5. Telegram messages are paced whatever the settings say. Over any sequence of requests in
  time order, from a fresh adapter, whatever the client answers and however the limits are
  configured, two messages are at least two seconds apart and no minute holds more than 19.
\<close>

theorem messages_are_paced:
  assumes "IsZero (ob_lastGlobal (ow_out w))" "ob_history (ow_out w) = []" "message_times w = []"
    and "\<forall>req \<in> set reqs. 0 < req_time req" "sorted (map req_time reqs)"
  shows "spaced (2 * Second) (message_times (serve_requests cfg store api reqs w)) \<and>
    capped 19 (message_times (serve_requests cfg store api reqs w))"
proof -
  let ?granted = "map req_time (grants (serve_one cfg store api) w reqs)"
  have "subseq (message_times (serve_requests cfg store api reqs w)) ?granted"
    using message_times_granted [of cfg store api reqs w] assms(3) by auto
  moreover have "spaced (2 * Second) ?granted"
    by (rule outbound_gap.grants_spaced) (use assms(4) in simp_all)
  moreover have "capped 19 ?granted"
    using outbound_window.grants_capped [of w reqs cfg store api] assms(2,5) by simp
  ultimately show ?thesis using spaced_subseq capped_subseq by blast
qed

lemma messages_are_paced_witness:
  "spaced (2 * Second) (message_times (serve_requests demo_config sqlite_accounts accepts demo_requests demo_world)) \<and>
   message_times (serve_requests demo_config sqlite_accounts accepts demo_requests demo_world) = [10 * Second, 13 * Second]"
proof -
  have "message_times (serve_requests demo_config sqlite_accounts accepts demo_requests demo_world) = [10 * Second, 13 * Second]"
    by code_simp
  moreover have "IsZero (ob_lastGlobal (ow_out demo_world))" "ob_history (ow_out demo_world) = []"
    "message_times demo_world = []"
    by (simp_all add: demo_world_def IsZero_def message_times_def)
  moreover have "\<forall>req \<in> set demo_requests. 0 < req_time req" "sorted (map req_time demo_requests)"
    by (simp_all add: demo_requests_def req_time_def demo_env_def Second_def)
  ultimately show ?thesis using messages_are_paced by blast
qed



text \<open>
  The scheduler can always act on an error. Every error a request returns is permanent, or
  transient, or a flood wait with a positive time to wait.
\<close>

theorem errors_are_classified:
  assumes "fst (ob_request_exec cfg store api req w) = Some err"
  shows "IsPermanentDeliveryFailure err \<or> IsTransientDeliveryFailure err \<or> (\<exists>d > 0. retryAfter err = Some d)"
  using request_told [OF assms] by (simp add: told_def)

definition floods :: "api_call \<Rightarrow> unit \<Rightarrow> go_error option \<times> unit" where
  "floods c n = (Some (FloodErr (30 * Second) (PlainErr ''flood'')), n)"

lemma errors_are_classified_witness:
  "fst (ob_request_exec demo_config sqlite_accounts floods (hd demo_requests) demo_world)
     = Some (FloodErr (30 * Second) (PlainErr ''flood'')) \<and>
   (IsPermanentDeliveryFailure (FloodErr (30 * Second) (PlainErr ''flood'')) \<or>
    IsTransientDeliveryFailure (FloodErr (30 * Second) (PlainErr ''flood'')) \<or>
    (\<exists>d. 0 < d \<and> retryAfter (FloodErr (30 * Second) (PlainErr ''flood'')) = Some d))"
proof -
  have "fst (ob_request_exec demo_config sqlite_accounts floods (hd demo_requests) demo_world)
     = Some (FloodErr (30 * Second) (PlainErr ''flood''))" by code_simp
  then show ?thesis using errors_are_classified by blast
qed

text \<open>
  A flood wait stops the account. When a call was answered with a flood wait and the wait was
  saved, the adapter does not admit the account again on the database as it then stands.
\<close>

theorem flood_waits_stop_the_account:
  assumes "record_flood sqlite_accounts i now err w = (Some err, w')" "retryAfter err = Some d"
    and "acc_ID account = i"
  shows "admit cfg sqlite_accounts env account (ow_store w') = None"
  using assms by (rule sqlite_leases.flood_stops)

lemma flood_waits_stop_the_account_witness:
  "let err = FloodErr (30 * Second) (PlainErr ''flood'');
       w' = snd (record_flood sqlite_accounts ''a1'' (10 * Second) err demo_world)
   in admit demo_config sqlite_accounts (demo_env (11 * Second)) demo_sender demo_db \<noteq> None \<and>
      admit demo_config sqlite_accounts (demo_env (11 * Second)) demo_sender (ow_store w') = None"
proof -
  let ?err = "FloodErr (30 * Second) (PlainErr ''flood'')"
  let ?w = "snd (record_flood sqlite_accounts ''a1'' (10 * Second) ?err demo_world)"
  have "fst (record_flood sqlite_accounts ''a1'' (10 * Second) ?err demo_world) = Some ?err" by code_simp
  then have saved: "record_flood sqlite_accounts ''a1'' (10 * Second) ?err demo_world = (Some ?err, ?w)"
    by (metis prod.collapse)
  have "retryAfter ?err = Some (30 * Second)" "acc_ID demo_sender = ''a1''" by code_simp+
  note stopped = flood_waits_stop_the_account [OF saved this]
  have "case admit demo_config sqlite_accounts (demo_env (11 * Second)) demo_sender demo_db of
      None \<Rightarrow> False | Some _ \<Rightarrow> True" by code_simp
  then show ?thesis using stopped by (auto simp: Let_def split: option.splits)
qed


section \<open>Selection and pacing of accounts\<close>

text \<open>
  The round robin is fair. Any run of as many selections as there are eligible accounts, from
  an unchanging list, picks each eligible account exactly once.
\<close>

theorem selection_is_fair:
  assumes "eligible_spammers accounts \<noteq> []" "distinct (eligible_spammers accounts)"
  shows "distinct (selections (length (eligible_spammers accounts)) s accounts) \<and>
    set (selections (length (eligible_spammers accounts)) s accounts) = set (eligible_spammers accounts)"
  using round_of_selections [OF assms] by blast

definition demo_team :: "Account list" where
  "demo_team = [demo_sender, demo_sender\<lparr>acc_ID := ''a2''\<rparr>, demo_sender\<lparr>acc_ID := ''a3'', acc_Status := ''paused''\<rparr>,
                demo_sender\<lparr>acc_ID := ''a4''\<rparr>]"

lemma selection_is_fair_witness:
  "distinct (selections 3 \<lparr>rr_next = 5\<rparr> demo_team) \<and>
   map acc_ID (selections 3 \<lparr>rr_next = 5\<rparr> demo_team) = [''a4'', ''a1'', ''a2'']"
proof -
  have ids: "map acc_ID (eligible_spammers demo_team) = [''a1'', ''a2'', ''a4'']" by code_simp
  then have "distinct (map acc_ID (eligible_spammers demo_team))" by simp
  then have "distinct (eligible_spammers demo_team)" by (simp add: distinct_map)
  moreover have "length (eligible_spammers demo_team) = 3" using arg_cong [OF ids, of length] by simp
  moreover have "eligible_spammers demo_team \<noteq> []" using calculation(2) by auto
  moreover have "map acc_ID (selections 3 \<lparr>rr_next = 5\<rparr> demo_team) = [''a4'', ''a1'', ''a2'']" by code_simp
  ultimately show ?thesis using selection_is_fair [of demo_team "\<lparr>rr_next = 5\<rparr>"] by simp
qed

text \<open>
  The in-memory limiter keeps both of its promises: from its start, two grants are never
  closer than its interval, whatever the accounts, and no account gets more grants than its
  maximum in any minute.
\<close>

theorem memory_limiter_paces:
  assumes "\<forall>r \<in> set reqs. 0 < snd r" "0 \<le> interval" "sorted (map snd reqs)"
  shows "spaced interval (map snd (grants Allow_req (NewMemoryLimiter interval m) reqs)) \<and>
    capped (nat m) (map snd (filter (\<lambda>r. fst r = a) (grants Allow_req (NewMemoryLimiter interval m) reqs)))"
  using memory_limiter_spaced [OF assms(1,2)] memory_limiter_capped [OF assms(3)] by blast

lemma memory_limiter_paces_witness:
  "let reqs = map (\<lambda>s. (''a1'', s * Second)) [10, 11, 12, 14]
   in spaced (2 * Second) (map snd (grants Allow_req (NewMemoryLimiter (2 * Second) 2) reqs)) \<and>
      map snd (grants Allow_req (NewMemoryLimiter (2 * Second) 2) reqs) = [10 * Second, 12 * Second]"
proof -
  let ?reqs = "map (\<lambda>s. (''a1'', s * Second)) [10, 11, 12, 14]"
  have "\<forall>r \<in> set ?reqs. 0 < snd r" "(0::int) \<le> 2 * Second" "sorted (map snd ?reqs)"
    by (simp_all add: Second_def)
  note paced = memory_limiter_paces [OF this, of 2 "''a1''"]
  have "map snd (grants Allow_req (NewMemoryLimiter (2 * Second) 2) ?reqs) = [10 * Second, 12 * Second]"
    by code_simp
  with paced show ?thesis by (simp add: Let_def)
qed

section \<open>A round of the scheduler\<close>

text \<open>
  C3. A round sends at most once, and only what its guards saw. Whatever the collaborators do, a
  round adds at most one request to the messenger. If it adds one, it is for the job the queue
  handed out, claimed by the account that sends, which is one of the active accounts of the
  round; the last check before it said that the job may still be dispatched by that account; a
  private message is sent only for a job that is private or on its private turn, and a public
  one only for a job that has to be public and by an account whose rest allows it.
\<close>

theorem a_round_sends_once:
  "ss_sent (snd (RunOnce E eventID now w)) = ss_sent w \<or>
   (\<exists>job r. jobs_NextDue E (ss_store w) = Inr (Some job) \<and>
      ss_sent (snd (RunOnce E eventID now w)) = ss_sent w @ [r] \<and> sent_at r = now \<and>
      sent_job r = job\<lparr>job_AccountID := Some (acc_ID (sent_by r))\<rparr> \<and>
      sent_by r \<in> set (round_accounts E (ss_store w)) \<and>
      canDispatch E (job_ID job) (acc_ID (sent_by r)) (sent_in r) = Inr True \<and>
      (sent_private r \<longrightarrow> job_Type job = JobPrivateMessage \<or>
         job_Type job = JobKeywordResponse \<and> keywordPrivateTurn (sent_job r) (sent_by r)) \<and>
      (\<not> sent_private r \<longrightarrow> deliveryRequiresPublic (sent_job r) (sent_by r) \<and>
         rests_allow E now (sent_by r) (sent_in r)))"
proof -
  consider (none) "ss_sent (snd (RunOnce E eventID now w)) = ss_sent w"
    | (one) job r where "jobs_NextDue E (ss_store w) = Inr (Some job)"
        "ss_sent (snd (RunOnce E eventID now w)) = ss_sent w @ [r]"
        "round_send E now job (round_accounts E (ss_store w)) r"
    using RunOnce_sends [of E w now eventID] unfolding sends_at_def by blast
  then show ?thesis
  proof cases
    case one
    have job: "sent_job r = job\<lparr>job_AccountID := Some (acc_ID (sent_by r))\<rparr>"
      and who: "sent_by r \<in> set (round_accounts E (ss_store w))"
      and ok: "send_allowed E now (sent_job r) (sent_by r) r"
      using one(3) unfolding round_send_def by blast+
    have "job_ID (sent_job r) = job_ID job" "job_Type (sent_job r) = job_Type job" by (simp_all add: job)
    with ok one who job show ?thesis unfolding send_allowed_def by metis
  qed simp
qed

definition demo_scheduler_env :: "(db \<times> unit messenger) sched_env" where
  "demo_scheduler_env = sqlite_env (12 * Second) (\<lambda>_. Inr False) (\<lambda>_ _. True) demo_config accepts (demo_env (12 * Second))"

definition demo_scheduler :: "(db \<times> unit messenger) scheduler" where
  "demo_scheduler =
     \<lparr>ss_store = (demo_db, \<lparr>ob_lastGlobal = 0, ob_history = []\<rparr>, (), []), ss_selector = NewRoundRobinSelector,
      ss_limiter = None, ss_sent = []\<rparr>"

lemma a_round_sends_once_witness:
  "\<exists>r. ss_sent (snd (RunOnce demo_scheduler_env ''e1'' (12 * Second) demo_scheduler)) = [r] \<and>
     sent_at r = 12 * Second \<and> job_AccountID (sent_job r) = Some (acc_ID (sent_by r))"
proof -
  have "length (ss_sent (snd (RunOnce demo_scheduler_env ''e1'' (12 * Second) demo_scheduler))) = 1"
    by code_simp
  moreover have "ss_sent demo_scheduler = []" by (simp add: demo_scheduler_def)
  ultimately show ?thesis
    using a_round_sends_once [of demo_scheduler_env "''e1''" "12 * Second" demo_scheduler] by auto
qed

text \<open>
  C4. A round keeps the books. On the program's repositories and adapter, whatever the client
  answers and whatever the settings store says, a round keeps the invariant of the delivery
  queue: the rows of its jobs, its books and its history.
\<close>

theorem a_round_keeps_the_books:
  assumes "queue_inv (fst (ss_store w))"
  shows "queue_inv (fst (ss_store (snd
    (RunOnce (sqlite_env clock resolver up cfg api env) eventID now w))))"
  using assms by (rule sqlite_delivery.RunOnce_keeps)

lemma a_round_keeps_the_books_witness:
  "queue_inv (fst (ss_store (snd (RunOnce demo_scheduler_env ''e1'' (12 * Second) demo_scheduler)))) \<and>
   map jr_status (db_jobs (fst (ss_store (snd (RunOnce demo_scheduler_env ''e1'' (12 * Second) demo_scheduler)))))
     = [''done'']"
proof -
  have "queue_inv (fst (ss_store demo_scheduler))" using demo_inv by (simp add: demo_scheduler_def)
  note kept = a_round_keeps_the_books [OF this]
  have "map jr_status (db_jobs (fst (ss_store (snd
      (RunOnce demo_scheduler_env ''e1'' (12 * Second) demo_scheduler))))) = [''done'']" by code_simp
  with kept show ?thesis unfolding demo_scheduler_env_def by blast
qed

text \<open>
  The rests of groups are read exactly. For the accounts asked about, the answer holds an
  account when, and only when, one of its memberships rests beyond now, and it holds the latest
  such time.
\<close>

theorem active_rests_are_the_latest:
  assumes "ActiveGroupRestUntil ids now d = Inr active"
    and "\<forall>r \<in> set (db_memberships d). mr_account_id r = a \<longrightarrow> a \<in> set ids"
  shows "(active a = None \<longleftrightarrow>
      (\<forall>r \<in> set (db_memberships d). \<forall>u. mr_account_id r = a \<longrightarrow>
         Option.bind (mr_rest_until r) parseTime = Some u \<longrightarrow> \<not> After u now)) \<and>
    (\<forall>u. active a = Some u \<longrightarrow> After u now \<and>
      (\<exists>r \<in> set (db_memberships d). mr_account_id r = a \<and> Option.bind (mr_rest_until r) parseTime = Some u) \<and>
      (\<forall>r \<in> set (db_memberships d). \<forall>v. mr_account_id r = a \<longrightarrow>
         Option.bind (mr_rest_until r) parseTime = Some v \<longrightarrow> v \<le> u))"
proof -
  note sound = ActiveGroupRestUntil_spec(1) [OF assms(1), of a]
  have complete: "\<exists>v. active a = Some v \<and> w \<le> v"
    if "r \<in> set (db_memberships d)" "mr_account_id r = a"
      "Option.bind (mr_rest_until r) parseTime = Some w" "After w now" for r w
    using ActiveGroupRestUntil_spec(2) [OF assms(1) that(1) _ that(3,4)] that(1,2) assms(2) by auto
  have "v \<le> u" if "active a = Some u" "r \<in> set (db_memberships d)" "mr_account_id r = a"
      "Option.bind (mr_rest_until r) parseTime = Some v" for u r v
  proof (cases "After v now")
    case True
    then show ?thesis using complete [OF that(2,3,4)] that(1) by auto
  next
    case False
    then show ?thesis using sound [OF that(1)] by (simp add: After_def)
  qed
  then show ?thesis using sound complete by (metis option.exhaust option.simps(3))
qed


definition demo_membership :: "string \<Rightarrow> time \<Rightarrow> membership_row" where
  "demo_membership catalog u =
     \<lparr>mr_account_id = ''a1'', mr_catalog = catalog, mr_channel_id = ''c1'', mr_is_member = True,
      mr_status = ''member'', mr_last_check_at = None, mr_request_submitted_at = None, mr_joined_at = None,
      mr_join_not_before = None, mr_rest_started_at = None, mr_rest_until = Some (formatTime u),
      mr_rest_duration_hours = 36, mr_last_error = ''''\<rparr>"

definition resting_db :: db where
  "resting_db = demo_db\<lparr>db_memberships := [demo_membership ''outbound'' (20 * Second), demo_membership ''scout'' (15 * Second)]\<rparr>"

lemma active_rests_are_the_latest_witness:
  "\<exists>active. ActiveGroupRestUntil [''a1''] (12 * Second) resting_db = Inr active \<and> active ''a1'' \<noteq> None \<and>
     (\<forall>u. active ''a1'' \<noteq> Some u \<or> After u (12 * Second))"
proof -
  have "case ActiveGroupRestUntil [''a1''] (12 * Second) resting_db of Inr active \<Rightarrow> active ''a1'' = Some (20 * Second) | _ \<Rightarrow> False"
    by code_simp
  then obtain active where active: "ActiveGroupRestUntil [''a1''] (12 * Second) resting_db = Inr active"
    "active ''a1'' = Some (20 * Second)" by (auto split: sum.splits)
  have "\<forall>r \<in> set (db_memberships resting_db). mr_account_id r = ''a1'' \<longrightarrow> ''a1'' \<in> set [''a1'']" by simp
  from active_rests_are_the_latest [OF active(1) this] active show ?thesis by auto
qed


section \<open>Jobs for scouted channels\<close>

definition scout_db :: db where
  "scout_db = demo_db\<lparr>db_outbound := [], db_scout := [demo_channel],
     db_jobs := [demo_row\<lparr>jr_type := JobKeywordResponse, jr_keyword_delivery_mode := ''comments''\<rparr>]\<rparr>"

definition scout_scheduler :: "(db \<times> unit messenger) scheduler" where
  "scout_scheduler = demo_scheduler\<lparr>ss_store := (scout_db, \<lparr>ob_lastGlobal = 0, ob_history = []\<rparr>, (), [])\<rparr>"

definition scout_env :: "time \<Rightarrow> (db \<times> unit messenger) sched_env" where
  "scout_env t = sqlite_env t (\<lambda>_. Inr False) (\<lambda>_ _. True) demo_config accepts (demo_env t)"

definition second_round :: "(sched_error + unit) \<times> (db \<times> unit messenger) scheduler" where
  "second_round = RunOnce (scout_env (20 * Second)) ''e2'' (20 * Second)
     (snd (RunOnce (scout_env (12 * Second)) ''e1'' (12 * Second) scout_scheduler))"


end
