(* ===== verification/DmStore.thy ===== *)
theory DmStore
  imports Domain
begin

text \<open>
  Scheduled direct messages in the database (internal/repository/sqlite/scheduled_dm_store.go,
  migration 000022): tasks with their recipients and sender accounts, the runs of a task and
  the deliveries of a run. One definition per repository method; a transaction is \<open>in_tx\<close>.
  The random numbers and the lease token a claim draws are arguments (\<open>randoms\<close> gives the
  one of each recipient); \<open>dm_known_accounts\<close> are the ids of the table \<^verbatim>\<open>accounts\<close>, the
  target of the foreign keys.
\<close>

section \<open>Tables\<close>

record dm_task_row =
  tr_id :: ID
  tr_message_text :: string
  tr_status :: string
  tr_start_at :: stamp
  tr_recurrence :: string
  tr_interval_seconds :: "int option"
  tr_max_runs :: int
  tr_completed_runs :: int
  tr_next_run_at :: "stamp option"
  tr_created_at :: stamp
  tr_updated_at :: stamp

record dm_recipient_row =
  rr_task_id :: ID
  rr_ordinal :: nat
  rr_username :: string
  rr_peer_status :: string
  rr_last_error :: string
  rr_last_checked_at :: "stamp option"

record dm_account_row =
  sr_task_id :: ID
  sr_ordinal :: nat
  sr_account_id :: ID

record dm_run_row =
  nr_id :: ID
  nr_task_id :: ID
  nr_run_number :: int
  nr_scheduled_at :: stamp
  nr_completed_at :: "stamp option"
  nr_created_at :: stamp

record dm_delivery_row =
  dr_id :: ID
  dr_task_id :: ID
  dr_run_id :: ID
  dr_recipient :: string
  dr_account_id :: ID
  dr_telegram_random_id :: int
  dr_status :: string
  dr_next_attempt_at :: stamp
  dr_attempted_at :: "stamp option"
  dr_completed_at :: "stamp option"
  dr_error_code :: string
  dr_lease_token :: string
  dr_lease_until :: "stamp option"

record dm_db =
  dm_tasks :: "dm_task_row list"
  dm_recipients :: "dm_recipient_row list"
  dm_accounts :: "dm_account_row list"
  dm_runs :: "dm_run_row list"
  dm_deliveries :: "dm_delivery_row list"
  dm_known_accounts :: "ID list"

datatype dm_error =
    DmTaskFields
  | DmTaskRecurrence
  | DmCompletedRuns
  | DmConstraint
  | DmTaskNotFound
  | DmLeaseDuration
  | DmClaimLost
  | DmResultRequired
  | DmNotOwned
  | DmTokenRequired
  | DmStoredRecurrence
  | DmNothingToSend
  | DmParseTime
  | DmNoRows

definition dm_status_ok :: "string \<Rightarrow> bool" where
  "dm_status_ok s \<longleftrightarrow> s \<in> {DMPaused, DMActive, DMCompleted, DMCancelled, ''error''}"

definition peer_status_ok :: "string \<Rightarrow> bool" where
  "peer_status_ok s \<longleftrightarrow>
     s \<in> {''unchecked'', ''resolved'', ''open'', ''closed'', ''invalid'', ''error''}"

abbreviation the_task :: "dm_db \<Rightarrow> ID \<Rightarrow> dm_task_row option" where
  "the_task d i \<equiv> sql_select (\<lambda>t. tr_id t = i) (dm_tasks d)"

abbreviation the_run :: "dm_db \<Rightarrow> ID \<Rightarrow> dm_run_row option" where
  "the_run d i \<equiv> sql_select (\<lambda>r. nr_id r = i) (dm_runs d)"

abbreviation the_delivery :: "dm_db \<Rightarrow> ID \<Rightarrow> dm_delivery_row option" where
  "the_delivery d i \<equiv> sql_select (\<lambda>r. dr_id r = i) (dm_deliveries d)"

section \<open>Tasks\<close>

text \<open>\<^verbatim>\<open>fmt.Sprintf("%d")\<close> of a natural number.\<close>

fun dec :: "nat \<Rightarrow> string" where
  "dec n = (if n < 10 then [digit_char n] else dec (n div 10) @ [digit_char (n mod 10)])"

declare dec.simps [simp del]

definition parse_optional :: "stamp option \<Rightarrow> dm_error + time option" where
  "parse_optional s =
     (case s of
        None \<Rightarrow> Inr None
      | Some text \<Rightarrow> (case parseTime text of None \<Rightarrow> Inl DmParseTime | Some t \<Rightarrow> Inr (Some t)))"

fun scan_recipients :: "dm_recipient_row list \<Rightarrow> dm_error + ScheduledDMRecipient list" where
  "scan_recipients [] = Inr []"
| "scan_recipients (r # rs) =
     (case parse_optional (rr_last_checked_at r) of
        Inl e \<Rightarrow> Inl e
      | Inr checkedAt \<Rightarrow>
          (case scan_recipients rs of
             Inl e \<Rightarrow> Inl e
           | Inr rest \<Rightarrow> Inr (\<lparr>rcp_TaskID = rr_task_id r, rcp_Ordinal = rr_ordinal r,
                 rcp_Username = rr_username r, rcp_Status = rr_peer_status r,
                 rcp_LastError = rr_last_error r, rcp_LastCheckedAt = checkedAt\<rparr> # rest)))"

definition recipient_rows :: "ID \<Rightarrow> dm_db \<Rightarrow> dm_recipient_row list" where
  "recipient_rows taskID d = sort_key rr_ordinal (filter (\<lambda>r. rr_task_id r = taskID) (dm_recipients d))"

definition listRecipients :: "ID \<Rightarrow> dm_db \<Rightarrow> dm_error + ScheduledDMRecipient list" where
  "listRecipients taskID d = scan_recipients (recipient_rows taskID d)"

definition listAccountIDs :: "ID \<Rightarrow> dm_db \<Rightarrow> ID list" where
  "listAccountIDs taskID d =
     map sr_account_id (sort_key sr_ordinal (filter (\<lambda>r. sr_task_id r = taskID) (dm_accounts d)))"

definition scanScheduledDMTask ::
  "dm_task_row \<Rightarrow> ScheduledDMRecipient list \<Rightarrow> ID list \<Rightarrow> dm_error + ScheduledDMTask" where
  "scanScheduledDMTask t recipients accountIDs =
     (case parseTime (tr_start_at t) of
        None \<Rightarrow> Inl DmParseTime
      | Some startAt \<Rightarrow>
     (case parseTime (tr_created_at t) of
        None \<Rightarrow> Inl DmParseTime
      | Some createdAt \<Rightarrow>
     (case parseTime (tr_updated_at t) of
        None \<Rightarrow> Inl DmParseTime
      | Some updatedAt \<Rightarrow>
     (case parse_optional (tr_next_run_at t) of
        Inl e \<Rightarrow> Inl e
      | Inr nextRunAt \<Rightarrow>
          Inr \<lparr>task_ID = tr_id t, task_MessageText = tr_message_text t, task_Status = tr_status t,
               task_StartAt = startAt, task_Recurrence = tr_recurrence t,
               task_MaxRuns = tr_max_runs t, task_CompletedRuns = tr_completed_runs t,
               task_NextRunAt = nextRunAt, task_Recipients = recipients,
               task_AccountIDs = accountIDs, task_CreatedAt = createdAt,
               task_UpdatedAt = updatedAt\<rparr>))))"

fun scan_tasks :: "dm_db \<Rightarrow> dm_task_row list \<Rightarrow> dm_error + ScheduledDMTask list" where
  "scan_tasks d [] = Inr []"
| "scan_tasks d (t # ts) =
     (case listRecipients (tr_id t) d of
        Inl e \<Rightarrow> Inl e
      | Inr recipients \<Rightarrow>
     (case scanScheduledDMTask t recipients (listAccountIDs (tr_id t) d) of
        Inl e \<Rightarrow> Inl e
      | Inr task \<Rightarrow>
     (case scan_tasks d ts of Inl e \<Rightarrow> Inl e | Inr rest \<Rightarrow> Inr (task # rest))))"

definition ListTasks :: "dm_db \<Rightarrow> dm_error + ScheduledDMTask list" where
  "ListTasks d = scan_tasks d (sort_key (\<lambda>t. (tr_created_at t, tr_id t)) (dm_tasks d))"

text \<open>The row of a saved task; saving never starts a task.\<close>

definition task_row_of :: "time \<Rightarrow> duration \<Rightarrow> ScheduledDMTask \<Rightarrow> dm_task_row" where
  "task_row_of now interval task =
     \<lparr>tr_id = task_ID task, tr_message_text = task_MessageText task, tr_status = DMPaused,
      tr_start_at = formatTime (task_StartAt task), tr_recurrence = task_Recurrence task,
      tr_interval_seconds = (if task_Recurrence task \<noteq> RecurrenceOnce
                             then Some (interval div Second) else None),
      tr_max_runs = task_MaxRuns task, tr_completed_runs = task_CompletedRuns task,
      tr_next_run_at = Some (formatTime (case task_NextRunAt task of
                               None \<Rightarrow> task_StartAt task | Some t \<Rightarrow> t)),
      tr_created_at = formatTime (if IsZero (task_CreatedAt task) then now else task_CreatedAt task),
      tr_updated_at = formatTime (if IsZero (task_UpdatedAt task) then now else task_UpdatedAt task)\<rparr>"

definition upsert_task :: "dm_task_row \<Rightarrow> dm_task_row list \<Rightarrow> dm_task_row list" where
  "upsert_task row tasks =
     (if sql_exists (\<lambda>t. tr_id t = tr_id row) tasks
      then sql_update (\<lambda>t. tr_id t = tr_id row)
             (\<lambda>t. row\<lparr>tr_created_at := tr_created_at t\<rparr>) tasks
      else tasks @ [row])"

definition recipient_row_of :: "ID \<Rightarrow> nat \<times> ScheduledDMRecipient \<Rightarrow> dm_recipient_row" where
  "recipient_row_of taskID = (\<lambda>(ordinal, recipient).
     \<lparr>rr_task_id = taskID, rr_ordinal = ordinal, rr_username = rcp_Username recipient,
      rr_peer_status = (if rcp_Status recipient = '''' then ''unchecked'' else rcp_Status recipient),
      rr_last_error = rcp_LastError recipient,
      rr_last_checked_at = formatTimePtr (rcp_LastCheckedAt recipient)\<rparr>)"

definition account_row_of :: "ID \<Rightarrow> nat \<times> ID \<Rightarrow> dm_account_row" where
  "account_row_of taskID = (\<lambda>(ordinal, accountID).
     \<lparr>sr_task_id = taskID, sr_ordinal = ordinal, sr_account_id = accountID\<rparr>)"

definition SaveTask :: "time \<Rightarrow> ScheduledDMTask \<Rightarrow> (dm_db, dm_error, unit) op" where
  "SaveTask now task d =
     (if task_ID task = '''' \<or> task_MessageText task = '''' \<or> IsZero (task_StartAt task)
      then (Inl DmTaskFields, d)
      else case RecurrenceDuration (task_Recurrence task) of
        None \<Rightarrow> (Inl DmTaskRecurrence, d)
      | Some interval \<Rightarrow>
          if task_MaxRuns task < 1 \<or> 12 < task_MaxRuns task then (Inl DmTaskRecurrence, d)
          else if task_CompletedRuns task < 0 \<or> task_MaxRuns task < task_CompletedRuns task
          then (Inl DmCompletedRuns, d)
          else
            let taskID = task_ID task;
                recipients = map (recipient_row_of taskID) (enumerate 0 (task_Recipients task));
                accounts = map (account_row_of taskID) (enumerate 0 (task_AccountIDs task))
            in if distinct (map rr_username recipients) \<and>
                  list_all (\<lambda>r. peer_status_ok (rr_peer_status r)) recipients \<and>
                  distinct (task_AccountIDs task) \<and>
                  list_all (\<lambda>a. a \<in> set (dm_known_accounts d)) (task_AccountIDs task)
               then (Inr (), d\<lparr>
                 dm_tasks := upsert_task (task_row_of now interval task) (dm_tasks d),
                 dm_recipients := filter (\<lambda>r. rr_task_id r \<noteq> taskID) (dm_recipients d) @ recipients,
                 dm_accounts := filter (\<lambda>r. sr_task_id r \<noteq> taskID) (dm_accounts d) @ accounts\<rparr>)
               else (Inl DmConstraint, d))"

definition SetTaskStatus :: "ID \<Rightarrow> string \<Rightarrow> time \<Rightarrow> (dm_db, dm_error, unit) op" where
  "SetTaskStatus taskID status at d =
     (let p = (\<lambda>t. tr_id t = taskID) in
      if sql_affected p (dm_tasks d) \<noteq> 0 \<and> \<not> dm_status_ok status then (Inl DmConstraint, d)
      else if sql_affected p (dm_tasks d) \<noteq> 1 then (Inl DmTaskNotFound, d)
      else (Inr (), d\<lparr>dm_tasks := sql_update p
             (\<lambda>t. t\<lparr>tr_status := status,
                     tr_next_run_at := (if status = DMActive
                       then Some (case tr_next_run_at t of None \<Rightarrow> tr_start_at t | Some n \<Rightarrow> n)
                       else tr_next_run_at t),
                     tr_updated_at := formatTime at\<rparr>) (dm_tasks d)\<rparr>))"

definition pauseActiveScheduledDMTasks :: "dm_db \<Rightarrow> dm_db" where
  "pauseActiveScheduledDMTasks d =
     d\<lparr>dm_tasks := sql_update (\<lambda>t. tr_status t = DMActive) (\<lambda>t. t\<lparr>tr_status := DMPaused\<rparr>) (dm_tasks d)\<rparr>"

section \<open>Runs\<close>

definition run_due :: "dm_db \<Rightarrow> stamp \<Rightarrow> dm_task_row \<Rightarrow> bool" where
  "run_due d at t \<longleftrightarrow>
     tr_status t = DMActive \<and> (case tr_next_run_at t of None \<Rightarrow> False | Some n \<Rightarrow> n \<le> at) \<and>
     tr_completed_runs t < tr_max_runs t \<and>
     \<not> sql_exists (\<lambda>r. nr_task_id r = tr_id t \<and> nr_run_number r = tr_completed_runs t + 1) (dm_runs d)"

definition run_order :: "dm_task_row \<Rightarrow> stamp \<times> ID" where
  "run_order t = (the (tr_next_run_at t), tr_id t)"

definition run_id :: "ID \<Rightarrow> int \<Rightarrow> ID" where
  "run_id taskID n = taskID @ '':run:'' @ dec (nat n)"

definition delivery_of ::
  "ID \<Rightarrow> ID \<Rightarrow> stamp \<Rightarrow> (nat \<Rightarrow> int) \<Rightarrow> ID list \<Rightarrow> nat \<times> string \<Rightarrow> dm_delivery_row" where
  "delivery_of taskID runID at randoms accounts = (\<lambda>(ordinal, recipient).
     \<lparr>dr_id = runID @ '':delivery:'' @ dec ordinal, dr_task_id = taskID, dr_run_id = runID,
      dr_recipient = recipient, dr_account_id = accounts ! (ordinal mod length accounts),
      dr_telegram_random_id = randoms ordinal, dr_status = DeliveryPending,
      dr_next_attempt_at = at, dr_attempted_at = None, dr_completed_at = None,
      dr_error_code = '''', dr_lease_token = '''', dr_lease_until = None\<rparr>)"

text \<open>
  The constraints of the inserts: the primary keys of the run and of the deliveries, the
  unique recipient of a run, and the foreign key of the accounts.
\<close>

definition materializeDueRun :: "time \<Rightarrow> (nat \<Rightarrow> int) \<Rightarrow> (dm_db, dm_error, unit) op" where
  "materializeDueRun now randoms d =
     (case sql_first run_order (run_due d (formatTime now)) (dm_tasks d) of
        None \<Rightarrow> (Inr (), d)
      | Some t \<Rightarrow>
     (case parseTime (the (tr_next_run_at t)) of
        None \<Rightarrow> (Inl DmParseTime, d)
      | Some scheduledAt \<Rightarrow>
          if RecurrenceDuration (tr_recurrence t) = None then (Inl DmStoredRecurrence, d)
          else
            let runNumber = tr_completed_runs t + 1;
                runID = run_id (tr_id t) runNumber;
                run = \<lparr>nr_id = runID, nr_task_id = tr_id t, nr_run_number = runNumber,
                       nr_scheduled_at = formatTime scheduledAt, nr_completed_at = None,
                       nr_created_at = formatTime now\<rparr>;
                recipients = map rr_username (recipient_rows (tr_id t) d);
                accounts = listAccountIDs (tr_id t) d;
                deliveries = map (delivery_of (tr_id t) runID (formatTime scheduledAt) randoms accounts)
                               (enumerate 0 recipients)
            in if sql_exists (\<lambda>r. nr_id r = runID) (dm_runs d) then (Inl DmConstraint, d)
               else if recipients = [] \<or> accounts = []
               then (Inl DmNothingToSend, d\<lparr>dm_runs := dm_runs d @ [run]\<rparr>)
               else if distinct recipients \<and>
                  list_all (\<lambda>n. the_delivery d (dr_id n) = None \<and>
                                 dr_account_id n \<in> set (dm_known_accounts d)) deliveries
               then (Inr (), d\<lparr>dm_runs := dm_runs d @ [run],
                               dm_deliveries := dm_deliveries d @ deliveries\<rparr>)
               else (Inl DmConstraint, d\<lparr>dm_runs := dm_runs d @ [run]\<rparr>)))"

definition completeRun :: "ID \<Rightarrow> time \<Rightarrow> (dm_db, dm_error, unit) op" where
  "completeRun runID completedAt d =
     (case sql_select (\<lambda>r. nr_id r = runID \<and> nr_completed_at r = None) (dm_runs d) of
        None \<Rightarrow> (Inr (), d)
      | Some run \<Rightarrow>
     (case the_task d (nr_task_id run) of
        None \<Rightarrow> (Inr (), d)
      | Some task \<Rightarrow>
     (case parseTime (nr_scheduled_at run) of
        None \<Rightarrow> (Inl DmParseTime, d)
      | Some scheduledAt \<Rightarrow>
     (case RecurrenceDuration (tr_recurrence task) of
        None \<Rightarrow> (Inl DmStoredRecurrence, d)
      | Some duration \<Rightarrow>
          let d1 = d\<lparr>dm_runs := sql_update (\<lambda>r. nr_id r = runID)
                      (\<lambda>r. r\<lparr>nr_completed_at := Some (formatTime completedAt)\<rparr>) (dm_runs d)\<rparr>;
              runNumber = nr_run_number run;
              p = (\<lambda>t. tr_id t = nr_task_id run);
              stop = (tr_max_runs task \<le> runNumber \<or> duration = 0)
          in if sql_affected (\<lambda>t. p t \<and> tr_max_runs t < runNumber) (dm_tasks d1) \<noteq> 0
             then (Inl DmConstraint, d1)
             else if stop
             then (Inr (), d1\<lparr>dm_tasks := sql_update p
                    (\<lambda>t. t\<lparr>tr_completed_runs := runNumber, tr_status := DMCompleted,
                            tr_next_run_at := None, tr_updated_at := formatTime completedAt\<rparr>)
                    (dm_tasks d1)\<rparr>)
             else (Inr (), d1\<lparr>dm_tasks := sql_update p
                    (\<lambda>t. t\<lparr>tr_completed_runs := runNumber,
                            tr_next_run_at := Some (formatTime (scheduledAt + duration)),
                            tr_updated_at := formatTime completedAt\<rparr>) (dm_tasks d1)\<rparr>)))))"

section \<open>Deliveries\<close>

definition claimable :: "stamp \<Rightarrow> dm_delivery_row \<Rightarrow> bool" where
  "claimable at r \<longleftrightarrow>
     dr_status r = DeliveryPending \<or>
     (dr_status r = DeliverySending \<and>
      (case dr_lease_until r of None \<Rightarrow> False | Some u \<Rightarrow> u \<le> at))"

definition delivery_due :: "dm_db \<Rightarrow> stamp \<Rightarrow> dm_delivery_row \<Rightarrow> bool" where
  "delivery_due d at r \<longleftrightarrow>
     sql_exists (\<lambda>t. tr_id t = dr_task_id r \<and> tr_status t = DMActive) (dm_tasks d) \<and>
     sql_exists (\<lambda>n. nr_id n = dr_run_id r) (dm_runs d) \<and>
     dr_next_attempt_at r \<le> at \<and> claimable at r"

definition delivery_order :: "dm_db \<Rightarrow> dm_delivery_row \<Rightarrow> stamp \<times> ID" where
  "delivery_order d r =
     (case the_run d (dr_run_id r) of None \<Rightarrow> formatTime 0 | Some n \<Rightarrow> nr_scheduled_at n, dr_id r)"

definition scanScheduledDMDelivery :: "dm_db \<Rightarrow> dm_delivery_row \<Rightarrow> dm_error + ScheduledDMDelivery" where
  "scanScheduledDMDelivery d r =
     (case the_run d (dr_run_id r) of
        None \<Rightarrow> Inl DmNoRows
      | Some run \<Rightarrow>
     (case parse_optional (dr_attempted_at r) of
        Inl e \<Rightarrow> Inl e
      | Inr attemptedAt \<Rightarrow>
     (case parse_optional (dr_completed_at r) of
        Inl e \<Rightarrow> Inl e
      | Inr completedAt \<Rightarrow>
          Inr \<lparr>dlv_ID = dr_id r, dlv_TaskID = dr_task_id r, dlv_RunID = dr_run_id r,
               dlv_RunNumber = nr_run_number run, dlv_Recipient = dr_recipient r,
               dlv_AccountID = dr_account_id r, dlv_TelegramRandomID = dr_telegram_random_id r,
               dlv_LeaseToken = dr_lease_token r, dlv_Status = dr_status r,
               dlv_AttemptedAt = attemptedAt, dlv_CompletedAt = completedAt,
               dlv_ErrorCode = dr_error_code r\<rparr>)))"

definition claim_row :: "time \<Rightarrow> duration \<Rightarrow> string \<Rightarrow> dm_delivery_row \<Rightarrow> dm_delivery_row" where
  "claim_row now leaseDuration token r =
     r\<lparr>dr_status := DeliverySending, dr_attempted_at := Some (formatTime now),
       dr_lease_token := token, dr_lease_until := Some (formatTime (now + leaseDuration))\<rparr>"

definition claim_tx ::
  "time \<Rightarrow> duration \<Rightarrow> (nat \<Rightarrow> int) \<Rightarrow> string \<Rightarrow> (dm_db, dm_error, ScheduledDMDelivery option) op" where
  "claim_tx now leaseDuration randoms token d =
     (case materializeDueRun now randoms d of
        (Inl e, d1) \<Rightarrow> (Inl e, d1)
      | (Inr _, d1) \<Rightarrow>
     (case sql_first (delivery_order d1) (delivery_due d1 (formatTime now)) (dm_deliveries d1) of
        None \<Rightarrow> (Inr None, d1)
      | Some r \<Rightarrow>
          let p = (\<lambda>x. dr_id x = dr_id r \<and> claimable (formatTime now) x);
              d2 = d1\<lparr>dm_deliveries := sql_update p (claim_row now leaseDuration token) (dm_deliveries d1)\<rparr>
          in if sql_affected p (dm_deliveries d1) \<noteq> 1 then (Inl DmClaimLost, d2)
             else (case the_delivery d2 (dr_id r) of
                     None \<Rightarrow> (Inl DmNoRows, d2)
                   | Some r' \<Rightarrow>
                       (case scanScheduledDMDelivery d2 r' of
                          Inl e \<Rightarrow> (Inl e, d2)
                        | Inr delivery \<Rightarrow> (Inr (Some delivery), d2)))))"

definition ClaimDueDelivery ::
  "time \<Rightarrow> duration \<Rightarrow> (nat \<Rightarrow> int) \<Rightarrow> string \<Rightarrow> (dm_db, dm_error, ScheduledDMDelivery option) op" where
  "ClaimDueDelivery now leaseDuration randoms token d =
     (if leaseDuration \<le> 0 then (Inl DmLeaseDuration, d)
      else in_tx (claim_tx now leaseDuration randoms token) d)"

definition terminal :: "string \<Rightarrow> bool" where
  "terminal s \<longleftrightarrow> s = DeliverySent \<or> s = DeliveryClosed \<or> s = DeliveryFailed"

definition recipient_status :: "ScheduledDMDeliveryResult \<Rightarrow> string" where
  "recipient_status result =
     (if res_Status result = DeliverySent then ''open''
      else if res_Status result = DeliveryClosed then ''closed''
      else if res_ErrorCode result = ''recipient_invalid'' then ''invalid''
      else ''error'')"

definition owned :: "ID \<Rightarrow> string \<Rightarrow> dm_delivery_row \<Rightarrow> bool" where
  "owned deliveryID token r \<longleftrightarrow>
     dr_id r = deliveryID \<and> dr_status r = DeliverySending \<and> dr_lease_token r = token"

definition finish_row :: "ScheduledDMDeliveryResult \<Rightarrow> time \<Rightarrow> dm_delivery_row \<Rightarrow> dm_delivery_row" where
  "finish_row result completedAt r =
     r\<lparr>dr_status := res_Status result, dr_completed_at := Some (formatTime completedAt),
       dr_error_code := res_ErrorCode result, dr_lease_token := '''', dr_lease_until := None\<rparr>"

definition complete_tx :: "ScheduledDMDeliveryResult \<Rightarrow> time \<Rightarrow> (dm_db, dm_error, unit) op" where
  "complete_tx result completedAt d =
     (let p = owned (res_DeliveryID result) (res_LeaseToken result);
          d1 = d\<lparr>dm_deliveries := sql_update p (finish_row result completedAt) (dm_deliveries d)\<rparr>
      in if sql_affected p (dm_deliveries d) \<noteq> 1 then (Inl DmNotOwned, d1)
         else (case the_delivery d1 (res_DeliveryID result) of
                 None \<Rightarrow> (Inl DmNoRows, d1)
               | Some r \<Rightarrow>
                   let d2 = d1\<lparr>dm_recipients := sql_update
                              (\<lambda>x. rr_task_id x = dr_task_id r \<and> rr_username x = dr_recipient r)
                              (\<lambda>x. x\<lparr>rr_peer_status := recipient_status result,
                                      rr_last_error := res_ErrorCode result\<rparr>) (dm_recipients d1)\<rparr>
                   in if sql_affected (\<lambda>x. dr_run_id x = dr_run_id r \<and> \<not> terminal (dr_status x))
                           (dm_deliveries d2) = 0
                      then completeRun (dr_run_id r) completedAt d2
                      else (Inr (), d2)))"

definition CompleteDelivery :: "time \<Rightarrow> ScheduledDMDeliveryResult \<Rightarrow> (dm_db, dm_error, unit) op" where
  "CompleteDelivery now result d =
     (if res_DeliveryID result = '''' \<or> res_LeaseToken result = '''' \<or> \<not> terminal (res_Status result)
      then (Inl DmResultRequired, d)
      else in_tx (complete_tx result
             (if IsZero (res_CompletedAt result) then now else res_CompletedAt result)) d)"

definition DelayDelivery ::
  "ID \<Rightarrow> string \<Rightarrow> string \<Rightarrow> time \<Rightarrow> (dm_db, dm_error, unit) op" where
  "DelayDelivery deliveryID leaseToken reason nextAttemptAt d =
     (if leaseToken = '''' then (Inl DmTokenRequired, d)
      else if sql_affected (owned deliveryID leaseToken) (dm_deliveries d) \<noteq> 1 then (Inl DmNotOwned, d)
      else (Inr (), d\<lparr>dm_deliveries := sql_update (owned deliveryID leaseToken)
             (\<lambda>r. r\<lparr>dr_status := DeliveryPending, dr_next_attempt_at := formatTime nextAttemptAt,
                     dr_error_code := reason, dr_lease_token := '''', dr_lease_until := None\<rparr>)
             (dm_deliveries d)\<rparr>))"

end
