(* ===== verification/DmQueue.thy ===== *)
theory DmQueue
  imports DmStore
begin

text \<open>
  What the repository of scheduled messages promises over any sequence of its calls: a
  delivery keeps its recipient, sender and random id and ends once; a run has one delivery for
  each recipient and is complete only when all of them have ended; a task never counts more
  runs than it may have.
\<close>

section \<open>Calls\<close>

datatype dm_call =
    DmSave time ScheduledDMTask
  | DmSetStatus ID string time
  | DmPauseAll
  | DmClaim time duration "nat \<Rightarrow> int" string
  | DmComplete time ScheduledDMDeliveryResult
  | DmDelay ID string string time

fun dm_perform :: "dm_call \<Rightarrow> dm_db \<Rightarrow> dm_db" where
  "dm_perform (DmSave now task) d = snd (SaveTask now task d)"
| "dm_perform (DmSetStatus i s t) d = snd (SetTaskStatus i s t d)"
| "dm_perform DmPauseAll d = pauseActiveScheduledDMTasks d"
| "dm_perform (DmClaim now lease randoms token) d = snd (ClaimDueDelivery now lease randoms token d)"
| "dm_perform (DmComplete now result) d = snd (CompleteDelivery now result d)"
| "dm_perform (DmDelay i tok r t) d = snd (DelayDelivery i tok r t d)"

fun dm_serve :: "dm_call list \<Rightarrow> dm_db \<Rightarrow> dm_db" where
  "dm_serve [] d = d"
| "dm_serve (c # cs) d = dm_serve cs (dm_perform c d)"

section \<open>Deliveries\<close>

definition delivery_identity :: "dm_delivery_row \<Rightarrow> ID \<times> ID \<times> ID \<times> string \<times> ID \<times> int" where
  "delivery_identity r = (dr_id r, dr_task_id r, dr_run_id r, dr_recipient r, dr_account_id r,
                          dr_telegram_random_id r)"

definition delivery_evolves :: "dm_delivery_row \<Rightarrow> dm_delivery_row \<Rightarrow> bool" where
  "delivery_evolves r r' \<longleftrightarrow>
     delivery_identity r' = delivery_identity r \<and> (terminal (dr_status r) \<longrightarrow> r' = r)"

lemma delivery_evolves_refl [simp]: "delivery_evolves r r"
  by (simp add: delivery_evolves_def)

lemma delivery_evolves_trans: "delivery_evolves a b \<Longrightarrow> delivery_evolves b c \<Longrightarrow> delivery_evolves a c"
  by (auto simp: delivery_evolves_def)

lemma delivery_evolves_id: "delivery_evolves r r' \<Longrightarrow> dr_id r' = dr_id r"
  by (simp add: delivery_evolves_def delivery_identity_def)

lemma sending_not_terminal: "dr_status r = DeliverySending \<Longrightarrow> \<not> terminal (dr_status r)"
  by (simp add: terminal_def)

lemma claimable_not_terminal: "claimable at r \<Longrightarrow> \<not> terminal (dr_status r)"
  by (auto simp: claimable_def terminal_def)

lemma claim_row_evolves: "claimable at r \<Longrightarrow> delivery_evolves r (claim_row now l tok r)"
  using claimable_not_terminal by (auto simp: delivery_evolves_def delivery_identity_def claim_row_def)

lemma finish_row_evolves: "owned i tok r \<Longrightarrow> delivery_evolves r (finish_row result at r)"
  by (auto simp: delivery_evolves_def delivery_identity_def finish_row_def owned_def terminal_def)

lemma delay_row_evolves:
  "owned i tok r \<Longrightarrow> delivery_evolves r (r\<lparr>dr_status := DeliveryPending, dr_next_attempt_at := n,
      dr_error_code := reason, dr_lease_token := t, dr_lease_until := u\<rparr>)"
  by (auto simp: delivery_evolves_def delivery_identity_def owned_def terminal_def)

text \<open>Every delivery is still there and has evolved.\<close>

definition dm_keeps :: "dm_db \<Rightarrow> dm_db \<Rightarrow> bool" where
  "dm_keeps d d' \<longleftrightarrow>
     (\<forall>i r. the_delivery d i = Some r \<longrightarrow> (\<exists>r'. the_delivery d' i = Some r' \<and> delivery_evolves r r'))"

lemma dm_keeps_same: "dm_deliveries d' = dm_deliveries d \<Longrightarrow> dm_keeps d d'"
  by (simp add: dm_keeps_def)

lemma dm_keeps_refl [simp]: "dm_keeps d d"
  by (simp add: dm_keeps_same)

lemma dm_keeps_trans: "dm_keeps a b \<Longrightarrow> dm_keeps b c \<Longrightarrow> dm_keeps a c"
  unfolding dm_keeps_def by (meson delivery_evolves_trans)

lemma dm_keeps_append: "dm_deliveries d' = dm_deliveries d @ new \<Longrightarrow> dm_keeps d d'"
  by (auto simp: dm_keeps_def sql_select_append)

lemma dm_keeps_update:
  assumes "dm_deliveries d' = sql_update p f (dm_deliveries d)" "\<And>r. p r \<Longrightarrow> delivery_evolves r (f r)"
  shows "dm_keeps d d'"
  unfolding dm_keeps_def
proof (intro allI impI)
  fix i r
  assume r: "the_delivery d i = Some r"
  have "the_delivery d' i = map_option (\<lambda>r. if p r then f r else r) (the_delivery d i)"
    unfolding assms(1) by (rule sql_select_update) (use assms(2) delivery_evolves_id in blast)
  with r assms(2) show "\<exists>r'. the_delivery d' i = Some r' \<and> delivery_evolves r r'" by auto
qed

lemma dm_keeps_in_tx: "(\<And>x d'. m d = (Inr x, d') \<Longrightarrow> dm_keeps d d') \<Longrightarrow> dm_keeps d (snd (in_tx m d))"
  by (rule in_tx_keeps) auto

section \<open>The invariant\<close>

definition task_ok :: "dm_task_row \<Rightarrow> bool" where
  "task_ok t \<longleftrightarrow> 1 \<le> tr_max_runs t \<and> tr_max_runs t \<le> 12 \<and> 0 \<le> tr_completed_runs t \<and>
     tr_completed_runs t \<le> tr_max_runs t \<and> RecurrenceDuration (tr_recurrence t) \<noteq> None \<and>
     dm_status_ok (tr_status t)"

definition runs_ok :: "dm_db \<Rightarrow> bool" where
  "runs_ok d \<longleftrightarrow>
     distinct (map nr_id (dm_runs d)) \<and>
     distinct (map (\<lambda>n. (nr_task_id n, nr_run_number n)) (dm_runs d)) \<and>
     (\<forall>n \<in> set (dm_runs d). 1 \<le> nr_run_number n)"

definition deliveries_ok :: "dm_db \<Rightarrow> bool" where
  "deliveries_ok d \<longleftrightarrow>
     distinct (map dr_id (dm_deliveries d)) \<and>
     distinct (map (\<lambda>r. (dr_run_id r, dr_recipient r)) (dm_deliveries d)) \<and>
     (\<forall>r \<in> set (dm_deliveries d). dr_run_id r \<in> nr_id ` set (dm_runs d)) \<and>
     (\<forall>n \<in> set (dm_runs d). nr_completed_at n \<noteq> None \<longrightarrow>
        (\<forall>r \<in> set (dm_deliveries d). dr_run_id r = nr_id n \<longrightarrow> terminal (dr_status r)))"

definition dm_inv :: "dm_db \<Rightarrow> bool" where
  "dm_inv d \<longleftrightarrow>
     distinct (map tr_id (dm_tasks d)) \<and> (\<forall>t \<in> set (dm_tasks d). task_ok t) \<and>
     runs_ok d \<and> deliveries_ok d"

lemma dm_inv_tasks:
  assumes "dm_inv d" "dm_runs d' = dm_runs d" "dm_deliveries d' = dm_deliveries d"
    and "distinct (map tr_id (dm_tasks d'))" "\<forall>t \<in> set (dm_tasks d'). task_ok t"
  shows "dm_inv d'"
  using assms by (simp add: dm_inv_def runs_ok_def deliveries_ok_def)

lemma dm_inv_update_tasks:
  assumes "dm_inv d" "dm_runs d' = dm_runs d" "dm_deliveries d' = dm_deliveries d"
    and "dm_tasks d' = sql_update p f (dm_tasks d)"
    and "\<And>t. t \<in> set (dm_tasks d) \<Longrightarrow> p t \<Longrightarrow> task_ok t \<Longrightarrow> tr_id (f t) = tr_id t \<and> task_ok (f t)"
  shows "dm_inv d'"
proof (rule dm_inv_tasks [OF assms(1-3)])
  have ok: "\<forall>t \<in> set (dm_tasks d). task_ok t" "distinct (map tr_id (dm_tasks d))"
    using assms(1) by (auto simp: dm_inv_def)
  have "map tr_id (dm_tasks d') = map tr_id (dm_tasks d)"
    using assms(4,5) ok(1) by (simp add: sql_update_def)
  then show "distinct (map tr_id (dm_tasks d'))" using ok(2) by simp
  show "\<forall>t \<in> set (dm_tasks d'). task_ok t"
    using assms(4,5) ok(1) by (auto simp: set_sql_update)
qed

text \<open>A keyed update of the deliveries that lets none of them out of its final status.\<close>

lemma dm_inv_update_deliveries:
  assumes "dm_inv d" "dm_tasks d' = dm_tasks d" "dm_runs d' = dm_runs d"
    and "dm_deliveries d' = sql_update p f (dm_deliveries d)"
    and ev: "\<And>r. p r \<Longrightarrow> delivery_evolves r (f r)"
  shows "dm_inv d'"
proof -
  have same: "dr_id (f r) = dr_id r \<and> dr_run_id (f r) = dr_run_id r \<and> dr_recipient (f r) = dr_recipient r"
    if "p r" for r using ev [OF that] by (simp add: delivery_evolves_def delivery_identity_def)
  have maps: "map dr_id (dm_deliveries d') = map dr_id (dm_deliveries d)"
    "map (\<lambda>r. (dr_run_id r, dr_recipient r)) (dm_deliveries d') =
     map (\<lambda>r. (dr_run_id r, dr_recipient r)) (dm_deliveries d)"
    unfolding assms(4) by (rule map_key_sql_update, simp add: same)+
  have fin: "terminal (dr_status r) \<Longrightarrow> f r = r" if "p r" for r
    using ev [OF that] by (simp add: delivery_evolves_def)
  have "deliveries_ok d'"
    unfolding deliveries_ok_def maps
  proof (intro conjI ballI impI)
    show "distinct (map dr_id (dm_deliveries d))"
      "distinct (map (\<lambda>r. (dr_run_id r, dr_recipient r)) (dm_deliveries d))"
      using assms(1) by (simp_all add: dm_inv_def deliveries_ok_def)
  next
    fix r assume "r \<in> set (dm_deliveries d')"
    then show "dr_run_id r \<in> nr_id ` set (dm_runs d')"
      using assms(1) same unfolding assms(3,4)
      by (elim sql_update_memE) (auto simp: dm_inv_def deliveries_ok_def)
  next
    fix n r assume n: "n \<in> set (dm_runs d')" "nr_completed_at n \<noteq> None"
      and r: "r \<in> set (dm_deliveries d')" "dr_run_id r = nr_id n"
    have done_rows: "terminal (dr_status x)" if "x \<in> set (dm_deliveries d)" "dr_run_id x = nr_id n" for x
      using assms(1) n that unfolding assms(3) dm_inv_def deliveries_ok_def by blast
    from r(1) show "terminal (dr_status r)"
      unfolding assms(4)
    proof (rule sql_update_memE)
      fix x assume x: "x \<in> set (dm_deliveries d)" "p x" "r = f x"
      then have "terminal (dr_status x)" using done_rows r(2) same by simp
      with x fin show ?thesis by simp
    qed (use done_rows r(2) in blast)
  qed
  with assms(1-3) show ?thesis by (simp add: dm_inv_def runs_ok_def)
qed

section \<open>Each method\<close>

subsection \<open>Tasks\<close>

lemma task_row_of_ok:
  assumes "RecurrenceDuration (task_Recurrence task) = Some i" "1 \<le> task_MaxRuns task"
    "task_MaxRuns task \<le> 12" "0 \<le> task_CompletedRuns task" "task_CompletedRuns task \<le> task_MaxRuns task"
  shows "task_ok (task_row_of now i task)"
  using assms by (simp add: task_ok_def task_row_of_def dm_status_ok_def)

lemma upsert_task_ids:
  "distinct (map tr_id ts) \<Longrightarrow> distinct (map tr_id (upsert_task row ts))"
  by (auto simp: upsert_task_def sql_exists_iff map_key_sql_update)

lemma upsert_task_ok:
  "\<forall>t \<in> set ts. task_ok t \<Longrightarrow> task_ok row \<Longrightarrow> \<forall>t \<in> set (upsert_task row ts). task_ok t"
  by (auto simp: upsert_task_def set_sql_update task_ok_def)

lemma SaveTask_cases:
  obtains "snd (SaveTask now task d) = d"
  | i where "RecurrenceDuration (task_Recurrence task) = Some i" "1 \<le> task_MaxRuns task"
    "task_MaxRuns task \<le> 12" "0 \<le> task_CompletedRuns task" "task_CompletedRuns task \<le> task_MaxRuns task"
    "dm_tasks (snd (SaveTask now task d)) = upsert_task (task_row_of now i task) (dm_tasks d)"
    "dm_runs (snd (SaveTask now task d)) = dm_runs d"
    "dm_deliveries (snd (SaveTask now task d)) = dm_deliveries d"
proof (cases "snd (SaveTask now task d) = d")
  case False
  obtain i where i: "RecurrenceDuration (task_Recurrence task) = Some i"
    using False by (cases "RecurrenceDuration (task_Recurrence task)") (simp_all add: SaveTask_def)
  show ?thesis
    by (rule that(2) [of i]) (use False i in \<open>auto simp: SaveTask_def Let_def split: if_splits\<close>)
qed (rule that(1))

lemma SaveTask_inv: "dm_inv d \<Longrightarrow> dm_inv (snd (SaveTask now task d))"
proof (cases rule: SaveTask_cases [of now task d])
  case (2 i)
  assume inv: "dm_inv d"
  note ok = task_row_of_ok [OF 2(1-5), of now]
  show ?thesis
  proof (rule dm_inv_tasks [OF inv 2(7,8)])
    show "distinct (map tr_id (dm_tasks (snd (SaveTask now task d))))"
      unfolding 2(6) using inv by (intro upsert_task_ids) (simp add: dm_inv_def)
    show "\<forall>t \<in> set (dm_tasks (snd (SaveTask now task d))). task_ok t"
      unfolding 2(6) using inv by (intro upsert_task_ok [OF _ ok]) (simp add: dm_inv_def)
  qed
qed simp

lemma SaveTask_keeps: "dm_keeps d (snd (SaveTask now task d))"
  by (cases rule: SaveTask_cases [of now task d]) (simp_all add: dm_keeps_same)

lemma SetTaskStatus_inv: "dm_inv d \<Longrightarrow> dm_inv (snd (SetTaskStatus i status at d))"
proof -
  assume inv: "dm_inv d"
  let ?d = "snd (SetTaskStatus i status at d)"
  show ?thesis
  proof (cases "?d = d")
    case False
    let ?f = "\<lambda>t. t\<lparr>tr_status := status,
                tr_next_run_at := (if status = DMActive
                  then Some (case tr_next_run_at t of None \<Rightarrow> tr_start_at t | Some n \<Rightarrow> n)
                  else tr_next_run_at t),
                tr_updated_at := formatTime at\<rparr>"
    from False have ok: "dm_status_ok status"
      and d': "?d = d\<lparr>dm_tasks := sql_update (\<lambda>t. tr_id t = i) ?f (dm_tasks d)\<rparr>"
      by (auto simp: SetTaskStatus_def Let_def split: if_splits)
    show ?thesis unfolding d'
      by (rule dm_inv_update_tasks [OF inv, where p = "\<lambda>t. tr_id t = i" and f = ?f]) (simp_all add: task_ok_def ok)
  qed (use inv in simp)
qed

lemma SetTaskStatus_keeps: "dm_keeps d (snd (SetTaskStatus i status at d))"
  by (rule dm_keeps_same) (simp add: SetTaskStatus_def Let_def)

lemma pauseActive_inv: "dm_inv d \<Longrightarrow> dm_inv (pauseActiveScheduledDMTasks d)"
  by (rule dm_inv_update_tasks [where p = "\<lambda>t. tr_status t = DMActive" and
        f = "\<lambda>t. t\<lparr>tr_status := DMPaused\<rparr>"])
     (simp_all add: pauseActiveScheduledDMTasks_def task_ok_def dm_status_ok_def)

subsection \<open>Runs\<close>

text \<open>Decimal numerals are distinct for distinct numbers.\<close>

definition undec :: "string \<Rightarrow> nat" where
  "undec s = foldl (\<lambda>a c. 10 * a + (of_char c - 48)) 0 s"

lemma of_digit_char: "n < 10 \<Longrightarrow> of_char (digit_char n) = 48 + n"
  by (simp add: digit_char_def)

lemma undec_dec: "undec (dec n) = n"
proof (induction n rule: dec.induct)
  case (1 n)
  show ?case
  proof (cases "n < 10")
    case True
    then show ?thesis by (simp add: undec_def dec.simps [of n] of_digit_char)
  next
    case False
    with 1 have "undec (dec (n div 10)) = n div 10" by simp
    with False show ?thesis
      by (simp add: undec_def dec.simps [of n] of_digit_char)
  qed
qed

lemma dec_inject [simp]: "dec m = dec n \<longleftrightarrow> m = n"
  by (metis undec_dec)

lemma delivery_ids_distinct:
  "distinct (map dr_id (map (delivery_of taskID runID at randoms accounts) (enumerate 0 xs)))"
proof -
  have "map dr_id (map (delivery_of taskID runID at randoms accounts) (enumerate 0 xs)) =
      map (\<lambda>n. runID @ '':delivery:'' @ dec n) [0..<length xs]"
    by (rule nth_equalityI) (simp_all add: nth_enumerate_eq delivery_of_def)
  moreover have "inj_on (\<lambda>n. runID @ '':delivery:'' @ dec n) {0..<length xs}" by (rule inj_onI) simp
  ultimately show ?thesis by (simp add: distinct_map)
qed

lemma delivery_of_props:
  "r \<in> set (map (delivery_of taskID runID at randoms accounts) (enumerate 0 xs)) \<Longrightarrow>
     dr_run_id r = runID \<and> dr_recipient r \<in> set xs \<and> dr_status r = DeliveryPending \<and>
     dr_task_id r = taskID \<and> dr_id r \<noteq> ''''"
  by (auto simp: delivery_of_def in_set_enumerate_eq)

lemma delivery_recipients:
  "map dr_recipient (map (delivery_of taskID runID at randoms accounts) (enumerate 0 xs)) = xs"
  by (rule nth_equalityI) (simp_all add: nth_enumerate_eq delivery_of_def)

lemma materializeDueRun_ok:
  assumes "materializeDueRun now randoms d = (Inr (), d')"
  shows "d' = d \<or> (\<exists>t run deliveries. t \<in> set (dm_tasks d) \<and> run_due d (formatTime now) t \<and>
    d' = d\<lparr>dm_runs := dm_runs d @ [run], dm_deliveries := dm_deliveries d @ deliveries\<rparr> \<and>
    nr_task_id run = tr_id t \<and> nr_run_number run = tr_completed_runs t + 1 \<and> nr_completed_at run = None \<and>
    (\<forall>n \<in> set (dm_runs d). nr_id n \<noteq> nr_id run) \<and>
    distinct (map dr_id deliveries) \<and> distinct (map dr_recipient deliveries) \<and>
    (\<forall>r \<in> set deliveries. dr_run_id r = nr_id run \<and> the_delivery d (dr_id r) = None) \<and>
    (\<forall>r \<in> set deliveries. dr_task_id r = tr_id t \<and> dr_id r \<noteq> '''') \<and>
    (\<exists>s. nr_scheduled_at run = formatTime s))"
proof (cases "sql_first run_order (run_due d (formatTime now)) (dm_tasks d)")
  case None
  with assms show ?thesis by (simp add: materializeDueRun_def)
next
  case (Some t)
  obtain at where at: "parseTime (the (tr_next_run_at t)) = Some at"
    using assms Some by (cases "parseTime (the (tr_next_run_at t))") (simp_all add: materializeDueRun_def)
  let ?runID = "run_id (tr_id t) (tr_completed_runs t + 1)"
  let ?run = "\<lparr>nr_id = ?runID, nr_task_id = tr_id t, nr_run_number = tr_completed_runs t + 1,
      nr_scheduled_at = formatTime at, nr_completed_at = None, nr_created_at = formatTime now\<rparr>"
  let ?ds = "map (delivery_of (tr_id t) ?runID (formatTime at) randoms (listAccountIDs (tr_id t) d))
      (enumerate 0 (map rr_username (recipient_rows (tr_id t) d)))"
  have d': "d' = d\<lparr>dm_runs := dm_runs d @ [?run], dm_deliveries := dm_deliveries d @ ?ds\<rparr>"
    and fresh: "\<not> sql_exists (\<lambda>r. nr_id r = ?runID) (dm_runs d)"
    and dist: "distinct (map rr_username (recipient_rows (tr_id t) d))"
    and none: "list_all (\<lambda>n. the_delivery d (dr_id n) = None \<and>
        dr_account_id n \<in> set (dm_known_accounts d)) ?ds"
    using assms Some at by (simp_all add: materializeDueRun_def Let_def split: if_splits)
  have "t \<in> set (dm_tasks d)" "run_due d (formatTime now) t"
    using sql_first_SomeD [OF Some] by auto
  moreover have "distinct (map dr_id ?ds)" by (rule delivery_ids_distinct)
  moreover have "distinct (map dr_recipient ?ds)" using dist by (simp only: delivery_recipients)
  moreover have "\<forall>r \<in> set ?ds. dr_run_id r = ?runID \<and> the_delivery d (dr_id r) = None"
    using none delivery_of_props by (fastforce simp: list_all_iff)
  moreover have "\<forall>r \<in> set ?ds. dr_task_id r = tr_id t \<and> dr_id r \<noteq> ''''"
    using delivery_of_props by blast
  ultimately show ?thesis
    using d' fresh by (intro disjI2 exI [of _ t] exI [of _ ?run] exI [of _ ?ds]) (simp add: sql_exists_iff)
qed

lemma materializeDueRun_keeps:
  "materializeDueRun now randoms d = (Inr x, d') \<Longrightarrow> dm_keeps d d'"
  using materializeDueRun_ok [of now randoms d d'] by (auto intro: dm_keeps_append)

lemma materializeDueRun_inv:
  assumes inv: "dm_inv d" and m: "materializeDueRun now randoms d = (Inr x, d')"
  shows "dm_inv d'"
proof -
  have "materializeDueRun now randoms d = (Inr (), d')" using m by simp
  from materializeDueRun_ok [OF this] consider "d' = d"
    | t run ds where "t \<in> set (dm_tasks d)" "run_due d (formatTime now) t"
      "d' = d\<lparr>dm_runs := dm_runs d @ [run], dm_deliveries := dm_deliveries d @ ds\<rparr>"
      "nr_task_id run = tr_id t" "nr_run_number run = tr_completed_runs t + 1" "nr_completed_at run = None"
      "\<forall>n \<in> set (dm_runs d). nr_id n \<noteq> nr_id run"
      "distinct (map dr_id ds)" "distinct (map dr_recipient ds)"
      "\<forall>r \<in> set ds. dr_run_id r = nr_id run \<and> the_delivery d (dr_id r) = None"
    by blast
  then show ?thesis
  proof cases
    case 1
    with inv show ?thesis by simp
  next
    case (2 t run ds)
    have tasks: "dm_tasks d' = dm_tasks d" by (simp add: 2(3))
    have ok: "task_ok t" using inv 2(1) by (simp add: dm_inv_def)
    have new_number: "\<forall>n \<in> set (dm_runs d). (nr_task_id n, nr_run_number n) \<noteq> (nr_task_id run, nr_run_number run)"
      using 2(2) by (auto simp: run_due_def sql_exists_iff 2(4,5))
    have "runs_ok d'"
      using inv new_number 2(7) ok by (auto simp: dm_inv_def runs_ok_def 2(3,5) task_ok_def)
    moreover have "deliveries_ok d'"
    proof -
      have old: "\<forall>r \<in> set (dm_deliveries d). dr_run_id r \<noteq> nr_id run"
        using inv 2(7) by (auto simp: dm_inv_def deliveries_ok_def)
      have ids: "\<forall>r \<in> set ds. \<forall>x \<in> set (dm_deliveries d). dr_id x \<noteq> dr_id r"
        using 2(10) by (auto simp: sql_select_None_iff)
      have pairs: "distinct (map (\<lambda>r. (dr_run_id r, dr_recipient r)) ds)"
        using 2(9) by (auto simp: distinct_map inj_on_def)
      have a: "distinct (map dr_id (dm_deliveries d @ ds))"
        using inv 2(8) ids by (auto simp: dm_inv_def deliveries_ok_def)
      have b: "distinct (map (\<lambda>r. (dr_run_id r, dr_recipient r)) (dm_deliveries d @ ds))"
        using inv pairs old 2(10) by (auto simp: dm_inv_def deliveries_ok_def)
      have c: "\<forall>r \<in> set (dm_deliveries d @ ds). dr_run_id r \<in> nr_id ` set (dm_runs d @ [run])"
        using inv 2(10) by (auto simp: dm_inv_def deliveries_ok_def)
      have e: "\<forall>n \<in> set (dm_runs d @ [run]). nr_completed_at n \<noteq> None \<longrightarrow>
          (\<forall>r \<in> set (dm_deliveries d @ ds). dr_run_id r = nr_id n \<longrightarrow> terminal (dr_status r))"
        using inv 2(6,7,10) unfolding dm_inv_def deliveries_ok_def by fastforce
      from a b c e show ?thesis unfolding deliveries_ok_def 2(3) by simp
    qed
    ultimately show ?thesis using inv tasks by (simp add: dm_inv_def)
  qed
qed

subsection \<open>Claims\<close>

text \<open>
  A claim first materializes a run, then leases the chosen delivery; the delivery it returns is
  the leased row.
\<close>

lemma claim_tx_ok:
  assumes "claim_tx now l randoms token d = (Inr res, d')"
  obtains d1 where "materializeDueRun now randoms d = (Inr (), d1)" "res = None" "d' = d1"
    "\<forall>r \<in> set (dm_deliveries d1). \<not> delivery_due d1 (formatTime now) r"
  | d1 r r' dlv where "materializeDueRun now randoms d = (Inr (), d1)"
    "r \<in> set (dm_deliveries d1)" "delivery_due d1 (formatTime now) r"
    "\<forall>s \<in> set (dm_deliveries d1). delivery_due d1 (formatTime now) s \<longrightarrow> delivery_order d1 r \<le> delivery_order d1 s"
    "d' = d1\<lparr>dm_deliveries := sql_update (\<lambda>x. dr_id x = dr_id r \<and> claimable (formatTime now) x)
            (claim_row now l token) (dm_deliveries d1)\<rparr>"
    "the_delivery d' (dr_id r) = Some r'" "scanScheduledDMDelivery d' r' = Inr dlv" "res = Some dlv"
proof -
  obtain d1 where m: "materializeDueRun now randoms d = (Inr (), d1)"
    using assms by (cases "materializeDueRun now randoms d") (auto simp: claim_tx_def split: sum.splits)
  show ?thesis
  proof (cases "sql_first (delivery_order d1) (delivery_due d1 (formatTime now)) (dm_deliveries d1)")
    case None
    with assms m show ?thesis
      by (intro that(1) [OF m]) (auto simp: claim_tx_def sql_first_None_iff)
  next
    case (Some r)
    let ?d2 = "d1\<lparr>dm_deliveries := sql_update (\<lambda>x. dr_id x = dr_id r \<and> claimable (formatTime now) x)
            (claim_row now l token) (dm_deliveries d1)\<rparr>"
    have rest: "d' = ?d2" "\<exists>r'. the_delivery ?d2 (dr_id r) = Some r' \<and>
        (\<exists>dlv. scanScheduledDMDelivery ?d2 r' = Inr dlv \<and> res = Some dlv)"
      using assms m Some by (auto simp: claim_tx_def Let_def split: if_splits option.splits sum.splits)
    then obtain r' dlv where "the_delivery d' (dr_id r) = Some r'" "scanScheduledDMDelivery d' r' = Inr dlv"
      "res = Some dlv" by blast
    with rest(1) m sql_first_SomeD [OF Some] show ?thesis by (intro that(2) [of d1 r r' dlv]) blast+
  qed
qed

lemma claim_tx_step:
  assumes "dm_inv d" "claim_tx now l randoms token d = (Inr res, d')"
  shows "dm_inv d' \<and> dm_keeps d d'"
  using assms(2)
proof (cases rule: claim_tx_ok)
  case (1 d1)
  then show ?thesis
    using materializeDueRun_inv [OF assms(1) 1(1)] materializeDueRun_keeps [OF 1(1)] by simp
next
  case (2 d1 r r' dlv)
  let ?p = "\<lambda>x. dr_id x = dr_id r \<and> claimable (formatTime now) x"
  have ev: "\<And>x. ?p x \<Longrightarrow> delivery_evolves x (claim_row now l token x)"
    using claim_row_evolves by blast
  have "dm_inv d'"
    by (rule dm_inv_update_deliveries [OF materializeDueRun_inv [OF assms(1) 2(1)],
          where p = ?p and f = "claim_row now l token"]) (use ev in \<open>simp_all add: 2(5)\<close>)
  moreover have "dm_keeps d1 d'"
    by (rule dm_keeps_update [where p = ?p and f = "claim_row now l token"])
       (use ev in \<open>simp_all add: 2(5)\<close>)
  ultimately show ?thesis using materializeDueRun_keeps [OF 2(1)] dm_keeps_trans by blast
qed

lemma ClaimDueDelivery_step:
  assumes "dm_inv d"
  shows "dm_inv (snd (ClaimDueDelivery now l randoms token d)) \<and>
         dm_keeps d (snd (ClaimDueDelivery now l randoms token d))"
proof -
  have "dm_inv (snd (in_tx (claim_tx now l randoms token) d)) \<and>
      dm_keeps d (snd (in_tx (claim_tx now l randoms token) d))"
    by (rule in_tx_keeps) (use assms claim_tx_step in auto)
  then show ?thesis using assms by (simp add: ClaimDueDelivery_def)
qed

subsection \<open>Ends\<close>

lemma completeRun_deliveries [simp]: "dm_deliveries (snd (completeRun i at d)) = dm_deliveries d"
  by (simp add: completeRun_def Let_def split: option.split)

lemma completeRun_inv:
  assumes inv: "dm_inv d" and c: "completeRun i at d = (Inr x, d')"
    and all: "\<forall>r \<in> set (dm_deliveries d). dr_run_id r = i \<longrightarrow> terminal (dr_status r)"
  shows "dm_inv d'"
proof (cases "d' = d")
  case True
  with inv show ?thesis by simp
next
  case False
  let ?r = "\<lambda>r. r\<lparr>nr_completed_at := Some (formatTime at)\<rparr>"
  obtain run task scheduledAt duration where
    run: "sql_select (\<lambda>r. nr_id r = i \<and> nr_completed_at r = None) (dm_runs d) = Some run"
    and task: "the_task d (nr_task_id run) = Some task"
    and at: "parseTime (nr_scheduled_at run) = Some scheduledAt"
    and dur: "RecurrenceDuration (tr_recurrence task) = Some duration"
    using c False by (auto simp: completeRun_def split: option.splits)
  let ?p = "\<lambda>t. tr_id t = nr_task_id run"
  let ?stop = "tr_max_runs task \<le> nr_run_number run \<or> duration = 0"
  let ?f = "\<lambda>t. if ?stop
      then t\<lparr>tr_completed_runs := nr_run_number run, tr_status := DMCompleted,
              tr_next_run_at := None, tr_updated_at := formatTime at\<rparr>
      else t\<lparr>tr_completed_runs := nr_run_number run,
              tr_next_run_at := Some (formatTime (scheduledAt + duration)), tr_updated_at := formatTime at\<rparr>"
  let ?d1 = "d\<lparr>dm_runs := sql_update (\<lambda>r. nr_id r = i) ?r (dm_runs d)\<rparr>"
  have few: "\<forall>t \<in> set (dm_tasks d). ?p t \<longrightarrow> nr_run_number run \<le> tr_max_runs t"
    and d': "dm_tasks d' = sql_update ?p ?f (dm_tasks d)" "dm_runs d' = dm_runs ?d1"
      "dm_deliveries d' = dm_deliveries d"
    using c run task at dur
    by (auto simp: completeRun_def Let_def sql_affected_0_iff split: if_splits)
  have one: "1 \<le> nr_run_number run"
    using inv sql_select_SomeD [OF run] by (auto simp: dm_inv_def runs_ok_def)
  have "dm_inv ?d1"
  proof -
    have "runs_ok ?d1"
      using inv by (auto simp: dm_inv_def runs_ok_def set_sql_update map_key_sql_update)
    moreover have "deliveries_ok ?d1"
    proof -
      have ids: "nr_id ` set (dm_runs ?d1) = nr_id ` set (dm_runs d)"
      proof -
        have "map nr_id (dm_runs ?d1) = map nr_id (dm_runs d)" by (simp add: map_key_sql_update)
        then show ?thesis by (metis list.set_map)
      qed
      have fin: "terminal (dr_status y)"
        if n: "n \<in> set (dm_runs ?d1)" "nr_completed_at n \<noteq> None"
          and y: "y \<in> set (dm_deliveries d)" "dr_run_id y = nr_id n" for n y
      proof (cases "nr_id n = i")
        case True
        with all y show ?thesis by simp
      next
        case False
        with n(1) have "n \<in> set (dm_runs d)" by (auto simp: set_sql_update split: if_splits)
        with inv n(2) y show ?thesis unfolding dm_inv_def deliveries_ok_def by blast
      qed
      show ?thesis
        unfolding deliveries_ok_def ids
        using inv fin by (simp add: dm_inv_def deliveries_ok_def)
    qed
    ultimately show ?thesis using inv by (simp add: dm_inv_def)
  qed
  then show ?thesis
    by (rule dm_inv_update_tasks [where p = ?p and f = ?f])
       (use d' few one in \<open>auto simp: task_ok_def dm_status_ok_def\<close>)
qed

lemma owned_finish_ok:
  assumes "complete_tx result at d = (Inr x, d')"
  obtains r d1 where "d1 = d\<lparr>dm_deliveries := sql_update
      (owned (res_DeliveryID result) (res_LeaseToken result)) (finish_row result at) (dm_deliveries d)\<rparr>"
    "the_delivery d1 (res_DeliveryID result) = Some r"
    "sql_affected (owned (res_DeliveryID result) (res_LeaseToken result)) (dm_deliveries d) = 1"
    "dm_deliveries d' = dm_deliveries d1"
    "dm_tasks d' = dm_tasks d \<and> dm_runs d' = dm_runs d \<or>
     (\<exists>d2. dm_tasks d2 = dm_tasks d \<and> dm_runs d2 = dm_runs d \<and> dm_deliveries d2 = dm_deliveries d1 \<and>
        completeRun (dr_run_id r) at d2 = (Inr (), d') \<and>
        (\<forall>y \<in> set (dm_deliveries d1). dr_run_id y = dr_run_id r \<longrightarrow> terminal (dr_status y)))"
proof -
  let ?p = "owned (res_DeliveryID result) (res_LeaseToken result)"
  let ?d1 = "d\<lparr>dm_deliveries := sql_update ?p (finish_row result at) (dm_deliveries d)\<rparr>"
  have one: "sql_affected ?p (dm_deliveries d) = 1"
    using assms by (auto simp: complete_tx_def Let_def split: if_splits)
  obtain r where r: "the_delivery ?d1 (res_DeliveryID result) = Some r"
    using assms one by (cases "the_delivery ?d1 (res_DeliveryID result)") (auto simp: complete_tx_def Let_def)
  let ?d2 = "?d1\<lparr>dm_recipients := sql_update
      (\<lambda>x. rr_task_id x = dr_task_id r \<and> rr_username x = dr_recipient r)
      (\<lambda>x. x\<lparr>rr_peer_status := recipient_status result, rr_last_error := res_ErrorCode result\<rparr>)
      (dm_recipients ?d1)\<rparr>"
  have res: "complete_tx result at d =
      (if sql_affected (\<lambda>x. dr_run_id x = dr_run_id r \<and> \<not> terminal (dr_status x)) (dm_deliveries ?d2) = 0
       then completeRun (dr_run_id r) at ?d2 else (Inr (), ?d2))"
    using one r by (simp add: complete_tx_def Let_def)
  show ?thesis
  proof (cases "sql_affected (\<lambda>x. dr_run_id x = dr_run_id r \<and> \<not> terminal (dr_status x)) (dm_deliveries ?d2) = 0")
    case True
    then have c: "completeRun (dr_run_id r) at ?d2 = (Inr (), d')" using res assms by simp
    then have "dm_deliveries d' = dm_deliveries ?d1"
      using completeRun_deliveries [of "dr_run_id r" at ?d2] by simp
    then show ?thesis
      using True c by (intro that [OF refl r one]) (auto simp: sql_affected_0_iff intro!: exI [of _ ?d2])
  next
    case False
    then have "d' = ?d2" using res assms by simp
    then show ?thesis by (intro that [OF refl r one]) simp_all
  qed
qed

lemma complete_tx_step:
  assumes inv: "dm_inv d" and c: "complete_tx result at d = (Inr x, d')"
  shows "dm_inv d' \<and> dm_keeps d d'"
  using c
proof (cases rule: owned_finish_ok)
  case (1 r d1)
  let ?p = "owned (res_DeliveryID result) (res_LeaseToken result)"
  let ?f = "finish_row result at"
  have ev: "\<And>x. ?p x \<Longrightarrow> delivery_evolves x (?f x)" using finish_row_evolves by blast
  have inv1: "dm_inv d2" if "dm_tasks d2 = dm_tasks d" "dm_runs d2 = dm_runs d"
    "dm_deliveries d2 = dm_deliveries d1" for d2
    by (rule dm_inv_update_deliveries [OF inv that(1,2), where p = ?p and f = ?f])
       (use that ev in \<open>simp_all add: 1(1)\<close>)
  have "dm_keeps d d'"
    by (rule dm_keeps_update [where p = ?p and f = ?f]) (use 1(1,4) ev in simp_all)
  moreover have "dm_inv d'"
    using 1(5) inv1 1(4) completeRun_inv by metis
  ultimately show ?thesis by blast
qed

lemma CompleteDelivery_step:
  assumes "dm_inv d"
  shows "dm_inv (snd (CompleteDelivery now result d)) \<and> dm_keeps d (snd (CompleteDelivery now result d))"
proof -
  have "dm_inv (snd (in_tx (complete_tx result at) d)) \<and> dm_keeps d (snd (in_tx (complete_tx result at) d))"
    for at by (rule in_tx_keeps) (use assms complete_tx_step in auto)
  then show ?thesis using assms by (simp add: CompleteDelivery_def)
qed

lemma DelayDelivery_step:
  assumes "dm_inv d"
  shows "dm_inv (snd (DelayDelivery i tok reason at d)) \<and> dm_keeps d (snd (DelayDelivery i tok reason at d))"
proof (cases "snd (DelayDelivery i tok reason at d) = d")
  case True
  with assms show ?thesis by simp
next
  case False
  let ?f = "\<lambda>r. r\<lparr>dr_status := DeliveryPending, dr_next_attempt_at := formatTime at,
      dr_error_code := reason, dr_lease_token := '''', dr_lease_until := None\<rparr>"
  have d': "snd (DelayDelivery i tok reason at d) =
      d\<lparr>dm_deliveries := sql_update (owned i tok) ?f (dm_deliveries d)\<rparr>"
    using False by (auto simp: DelayDelivery_def split: if_splits)
  have ev: "\<And>r. owned i tok r \<Longrightarrow> delivery_evolves r (?f r)" by (rule delay_row_evolves)
  show ?thesis
    unfolding d'
    using dm_inv_update_deliveries [OF assms, where p = "owned i tok" and f = ?f]
      dm_keeps_update [where p = "owned i tok" and f = ?f] ev by simp
qed

section \<open>Sequences of calls\<close>

lemma dm_perform_step: "dm_inv d \<Longrightarrow> dm_inv (dm_perform c d) \<and> dm_keeps d (dm_perform c d)"
  by (cases c)
     (simp_all add: SaveTask_inv SaveTask_keeps SetTaskStatus_inv SetTaskStatus_keeps pauseActive_inv
       ClaimDueDelivery_step CompleteDelivery_step DelayDelivery_step dm_keeps_same
       pauseActiveScheduledDMTasks_def [THEN arg_cong [where f = dm_deliveries]])

lemma dm_serve_step: "dm_inv d \<Longrightarrow> dm_inv (dm_serve cs d) \<and> dm_keeps d (dm_serve cs d)"
proof (induction cs arbitrary: d)
  case (Cons c cs)
  from dm_perform_step [OF Cons.prems, of c] Cons.IH [of "dm_perform c d"] show ?case
    by (auto intro: dm_keeps_trans)
qed simp

end
