(* ===== verification/DmService.thy ===== *)
theory DmService
  imports DmQueue
begin

text \<open>
  Scheduled direct messages for the user: the parser of recipients
  (internal/usecase/scheduled_dm_parser.go) with the parts of \<^verbatim>\<open>net/url\<close> it relies on, and
  the service that validates and saves tasks (internal/usecase/scheduled_dm.go).
\<close>

section \<open>URLs\<close>

text \<open>
  \<^verbatim>\<open>url.Parse\<close> as far as the parser looks: the scheme, the authority, the query and the path.
  \<open>None\<close> is an error. The authority is kept as text; the parser accepts one host only, see
  \<open>host_and_port\<close>.
\<close>

record parsed_url =
  url_Scheme :: string
  url_Authority :: string
  url_RawQuery :: string
  url_Path :: string
  url_RawPath :: string
  url_Fragment :: string

definition is_letter :: "char \<Rightarrow> bool" where
  "is_letter c \<longleftrightarrow> is_ascii_between 97 122 c \<or> is_ascii_between 65 90 c"

definition is_digit :: "char \<Rightarrow> bool" where
  "is_digit c \<longleftrightarrow> is_ascii_between 48 57 c"

text \<open>\<^verbatim>\<open>getScheme\<close>: the scheme in front of the first colon, or none (\<open>''''\<close>) when another
  character comes first; an empty one is an error.\<close>

definition getScheme :: "string \<Rightarrow> (string \<times> string) option" where
  "getScheme raw =
     (let scheme_char = (\<lambda>c. is_letter c \<or> is_digit c \<or> c \<in> set ''+-.'');
          s = takeWhile scheme_char raw;
          rest = dropWhile scheme_char raw
      in if raw \<noteq> '''' \<and> hd raw = CHR '':'' then None
         else if s = '''' \<or> \<not> is_letter (hd s) then Some ('''', raw)
         else if rest = '''' \<or> hd rest \<noteq> CHR '':'' then Some ('''', raw)
         else Some (s, tl rest))"

definition unhex :: "char \<Rightarrow> nat option" where
  "unhex c =
     (if is_digit c then Some (of_char c - 48)
      else if is_ascii_between 97 102 c then Some (of_char c - 87)
      else if is_ascii_between 65 70 c then Some (of_char c - 55)
      else None)"

fun unescape :: "string \<Rightarrow> string option" where
  "unescape [] = Some []"
| "unescape (c # cs) =
     (if c = CHR ''%'' then
        (case cs of
           a # b # rest \<Rightarrow>
             (case (unhex a, unhex b) of
                (Some x, Some y) \<Rightarrow> map_option (\<lambda>t. char_of (16 * x + y) # t) (unescape rest)
              | _ \<Rightarrow> None)
         | _ \<Rightarrow> None)
      else map_option (\<lambda>t. c # t) (unescape cs))"

definition hex_char :: "nat \<Rightarrow> char" where
  "hex_char n = char_of (if n < 10 then 48 + n else 55 + n)"

definition path_plain :: "char \<Rightarrow> bool" where
  "path_plain c \<longleftrightarrow> is_letter c \<or> is_digit c \<or> c \<in> set ''-_.~$&+,/:;=@''"

definition escape :: "string \<Rightarrow> string" where
  "escape s = concat (map (\<lambda>c. if path_plain c then [c]
     else [CHR ''%'', hex_char (of_char c div 16), hex_char (of_char c mod 16)]) s)"

definition has_ctl :: "string \<Rightarrow> bool" where
  "has_ctl s \<longleftrightarrow> list_ex (\<lambda>c. of_char c < (32::nat) \<or> of_char c = (127::nat)) s"

definition cut_query :: "string \<Rightarrow> string \<times> string" where
  "cut_query rest =
     (if suffix ''?'' rest \<and> Count1 rest (CHR ''?'') = 1 then (butlast rest, '''')
      else (fst (Cut (CHR ''?'') rest), fst (snd (Cut (CHR ''?'') rest))))"

definition url_Parse :: "string \<Rightarrow> parsed_url option" where
  "url_Parse raw =
     (let (u, frag, _) = Cut (CHR ''#'') raw in
      if has_ctl u then None
      else case getScheme u of
        None \<Rightarrow> None
      | Some (scheme, rest) \<Rightarrow>
          let (rest, query) = cut_query rest;
              (authority, path) =
                (if prefix ''//'' rest \<and> scheme \<noteq> ''''
                 then (takeWhile (\<lambda>c. c \<noteq> CHR ''/'') (drop 2 rest), dropWhile (\<lambda>c. c \<noteq> CHR ''/'') (drop 2 rest))
                 else ('''', if prefix ''/'' rest then rest else ''''))
          in case (unescape path, unescape frag) of
               (Some p, Some f) \<Rightarrow>
                 Some \<lparr>url_Scheme = AsciiToLower scheme, url_Authority = authority, url_RawQuery = query,
                       url_Path = p, url_RawPath = (if escape p = path then '''' else path),
                       url_Fragment = f\<rparr>
             | _ \<Rightarrow> None)"

text \<open>
  \<^verbatim>\<open>Hostname()\<close> and \<^verbatim>\<open>Port()\<close> of an authority without user, brackets or escapes: what
  stands before and after its last colon. An authority with one of those is an error of
  \<^verbatim>\<open>url.Parse\<close>, has a user, or names a host other than the one accepted.
\<close>

definition host_and_port :: "string \<Rightarrow> string \<times> string" where
  "host_and_port authority =
     (if CHR '':'' \<in> set authority
      then (rev (tl (dropWhile (\<lambda>c. c \<noteq> CHR '':'') (rev authority))),
            rev (takeWhile (\<lambda>c. c \<noteq> CHR '':'') (rev authority)))
      else (authority, ''''))"

section \<open>Recipients\<close>

datatype dm_service_error =
    SdmRecipientsRequired
  | SdmRecipientInvalid
  | SdmRecipientsLimit
  | SdmRecipientRequired
  | SdmMessageRequired
  | SdmStartMustBeFuture
  | SdmAccountsRequired
  | SdmAccountsLimit
  | SdmDuplicateAccountID
  | SdmAccountNotActiveSpammer
  | SdmOnceMaxRuns
  | SdmTaskNotRestartable
  | SdmDomain dm_domain_error
  | SdmStore dm_error
  | SdmAccounts

definition username_char :: "char \<Rightarrow> bool" where
  "username_char c \<longleftrightarrow> is_letter c \<or> is_digit c \<or> c = CHR ''_''"

definition isScheduledDMUsername :: "string \<Rightarrow> bool" where
  "isScheduledDMUsername v \<longleftrightarrow> 5 \<le> length v \<and> length v \<le> 32 \<and> list_all username_char v"

definition t_me_path :: "string \<Rightarrow> string option" where
  "t_me_path value =
     (case url_Parse value of
        None \<Rightarrow> None
      | Some u \<Rightarrow>
          let (host, port) = host_and_port (url_Authority u) in
          if url_Scheme u \<noteq> ''https'' \<or> AsciiToLower host \<noteq> ''t.me'' \<or> port \<noteq> '''' \<or>
             url_RawQuery u \<noteq> '''' \<or> url_Fragment u \<noteq> '''' \<or> url_RawPath u \<noteq> ''''
          then None
          else if \<not> prefix ''/'' (url_Path u) \<or> Count1 (url_Path u) (CHR ''/'') \<noteq> 1 then None
          else Some (TrimPrefix (url_Path u) ''/''))"

definition normalizeScheduledDMUsername :: "string \<Rightarrow> dm_service_error + string" where
  "normalizeScheduledDMUsername input =
     (let v = TrimSpace input;
          name = (if Contains v ''://'' then t_me_path v else Some (TrimPrefix v ''@''))
      in case name of
           None \<Rightarrow> Inl SdmRecipientInvalid
         | Some name \<Rightarrow>
             if isScheduledDMUsername name then Inr (AsciiToLower name) else Inl SdmRecipientInvalid)"

fun parse_lines :: "string list \<Rightarrow> string list \<Rightarrow> dm_service_error + string list" where
  "parse_lines [] recipients = Inr recipients"
| "parse_lines (line # lines) recipients =
     (let v = TrimSpace line in
      if v = '''' then parse_lines lines recipients
      else if length (Fields v) \<noteq> 1 then Inl SdmRecipientInvalid
      else case normalizeScheduledDMUsername v of
             Inl e \<Rightarrow> Inl e
           | Inr username \<Rightarrow>
               if username \<in> set recipients then parse_lines lines recipients
               else parse_lines lines (recipients @ [username]))"

definition ParseScheduledDMRecipients :: "string \<Rightarrow> dm_service_error + string list" where
  "ParseScheduledDMRecipients input =
     (case parse_lines (Split (CHR ''\<newline>'') input) [] of
        Inl e \<Rightarrow> Inl e
      | Inr recipients \<Rightarrow>
          if recipients = [] then Inl SdmRecipientsRequired
          else if 3 < length recipients then Inl SdmRecipientsLimit
          else Inr recipients)"

text \<open>What an accepted recipient is: a lower case user name.\<close>

definition lower_username :: "string \<Rightarrow> bool" where
  "lower_username u \<longleftrightarrow> isScheduledDMUsername u \<and> AsciiToLower u = u"

lemma username_char_lower: "username_char c \<Longrightarrow> username_char (ascii_lower c)"
  by (auto simp: username_char_def is_letter_def is_digit_def is_ascii_between_def ascii_lower_def Let_def)

lemma normalize_lower_username:
  "normalizeScheduledDMUsername input = Inr u \<Longrightarrow> lower_username u"
  by (auto simp: normalizeScheduledDMUsername_def lower_username_def isScheduledDMUsername_def Let_def
      AsciiToLower_def list_all_iff username_char_lower split: option.splits if_splits)

lemma parse_lines_ok:
  "parse_lines lines acc = Inr rs \<Longrightarrow> distinct acc \<Longrightarrow> list_all lower_username acc \<Longrightarrow>
     distinct rs \<and> list_all lower_username rs"
proof (induction lines acc rule: parse_lines.induct)
  case (2 line lines acc)
  then show ?case
    by (auto simp: Let_def dest: normalize_lower_username split: if_splits sum.splits)
qed simp

lemma ParseScheduledDMRecipients_ok:
  assumes "ParseScheduledDMRecipients input = Inr rs"
  shows "rs \<noteq> [] \<and> length rs \<le> 3 \<and> distinct rs \<and> list_all lower_username rs"
  using assms parse_lines_ok [of "Split (CHR ''\<newline>'') input" "[]"]
  by (auto simp: ParseScheduledDMRecipients_def split: sum.splits if_splits)

section \<open>The service\<close>

record ScheduledDMDraft =
  draft_ID :: ID
  draft_MessageText :: string
  draft_Recipients :: "string list"
  draft_AccountIDs :: "ID list"
  draft_StartAt :: time
  draft_Recurrence :: string
  draft_MaxRuns :: int

definition validateScheduledDMDraft :: "ScheduledDMDraft \<Rightarrow> time \<Rightarrow> dm_service_error option" where
  "validateScheduledDMDraft draft now =
     (if draft_Recurrence draft = RecurrenceOnce \<and> 1 < draft_MaxRuns draft \<and> draft_MaxRuns draft \<le> 12
      then Some SdmOnceMaxRuns
      else if draft_Recipients draft = [] then Some SdmRecipientsRequired
      else if 3 < length (draft_Recipients draft) then Some SdmRecipientsLimit
      else if list_ex (\<lambda>r. TrimSpace r = '''') (draft_Recipients draft) then Some SdmRecipientRequired
      else if TrimSpace (draft_MessageText draft) = '''' then Some SdmMessageRequired
      else if \<not> After (draft_StartAt draft) now then Some SdmStartMustBeFuture
      else if draft_AccountIDs draft = [] then Some SdmAccountsRequired
      else if \<not> distinct (draft_AccountIDs draft) then Some SdmDuplicateAccountID
      else if 3 < length (draft_AccountIDs draft) then Some SdmAccountsLimit
      else None)"

definition isScheduledDMAccountUsable :: "string \<Rightarrow> bool" where
  "isScheduledDMAccountUsable status \<longleftrightarrow>
     status = ''ready'' \<or> status = ''connected'' \<or> status = AccountActive"

text \<open>\<open>listed\<close> is what the account store's \<^verbatim>\<open>ListAccounts\<close> returns.\<close>

definition validateAccounts :: "'e + Account list \<Rightarrow> ID list \<Rightarrow> dm_service_error option" where
  "validateAccounts listed selected =
     (case listed of
        Inl _ \<Rightarrow> Some SdmAccounts
      | Inr accounts \<Rightarrow>
          let usableSpammers = map acc_ID (filter (\<lambda>a. acc_Role a = AccountRoleSpammer \<and>
                                 isScheduledDMAccountUsable (acc_Status a)) accounts)
          in if list_all (\<lambda>i. i \<in> set usableSpammers) selected then None
             else Some SdmAccountNotActiveSpammer)"

definition draft_task :: "ID \<Rightarrow> time \<Rightarrow> ScheduledDMDraft \<Rightarrow> ScheduledDMTask" where
  "draft_task taskID now draft =
     \<lparr>task_ID = taskID, task_MessageText = TrimSpace (draft_MessageText draft), task_Status = '''',
      task_StartAt = draft_StartAt draft, task_Recurrence = draft_Recurrence draft,
      task_MaxRuns = draft_MaxRuns draft, task_CompletedRuns = 0,
      task_NextRunAt = Some (draft_StartAt draft),
      task_Recipients = map (\<lambda>(ordinal, username).
        \<lparr>rcp_TaskID = taskID, rcp_Ordinal = ordinal, rcp_Username = TrimSpace username,
         rcp_Status = ''unchecked'', rcp_LastError = '''', rcp_LastCheckedAt = None\<rparr>)
        (enumerate 0 (draft_Recipients draft)),
      task_AccountIDs = draft_AccountIDs draft, task_CreatedAt = now, task_UpdatedAt = now\<rparr>"

text \<open>
  \<open>checked\<close> and \<open>now\<close> are the two readings of the clock, \<open>uuid\<close> the id drawn when the draft
  has none.
\<close>

definition Save ::
  "'e + Account list \<Rightarrow> time \<Rightarrow> time \<Rightarrow> ID \<Rightarrow> ScheduledDMDraft \<Rightarrow>
     (dm_db, dm_service_error, ScheduledDMTask) op" where
  "Save listed checked now uuid draft d =
     (case validateScheduledDMDraft draft checked of
        Some e \<Rightarrow> (Inl e, d)
      | None \<Rightarrow>
     (case validateAccounts listed (draft_AccountIDs draft) of
        Some e \<Rightarrow> (Inl e, d)
      | None \<Rightarrow>
     (case NewScheduledDMTask (draft_task (if draft_ID draft = '''' then uuid else draft_ID draft) now draft) of
        Inl e \<Rightarrow> (Inl (SdmDomain e), d)
      | Inr task \<Rightarrow>
     (case SaveTask now task d of
        (Inl e, d') \<Rightarrow> (Inl (SdmStore e), d')
      | (Inr _, d') \<Rightarrow> (Inr task, d')))))"

definition set_running :: "string \<Rightarrow> ID \<Rightarrow> time \<Rightarrow> (dm_db, dm_service_error, unit) op" where
  "set_running status i now d =
     (case ListTasks d of
        Inl e \<Rightarrow> (Inl (SdmStore e), d)
      | Inr tasks \<Rightarrow>
          if list_ex (\<lambda>t. task_ID t = i \<and> (task_Status t = DMCancelled \<or> task_Status t = DMCompleted)) tasks
          then (Inl SdmTaskNotRestartable, d)
          else (case SetTaskStatus i status now d of
                  (Inl e, d') \<Rightarrow> (Inl (SdmStore e), d')
                | (Inr _, d') \<Rightarrow> (Inr (), d')))"

definition Start :: "ID \<Rightarrow> time \<Rightarrow> (dm_db, dm_service_error, unit) op" where
  "Start = set_running DMActive"

definition Stop :: "ID \<Rightarrow> time \<Rightarrow> (dm_db, dm_service_error, unit) op" where
  "Stop = set_running DMPaused"

definition Cancel :: "ID \<Rightarrow> time \<Rightarrow> (dm_db, dm_service_error, unit) op" where
  "Cancel i now d =
     (case SetTaskStatus i DMCancelled now d of
        (Inl e, d') \<Rightarrow> (Inl (SdmStore e), d')
      | (Inr _, d') \<Rightarrow> (Inr (), d'))"

end
