(* ===== verification/DmRunner.thy ===== *)
theory DmRunner
  imports DmService Outbound
begin

text \<open>
  The worker of the scheduled direct messages (internal/usecase/scheduled_dm_runner.go). Its
  collaborators are the record \<open>runner_env\<close> of the operations it calls, each on a state \<open>'w\<close>
  of its own: the repository of the tasks, the accounts and the sender. The locale
  \<open>dm_collaborators\<close> states what they promise; the interpretation at the end gives them as
  \<^verbatim>\<open>main.go\<close> wires them, the SQLite repositories and the adapter of theory Outbound.
\<close>

section \<open>The round\<close>

datatype runner_error =
    RunnerStore dm_error
  | RunnerAccounts db_error
  | RunnerTaskNotFound

record 'w runner_env =
  rn_now :: time
  rn_Claim :: "time \<Rightarrow> duration \<Rightarrow> 'w \<Rightarrow> (dm_error + ScheduledDMDelivery option) \<times> 'w"
  rn_Tasks :: "'w \<Rightarrow> dm_error + ScheduledDMTask list"
  rn_ListActive :: "'w \<Rightarrow> (db_error + Account list) \<times> 'w"
  rn_List :: "'w \<Rightarrow> db_error + Account list"
  rn_Resolve :: "Account \<Rightarrow> string \<Rightarrow> 'w \<Rightarrow> go_error option \<times> 'w"
  rn_Send :: "Account \<Rightarrow> ScheduledDMDelivery \<Rightarrow> string \<Rightarrow> 'w \<Rightarrow> go_error option \<times> 'w"
  rn_Complete :: "ScheduledDMDeliveryResult \<Rightarrow> 'w \<Rightarrow> (dm_error + unit) \<times> 'w"
  rn_Delay :: "ID \<Rightarrow> string \<Rightarrow> string \<Rightarrow> time \<Rightarrow> 'w \<Rightarrow> (dm_error + unit) \<times> 'w"

definition find_task :: "ID \<Rightarrow> ScheduledDMTask list \<Rightarrow> ScheduledDMTask option" where
  "find_task taskID tasks = find (\<lambda>t. task_ID t = taskID) tasks"

definition runner_task :: "'w runner_env \<Rightarrow> ID \<Rightarrow> 'w \<Rightarrow> runner_error + ScheduledDMTask" where
  "runner_task env taskID w =
     (case rn_Tasks env w of
        Inl e \<Rightarrow> Inl (RunnerStore e)
      | Inr tasks \<Rightarrow> (case find_task taskID tasks of None \<Rightarrow> Inl RunnerTaskNotFound | Some t \<Rightarrow> Inr t))"

text \<open>What \<^verbatim>\<open>assignedAccount\<close> answers: the account, the end of its flood wait, or no account.\<close>

datatype assigned =
    Assigned Account
  | InFloodWait time
  | Unavailable

definition assigned_active :: "ID \<Rightarrow> Account list \<Rightarrow> Account option" where
  "assigned_active accountID accounts =
     find (\<lambda>a. acc_ID a = accountID \<and> acc_Role a = AccountRoleSpammer \<and> Eligible a) accounts"

definition assigned_flooded :: "ID \<Rightarrow> time \<Rightarrow> Account list \<Rightarrow> time option" where
  "assigned_flooded accountID now accounts =
     (case find (\<lambda>a. acc_ID a = accountID \<and> acc_Role a = AccountRoleSpammer \<and>
                 acc_Status a = AccountFloodWait \<and>
                 (case acc_FloodWaitUntil a of None \<Rightarrow> False | Some u \<Rightarrow> After u now)) accounts of
        None \<Rightarrow> None
      | Some a \<Rightarrow> acc_FloodWaitUntil a)"

definition assignedAccount :: "'w runner_env \<Rightarrow> ID \<Rightarrow> time \<Rightarrow> 'w \<Rightarrow> assigned \<times> 'w" where
  "assignedAccount env accountID now w =
     (case rn_ListActive env w of
        (Inl _, w') \<Rightarrow> (Unavailable, w')
      | (Inr accounts, w') \<Rightarrow>
          (case assigned_active accountID accounts of
             Some a \<Rightarrow> (Assigned a, w')
           | None \<Rightarrow>
               (case rn_List env w' of
                  Inl _ \<Rightarrow> (Unavailable, w')
                | Inr accounts \<Rightarrow>
                    (case assigned_flooded accountID now accounts of
                       Some u \<Rightarrow> (InFloodWait u, w')
                     | None \<Rightarrow> (Unavailable, w')))))"

definition store_result :: "(dm_error + unit) \<times> 'w \<Rightarrow> runner_error option \<times> 'w" where
  "store_result r = (case r of (Inl e, w) \<Rightarrow> (Some (RunnerStore e), w) | (Inr _, w) \<Rightarrow> (None, w))"

definition result_of ::
  "ScheduledDMDelivery \<Rightarrow> string \<Rightarrow> time \<Rightarrow> string \<Rightarrow> ScheduledDMDeliveryResult" where
  "result_of delivery status now code =
     \<lparr>res_DeliveryID = dlv_ID delivery, res_LeaseToken = dlv_LeaseToken delivery, res_Status = status,
      res_CompletedAt = now, res_ErrorCode = code\<rparr>"

definition delay ::
  "'w runner_env \<Rightarrow> ScheduledDMDelivery \<Rightarrow> time \<Rightarrow> string \<Rightarrow> duration option \<Rightarrow> 'w \<Rightarrow>
     runner_error option \<times> 'w" where
  "delay env delivery now reason retry w =
     (let nextAttempt = (case retry of
            Some d \<Rightarrow> if 0 < d then now + d else now + 2 * Second
          | None \<Rightarrow> now + 2 * Second)
      in store_result (rn_Delay env (dlv_ID delivery) (dlv_LeaseToken delivery) reason nextAttempt w))"

definition handleDeliveryError ::
  "'w runner_env \<Rightarrow> ScheduledDMDelivery \<Rightarrow> time \<Rightarrow> go_error \<Rightarrow> string \<Rightarrow> 'w \<Rightarrow>
     runner_error option \<times> 'w" where
  "handleDeliveryError env delivery now err permanentCode w =
     (if IsPrivateMessageClosed err
      then store_result (rn_Complete env (result_of delivery DeliveryClosed now ''recipient_closed'') w)
      else if IsPermanentDeliveryFailure err
      then store_result (rn_Complete env (result_of delivery DeliveryFailed now permanentCode) w)
      else delay env delivery now ''send_failed'' (retryAfter err) w)"

definition deliver ::
  "'w runner_env \<Rightarrow> ScheduledDMDelivery \<Rightarrow> string \<Rightarrow> Account \<Rightarrow> 'w \<Rightarrow> runner_error option \<times> 'w" where
  "deliver env delivery messageText account w =
     (case rn_Resolve env account (dlv_Recipient delivery) w of
        (Some err, w1) \<Rightarrow> handleDeliveryError env delivery (rn_now env) err ''recipient_invalid'' w1
      | (None, w1) \<Rightarrow>
     (case rn_Send env account delivery messageText w1 of
        (Some err, w2) \<Rightarrow> handleDeliveryError env delivery (rn_now env) err ''send_failed'' w2
      | (None, w2) \<Rightarrow>
          store_result (rn_Complete env (result_of delivery DeliverySent (rn_now env) '''') w2)))"

definition runner_RunOnce :: "'w runner_env \<Rightarrow> 'w \<Rightarrow> runner_error option \<times> 'w" where
  "runner_RunOnce env w =
     (case rn_Claim env (rn_now env) Minute w of
        (Inl e, w1) \<Rightarrow> (Some (RunnerStore e), w1)
      | (Inr None, w1) \<Rightarrow> (None, w1)
      | (Inr (Some delivery), w1) \<Rightarrow>
     (case runner_task env (dlv_TaskID delivery) w1 of
        Inl e \<Rightarrow> (Some e, w1)
      | Inr task \<Rightarrow>
     (case assignedAccount env (dlv_AccountID delivery) (rn_now env) w1 of
        (Assigned account, w2) \<Rightarrow> deliver env delivery (task_MessageText task) account w2
      | (InFloodWait until, w2) \<Rightarrow>
          store_result (rn_Delay env (dlv_ID delivery) (dlv_LeaseToken delivery)
            ''assigned_account_unavailable'' until w2)
      | (Unavailable, w2) \<Rightarrow> delay env delivery (rn_now env) ''assigned_account_unavailable'' None w2)))"

text \<open>The delivery whose message the round sent without an error, if any.\<close>

definition round_sent :: "'w runner_env \<Rightarrow> 'w \<Rightarrow> ScheduledDMDelivery option" where
  "round_sent env w =
     (case rn_Claim env (rn_now env) Minute w of
        (Inr (Some delivery), w1) \<Rightarrow>
          (case runner_task env (dlv_TaskID delivery) w1 of
             Inl e \<Rightarrow> None
           | Inr task \<Rightarrow>
               (case assignedAccount env (dlv_AccountID delivery) (rn_now env) w1 of
                  (Assigned account, w2) \<Rightarrow>
                    (case rn_Resolve env account (dlv_Recipient delivery) w2 of
                       (None, w3) \<Rightarrow>
                         if fst (rn_Send env account delivery (task_MessageText task) w3) = None
                         then Some delivery else None
                     | _ \<Rightarrow> None)
                | _ \<Rightarrow> None))
      | _ \<Rightarrow> None)"

fun run_rounds :: "'w runner_env list \<Rightarrow> 'w \<Rightarrow> 'w" where
  "run_rounds [] w = w"
| "run_rounds (env # envs) w = run_rounds envs (snd (runner_RunOnce env w))"

fun sent_ids :: "'w runner_env list \<Rightarrow> 'w \<Rightarrow> ID list" where
  "sent_ids [] w = []"
| "sent_ids (env # envs) w =
     (let rest = sent_ids envs (snd (runner_RunOnce env w)) in
      case round_sent env w of None \<Rightarrow> rest | Some delivery \<Rightarrow> dlv_ID delivery # rest)"

section \<open>What the collaborators promise\<close>

text \<open>
  \<open>I\<close> is the invariant of the state, \<open>finished i\<close> says that the delivery \<open>i\<close> has its end,
  \<open>owns i tok\<close> that the caller with this token holds it. A claim hands out a delivery without
  an end and with a token; other calls leave both alone; a result handed in by the holder is
  taken, and is the end.
\<close>

definition keeps_deliveries ::
  "('w \<Rightarrow> bool) \<Rightarrow> (ID \<Rightarrow> 'w \<Rightarrow> bool) \<Rightarrow> 'w \<Rightarrow> 'w \<Rightarrow> bool" where
  "keeps_deliveries I finished w w' \<longleftrightarrow> I w' \<and> (\<forall>i. finished i w \<longrightarrow> finished i w')"

lemma keeps_deliveries_trans:
  "keeps_deliveries I f a b \<Longrightarrow> keeps_deliveries I f b c \<Longrightarrow> keeps_deliveries I f a c"
  by (auto simp: keeps_deliveries_def)

lemma keeps_deliveries_refl: "I w \<Longrightarrow> keeps_deliveries I f w w"
  by (simp add: keeps_deliveries_def)

locale dm_collaborators =
  fixes env :: "'w runner_env"
    and I :: "'w \<Rightarrow> bool"
    and finished :: "ID \<Rightarrow> 'w \<Rightarrow> bool"
    and owns :: "ID \<Rightarrow> string \<Rightarrow> 'w \<Rightarrow> bool"
  assumes claim_keeps: "I w \<Longrightarrow> keeps_deliveries I finished w (snd (rn_Claim env now l w))"
    and claim_gives: "I w \<Longrightarrow> rn_Claim env now l w = (Inr (Some dlv), w') \<Longrightarrow>
          \<not> finished (dlv_ID dlv) w \<and> owns (dlv_ID dlv) (dlv_LeaseToken dlv) w'"
    and active_keeps: "I w \<Longrightarrow> keeps_deliveries I finished w (snd (rn_ListActive env w))"
    and active_owns: "I w \<Longrightarrow> owns i tok w \<Longrightarrow> owns i tok (snd (rn_ListActive env w))"
    and resolve_keeps: "I w \<Longrightarrow> keeps_deliveries I finished w (snd (rn_Resolve env a u w))"
    and resolve_owns: "I w \<Longrightarrow> owns i tok w \<Longrightarrow> owns i tok (snd (rn_Resolve env a u w))"
    and send_keeps: "I w \<Longrightarrow> keeps_deliveries I finished w (snd (rn_Send env a dlv msg w))"
    and send_owns: "I w \<Longrightarrow> owns i tok w \<Longrightarrow> owns i tok (snd (rn_Send env a dlv msg w))"
    and complete_keeps: "I w \<Longrightarrow> keeps_deliveries I finished w (snd (rn_Complete env res w))"
    and complete_ends: "I w \<Longrightarrow> owns (res_DeliveryID res) (res_LeaseToken res) w \<Longrightarrow>
          terminal (res_Status res) \<Longrightarrow>
          fst (rn_Complete env res w) = Inr () \<and>
          finished (res_DeliveryID res) (snd (rn_Complete env res w))"
    and delay_keeps: "I w \<Longrightarrow> keeps_deliveries I finished w (snd (rn_Delay env i tok reason at w))"
begin

lemma store_result_snd [simp]: "snd (store_result r) = snd r"
  by (simp add: store_result_def split: prod.split sum.split)

lemma error_keeps: "I w \<Longrightarrow> keeps_deliveries I finished w (snd (handleDeliveryError env dlv now err code w))"
  by (auto simp: handleDeliveryError_def delay_def Let_def intro: complete_keeps delay_keeps)

lemma deliver_keeps:
  assumes "I w"
  shows "keeps_deliveries I finished w (snd (deliver env dlv msg a w))"
proof -
  obtain r w1 where res: "rn_Resolve env a (dlv_Recipient dlv) w = (r, w1)" by fastforce
  with resolve_keeps [OF assms, of a "dlv_Recipient dlv"] have k1: "keeps_deliveries I finished w w1" by simp
  then have I1: "I w1" by (simp add: keeps_deliveries_def)
  obtain r2 w2 where snd2: "rn_Send env a dlv msg w1 = (r2, w2)" by fastforce
  with send_keeps [OF I1, of a dlv msg] have k2: "keeps_deliveries I finished w1 w2" by simp
  then have I2: "I w2" by (simp add: keeps_deliveries_def)
  show ?thesis
    unfolding deliver_def res snd2 prod.case
    by (cases r; cases r2)
       (auto intro: keeps_deliveries_trans [OF k1] keeps_deliveries_trans [OF k2] error_keeps [OF I1]
         error_keeps [OF I2] complete_keeps [OF I2])
qed

lemma assigned_step:
  assumes "I w" "assignedAccount env i now w = (a, w')"
  shows "keeps_deliveries I finished w w'" "owns j tok w \<Longrightarrow> owns j tok w'"
proof -
  have "w' = snd (rn_ListActive env w)"
    using assms(2) by (auto simp: assignedAccount_def split: prod.splits sum.splits option.splits)
  with active_keeps [OF assms(1)] active_owns [OF assms(1), of j tok]
  show "keeps_deliveries I finished w w'" "owns j tok w \<Longrightarrow> owns j tok w'" by simp_all
qed

lemma delay_step: "I w \<Longrightarrow> keeps_deliveries I finished w (snd (delay env dlv now reason retry w))"
  by (simp add: delay_def Let_def delay_keeps)

text \<open>A round keeps the invariant and every end.\<close>

lemma round_keeps:
  assumes "I w"
  shows "keeps_deliveries I finished w (snd (runner_RunOnce env w))"
proof -
  obtain c w1 where c: "rn_Claim env (rn_now env) Minute w = (c, w1)" by fastforce
  with claim_keeps [OF assms, of "rn_now env" Minute] have k: "keeps_deliveries I finished w w1" by simp
  then have I1: "I w1" by (simp add: keeps_deliveries_def)
  show ?thesis
  proof (cases c)
    case (Inl e)
    with c k show ?thesis by (simp add: runner_RunOnce_def)
  next
    case (Inr o1)
    show ?thesis
    proof (cases o1)
      case None
      with c k Inr show ?thesis by (simp add: runner_RunOnce_def)
    next
      case (Some dlv)
      obtain a w2 where a: "assignedAccount env (dlv_AccountID dlv) (rn_now env) w1 = (a, w2)" by fastforce
      note k2 = keeps_deliveries_trans [OF k assigned_step(1) [OF I1 a]]
      then have I2: "I w2" by (simp add: keeps_deliveries_def)
      show ?thesis
      proof (cases "runner_task env (dlv_TaskID dlv) w1")
        case (Inl e)
        with c k Inr Some show ?thesis by (simp add: runner_RunOnce_def)
      next
        case (Inr task)
        then have "runner_RunOnce env w =
            (case a of
               Assigned account \<Rightarrow> deliver env dlv (task_MessageText task) account w2
             | InFloodWait until \<Rightarrow> store_result (rn_Delay env (dlv_ID dlv) (dlv_LeaseToken dlv)
                 ''assigned_account_unavailable'' until w2)
             | Unavailable \<Rightarrow> delay env dlv (rn_now env) ''assigned_account_unavailable'' None w2)"
          using c \<open>c = Inr o1\<close> Some a by (simp add: runner_RunOnce_def split: assigned.split)
        then show ?thesis
          by (cases a)
             (auto intro: keeps_deliveries_trans [OF k2] deliver_keeps [OF I2] delay_keeps [OF I2]
               delay_step [OF I2])
      qed
    qed
  qed
qed

text \<open>A delivery whose message went out had no end before the round and has one after it.\<close>

lemma round_sent_step:
  assumes "I w" "round_sent env w = Some dlv"
  shows "\<not> finished (dlv_ID dlv) w \<and> finished (dlv_ID dlv) (snd (runner_RunOnce env w)) \<and>
         fst (runner_RunOnce env w) = None"
proof -
  obtain w1 task a w2 w3 w4 where
    c: "rn_Claim env (rn_now env) Minute w = (Inr (Some dlv), w1)"
    and t: "runner_task env (dlv_TaskID dlv) w1 = Inr task"
    and a: "assignedAccount env (dlv_AccountID dlv) (rn_now env) w1 = (Assigned a, w2)"
    and r: "rn_Resolve env a (dlv_Recipient dlv) w2 = (None, w3)"
    and s: "rn_Send env a dlv (task_MessageText task) w3 = (None, w4)"
    using assms(2) unfolding round_sent_def
    by (auto split: prod.splits sum.splits option.splits assigned.splits if_splits) (metis prod.collapse)
  note k = claim_keeps [OF assms(1), of "rn_now env" Minute, unfolded c snd_conv]
  note g = claim_gives [OF assms(1) c]
  have I1: "I w1" using k by (simp add: keeps_deliveries_def)
  have I2: "I w2" using assigned_step(1) [OF I1 a] by (simp add: keeps_deliveries_def)
  have I3: "I w3" using resolve_keeps [OF I2, of a "dlv_Recipient dlv"] r by (simp add: keeps_deliveries_def)
  have I4: "I w4" using send_keeps [OF I3, of a dlv "task_MessageText task"] s by (simp add: keeps_deliveries_def)
  have o2: "owns (dlv_ID dlv) (dlv_LeaseToken dlv) w2" using assigned_step(2) [OF I1 a] g by blast
  have o3: "owns (dlv_ID dlv) (dlv_LeaseToken dlv) w3"
    using resolve_owns [OF I2 o2, of a "dlv_Recipient dlv"] r by simp
  have o4: "owns (dlv_ID dlv) (dlv_LeaseToken dlv) w4"
    using send_owns [OF I3 o3, of a dlv "task_MessageText task"] s by simp
  let ?res = "result_of dlv DeliverySent (rn_now env) ''''"
  have "runner_RunOnce env w = store_result (rn_Complete env ?res w4)"
    by (simp add: runner_RunOnce_def c t a deliver_def r s)
  with complete_ends [OF I4, of ?res] o4 g show ?thesis
    by (cases "rn_Complete env ?res w4") (simp add: store_result_def result_of_def terminal_def)
qed

end

text \<open>
  No delivery's message is sent twice: over any rounds, the deliveries whose messages went
  out are different.
\<close>

lemma sent_ids_new:
  assumes "\<forall>env \<in> set envs. dm_collaborators env I finished owns" "I w"
  shows "distinct (sent_ids envs w) \<and> (\<forall>i \<in> set (sent_ids envs w). \<not> finished i w)"
  using assms
proof (induction envs arbitrary: w)
  case (Cons env envs)
  then have env: "dm_collaborators env I finished owns" by simp
  let ?w = "snd (runner_RunOnce env w)"
  note k = dm_collaborators.round_keeps [OF env Cons.prems(2)]
  then have IH: "distinct (sent_ids envs ?w)" "\<forall>i \<in> set (sent_ids envs ?w). \<not> finished i ?w"
    using Cons.IH [of ?w] Cons.prems(1) by (auto simp: keeps_deliveries_def)
  have old: "\<not> finished i ?w \<Longrightarrow> \<not> finished i w" for i using k by (auto simp: keeps_deliveries_def)
  show ?case
  proof (cases "round_sent env w")
    case None
    with IH old show ?thesis by (auto simp: Let_def)
  next
    case (Some dlv)
    with dm_collaborators.round_sent_step [OF env Cons.prems(2) Some] IH old show ?thesis
      by (auto simp: Let_def)
  qed
qed simp

section \<open>The collaborators in the application\<close>

text \<open>
  The two halves of the state: the tables of the scheduled messages and the world of the
  adapter. \<open>clock\<close> is the account repository's \<^verbatim>\<open>now()\<close>, \<open>randoms\<close> and \<open>token\<close> are
  what the claim draws, \<open>asked\<close> and \<open>sending\<close> what the adapter's two requests find.
\<close>

record 'n dm_world =
  dw_dm :: dm_db
  dw_ob :: "(db, 'n) ob_world"

definition dm_op :: "(dm_db, 'e, 'a) op \<Rightarrow> 'n dm_world \<Rightarrow> ('e + 'a) \<times> 'n dm_world" where
  "dm_op m w = (case m (dw_dm w) of (r, d) \<Rightarrow> (r, w\<lparr>dw_dm := d\<rparr>))"

definition ob_op :: "((db, 'n) ob_world \<Rightarrow> 'r \<times> (db, 'n) ob_world) \<Rightarrow> 'n dm_world \<Rightarrow> 'r \<times> 'n dm_world" where
  "ob_op m w = (case m (dw_ob w) of (r, o1) \<Rightarrow> (r, w\<lparr>dw_ob := o1\<rparr>))"

definition account_op :: "(db, 'e, 'a) op \<Rightarrow> (db, 'n) ob_world \<Rightarrow> ('e + 'a) \<times> (db, 'n) ob_world" where
  "account_op m o1 = (case m (ow_store o1) of (r, d) \<Rightarrow> (r, o1\<lparr>ow_store := d\<rparr>))"

definition sqlite_runner ::
  "time \<Rightarrow> time \<Rightarrow> (nat \<Rightarrow> int) \<Rightarrow> string \<Rightarrow> ob_config \<Rightarrow>
     (api_call \<Rightarrow> 'n \<Rightarrow> go_error option \<times> 'n) \<Rightarrow> ob_env \<Rightarrow> ob_env \<Rightarrow> 'n dm_world runner_env" where
  "sqlite_runner now clock randoms token cfg api asked sending =
     \<lparr>rn_now = now,
      rn_Claim = (\<lambda>t l. dm_op (ClaimDueDelivery t l randoms token)),
      rn_Tasks = (\<lambda>w. ListTasks (dw_dm w)),
      rn_ListActive = ob_op (account_op (listActiveAccounts clock)),
      rn_List = (\<lambda>w. listAccounts (ow_store (dw_ob w))),
      rn_Resolve = (\<lambda>a u. ob_op (ob_request_exec cfg sqlite_accounts api (ReqResolve a u asked))),
      rn_Send = (\<lambda>a dlv msg. ob_op (ob_request_exec cfg sqlite_accounts api
                    (ReqScheduled a dlv msg sending))),
      rn_Complete = (\<lambda>res. dm_op (CompleteDelivery clock res)),
      rn_Delay = (\<lambda>i tok reason at. dm_op (DelayDelivery i tok reason at))\<rparr>"

subsection \<open>Runs that fit their tasks\<close>

text \<open>
  The number of a run that is not completed is within its task's limit. Saving a task again
  with a lower limit breaks this, and nothing else does.
\<close>

definition runs_fit :: "dm_db \<Rightarrow> bool" where
  "runs_fit d \<longleftrightarrow>
     (\<forall>n \<in> set (dm_runs d). (\<exists>t. nr_scheduled_at n = formatTime t) \<and>
        (nr_completed_at n = None \<longrightarrow>
           (\<forall>t \<in> set (dm_tasks d). tr_id t = nr_task_id n \<longrightarrow> nr_run_number n \<le> tr_max_runs t))) \<and>
     (\<forall>r \<in> set (dm_deliveries d). dr_id r \<noteq> '''')"

definition dm_ready :: "dm_db \<Rightarrow> bool" where
  "dm_ready d \<longleftrightarrow> dm_inv d \<and> runs_fit d"

definition dm_finished :: "ID \<Rightarrow> dm_db \<Rightarrow> bool" where
  "dm_finished i d \<longleftrightarrow> (case the_delivery d i of None \<Rightarrow> False | Some r \<Rightarrow> terminal (dr_status r))"

definition dm_owns :: "ID \<Rightarrow> string \<Rightarrow> dm_db \<Rightarrow> bool" where
  "dm_owns i tok d \<longleftrightarrow> tok \<noteq> '''' \<and>
     (case the_delivery d i of None \<Rightarrow> False | Some r \<Rightarrow> owned i tok r)"

lemma dm_keeps_finished: "dm_keeps d d' \<Longrightarrow> dm_finished i d \<Longrightarrow> dm_finished i d'"
  unfolding dm_keeps_def dm_finished_def delivery_evolves_def
  by (auto split: option.splits) fastforce

lemma the_delivery_unique:
  assumes "dm_inv d" "r \<in> set (dm_deliveries d)"
  shows "the_delivery d (dr_id r) = Some r"
  using assms sql_select_key [of dr_id "dm_deliveries d" r] unfolding dm_inv_def deliveries_ok_def by blast

subsection \<open>Claims\<close>

lemma materializeDueRun_fit:
  assumes ready: "dm_ready d" and m: "materializeDueRun now randoms d = (Inr x, d')"
  shows "runs_fit d'"
proof -
  have "materializeDueRun now randoms d = (Inr (), d')" using m by simp
  from materializeDueRun_ok [OF this] consider "d' = d"
    | t run ds where "t \<in> set (dm_tasks d)" "run_due d (formatTime now) t"
      "d' = d\<lparr>dm_runs := dm_runs d @ [run], dm_deliveries := dm_deliveries d @ ds\<rparr>"
      "nr_task_id run = tr_id t" "nr_run_number run = tr_completed_runs t + 1"
      "\<forall>r \<in> set ds. dr_task_id r = tr_id t \<and> dr_id r \<noteq> ''''" "\<exists>s. nr_scheduled_at run = formatTime s"
    by blast
  then show ?thesis
  proof cases
    case 1
    with ready show ?thesis by (simp add: dm_ready_def)
  next
    case (2 t run ds)
    have one: "u = t" if "u \<in> set (dm_tasks d)" "tr_id u = tr_id t" for u
      using ready that 2(1) unfolding dm_ready_def dm_inv_def distinct_map inj_on_def by blast
    have "tr_completed_runs t + 1 \<le> tr_max_runs t" using 2(2) by (simp add: run_due_def)
    then have "\<forall>u \<in> set (dm_tasks d). tr_id u = nr_task_id run \<longrightarrow> nr_run_number run \<le> tr_max_runs u"
      using one 2(4,5) by auto
    with 2(3,6,7) ready show ?thesis by (auto simp: runs_fit_def dm_ready_def)
  qed
qed

lemma runs_fit_update_deliveries:
  assumes "runs_fit d" "dm_runs d' = dm_runs d" "dm_tasks d' = dm_tasks d"
    and "map dr_id (dm_deliveries d') = map dr_id (dm_deliveries d)"
  shows "runs_fit d'"
proof -
  have "dr_id ` set (dm_deliveries d') = dr_id ` set (dm_deliveries d)"
    using assms(4) by (metis list.set_map)
  moreover have "(\<forall>r \<in> set (dm_deliveries d). dr_id r \<noteq> '''') \<longleftrightarrow> '''' \<notin> dr_id ` set (dm_deliveries d)"
    for d :: dm_db by (metis (no_types, lifting) image_iff)
  ultimately show ?thesis using assms(1-3) by (simp add: runs_fit_def)
qed

lemma scan_delivery_fields:
  "scanScheduledDMDelivery d r = Inr dlv \<Longrightarrow> dlv_ID dlv = dr_id r \<and> dlv_LeaseToken dlv = dr_lease_token r"
  by (auto simp: scanScheduledDMDelivery_def split: option.splits sum.splits)

lemma claim_tx_gives:
  assumes ready: "dm_ready d" and c: "claim_tx now l randoms token d = (Inr res, d')"
  shows "dm_ready d'"
    and "res = Some dlv \<Longrightarrow> token \<noteq> '''' \<Longrightarrow>
      \<not> dm_finished (dlv_ID dlv) d \<and> dm_owns (dlv_ID dlv) (dlv_LeaseToken dlv) d'"
proof -
  have inv: "dm_inv d" using ready by (simp add: dm_ready_def)
  have "dm_ready d' \<and> (res = Some dlv \<longrightarrow> token \<noteq> '''' \<longrightarrow>
      \<not> dm_finished (dlv_ID dlv) d \<and> dm_owns (dlv_ID dlv) (dlv_LeaseToken dlv) d')"
    using c
  proof (cases rule: claim_tx_ok)
    case (1 d1)
    with materializeDueRun_fit [OF ready 1(1)] claim_tx_step [OF inv c] show ?thesis
      by (simp add: dm_ready_def)
  next
    case (2 d1 r r' dlv')
    let ?p = "\<lambda>x. dr_id x = dr_id r \<and> claimable (formatTime now) x"
    have inv1: "dm_inv d1" using materializeDueRun_inv [OF inv 2(1)] .
    have claim: "claimable (formatTime now) r" using 2(3) by (simp add: delivery_due_def)
    have "runs_fit d'"
      by (rule runs_fit_update_deliveries [OF materializeDueRun_fit [OF ready 2(1)]])
         (simp_all add: 2(5) map_key_sql_update claim_row_def)
    moreover have "dm_inv d'" using claim_tx_step [OF inv c] by blast
    moreover have "r' = claim_row now l token r"
    proof -
      have "the_delivery d' (dr_id r) = map_option (\<lambda>r. if ?p r then claim_row now l token r else r)
          (the_delivery d1 (dr_id r))"
        by (simp add: 2(5) sql_select_update claim_row_def)
      with the_delivery_unique [OF inv1 2(2)] 2(6) claim show ?thesis by simp
    qed
    moreover have "\<not> dm_finished (dr_id r) d"
    proof
      assume "dm_finished (dr_id r) d"
      then have "dm_finished (dr_id r) d1"
        using dm_keeps_finished materializeDueRun_keeps [OF 2(1)] by blast
      with the_delivery_unique [OF inv1 2(2)] claimable_not_terminal [OF claim] show False
        by (simp add: dm_finished_def)
    qed
    ultimately show ?thesis
      using 2(6-8) scan_delivery_fields [OF 2(7)]
      by (auto simp: dm_ready_def dm_owns_def owned_def claim_row_def)
  qed
  then show "dm_ready d'" "res = Some dlv \<Longrightarrow> token \<noteq> '''' \<Longrightarrow>
      \<not> dm_finished (dlv_ID dlv) d \<and> dm_owns (dlv_ID dlv) (dlv_LeaseToken dlv) d'" by blast+
qed

lemma ClaimDueDelivery_ok:
  assumes "ClaimDueDelivery now l randoms token d = (Inr res, d')"
  shows "claim_tx now l randoms token d = (Inr res, d')"
  using assms by (auto simp: ClaimDueDelivery_def in_tx_def split: if_splits prod.splits sum.splits)

lemma ClaimDueDelivery_fail:
  assumes "ClaimDueDelivery now l randoms token d = (Inl e, d')"
  shows "d' = d"
  using assms by (auto simp: ClaimDueDelivery_def in_tx_def split: if_splits prod.splits sum.splits)

lemma ClaimDueDelivery_ready:
  assumes "dm_ready d"
  shows "dm_ready (snd (ClaimDueDelivery now l randoms token d))"
proof -
  obtain r d' where c: "ClaimDueDelivery now l randoms token d = (r, d')" by fastforce
  show ?thesis
  proof (cases r)
    case (Inl e)
    with ClaimDueDelivery_fail [of now l randoms token d e d'] c assms show ?thesis by simp
  next
    case (Inr res)
    with claim_tx_gives(1) [OF assms ClaimDueDelivery_ok [of now l randoms token d res d']] c
    show ?thesis by simp
  qed
qed

subsection \<open>Results\<close>

lemma completeRun_succeeds:
  assumes "dm_ready d2" "dm_runs d = dm_runs d2" "dm_tasks d = dm_tasks d2"
  shows "\<exists>d'. completeRun i at d = (Inr (), d')"
proof (cases "sql_select (\<lambda>r. nr_id r = i \<and> nr_completed_at r = None) (dm_runs d)")
  case None
  then show ?thesis by (simp add: completeRun_def)
next
  case (Some run)
  note run = Some sql_select_SomeD [OF Some]
  show ?thesis
  proof (cases "the_task d (nr_task_id run)")
    case None
    with run show ?thesis by (simp add: completeRun_def)
  next
    case (Some task)
    have task: "task \<in> set (dm_tasks d2)" using sql_select_SomeD [OF Some] assms(3) by simp
    obtain dur where dur: "RecurrenceDuration (tr_recurrence task) = Some dur"
      using assms(1) task by (auto simp: dm_ready_def dm_inv_def task_ok_def)
    obtain at' where at': "parseTime (nr_scheduled_at run) = Some at'"
      using assms(1,2) run(2) by (auto simp: dm_ready_def runs_fit_def parse_format)
    have "\<forall>t \<in> set (dm_tasks d). \<not> (tr_id t = nr_task_id run \<and> tr_max_runs t < nr_run_number run)"
      using assms run(2) by (fastforce simp: dm_ready_def runs_fit_def)
    then have "sql_affected (\<lambda>t. tr_id t = nr_task_id run \<and> tr_max_runs t < nr_run_number run) (dm_tasks d) = 0"
      by (simp add: sql_affected_0_iff)
    with run Some dur at' show ?thesis by (simp add: completeRun_def Let_def)
  qed
qed

lemma completeRun_fit:
  assumes fit: "runs_fit d" and c: "completeRun i at d = (Inr x, d')"
  shows "runs_fit d'"
proof -
  have dr: "dm_runs d' = dm_runs d \<or> dm_runs d' = sql_update (\<lambda>r. nr_id r = i)
      (\<lambda>r. r\<lparr>nr_completed_at := Some (formatTime at)\<rparr>) (dm_runs d)"
    using c by (auto simp: completeRun_def Let_def split: option.splits if_splits)
  have runs: "\<exists>n0 \<in> set (dm_runs d). nr_scheduled_at n = nr_scheduled_at n0 \<and> nr_task_id n = nr_task_id n0 \<and>
      nr_run_number n = nr_run_number n0 \<and> (nr_completed_at n = None \<longrightarrow> nr_completed_at n0 = None)"
    if "n \<in> set (dm_runs d')" for n
    using dr
  proof
    assume "dm_runs d' = dm_runs d"
    with that show ?thesis by auto
  next
    assume upd: "dm_runs d' = sql_update (\<lambda>r. nr_id r = i)
      (\<lambda>r. r\<lparr>nr_completed_at := Some (formatTime at)\<rparr>) (dm_runs d)"
    from that [unfolded upd] show ?thesis by (elim sql_update_memE) (auto intro: bexI)
  qed
  have "map (\<lambda>t. (tr_id t, tr_max_runs t)) (dm_tasks d') = map (\<lambda>t. (tr_id t, tr_max_runs t)) (dm_tasks d)"
    using c by (auto simp: completeRun_def Let_def map_key_sql_update split: option.splits if_splits)
  then have im: "(\<lambda>t. (tr_id t, tr_max_runs t)) ` set (dm_tasks d') = (\<lambda>t. (tr_id t, tr_max_runs t)) ` set (dm_tasks d)"
    by (metis list.set_map)
  have tasks: "\<exists>t0 \<in> set (dm_tasks d). tr_id t = tr_id t0 \<and> tr_max_runs t = tr_max_runs t0"
    if "t \<in> set (dm_tasks d')" for t
  proof -
    have "(tr_id t, tr_max_runs t) \<in> (\<lambda>t. (tr_id t, tr_max_runs t)) ` set (dm_tasks d)"
      using imageI [OF that, of "\<lambda>t. (tr_id t, tr_max_runs t)"] im by simp
    then show ?thesis by auto
  qed
  have dels: "dm_deliveries d' = dm_deliveries d" using completeRun_deliveries [of i at d] c by simp
  show ?thesis
    unfolding runs_fit_def dels
  proof (intro conjI ballI impI)
    fix n assume "n \<in> set (dm_runs d')"
    with runs fit show "\<exists>t. nr_scheduled_at n = formatTime t" unfolding runs_fit_def by metis
  next
    fix n t assume "n \<in> set (dm_runs d')" "nr_completed_at n = None" "t \<in> set (dm_tasks d')"
      "tr_id t = nr_task_id n"
    with runs [of n] tasks [of t] fit show "nr_run_number n \<le> tr_max_runs t"
      unfolding runs_fit_def by metis
  next
    fix r assume "r \<in> set (dm_deliveries d)"
    with fit show "dr_id r \<noteq> ''''" by (simp add: runs_fit_def)
  qed
qed

lemma CompleteDelivery_ready:
  assumes ready: "dm_ready d"
  shows "dm_ready (snd (CompleteDelivery now result d))"
proof -
  have "dm_ready d'" if c: "complete_tx result at d = (Inr x, d')" for at x d'
    using c
  proof (cases rule: owned_finish_ok)
    case (1 r d1)
    have fit: "runs_fit d2" if "dm_tasks d2 = dm_tasks d" "dm_runs d2 = dm_runs d"
        "dm_deliveries d2 = dm_deliveries d1" for d2
      by (rule runs_fit_update_deliveries [of d])
         (use ready that in \<open>simp_all add: dm_ready_def 1(1) map_key_sql_update finish_row_def\<close>)
    have "runs_fit d'" using 1(4,5) fit completeRun_fit by metis
    with complete_tx_step [OF _ c] ready show ?thesis by (simp add: dm_ready_def)
  qed
  then have "dm_ready (snd (in_tx (complete_tx result at) d))" for at
    by (simp add: in_tx_def split: prod.split sum.split) (use ready in auto)
  with ready show ?thesis by (simp add: CompleteDelivery_def)
qed

text \<open>In a state whose runs fit their tasks the holder's result is always taken.\<close>

lemma CompleteDelivery_ends:
  assumes ready: "dm_ready d" and own: "dm_owns (res_DeliveryID result) (res_LeaseToken result) d"
    and fin: "terminal (res_Status result)"
  shows "fst (CompleteDelivery now result d) = Inr () \<and>
         dm_finished (res_DeliveryID result) (snd (CompleteDelivery now result d))"
proof -
  let ?i = "res_DeliveryID result" and ?tok = "res_LeaseToken result"
  let ?at = "if IsZero (res_CompletedAt result) then now else res_CompletedAt result"
  let ?p = "owned ?i ?tok"
  obtain r where r: "the_delivery d ?i = Some r" "?p r" and tok: "?tok \<noteq> ''''"
    using own by (auto simp: dm_owns_def split: option.splits)
  have inv: "dm_inv d" using ready by (simp add: dm_ready_def)
  have rin: "r \<in> set (dm_deliveries d)" "dr_id r = ?i" using sql_select_SomeD [OF r(1)] by auto
  then have nonempty: "?i \<noteq> ''''" using ready by (auto simp: dm_ready_def runs_fit_def)
  have one: "sql_affected ?p (dm_deliveries d) = 1"
  proof -
    have "distinct (map dr_id (dm_deliveries d))" using inv by (simp add: dm_inv_def deliveries_ok_def)
    then have "sql_affected ?p (dm_deliveries d) \<le> 1"
      by (rule sql_affected_key_le_1 [where k = ?i]) (simp add: owned_def)
    moreover have "sql_affected ?p (dm_deliveries d) \<noteq> 0"
      unfolding sql_affected_0_iff using rin(1) r(2) by blast
    ultimately show ?thesis by simp
  qed
  let ?d1 = "d\<lparr>dm_deliveries := sql_update ?p (finish_row result ?at) (dm_deliveries d)\<rparr>"
  let ?r' = "finish_row result ?at r"
  have r': "the_delivery ?d1 ?i = Some ?r'"
    using r by (simp add: sql_select_update finish_row_def)
  define d2 where "d2 = ?d1\<lparr>dm_recipients := sql_update
      (\<lambda>x. rr_task_id x = dr_task_id ?r' \<and> rr_username x = dr_recipient ?r')
      (\<lambda>x. x\<lparr>rr_peer_status := recipient_status result, rr_last_error := res_ErrorCode result\<rparr>)
      (dm_recipients ?d1)\<rparr>"
  have d2: "dm_runs d2 = dm_runs d" "dm_tasks d2 = dm_tasks d" "dm_deliveries d2 = dm_deliveries ?d1"
    by (simp_all add: d2_def)
  have tx: "complete_tx result ?at d =
      (if sql_affected (\<lambda>x. dr_run_id x = dr_run_id ?r' \<and> \<not> terminal (dr_status x)) (dm_deliveries d2) = 0
       then completeRun (dr_run_id ?r') ?at d2 else (Inr (), d2))"
    unfolding complete_tx_def Let_def d2_def using one r' by simp
  obtain d3 where d3: "complete_tx result ?at d = (Inr (), d3)" "dm_deliveries d3 = dm_deliveries ?d1"
  proof -
    obtain d3 where c: "completeRun (dr_run_id ?r') ?at d2 = (Inr (), d3)"
      using completeRun_succeeds [OF ready d2(1,2)] by blast
    then have "dm_deliveries d3 = dm_deliveries ?d1"
      using completeRun_deliveries [of "dr_run_id ?r'" ?at d2] d2(3) by simp
    with c tx d2(3) that show thesis by (simp split: if_splits)
  qed
  have "CompleteDelivery now result d = (Inr (), d3)"
    using nonempty tok fin d3(1) by (simp add: CompleteDelivery_def in_tx_def)
  moreover have "dm_finished ?i d3"
    using r' fin by (simp add: dm_finished_def d3(2) finish_row_def)
  ultimately show ?thesis by simp
qed

lemma DelayDelivery_ready:
  assumes "dm_ready d"
  shows "dm_ready (snd (DelayDelivery i tok reason at d))"
proof -
  have "runs_fit (snd (DelayDelivery i tok reason at d))"
    by (rule runs_fit_update_deliveries [of d])
       (use assms in \<open>simp_all add: dm_ready_def DelayDelivery_def map_key_sql_update\<close>)
  with DelayDelivery_step [of d i tok reason at] assms show ?thesis by (simp add: dm_ready_def)
qed

lemma dm_op_dw [simp]: "dw_dm (snd (dm_op m w)) = snd (m (dw_dm w))" "fst (dm_op m w) = fst (m (dw_dm w))"
  by (simp_all add: dm_op_def split: prod.split)

lemma ob_op_dw [simp]: "dw_dm (snd (ob_op m w)) = dw_dm w"
  by (simp add: ob_op_def split: prod.split)

abbreviation world_ready :: "'n dm_world \<Rightarrow> bool" where
  "world_ready w \<equiv> dm_ready (dw_dm w)"

lemma dm_op_keeps:
  assumes "world_ready w" "dm_ready (snd (m (dw_dm w)))" "dm_keeps (dw_dm w) (snd (m (dw_dm w)))"
  shows "keeps_deliveries world_ready (\<lambda>i w. dm_finished i (dw_dm w)) w (snd (dm_op m w))"
  using assms dm_keeps_finished by (auto simp: keeps_deliveries_def)

lemma dm_ready_inv: "dm_ready d \<Longrightarrow> dm_inv d"
  by (simp add: dm_ready_def)

lemma sqlite_runner_collaborators:
  assumes tok: "token \<noteq> ''''"
  shows "dm_collaborators (sqlite_runner now clock randoms token cfg api asked sending) world_ready
    (\<lambda>i w. dm_finished i (dw_dm w)) (\<lambda>i tok w. dm_owns i tok (dw_dm w))"
proof (unfold_locales, goal_cases)
  case (1 w t l)
  then show ?case
    using ClaimDueDelivery_ready ClaimDueDelivery_step [OF dm_ready_inv]
    by (simp add: sqlite_runner_def dm_op_keeps)
next
  case (2 w t l dlv w')
  then obtain d' where c: "ClaimDueDelivery t l randoms token (dw_dm w) = (Inr (Some dlv), d')" "dw_dm w' = d'"
    by (auto simp: sqlite_runner_def dm_op_def split: prod.splits)
  from claim_tx_gives(2) [OF 2(1) ClaimDueDelivery_ok [OF c(1)] refl tok] show ?case by (simp add: c(2))
next
  case (9 w res)
  then show ?case
    using CompleteDelivery_ready CompleteDelivery_step [OF dm_ready_inv]
    by (simp add: sqlite_runner_def dm_op_keeps)
next
  case (10 w res)
  from CompleteDelivery_ends [OF 10] show ?case by (simp add: sqlite_runner_def)
next
  case (11 w i tok' reason at)
  then show ?case
    using DelayDelivery_ready DelayDelivery_step [OF dm_ready_inv]
    by (simp add: sqlite_runner_def dm_op_keeps)
qed (simp_all add: sqlite_runner_def keeps_deliveries_def)

text \<open>A token is a random UUID, so it has a first character.\<close>

interpretation sqlite_dm: dm_collaborators
  "sqlite_runner now clock randoms (c # token) cfg api asked sending" world_ready
  "\<lambda>i w. dm_finished i (dw_dm w)" "\<lambda>i tok w. dm_owns i tok (dw_dm w)"
  by (rule sqlite_runner_collaborators) simp

end
