(* ===== verification/DmResave.thy ===== *)
theory DmResave
  imports DmRunner
begin

text \<open>
  Saving a scheduled task: what the service stores for a draft it accepts, and what happens to
  a task that already ran when it is saved again under its id. The count of its runs starts
  over while its old runs stay, so it never gets another run.
\<close>

section \<open>An accepted draft\<close>

lemma sort_key_numbered:
  assumes "map key ys = [k..<m]"
  shows "sort_key key ys = ys"
  by (rule sort_key_id_if_sorted) (simp add: assms)

lemma recipient_row_fields [simp]:
  "rr_task_id (recipient_row_of i p) = i" "rr_ordinal (recipient_row_of i p) = fst p"
  "rr_username (recipient_row_of i p) = rcp_Username (snd p)"
  by (simp_all add: recipient_row_of_def split_def)

lemma account_row_fields [simp]:
  "sr_task_id (account_row_of i p) = i" "sr_ordinal (account_row_of i p) = fst p"
  "sr_account_id (account_row_of i p) = snd p"
  by (simp_all add: account_row_of_def split_def)

lemma numbered_rows:
  "map rr_ordinal (map (recipient_row_of i) (enumerate 0 xs)) = [0..<length xs]"
  "map sr_ordinal (map (account_row_of i) (enumerate 0 as)) = [0..<length as]"
  "map sr_account_id (map (account_row_of i) (enumerate 0 as)) = as"
  by (simp_all add: comp_def)

lemma the_task_upsert:
  "sql_select (\<lambda>t. tr_id t = i) (upsert_task row ts) =
     (if tr_id row = i
      then Some (case sql_select (\<lambda>t. tr_id t = i) ts of None \<Rightarrow> row | Some t \<Rightarrow> row\<lparr>tr_created_at := tr_created_at t\<rparr>)
      else sql_select (\<lambda>t. tr_id t = i) ts)"
proof (cases "sql_exists (\<lambda>t. tr_id t = tr_id row) ts")
  case True
  then obtain t where t: "sql_select (\<lambda>t. tr_id t = tr_id row) ts = Some t"
    by (cases "sql_select (\<lambda>t. tr_id t = tr_id row) ts") (auto simp: sql_select_None_iff sql_exists_iff)
  have "sql_select (\<lambda>t. tr_id t = i) (upsert_task row ts) =
      map_option (\<lambda>t. if tr_id t = tr_id row then row\<lparr>tr_created_at := tr_created_at t\<rparr> else t)
        (sql_select (\<lambda>t. tr_id t = i) ts)"
    using True by (simp add: upsert_task_def sql_select_update)
  with t show ?thesis
    by (cases "sql_select (\<lambda>t. tr_id t = i) ts") (auto dest: sql_select_SomeD)
next
  case False
  then have none: "sql_select (\<lambda>t. tr_id t = tr_id row) ts = None"
    by (simp add: sql_exists_iff sql_select_None_iff)
  show ?thesis
  proof (cases "tr_id row = i")
    case True
    with none False show ?thesis by (auto simp: upsert_task_def sql_select_append)
  next
    case other: False
    with False show ?thesis
      by (auto simp: upsert_task_def sql_select_append split: option.split)
  qed
qed

lemma SaveTask_ok:
  assumes "SaveTask now task d = (Inr (), d')"
  obtains i where "RecurrenceDuration (task_Recurrence task) = Some i"
    "1 \<le> task_MaxRuns task" "task_MaxRuns task \<le> 12"
    "dm_tasks d' = upsert_task (task_row_of now i task) (dm_tasks d)"
    "recipient_rows (task_ID task) d' = map (recipient_row_of (task_ID task)) (enumerate 0 (task_Recipients task))"
    "listAccountIDs (task_ID task) d' = task_AccountIDs task"
proof -
  obtain i where i: "RecurrenceDuration (task_Recurrence task) = Some i" "1 \<le> task_MaxRuns task"
      "task_MaxRuns task \<le> 12"
    and d': "d' = d\<lparr>
       dm_tasks := upsert_task (task_row_of now i task) (dm_tasks d),
       dm_recipients := filter (\<lambda>r. rr_task_id r \<noteq> task_ID task) (dm_recipients d) @
         map (recipient_row_of (task_ID task)) (enumerate 0 (task_Recipients task)),
       dm_accounts := filter (\<lambda>r. sr_task_id r \<noteq> task_ID task) (dm_accounts d) @
         map (account_row_of (task_ID task)) (enumerate 0 (task_AccountIDs task))\<rparr>"
    using assms by (auto simp: SaveTask_def Let_def split: if_splits option.splits)
  have own: "filter (\<lambda>r. rr_task_id r = task_ID task) (dm_recipients d') =
      map (recipient_row_of (task_ID task)) (enumerate 0 (task_Recipients task))"
    by (simp add: d' filter_empty_conv)
  have own': "filter (\<lambda>r. sr_task_id r = task_ID task) (dm_accounts d') =
      map (account_row_of (task_ID task)) (enumerate 0 (task_AccountIDs task))"
    by (simp add: d' filter_empty_conv)
  have "recipient_rows (task_ID task) d' = map (recipient_row_of (task_ID task)) (enumerate 0 (task_Recipients task))"
    unfolding recipient_rows_def own by (rule sort_key_numbered [OF numbered_rows(1)])
  moreover have "listAccountIDs (task_ID task) d' = task_AccountIDs task"
    unfolding listAccountIDs_def own' sort_key_numbered [OF numbered_rows(2)] by (rule numbered_rows(3))
  ultimately show ?thesis using i by (intro that) (simp_all add: d')
qed

text \<open>The task stored for an accepted draft, as the database lists it.\<close>

definition stored_for :: "ScheduledDMDraft \<Rightarrow> ID \<Rightarrow> dm_db \<Rightarrow> bool" where
  "stored_for draft i d \<longleftrightarrow>
     (case the_task d i of
        None \<Rightarrow> False
      | Some t \<Rightarrow> tr_status t = DMPaused \<and> tr_completed_runs t = 0 \<and>
          tr_message_text t = TrimSpace (draft_MessageText draft) \<and>
          tr_max_runs t = draft_MaxRuns draft \<and>
          tr_next_run_at t = Some (formatTime (draft_StartAt draft))) \<and>
     map rr_username (recipient_rows i d) = map TrimSpace (draft_Recipients draft) \<and>
     listAccountIDs i d = draft_AccountIDs draft"

definition draft_ok :: "ScheduledDMDraft \<Rightarrow> time \<Rightarrow> bool" where
  "draft_ok draft now \<longleftrightarrow>
     1 \<le> draft_MaxRuns draft \<and> draft_MaxRuns draft \<le> 12 \<and>
     (draft_Recurrence draft = RecurrenceOnce \<longrightarrow> draft_MaxRuns draft = 1) \<and>
     now < draft_StartAt draft \<and> TrimSpace (draft_MessageText draft) \<noteq> '''' \<and>
     draft_Recipients draft \<noteq> [] \<and> length (draft_Recipients draft) \<le> 3 \<and>
     (\<forall>r \<in> set (draft_Recipients draft). TrimSpace r \<noteq> '''') \<and>
     draft_AccountIDs draft \<noteq> [] \<and> length (draft_AccountIDs draft) \<le> 3 \<and>
     distinct (draft_AccountIDs draft)"

lemma validate_draft_ok:
  assumes "validateScheduledDMDraft draft now = None" "1 \<le> draft_MaxRuns draft" "draft_MaxRuns draft \<le> 12"
  shows "draft_ok draft now"
  using assms
  by (auto simp: validateScheduledDMDraft_def draft_ok_def After_def list_ex_iff split: if_splits)

lemma validate_accounts_ok:
  assumes "validateAccounts listed ids = None"
  obtains accounts where "listed = Inr accounts"
    "\<forall>i \<in> set ids. \<exists>a \<in> set accounts. acc_ID a = i \<and> acc_Role a = AccountRoleSpammer \<and>
       isScheduledDMAccountUsable (acc_Status a)"
proof (cases listed)
  case (Inl e)
  with assms show ?thesis by (simp add: validateAccounts_def)
next
  case (Inr accounts)
  have "\<exists>a \<in> set accounts. acc_ID a = i \<and> acc_Role a = AccountRoleSpammer \<and>
      isScheduledDMAccountUsable (acc_Status a)" if "i \<in> set ids" for i
    using assms that Inr by (auto simp: validateAccounts_def Let_def list_all_iff image_iff split: if_splits)
  with Inr that show ?thesis by blast
qed

lemma draft_task_fields [simp]:
  "task_ID (draft_task i now draft) = i" "task_MaxRuns (draft_task i now draft) = draft_MaxRuns draft"
  "task_Recurrence (draft_task i now draft) = draft_Recurrence draft"
  "task_AccountIDs (draft_task i now draft) = draft_AccountIDs draft"
  "task_MessageText (draft_task i now draft) = TrimSpace (draft_MessageText draft)"
  "task_CompletedRuns (draft_task i now draft) = 0"
  "task_NextRunAt (draft_task i now draft) = Some (draft_StartAt draft)"
  "map rcp_Username (task_Recipients (draft_task i now draft)) = map TrimSpace (draft_Recipients draft)"
  by (simp_all add: draft_task_def split_def comp_def)
     (metis (no_types, lifting) comp_apply map_eq_conv map_map map_snd_enumerate)

lemma Save_ok:
  assumes "Save listed checked now uuid draft d = (Inr task, d')"
  shows "draft_ok draft checked \<and> stored_for draft (task_ID task) d' \<and>
    task_ID task = (if draft_ID draft = '''' then uuid else draft_ID draft) \<and> task_Status task = DMPaused \<and>
    (\<exists>accounts. listed = Inr accounts \<and>
       (\<forall>i \<in> set (draft_AccountIDs draft). \<exists>a \<in> set accounts. acc_ID a = i \<and>
          acc_Role a = AccountRoleSpammer \<and> isScheduledDMAccountUsable (acc_Status a)))"
proof -
  let ?i = "if draft_ID draft = '''' then uuid else draft_ID draft"
  have v: "validateScheduledDMDraft draft checked = None"
    and a: "validateAccounts listed (draft_AccountIDs draft) = None"
    and n: "NewScheduledDMTask (draft_task ?i now draft) = Inr task"
    using assms by (auto simp: Save_def split: option.splits sum.splits prod.splits)
  have s: "SaveTask now task d = (Inr (), d')"
    using assms v a n by (auto simp: Save_def split: sum.splits prod.splits)
  have task: "task = (draft_task ?i now draft)\<lparr>task_Status := DMPaused\<rparr>"
    and max: "1 \<le> draft_MaxRuns draft" "draft_MaxRuns draft \<le> 12"
    using n by (auto simp: NewScheduledDMTask_def split: if_splits option.splits)
  have stored: "stored_for draft (task_ID task) d'"
    using s
  proof (cases rule: SaveTask_ok)
    case (1 i)
    have "the_task d' ?i = Some (case the_task d ?i of None \<Rightarrow> task_row_of now i task
        | Some t \<Rightarrow> (task_row_of now i task)\<lparr>tr_created_at := tr_created_at t\<rparr>)"
      using 1(4) the_task_upsert [of ?i "task_row_of now i task" "dm_tasks d"]
      by (simp add: task_row_of_def task)
    moreover have "map rr_username (recipient_rows ?i d') = map TrimSpace (draft_Recipients draft)"
    proof -
      have "map rr_username (recipient_rows ?i d') = map (rcp_Username \<circ> snd) (enumerate 0 (task_Recipients task))"
        using 1(5) by (simp add: task comp_def)
      also have "\<dots> = map rcp_Username (task_Recipients task)"
        by (simp flip: map_map)
      finally show ?thesis by (simp add: task)
    qed
    moreover have "listAccountIDs ?i d' = draft_AccountIDs draft" using 1(6) by (simp add: task)
    ultimately show ?thesis
      by (auto simp: stored_for_def task task_row_of_def split: option.split)
  qed
  from a obtain accounts where "listed = Inr accounts"
    "\<forall>i \<in> set (draft_AccountIDs draft). \<exists>a \<in> set accounts. acc_ID a = i \<and> acc_Role a = AccountRoleSpammer \<and>
       isScheduledDMAccountUsable (acc_Status a)" by (rule validate_accounts_ok)
  with stored validate_draft_ok [OF v max] show ?thesis by (simp add: task)
qed

section \<open>A task saved again\<close>

text \<open>
  The state a task is in when it is saved again after its runs so far were all completed: the
  count says that no run was completed, and the first run is there.
\<close>

definition stranded :: "ID \<Rightarrow> dm_db \<Rightarrow> bool" where
  "stranded i d \<longleftrightarrow>
     (case the_task d i of None \<Rightarrow> False | Some t \<Rightarrow> tr_completed_runs t = 0) \<and>
     (\<exists>n \<in> set (dm_runs d). nr_task_id n = i \<and> nr_run_number n = 1) \<and>
     (\<forall>n \<in> set (dm_runs d). nr_task_id n = i \<longrightarrow> nr_completed_at n \<noteq> None) \<and>
     (\<forall>r \<in> set (dm_deliveries d). dr_task_id r = i \<longrightarrow> terminal (dr_status r))"

definition deliveries_of :: "ID \<Rightarrow> dm_db \<Rightarrow> dm_delivery_row list" where
  "deliveries_of i d = filter (\<lambda>r. dr_task_id r = i) (dm_deliveries d)"

definition stays_stranded :: "ID \<Rightarrow> dm_db \<Rightarrow> dm_db \<Rightarrow> bool" where
  "stays_stranded i d d' \<longleftrightarrow> stranded i d' \<and> deliveries_of i d' = deliveries_of i d"

lemma filter_sql_update:
  assumes "\<And>r. p r \<Longrightarrow> r \<in> set rows \<Longrightarrow> \<not> q r \<and> \<not> q (f r)"
  shows "filter q (sql_update p f rows) = filter q rows"
  using assms by (induction rows) auto

lemma stranded_cong:
  assumes "stranded i d" "deliveries_of i d' = deliveries_of i d"
    and "map_option tr_completed_runs (the_task d' i) = map_option tr_completed_runs (the_task d i)"
    and "\<And>n. n \<in> set (dm_runs d) \<Longrightarrow> nr_task_id n = i \<Longrightarrow>
           \<exists>n' \<in> set (dm_runs d'). nr_task_id n' = i \<and> nr_run_number n' = nr_run_number n"
    and "\<And>n. n \<in> set (dm_runs d') \<Longrightarrow> nr_task_id n = i \<Longrightarrow>
           nr_completed_at n \<noteq> None \<or> n \<in> set (dm_runs d)"
  shows "stays_stranded i d d'"
proof -
  have del: "r \<in> set (deliveries_of i d')" if "r \<in> set (dm_deliveries d')" "dr_task_id r = i" for r
    using that by (simp add: deliveries_of_def)
  have "\<forall>r \<in> set (dm_deliveries d'). dr_task_id r = i \<longrightarrow> terminal (dr_status r)"
    using assms(1) del unfolding assms(2) by (auto simp: stranded_def deliveries_of_def)
  moreover have "(case the_task d' i of None \<Rightarrow> False | Some t \<Rightarrow> tr_completed_runs t = 0)"
    using assms(1,3) by (auto simp: stranded_def split: option.splits)
  moreover have "\<exists>n \<in> set (dm_runs d'). nr_task_id n = i \<and> nr_run_number n = 1"
    using assms(1,4) unfolding stranded_def by metis
  moreover have "\<forall>n \<in> set (dm_runs d'). nr_task_id n = i \<longrightarrow> nr_completed_at n \<noteq> None"
    using assms(1,5) unfolding stranded_def by blast
  ultimately show ?thesis using assms(2) by (simp add: stays_stranded_def stranded_def)
qed

lemma stays_stranded_tasks:
  assumes "stranded i d" "dm_runs d' = dm_runs d" "dm_deliveries d' = dm_deliveries d"
    and "map_option tr_completed_runs (the_task d' i) = map_option tr_completed_runs (the_task d i)"
  shows "stays_stranded i d d'"
  using assms by (intro stranded_cong) (auto simp: deliveries_of_def)

lemma stays_stranded_deliveries:
  assumes "stranded i d" "dm_runs d' = dm_runs d" "dm_tasks d' = dm_tasks d"
    and "dm_deliveries d' = sql_update p f (dm_deliveries d)"
    and "\<And>r. p r \<Longrightarrow> \<not> terminal (dr_status r) \<and> dr_task_id (f r) = dr_task_id r"
  shows "stays_stranded i d d'"
proof -
  have "deliveries_of i d' = deliveries_of i d"
    unfolding deliveries_of_def assms(4)
    by (rule filter_sql_update) (use assms(1,5) in \<open>auto simp: stranded_def\<close>)
  with assms show ?thesis by (intro stranded_cong) auto
qed

lemma stays_stranded_trans:
  "stays_stranded i a b \<Longrightarrow> (stranded i b \<Longrightarrow> stays_stranded i b c) \<Longrightarrow> stays_stranded i a c"
  by (auto simp: stays_stranded_def)

lemma stays_stranded_refl: "stranded i d \<Longrightarrow> stays_stranded i d d"
  by (simp add: stays_stranded_def)

text \<open>Every operation but saving the task leaves it stranded.\<close>

lemma SaveTask_stranded:
  assumes "stranded i d" "task_ID task \<noteq> i"
  shows "stays_stranded i d (snd (SaveTask now task d))"
proof (cases rule: SaveTask_cases [of now task d])
  case 1
  with assms(1) show ?thesis by (simp add: stays_stranded_refl)
next
  case (2 k)
  have "the_task (snd (SaveTask now task d)) i = the_task d i"
    unfolding 2(6) the_task_upsert using assms(2) by (simp add: task_row_of_def)
  with assms(1) 2(7,8) show ?thesis by (intro stays_stranded_tasks) simp_all
qed

lemma the_task_update:
  assumes "\<And>t. tr_id (f t) = tr_id t \<and> tr_completed_runs (f t) = tr_completed_runs t"
  shows "map_option tr_completed_runs (sql_select (\<lambda>t. tr_id t = i) (sql_update p f ts)) =
         map_option tr_completed_runs (sql_select (\<lambda>t. tr_id t = i) ts)"
  using assms by (cases "sql_select (\<lambda>t. tr_id t = i) ts") (simp_all add: sql_select_update)

lemma SetTaskStatus_stranded:
  "stranded i d \<Longrightarrow> stays_stranded i d (snd (SetTaskStatus j status at d))"
  by (rule stays_stranded_tasks) (simp_all add: SetTaskStatus_def Let_def the_task_update)

lemma pauseActive_stranded: "stranded i d \<Longrightarrow> stays_stranded i d (pauseActiveScheduledDMTasks d)"
  by (rule stays_stranded_tasks) (simp_all add: pauseActiveScheduledDMTasks_def the_task_update)

lemma materializeDueRun_stranded:
  assumes inv: "dm_inv d" and st: "stranded i d" and m: "materializeDueRun now randoms d = (Inr x, d')"
  shows "stays_stranded i d d'"
proof -
  have "materializeDueRun now randoms d = (Inr (), d')" using m by simp
  from materializeDueRun_ok [OF this] consider "d' = d"
    | t run ds where "t \<in> set (dm_tasks d)" "run_due d (formatTime now) t"
      "d' = d\<lparr>dm_runs := dm_runs d @ [run], dm_deliveries := dm_deliveries d @ ds\<rparr>"
      "nr_task_id run = tr_id t" "\<forall>r \<in> set ds. dr_task_id r = tr_id t \<and> dr_id r \<noteq> ''''"
    by blast
  then show ?thesis
  proof cases
    case 1
    with st show ?thesis by (simp add: stays_stranded_refl)
  next
    case (2 t run ds)
    have other: "tr_id t \<noteq> i"
    proof
      assume "tr_id t = i"
      then have "the_task d i = Some t"
        using inv 2(1) sql_select_key [of tr_id "dm_tasks d" t] by (auto simp: dm_inv_def)
      with st obtain n where "n \<in> set (dm_runs d)" "nr_task_id n = i"
          "nr_run_number n = tr_completed_runs t + 1"
        by (auto simp: stranded_def)
      with 2(2) \<open>tr_id t = i\<close> show False by (auto simp: run_due_def sql_exists_iff)
    qed
    have "deliveries_of i d' = deliveries_of i d"
      using 2(3,5) other by (simp add: deliveries_of_def filter_empty_conv)
    with st 2(3,4) other show ?thesis by (intro stranded_cong) auto
  qed
qed

lemma claim_tx_stranded:
  assumes inv: "dm_inv d" and st: "stranded i d" and c: "claim_tx now l randoms token d = (Inr res, d')"
  shows "stays_stranded i d d'"
  using c
proof (cases rule: claim_tx_ok)
  case (1 d1)
  with materializeDueRun_stranded [OF inv st] show ?thesis by simp
next
  case (2 d1 r r' dlv)
  let ?p = "\<lambda>x. dr_id x = dr_id r \<and> claimable (formatTime now) x"
  have "stays_stranded i d1 d'" if "stranded i d1"
    by (rule stays_stranded_deliveries [OF that, where p = ?p and f = "claim_row now l token"])
       (auto simp: 2(5) claim_row_def dest: claimable_not_terminal)
  with materializeDueRun_stranded [OF inv st 2(1)] show ?thesis by (rule stays_stranded_trans)
qed

lemma ClaimDueDelivery_stranded:
  assumes "dm_inv d" "stranded i d"
  shows "stays_stranded i d (snd (ClaimDueDelivery now l randoms token d))"
proof -
  have "stays_stranded i d (snd (in_tx (claim_tx now l randoms token) d))"
    by (rule in_tx_keeps [where P = "stays_stranded i d"])
       (use assms claim_tx_stranded stays_stranded_refl in auto)
  then show ?thesis using assms by (simp add: ClaimDueDelivery_def stays_stranded_refl)
qed

lemma the_task_update_other:
  assumes "j \<noteq> i" "\<And>t. tr_id (f t) = tr_id t"
  shows "sql_select (\<lambda>t. tr_id t = i) (sql_update (\<lambda>t. tr_id t = j) f ts) = sql_select (\<lambda>t. tr_id t = i) ts"
  using assms
  by (cases "sql_select (\<lambda>t. tr_id t = i) ts") (auto simp: sql_select_update dest: sql_select_SomeD)

lemma completeRun_stranded:
  assumes st: "stranded i d" and c: "completeRun k at d = (Inr x, d')"
  shows "stays_stranded i d d'"
proof (cases "d' = d")
  case True
  with st show ?thesis by (simp add: stays_stranded_refl)
next
  case False
  let ?r = "\<lambda>r. r\<lparr>nr_completed_at := Some (formatTime at)\<rparr>"
  obtain run where run: "sql_select (\<lambda>r. nr_id r = k \<and> nr_completed_at r = None) (dm_runs d) = Some run"
    using c False by (auto simp: completeRun_def split: option.splits)
  have other: "nr_task_id run \<noteq> i" using st sql_select_SomeD [OF run] by (auto simp: stranded_def)
  have runs: "dm_runs d' = sql_update (\<lambda>r. nr_id r = k) ?r (dm_runs d)"
    and dels: "dm_deliveries d' = dm_deliveries d"
    using c run False by (auto simp: completeRun_def Let_def split: option.splits if_splits)
  have "the_task d' i = the_task d i"
    using c run other
    by (auto simp: completeRun_def Let_def the_task_update_other split: option.splits if_splits)
  moreover have "\<exists>n' \<in> set (dm_runs d'). nr_task_id n' = i \<and> nr_run_number n' = nr_run_number n"
    if "n \<in> set (dm_runs d)" "nr_task_id n = i" for n
    unfolding runs set_sql_update using that
    by (intro bexI [of _ "if nr_id n = k then ?r n else n"]) auto
  moreover have "nr_completed_at n \<noteq> None \<or> n \<in> set (dm_runs d)" if "n \<in> set (dm_runs d')" for n
    using that unfolding runs by (elim sql_update_memE) auto
  ultimately show ?thesis using st dels by (intro stranded_cong) (auto simp: deliveries_of_def)
qed

lemma CompleteDelivery_stranded:
  assumes st: "stranded i d"
  shows "stays_stranded i d (snd (CompleteDelivery now result d))"
proof -
  have "stays_stranded i d d'" if c: "complete_tx result at d = (Inr x, d')" for at x d'
    using c
  proof (cases rule: owned_finish_ok)
    case (1 r d1)
    let ?p = "owned (res_DeliveryID result) (res_LeaseToken result)"
    have step: "stays_stranded i d d2" if "dm_tasks d2 = dm_tasks d" "dm_runs d2 = dm_runs d"
        "dm_deliveries d2 = dm_deliveries d1" for d2
      by (rule stays_stranded_deliveries [OF st, where p = ?p and f = "finish_row result at"])
         (use that in \<open>auto simp: 1(1) finish_row_def owned_def terminal_def\<close>)
    from 1(5) show ?thesis
    proof (elim disjE exE conjE)
      fix d2 assume "dm_tasks d2 = dm_tasks d" "dm_runs d2 = dm_runs d" "dm_deliveries d2 = dm_deliveries d1"
        and done_run: "completeRun (dr_run_id r) at d2 = (Inr (), d')"
      then have "stays_stranded i d d2" using step by blast
      then show ?thesis by (rule stays_stranded_trans) (rule completeRun_stranded [OF _ done_run])
    qed (use step 1(4) in blast)
  qed
  then have "stays_stranded i d (snd (in_tx (complete_tx result at) d))" for at
    by (simp add: in_tx_def split: prod.split sum.split) (use st stays_stranded_refl in auto)
  then show ?thesis using st by (simp add: CompleteDelivery_def stays_stranded_refl)
qed

lemma DelayDelivery_stranded:
  assumes "stranded i d"
  shows "stays_stranded i d (snd (DelayDelivery j tok reason at d))"
proof (cases "snd (DelayDelivery j tok reason at d) = d")
  case True
  with assms show ?thesis by (simp add: stays_stranded_refl)
next
  case False
  then show ?thesis
    by (intro stays_stranded_deliveries [OF assms, where p = "owned j tok"
          and f = "\<lambda>r. r\<lparr>dr_status := DeliveryPending, dr_next_attempt_at := formatTime at,
                     dr_error_code := reason, dr_lease_token := '''', dr_lease_until := None\<rparr>"])
       (auto simp: DelayDelivery_def owned_def terminal_def split: if_splits)
qed

fun saves :: "ID \<Rightarrow> dm_call \<Rightarrow> bool" where
  "saves i (DmSave now task) \<longleftrightarrow> task_ID task = i"
| "saves i _ \<longleftrightarrow> False"

lemma dm_perform_stranded:
  "dm_inv d \<Longrightarrow> stranded i d \<Longrightarrow> \<not> saves i c \<Longrightarrow> stays_stranded i d (dm_perform c d)"
  by (cases c)
     (simp_all add: SaveTask_stranded SetTaskStatus_stranded pauseActive_stranded
       ClaimDueDelivery_stranded CompleteDelivery_stranded DelayDelivery_stranded)

lemma dm_serve_stranded:
  "dm_inv d \<Longrightarrow> stranded i d \<Longrightarrow> \<forall>c \<in> set cs. \<not> saves i c \<Longrightarrow> stays_stranded i d (dm_serve cs d)"
proof (induction cs arbitrary: d)
  case Nil
  then show ?case by (simp add: stays_stranded_refl)
next
  case (Cons c cs)
  from dm_perform_stranded [OF Cons.prems(1,2)] Cons.prems(3)
  have "stays_stranded i d (dm_perform c d)" by simp
  moreover have "dm_inv (dm_perform c d)" using dm_perform_step Cons.prems(1) by blast
  ultimately show ?case
    using Cons.IH [of "dm_perform c d"] Cons.prems(3) by (auto intro: stays_stranded_trans)
qed

end
