(* ===== verification/DmFacts.thy ===== *)
theory DmFacts
  imports SendFacts DmResave
begin

text \<open>
  The properties of scheduled direct messages: the recipients' parser and the service
  (internal/usecase/scheduled_dm_parser.go, scheduled_dm.go), the store
  (internal/repository/sqlite/scheduled_dm_store.go) and the worker
  (internal/usecase/scheduled_dm_runner.go) on it.
\<close>

section \<open>A small schedule\<close>

definition demo_draft :: ScheduledDMDraft where
  "demo_draft =
     \<lparr>draft_ID = ''t1'', draft_MessageText = '' hello '', draft_Recipients = [''alice_a'', ''bobby_b''],
      draft_AccountIDs = [''a1''], draft_StartAt = 100 * Second, draft_Recurrence = ''5m'', draft_MaxRuns = 2\<rparr>"

definition empty_dm :: dm_db where
  "empty_dm = \<lparr>dm_tasks = [], dm_recipients = [], dm_accounts = [], dm_runs = [], dm_deliveries = [],
               dm_known_accounts = [''a1'']\<rparr>"

definition save_draft :: "time \<Rightarrow> ScheduledDMDraft \<Rightarrow> dm_db \<Rightarrow> dm_db" where
  "save_draft now draft d = snd (Start ''t1'' now (snd (Save (Inr [demo_sender] :: unit + Account list) now now ''u'' draft d)))"

definition demo_dm :: dm_db where
  "demo_dm = save_draft (10 * Second) demo_draft empty_dm"

definition demo_round :: "time \<Rightarrow> unit dm_world runner_env" where
  "demo_round s = sqlite_runner (s * Second) (s * Second) int ''tok'' demo_config accepts
     (demo_env (s * Second)) (demo_env (s * Second))"

definition demo_dm_world :: "dm_db \<Rightarrow> unit dm_world" where
  "demo_dm_world d = \<lparr>dw_dm = d, dw_ob = demo_world\<rparr>"

lemma stored_time_code:
  "(\<exists>t. s = formatTime t) \<longleftrightarrow> (case parseTime s of None \<Rightarrow> False | Some t \<Rightarrow> s = formatTime t)"
  using parse_format by (auto split: option.split)

lemma runs_fit_code [code]:
  "runs_fit d \<longleftrightarrow>
     list_all (\<lambda>n. (case parseTime (nr_scheduled_at n) of None \<Rightarrow> False | Some t \<Rightarrow> nr_scheduled_at n = formatTime t) \<and>
        (nr_completed_at n = None \<longrightarrow>
           list_all (\<lambda>t. tr_id t = nr_task_id n \<longrightarrow> nr_run_number n \<le> tr_max_runs t) (dm_tasks d))) (dm_runs d) \<and>
     list_all (\<lambda>r. dr_id r \<noteq> '''') (dm_deliveries d)"
  unfolding runs_fit_def stored_time_code list_all_iff by blast

lemma empty_dm_ready: "dm_ready empty_dm"
  by (simp add: dm_ready_def dm_inv_def runs_ok_def deliveries_ok_def runs_fit_def empty_dm_def)

section \<open>Recipients and drafts\<close>

text \<open>
  The parser gives usable recipients: between one and three, all different, each a Telegram
  username of lower-case letters, digits and underscores of the length Telegram allows.
\<close>

theorem recipients_are_usernames:
  assumes "ParseScheduledDMRecipients input = Inr rs"
  shows "rs \<noteq> [] \<and> length rs \<le> 3 \<and> distinct rs \<and> list_all lower_username rs"
  using assms by (rule ParseScheduledDMRecipients_ok)

definition demo_lines :: string where
  "demo_lines = ''@Alice_A'' @ [CHR 10] @ ''https://t.me/bobby_b'' @ [CHR 10] @ '' alice_a ''"

lemma recipients_are_usernames_witness:
  "ParseScheduledDMRecipients demo_lines = Inr [''alice_a'', ''bobby_b''] \<and>
   list_all lower_username [''alice_a'', ''bobby_b'']"
proof -
  have "ParseScheduledDMRecipients demo_lines = Inr [''alice_a'', ''bobby_b'']" by code_simp
  with recipients_are_usernames show ?thesis by blast
qed

text \<open>
  A saved draft is the stored task. When saving succeeds, the draft was valid at the time of
  the check, every account of it was listed as a usable spammer, and the store holds, under the
  draft's id or the new one, a paused task with no completed run, the trimmed text, the limit,
  the start as its next run, and exactly the draft's recipients and accounts in their order.
\<close>

theorem saved_drafts_are_stored:
  assumes "Save listed checked now uuid draft d = (Inr task, d')"
  shows "draft_ok draft checked \<and> stored_for draft (task_ID task) d' \<and>
    task_ID task = (if draft_ID draft = '''' then uuid else draft_ID draft) \<and> task_Status task = DMPaused \<and>
    (\<exists>accounts. listed = Inr accounts \<and>
       (\<forall>i \<in> set (draft_AccountIDs draft). \<exists>a \<in> set accounts. acc_ID a = i \<and>
          acc_Role a = AccountRoleSpammer \<and> isScheduledDMAccountUsable (acc_Status a)))"
  using assms by (rule Save_ok)

lemma saved_drafts_are_stored_witness:
  "\<exists>task d'. Save (Inr [demo_sender] :: unit + Account list) (10 * Second) (10 * Second) ''u'' demo_draft empty_dm = (Inr task, d') \<and>
     stored_for demo_draft ''t1'' d'"
proof -
  let ?saved = "Save (Inr [demo_sender] :: unit + Account list) (10 * Second) (10 * Second) ''u'' demo_draft empty_dm"
  have "case fst ?saved of Inl e \<Rightarrow> False | Inr task \<Rightarrow> True" by code_simp
  then obtain task d' where saved: "?saved = (Inr task, d')"
    by (cases ?saved) (auto split: sum.splits)
  have "draft_ID demo_draft = ''t1''" by (simp add: demo_draft_def)
  note stored = saved_drafts_are_stored [OF saved]
  have "task_ID task = ''t1''" using stored \<open>draft_ID demo_draft = ''t1''\<close> by simp
  moreover have "stored_for demo_draft (task_ID task) d'" using stored by (elim conjE)
  ultimately have "stored_for demo_draft ''t1'' d'" by (simp only:)
  with saved show ?thesis by blast
qed

section \<open>Deliveries\<close>

text \<open>
  C22. Deliveries never change their end. Whatever calls to the store follow, the store keeps its
  invariant, and a delivery keeps its task, run, recipient, account and random number; once it is
  sent or failed its row does not change at all.
\<close>

theorem deliveries_keep_their_end:
  assumes "dm_inv d"
  shows "dm_inv (dm_serve cs d) \<and>
    (\<forall>i r. the_delivery d i = Some r \<longrightarrow>
      (\<exists>r'. the_delivery (dm_serve cs d) i = Some r' \<and> delivery_identity r' = delivery_identity r \<and>
         (terminal (dr_status r) \<longrightarrow> r' = r)))"
  using dm_serve_step [OF assms, of cs] unfolding dm_keeps_def delivery_evolves_def by blast

lemma deliveries_keep_their_end_witness:
  "dm_inv (dm_serve [DmClaim (100 * Second) Minute int ''tok'', DmPauseAll] demo_dm) \<and>
   map dr_status (dm_deliveries (dm_serve [DmClaim (100 * Second) Minute int ''tok'', DmPauseAll] demo_dm))
     = [''sending'', ''pending'']"
proof -
  have "demo_dm = dm_serve [DmSave (10 * Second) (case fst (Save (Inr [demo_sender] :: unit + Account list)
      (10 * Second) (10 * Second) ''u'' demo_draft empty_dm) of Inr task \<Rightarrow> task),
      DmSetStatus ''t1'' ''active'' (10 * Second)] empty_dm" by code_simp
  then have "dm_inv demo_dm"
    using deliveries_keep_their_end empty_dm_ready dm_ready_inv by metis
  then have "dm_inv (dm_serve [DmClaim (100 * Second) Minute int ''tok'', DmPauseAll] demo_dm)"
    using deliveries_keep_their_end by blast
  moreover have "map dr_status (dm_deliveries (dm_serve [DmClaim (100 * Second) Minute int ''tok'', DmPauseAll] demo_dm))
     = [''sending'', ''pending'']" by code_simp
  ultimately show ?thesis by blast
qed


lemma demo_dm_is_ready: "dm_ready demo_dm"
  by code_simp

lemma demo_round_env:
  "\<exists>now clock randoms token asked sending. token \<noteq> '''' \<and>
     demo_round s = sqlite_runner now clock randoms token demo_config accepts asked sending"
  unfolding demo_round_def by (intro exI conjI [rotated], rule refl) simp


section \<open>Saving a task again\<close>


definition once_draft :: ScheduledDMDraft where
  "once_draft = demo_draft\<lparr>draft_Recipients := [''alice_a''], draft_Recurrence := ''once'', draft_MaxRuns := 1\<rparr>"

definition over_dm :: dm_db where
  "over_dm = dw_dm (run_rounds [demo_round 100] (demo_dm_world (save_draft (10 * Second) once_draft empty_dm)))"

definition again_dm :: dm_db where
  "again_dm = save_draft (500 * Second) (once_draft\<lparr>draft_StartAt := 600 * Second\<rparr>) over_dm"


text \<open>The tables after three rounds: the second run is open, one of its two deliveries is left.\<close>

definition open_dm :: dm_db where
  "open_dm =
  \<lparr>dm_tasks =
      [\<lparr>tr_id = ''t1'', tr_message_text = ''hello'', tr_status = ''active'',
          tr_start_at = formatTime (100 * Second), tr_recurrence = ''5m'',
          tr_interval_seconds = Some 300, tr_max_runs = 2,
          tr_completed_runs = 1, tr_next_run_at = Some (formatTime (400 * Second)),
          tr_created_at = formatTime (10 * Second), tr_updated_at = formatTime (103 * Second)\<rparr>],
      dm_recipients =
        [\<lparr>rr_task_id = ''t1'', rr_ordinal = 0, rr_username = ''alice_a'',
            rr_peer_status = ''open'', rr_last_error = [],
            rr_last_checked_at = None\<rparr>,
         \<lparr>rr_task_id = ''t1'', rr_ordinal = 1, rr_username = ''bobby_b'',
            rr_peer_status = ''open'', rr_last_error = [],
            rr_last_checked_at = None\<rparr>],
      dm_accounts =
        [\<lparr>sr_task_id = ''t1'', sr_ordinal = 0, sr_account_id = ''a1''\<rparr>],
      dm_runs =
        [\<lparr>nr_id = ''t1:run:1'', nr_task_id = ''t1'', nr_run_number = 1,
            nr_scheduled_at = formatTime (100 * Second),
            nr_completed_at = Some (formatTime (103 * Second)),
            nr_created_at = formatTime (100 * Second)\<rparr>,
         \<lparr>nr_id = ''t1:run:2'', nr_task_id = ''t1'', nr_run_number = 2,
            nr_scheduled_at = formatTime (400 * Second), nr_completed_at = None,
            nr_created_at = formatTime (405 * Second)\<rparr>],
      dm_deliveries =
        [\<lparr>dr_id = ''t1:run:1:delivery:0'', dr_task_id = ''t1'',
            dr_run_id = ''t1:run:1'', dr_recipient = ''alice_a'',
            dr_account_id = ''a1'', dr_telegram_random_id = 0,
            dr_status = ''sent'', dr_next_attempt_at = formatTime (100 * Second),
            dr_attempted_at = Some (formatTime (100 * Second)),
            dr_completed_at = Some (formatTime (100 * Second)), dr_error_code = [],
            dr_lease_token = [], dr_lease_until = None\<rparr>,
         \<lparr>dr_id = ''t1:run:1:delivery:1'', dr_task_id = ''t1'',
            dr_run_id = ''t1:run:1'', dr_recipient = ''bobby_b'',
            dr_account_id = ''a1'', dr_telegram_random_id = 1,
            dr_status = ''sent'', dr_next_attempt_at = formatTime (100 * Second),
            dr_attempted_at = Some (formatTime (103 * Second)),
            dr_completed_at = Some (formatTime (103 * Second)), dr_error_code = [],
            dr_lease_token = [], dr_lease_until = None\<rparr>,
         \<lparr>dr_id = ''t1:run:2:delivery:0'', dr_task_id = ''t1'',
            dr_run_id = ''t1:run:2'', dr_recipient = ''alice_a'',
            dr_account_id = ''a1'', dr_telegram_random_id = 0,
            dr_status = ''sent'', dr_next_attempt_at = formatTime (400 * Second),
            dr_attempted_at = Some (formatTime (405 * Second)),
            dr_completed_at = Some (formatTime (405 * Second)), dr_error_code = [],
            dr_lease_token = [], dr_lease_until = None\<rparr>,
         \<lparr>dr_id = ''t1:run:2:delivery:1'', dr_task_id = ''t1'',
            dr_run_id = ''t1:run:2'', dr_recipient = ''bobby_b'',
            dr_account_id = ''a1'', dr_telegram_random_id = 1,
            dr_status = ''pending'', dr_next_attempt_at = formatTime (400 * Second),
            dr_attempted_at = None, dr_completed_at = None,
            dr_error_code = [], dr_lease_token = [], dr_lease_until = None\<rparr>],
      dm_known_accounts = [''a1'']\<rparr>"

lemma open_dm_reached:
  "dw_dm (run_rounds (map demo_round [100, 103, 405]) (demo_dm_world demo_dm)) = open_dm"
  by code_simp

definition open_world :: "unit dm_world" where
  "open_world = demo_dm_world open_dm"

definition relimited_world :: "unit dm_world" where
  "relimited_world = open_world\<lparr>dw_dm := save_draft (406 * Second)
     (demo_draft\<lparr>draft_StartAt := 500 * Second, draft_MaxRuns := 1\<rparr>) (dw_dm open_world)\<rparr>"

lemma relimited_sends:
  "sent_ids (map demo_round [408, 470]) relimited_world = [''t1:run:2:delivery:1'', ''t1:run:2:delivery:1'']"
  by code_simp

lemma open_ready: "world_ready open_world"
  by code_simp

lemma relimited_not_ready: "\<not> world_ready relimited_world"
  by code_simp


end
