(* ===== verification/KeywordText.thy ===== *)
theory KeywordText
  imports Prelude "HOL-Library.Sublist"
begin

text \<open>
  Words of a message and of a keyword expression (internal/keywordmatch/normalize.go):
  sentences, surfaces, stems and service words. A text is the list of its runes, as Go's
  \<^verbatim>\<open>range\<close> reads it. The tables of package \<^verbatim>\<open>unicode\<close> and the normalisation form NFKC of
  \<^verbatim>\<open>golang.org/x/text\<close> are the fields of \<open>unicode\<close>, a parameter of every definition
  that reads them.
\<close>

section \<open>Runes\<close>

type_synonym rune = nat
type_synonym runes = "rune list"

record unicode =
  uni_IsLetter :: "rune \<Rightarrow> bool"
  uni_IsDigit :: "rune \<Rightarrow> bool"
  uni_IsSpace :: "rune \<Rightarrow> bool"
  uni_Cyrillic :: "rune \<Rightarrow> bool"
  uni_Latin :: "rune \<Rightarrow> bool"
  uni_ToLower :: "rune \<Rightarrow> rune"
  uni_NFKC :: "runes \<Rightarrow> runes"

definition runes :: "string \<Rightarrow> runes" where
  "runes s = map of_char s"

text \<open>
  The tables of Russian words are written in Latin letters, one for each Cyrillic letter:
  \<open>j q w x Y X E U A\<close> are zhe, che, sha, shcha, yery, the soft sign, e, yu and ya,
  \<open>h c Q\<close> are kha, tse and the hard sign, and the other letters sound alike.
\<close>

definition cyrillic_letters :: string where
  "cyrillic_letters = ''abvgdejziyklmnoprstufhcqwxQYXEUA''"

definition cyrillic_index :: "char \<Rightarrow> nat" where
  "cyrillic_index c = length (takeWhile (\<lambda>d. d \<noteq> c) cyrillic_letters)"

definition cyr :: "string \<Rightarrow> runes" where
  "cyr s = map (\<lambda>c. if c \<in> set cyrillic_letters then 1072 + cyrillic_index c else of_char c) s"

definition rune_io :: rune where "rune_io = 1105"
definition rune_ie :: rune where "rune_ie = 1077"
definition rune_ellipsis :: rune where "rune_ellipsis = 8230"
definition rune_left_quote :: rune where "rune_left_quote = 171"
definition rune_right_quote :: rune where "rune_right_quote = 187"

abbreviation is_rune :: "rune \<Rightarrow> char \<Rightarrow> bool" where
  "is_rune r c \<equiv> r = of_char c"

section \<open>Surfaces and stems\<close>

definition trim_runes :: "unicode \<Rightarrow> runes \<Rightarrow> runes" where
  "trim_runes U s = rev (dropWhile (uni_IsSpace U) (rev (dropWhile (uni_IsSpace U) s)))"

definition normalizeSurface :: "unicode \<Rightarrow> runes \<Rightarrow> runes" where
  "normalizeSurface U value =
     map (\<lambda>r. if r = rune_io then rune_ie else r)
       (map (uni_ToLower U) (uni_NFKC U (trim_runes U value)))"

datatype script = Russian | English | Mixed

text \<open>\<open>Mixed\<close> is the result \<^verbatim>\<open>""\<close>; \<open>current = None\<close> says that no letter was seen.\<close>

fun script_from :: "unicode \<Rightarrow> script option \<Rightarrow> runes \<Rightarrow> script" where
  "script_from U current [] = (case current of None \<Rightarrow> Mixed | Some s \<Rightarrow> s)"
| "script_from U current (r # rs) =
     (let step = (\<lambda>s. if current \<noteq> None \<and> current \<noteq> Some s then Mixed else script_from U (Some s) rs) in
      if uni_Cyrillic U r then step Russian
      else if uni_Latin U r then step English
      else if uni_IsDigit U r then script_from U current rs
      else Mixed)"

definition script_of :: "unicode \<Rightarrow> runes \<Rightarrow> script" where
  "script_of U value = script_from U None value"

definition russianIrregular :: "(runes \<times> runes) list" where
  "russianIrregular = map (\<lambda>(w, s). (cyr w, cyr s)) [
      (''denXgi'', ''denXg''), (''deneg'', ''denXg''), (''denXgam'', ''denXg''),
      (''denXgami'', ''denXg''), (''denXgah'', ''denXg''), (''denejka'', ''denXg''),
      (''denejki'', ''denXg''), (''denejek'', ''denXg''), (''denUjka'', ''denXg''),
      (''denUjki'', ''denXg''), (''denXjata'', ''denXg''), (''denXjat'', ''denXg''),
      (''babki'', ''babk''), (''babok'', ''babk''), (''babkam'', ''babk''),
      (''babkami'', ''babk''), (''kupitX'', ''kup''), (''kupil'', ''kup''),
      (''kupila'', ''kup''), (''kupili'', ''kup''), (''kuplU'', ''kup''),
      (''kupiwX'', ''kup''), (''kupit'', ''kup''), (''kupim'', ''kup''), (''kupAt'', ''kup''),
      (''ehatX'', ''eh''), (''edu'', ''eh''), (''edewX'', ''eh''), (''edet'', ''eh''),
      (''edem'', ''eh''), (''edut'', ''eh''), (''ehal'', ''eh''), (''ehala'', ''eh''),
      (''ehali'', ''eh'')]"

definition russianSuffixes :: "runes list" where
  "russianSuffixes = map cyr [
      ''iAmi'', ''Ami'', ''ami'', ''iAmi'', ''ego'', ''ogo'', ''emu'', ''omu'', ''imi'',
      ''Ymi'', ''ivwisX'', ''YvwisX'', ''ivwi'', ''Yvwi'', ''irovatX'', ''irovatX'', ''ovatX'',
      ''evatX'', ''enie'', ''aniA'', ''enie'', ''ostX'', ''ostey'', ''atXsA'', ''AtXsA'',
      ''itXsA'', ''uU'', ''UU'', ''aA'', ''AA'', ''oU'', ''eU'', ''Ye'', ''ie'', ''Yy'',
      ''iy'', ''oy'', ''am'', ''Am'', ''ah'', ''Ah'', ''ov'', ''ev'', ''om'', ''em'', ''ey'',
      ''iU'', ''XU'', ''ila'', ''Yla'', ''ena'', ''eyte'', ''uyte'', ''ite'', ''ili'', ''Yli'',
      ''ey'', ''uy'', ''il'', ''Yl'', ''im'', ''Ym'', ''en'', ''ilo'', ''Ylo'', ''eno'',
      ''At'', ''uet'', ''uUt'', ''it'', ''Yt'', ''enY'', ''itX'', ''YtX'', ''iwX'', ''uU'',
      ''U'', ''la'', ''ete'', ''yte'', ''li'', ''y'', ''l'', ''em'', ''n'', ''lo'', ''no'',
      ''et'', ''tX'', ''ewX'', ''nno'', ''sA'', ''sX'', ''a'', ''A'', ''Y'', ''i'', ''X'',
      ''y'', ''u'', ''U'', ''e'', ''o'']"

text \<open>The first suffix that leaves at least three runes.\<close>

definition cuts :: "runes \<Rightarrow> runes \<Rightarrow> bool" where
  "cuts value s \<longleftrightarrow> 3 + length s \<le> length value \<and> suffix s value"

definition without :: "runes \<Rightarrow> runes \<Rightarrow> runes" where
  "without value s = take (length value - length s) value"

definition russianStem :: "runes \<Rightarrow> runes" where
  "russianStem value =
     (case map_of russianIrregular value of
        Some stem \<Rightarrow> stem
      | None \<Rightarrow>
          (case find (cuts value) russianSuffixes of
             Some s \<Rightarrow> without value s
           | None \<Rightarrow> value))"

definition englishIrregular :: "(runes \<times> runes) list" where
  "englishIrregular = map (\<lambda>(w, s). (runes w, runes s)) [
      (''bought'', ''buy''), (''buying'', ''buy''), (''buys'', ''buy''), (''ran'', ''run''),
      (''running'', ''run''), (''went'', ''go''), (''gone'', ''go''), (''cars'', ''car''),
      (''children'', ''child''), (''people'', ''person'')]"

definition englishSuffixes :: "string list" where
  "englishSuffixes = [
      ''ization'', ''ational'', ''fulness'', ''ousness'', ''iveness'', ''ingly'', ''edly'',
      ''ments'', ''ment'', ''ness'', ''ation'', ''izer'', ''ing'', ''ied'', ''ies'', ''ed'',
      ''es'', ''s'']"

definition undouble :: "runes \<Rightarrow> runes" where
  "undouble base =
     (if 2 < length base \<and> base ! (length base - 1) = base ! (length base - 2) then butlast base else base)"

definition english_base :: "string \<Rightarrow> runes \<Rightarrow> runes" where
  "english_base s base =
     (if s \<in> {''ied'', ''ies''} then base @ runes ''y''
      else if s \<in> {''ing'', ''ed'', ''ingly'', ''edly''} then undouble base
      else base)"

definition englishStem :: "runes \<Rightarrow> runes" where
  "englishStem value =
     (case map_of englishIrregular value of
        Some stem \<Rightarrow> stem
      | None \<Rightarrow>
          (case find (\<lambda>s. cuts value (runes s)) englishSuffixes of
             Some s \<Rightarrow> english_base s (without value (runes s))
           | None \<Rightarrow> value))"

definition morphologyKey :: "unicode \<Rightarrow> runes \<Rightarrow> runes" where
  "morphologyKey U value =
     (case script_of U value of
        Russian \<Rightarrow> russianStem value
      | English \<Rightarrow> englishStem value
      | Mixed \<Rightarrow> value)"

section \<open>Service words\<close>

definition russian_service :: "string list" where
  "russian_service = [
      ''a'', ''bez'', ''budto'', ''bY'', ''v'', ''vedX'', ''vo'', ''vokrug'', ''da'', ''daje'',
      ''dlA'', ''do'', ''esli'', ''je'', ''za'', ''zato'', ''i'', ''iz'', ''ili'', ''k'',
      ''kak'', ''kogda'', ''ko'', ''krome'', ''li'', ''libo'', ''mejdu'', ''na'', ''nad'',
      ''ne'', ''ni'', ''no'', ''o'', ''ob'', ''obo'', ''okolo'', ''odnako'', ''ot'', ''pered'',
      ''po'', ''pod'', ''potomu'', ''poskolXku'', ''pri'', ''pro'', ''pustX'', ''radi'', ''s'',
      ''slovno'', ''so'', ''sredi'', ''takje'', ''to'', ''toje'', ''u'', ''hotA'', ''qerez'',
      ''qto'', ''qtobY'', ''A'', ''menA'', ''mne'', ''mnoy'', ''mnoU'', ''tY'', ''tebA'',
      ''tebe'', ''toboy'', ''toboU'', ''on'', ''ego'', ''emu'', ''im'', ''nego'', ''nemu'',
      ''nim'', ''nem'', ''ona'', ''ee'', ''ey'', ''eU'', ''nee'', ''ney'', ''neU'', ''ono'',
      ''mY'', ''nas'', ''nam'', ''nami'', ''vY'', ''vas'', ''vam'', ''vami'', ''oni'', ''ih'',
      ''imi'', ''nih'', ''sebA'', ''sebe'', ''soboy'', ''soboU'', ''moy'', ''moA'', ''moe'',
      ''moi'', ''moego'', ''moey'', ''moemu'', ''moim'', ''moU'', ''moimi'', ''moih'',
      ''tvoy'', ''tvoA'', ''tvoe'', ''tvoi'', ''tvoego'', ''tvoey'', ''tvoemu'', ''tvoim'',
      ''tvoU'', ''tvoimi'', ''tvoih'', ''naw'', ''nawa'', ''nawe'', ''nawi'', ''nawego'',
      ''nawey'', ''nawemu'', ''nawim'', ''nawu'', ''nawimi'', ''nawih'', ''vaw'', ''vawa'',
      ''vawe'', ''vawi'', ''vawego'', ''vawey'', ''vawemu'', ''vawim'', ''vawu'', ''vawimi'',
      ''vawih'', ''svoy'', ''svoA'', ''svoe'', ''svoi'', ''svoego'', ''svoey'', ''svoemu'',
      ''svoim'', ''svoU'', ''svoimi'', ''svoih'', ''Eto'', ''Etot'', ''Eta'', ''Eti'',
      ''Etogo'', ''Etoy'', ''Etomu'', ''Etim'', ''Etu'', ''Etimi'', ''Etih'', ''tot'', ''ta'',
      ''to'', ''te'', ''togo'', ''toy'', ''tomu'', ''tem'', ''tu'', ''temi'', ''teh'', ''kto'',
      ''kogo'', ''komu'', ''kem'', ''kom'', ''qto'', ''qego'', ''qemu'', ''qem'', ''kakoy'',
      ''kakaA'', ''kakoe'', ''kakie'', ''kakogo'', ''kakoy'', ''kakomu'', ''kakim'', ''kakuU'',
      ''kakimi'', ''kakih'', ''kotorYy'', ''kotoraA'', ''kotoroe'', ''kotorYe'', ''kotorogo'',
      ''kotoroy'', ''kotoromu'', ''kotorYm'', ''kotoruU'', ''kotorYmi'', ''kotorYh'', ''qey'',
      ''qXA'', ''qXe'', ''qXi'', ''qXego'', ''qXey'', ''qXemu'', ''qXim'', ''qXU'', ''qXimi'',
      ''qXih'', ''vesX'', ''vsA'', ''vse'', ''vsego'', ''vsey'', ''vsemu'', ''vsem'', ''vsU'',
      ''vsemi'', ''vseh'', ''nikto'', ''niqto'', ''nikakoy'', ''nekto'', ''neqto'', ''kto-to'',
      ''qto-to'']"

definition english_service :: "string list" where
  "english_service = [
      ''a'', ''an'', ''the'', ''about'', ''above'', ''across'', ''after'', ''against'',
      ''along'', ''among'', ''around'', ''as'', ''at'', ''before'', ''behind'', ''below'',
      ''beneath'', ''beside'', ''between'', ''beyond'', ''by'', ''despite'', ''down'',
      ''during'', ''except'', ''for'', ''from'', ''in'', ''inside'', ''into'', ''near'',
      ''of'', ''off'', ''on'', ''onto'', ''out'', ''outside'', ''over'', ''past'', ''since'',
      ''through'', ''throughout'', ''to'', ''toward'', ''under'', ''until'', ''up'', ''upon'',
      ''with'', ''within'', ''without'', ''and'', ''because'', ''but'', ''if'', ''nor'',
      ''once'', ''or'', ''so'', ''than'', ''that'', ''though'', ''unless'', ''when'',
      ''whenever'', ''where'', ''whereas'', ''wherever'', ''whether'', ''while'', ''yet'',
      ''not'', ''i'', ''me'', ''my'', ''mine'', ''myself'', ''you'', ''your'', ''yours'',
      ''yourself'', ''yourselves'', ''he'', ''him'', ''his'', ''himself'', ''she'', ''her'',
      ''hers'', ''herself'', ''it'', ''its'', ''itself'', ''we'', ''us'', ''our'', ''ours'',
      ''ourselves'', ''they'', ''them'', ''their'', ''theirs'', ''themselves'', ''this'',
      ''these'', ''those'', ''who'', ''whom'', ''whose'', ''which'', ''what'', ''someone'',
      ''somebody'', ''something'', ''anyone'', ''anybody'', ''anything'', ''everyone'',
      ''everybody'', ''everything'', ''none'', ''nobody'', ''nothing'', ''each'', ''either'',
      ''neither'', ''both'', ''few'', ''many'', ''several'', ''all'', ''any'', ''some'',
      ''such'', ''am'', ''is'', ''are'', ''was'', ''were'', ''be'', ''been'', ''being'',
      ''do'', ''does'', ''did'', ''have'', ''has'', ''had'', ''can'', ''could'', ''may'',
      ''might'', ''must'', ''shall'', ''should'', ''will'', ''would'']"

definition serviceWords :: "runes list" where
  "serviceWords = map cyr russian_service @ map runes english_service"

definition isServiceWord :: "runes \<Rightarrow> bool" where
  "isServiceWord value \<longleftrightarrow> value \<in> set serviceWords"

section \<open>Sentences\<close>

record word =
  word_surface :: runes
  word_morph :: runes

definition word_rune :: "unicode \<Rightarrow> rune \<Rightarrow> bool" where
  "word_rune U r \<longleftrightarrow> uni_IsLetter U r \<or> uni_IsDigit U r"

definition ends_sentence :: "rune \<Rightarrow> bool" where
  "ends_sentence r \<longleftrightarrow> is_rune r CHR ''.'' \<or> is_rune r CHR ''!'' \<or> is_rune r CHR ''?'' \<or>
     is_rune r CHR ''\<newline>'' \<or> r = 13 \<or> r = rune_ellipsis"

definition flushToken :: "unicode \<Rightarrow> runes \<Rightarrow> word list \<Rightarrow> word list" where
  "flushToken U tok sentence =
     (let value = normalizeSurface U tok in
      if tok = [] \<or> value = [] then sentence
      else sentence @ [\<lparr>word_surface = value, word_morph = morphologyKey U value\<rparr>])"

definition flushSentence :: "unicode \<Rightarrow> runes \<Rightarrow> word list \<Rightarrow> word list list \<Rightarrow> word list list" where
  "flushSentence U tok sentence result =
     (let s = flushToken U tok sentence in if s = [] then result else result @ [s])"

text \<open>The loop over the runes with its builder, its sentence and its result.\<close>

fun scan_text :: "unicode \<Rightarrow> runes \<Rightarrow> runes \<Rightarrow> word list \<Rightarrow> word list list \<Rightarrow> word list list" where
  "scan_text U [] tok sentence result = flushSentence U tok sentence result"
| "scan_text U (r # rs) tok sentence result =
     (if word_rune U r then scan_text U rs (tok @ [r]) sentence result
      else if ends_sentence r then scan_text U rs [] [] (flushSentence U tok sentence result)
      else scan_text U rs [] (flushToken U tok sentence) result)"

definition tokenizeSentences :: "unicode \<Rightarrow> runes \<Rightarrow> word list list" where
  "tokenizeSentences U t = scan_text U (uni_NFKC U t) [] [] []"


section \<open>Evaluation\<close>

text \<open>Every Russian service word starts with a Cyrillic letter, so a Latin word is looked up in one table.\<close>

lemma russian_service_start: "list_all (\<lambda>w. w \<noteq> [] \<and> hd w \<in> set cyrillic_letters) russian_service"
  by code_simp

lemma isServiceWord_code [code]:
  "isServiceWord value =
     (if value = [] then False
      else if hd value < 1072 then value \<in> set (map runes english_service)
      else value \<in> set (map cyr russian_service) \<or> value \<in> set (map runes english_service))"
proof -
  have start: "cyr w \<noteq> [] \<and> 1072 \<le> hd (cyr w)" if "w \<in> set russian_service" for w
  proof -
    have "w \<noteq> [] \<and> hd w \<in> set cyrillic_letters"
      using russian_service_start that unfolding list_all_iff by blast
    then show ?thesis by (simp add: cyr_def hd_map)
  qed
  have "cyr w \<noteq> []" "value = cyr w \<Longrightarrow> 1072 \<le> hd value" if "w \<in> set russian_service" for w
    using start [OF that] by auto
  moreover have "runes w \<noteq> []" if "w \<in> set english_service" for w
    using that by (auto simp: runes_def english_service_def)
  ultimately show ?thesis
    unfolding isServiceWord_def serviceWords_def set_append Un_iff set_map image_iff
    by (metis leD)
qed

end
