(* ===== verification/KeywordParser.thy ===== *)
theory KeywordParser
  imports KeywordText
begin

text \<open>
  The parser of keyword expressions (internal/keywordmatch/parser.go): the lexer, the
  recursive descent over its tokens and the marking of service words. The parser's index is
  the list of the tokens left. Its functions call each other in a cycle, so they run on fuel;
  \<open>Starved\<close> is the end of the fuel, and \<open>parse_not_starved\<close> shows that the fuel \<open>parse\<close> gives
  is always enough.
\<close>

section \<open>Tokens\<close>

datatype token =
    TokenWord runes
  | TokenBang
  | TokenPlus
  | TokenMinus
  | TokenQuote
  | TokenLeftBracket
  | TokenRightBracket
  | TokenLeftParen
  | TokenRightParen
  | TokenPipe

definition operatorBoundary :: "unicode \<Rightarrow> rune option \<Rightarrow> bool" where
  "operatorBoundary U previous =
     (case previous of
        None \<Rightarrow> True
      | Some r \<Rightarrow> uni_IsSpace U r \<or> r \<in> set (runes ''([|'') \<or> r = 34 \<or> r = rune_left_quote)"

definition operator_tokens :: "unicode \<Rightarrow> rune option \<Rightarrow> rune \<Rightarrow> token list" where
  "operator_tokens U previous r =
     (if is_rune r CHR ''!'' then [TokenBang]
      else if is_rune r CHR ''+'' then [TokenPlus]
      else if is_rune r CHR ''-'' then (if operatorBoundary U previous then [TokenMinus] else [])
      else if r = 34 \<or> r = rune_left_quote \<or> r = rune_right_quote then [TokenQuote]
      else if is_rune r CHR ''['' then [TokenLeftBracket]
      else if is_rune r CHR '']'' then [TokenRightBracket]
      else if is_rune r CHR ''('' then [TokenLeftParen]
      else if is_rune r CHR '')'' then [TokenRightParen]
      else if is_rune r CHR ''|'' then [TokenPipe]
      else [])"

definition flush_word :: "runes \<Rightarrow> token list" where
  "flush_word tok = (if tok = [] then [] else [TokenWord tok])"

fun lex_runes :: "unicode \<Rightarrow> rune option \<Rightarrow> runes \<Rightarrow> runes \<Rightarrow> token list \<Rightarrow> token list" where
  "lex_runes U previous [] tok result = result @ flush_word tok"
| "lex_runes U previous (r # rs) tok result =
     (if word_rune U r then lex_runes U (Some r) rs (tok @ [r]) result
      else lex_runes U (Some r) rs [] (result @ flush_word tok @ operator_tokens U previous r))"

definition lex :: "unicode \<Rightarrow> runes \<Rightarrow> token list option" where
  "lex U expression =
     (let rs = trim_runes U expression in
      if rs = [] then None
      else (case lex_runes U None rs [] [] of [] \<Rightarrow> None | ts \<Rightarrow> Some ts))"

section \<open>Trees\<close>

record termNode =
  term_value :: runes
  term_morph :: runes
  term_exact :: bool
  term_forced :: bool

datatype node =
    Term termNode
  | Sequence "node list"
  | Alternative "node list"
  | Negative node
  | Quoted node
  | Bracket node

text \<open>The subtree of an exclusion is left as it is: \<^verbatim>\<open>parseUnary\<close> marked it when it was built.\<close>

fun forceServiceWords :: "node \<Rightarrow> node" where
  "forceServiceWords (Term t) = Term (t\<lparr>term_forced := True\<rparr>)"
| "forceServiceWords (Sequence cs) = Sequence (map forceServiceWords cs)"
| "forceServiceWords (Alternative cs) = Alternative (map forceServiceWords cs)"
| "forceServiceWords (Negative c) = Negative c"
| "forceServiceWords (Quoted c) = Quoted (forceServiceWords c)"
| "forceServiceWords (Bracket c) = Bracket (forceServiceWords c)"

section \<open>Descent\<close>

datatype 'a parsed = Done 'a "token list" | Reject | Starved

text \<open>\<open>None\<close> is the kind \<^verbatim>\<open>tokenEOF\<close>, the current token past the end.\<close>

definition current :: "token list \<Rightarrow> token option" where
  "current ts = (case ts of [] \<Rightarrow> None | t # _ \<Rightarrow> Some t)"

text \<open>The prefix operators of a term: exact, forced, and what follows; each at most once.\<close>

fun prefixes_of :: "bool \<Rightarrow> bool \<Rightarrow> token list \<Rightarrow> (bool \<times> bool \<times> token list) option" where
  "prefixes_of exact forced (TokenBang # ts) = (if exact then None else prefixes_of True forced ts)"
| "prefixes_of exact forced (TokenPlus # ts) = (if forced then None else prefixes_of exact True ts)"
| "prefixes_of exact forced ts = Some (exact, forced, ts)"

definition parse_term :: "unicode \<Rightarrow> bool \<Rightarrow> bool \<Rightarrow> runes \<Rightarrow> token list \<Rightarrow> node parsed" where
  "parse_term U exact forced tok ts =
     (let value = normalizeSurface U tok in
      if value = [] then Reject
      else Done (Term \<lparr>term_value = value, term_morph = morphologyKey U value,
                       term_exact = exact, term_forced = forced\<rparr>) ts)"

definition close_group :: "token \<Rightarrow> (node \<Rightarrow> node) \<Rightarrow> node parsed \<Rightarrow> node parsed" where
  "close_group close wrap r =
     (case r of
        Done child (t # ts) \<Rightarrow> if t = close then Done (wrap child) ts else Reject
      | Done child [] \<Rightarrow> Reject
      | Reject \<Rightarrow> Reject
      | Starved \<Rightarrow> Starved)"

definition word_of :: "token \<Rightarrow> runes option" where
  "word_of t = (case t of TokenWord tok \<Rightarrow> Some tok | _ \<Rightarrow> None)"

text \<open>The groups: the token that closes one and the node it makes.\<close>

definition closing :: "token \<Rightarrow> token option" where
  "closing t =
     (case t of
        TokenQuote \<Rightarrow> Some TokenQuote
      | TokenLeftBracket \<Rightarrow> Some TokenRightBracket
      | TokenLeftParen \<Rightarrow> Some TokenRightParen
      | _ \<Rightarrow> None)"

definition group_node :: "token \<Rightarrow> node \<Rightarrow> node" where
  "group_node t child =
     (case t of
        TokenQuote \<Rightarrow> Quoted child
      | TokenLeftBracket \<Rightarrow> Bracket (forceServiceWords child)
      | _ \<Rightarrow> child)"

definition one_or_all :: "node list \<Rightarrow> node" where
  "one_or_all alternatives =
     (if length alternatives = 1 then hd alternatives else Alternative alternatives)"

text \<open>
  One definition per method of the parser. A method calls the others through \<open>call\<close>, which
  names the method called; \<open>descend\<close> ties the knot, one unit of fuel per call. The two loops
  are methods of their own: \<open>CallMore\<close> reads the alternatives after the first one,
  \<open>CallSequence\<close> goes on with the children it is given.
\<close>

datatype parser_call =
    CallAlternatives "token option"
  | CallMore "token option" "node list"
  | CallSequence "token option" "node list"
  | CallUnary
  | CallPrimary

type_synonym calls = "parser_call \<Rightarrow> token list \<Rightarrow> node parsed"

definition parseAlternatives :: "calls \<Rightarrow> token option \<Rightarrow> token list \<Rightarrow> node parsed" where
  "parseAlternatives call end_of ts =
     (case call (CallSequence end_of []) ts of
        Done first rest \<Rightarrow> call (CallMore end_of [first]) rest
      | r \<Rightarrow> r)"

definition parseMore :: "calls \<Rightarrow> token option \<Rightarrow> node list \<Rightarrow> token list \<Rightarrow> node parsed" where
  "parseMore call end_of alternatives ts =
     (if current ts = Some TokenPipe then
        (case call (CallSequence end_of []) (tl ts) of
           Done child rest \<Rightarrow> call (CallMore end_of (alternatives @ [child])) rest
         | r \<Rightarrow> r)
      else Done (one_or_all alternatives) ts)"

definition parseSequence :: "calls \<Rightarrow> token option \<Rightarrow> node list \<Rightarrow> token list \<Rightarrow> node parsed" where
  "parseSequence call end_of children ts =
     (if current ts = end_of \<or> current ts = Some TokenPipe
      then (if children = [] then Reject else Done (Sequence children) ts)
      else if current ts = None \<or> current ts = Some TokenRightParen \<or> current ts = Some TokenRightBracket
      then Reject
      else (case call CallUnary ts of
              Done child rest \<Rightarrow> call (CallSequence end_of (children @ [child])) rest
            | r \<Rightarrow> r))"

definition parseUnary :: "calls \<Rightarrow> token list \<Rightarrow> node parsed" where
  "parseUnary call ts =
     (if current ts = Some TokenMinus then
        (case call CallPrimary (tl ts) of
           Done child rest \<Rightarrow> Done (Negative (forceServiceWords child)) rest
         | r \<Rightarrow> r)
      else call CallPrimary ts)"

definition parse_after :: "unicode \<Rightarrow> calls \<Rightarrow> bool \<Rightarrow> bool \<Rightarrow> token list \<Rightarrow> node parsed" where
  "parse_after U call exact forced left =
     (case left of
        [] \<Rightarrow> Reject
      | t # rest \<Rightarrow>
          (case word_of t of
             Some tok \<Rightarrow> parse_term U exact forced tok rest
           | None \<Rightarrow>
               (case (if exact \<or> forced then None else closing t) of
                  None \<Rightarrow> Reject
                | Some close \<Rightarrow>
                    close_group close (group_node t) (call (CallAlternatives (Some close)) rest))))"

definition parsePrimary :: "unicode \<Rightarrow> calls \<Rightarrow> token list \<Rightarrow> node parsed" where
  "parsePrimary U call ts =
     (case prefixes_of False False ts of
        None \<Rightarrow> Reject
      | Some (exact, forced, left) \<Rightarrow> parse_after U call exact forced left)"

definition run_method :: "unicode \<Rightarrow> calls \<Rightarrow> calls" where
  "run_method U call m =
     (case m of
        CallAlternatives end_of \<Rightarrow> parseAlternatives call end_of
      | CallMore end_of alternatives \<Rightarrow> parseMore call end_of alternatives
      | CallSequence end_of children \<Rightarrow> parseSequence call end_of children
      | CallUnary \<Rightarrow> parseUnary call
      | CallPrimary \<Rightarrow> parsePrimary U call)"

primrec descend :: "unicode \<Rightarrow> nat \<Rightarrow> calls" where
  "descend U 0 = (\<lambda>m ts. Starved)"
| "descend U (Suc n) = run_method U (descend U n)"

definition parse_fuel :: "token list \<Rightarrow> nat" where
  "parse_fuel ts = 4 * length ts + 4"

definition parse_tokens :: "unicode \<Rightarrow> token list \<Rightarrow> node option" where
  "parse_tokens U ts =
     (case descend U (parse_fuel ts) (CallAlternatives None) ts of
        Done root [] \<Rightarrow> Some root
      | _ \<Rightarrow> None)"

definition parse :: "unicode \<Rightarrow> runes \<Rightarrow> node option" where
  "parse U expression =
     (case lex U expression of None \<Rightarrow> None | Some ts \<Rightarrow> parse_tokens U ts)"

section \<open>The fuel is enough\<close>

text \<open>Every construct takes at least one token, except the rest of a list of alternatives.\<close>

lemma prefixes_shorter: "prefixes_of exact forced ts = Some (e, f, rest) \<Longrightarrow> length rest \<le> length ts"
  by (induction exact forced ts rule: prefixes_of.induct) (auto split: if_splits)

lemma close_group_Done:
  "close_group t wrap r = Done c rest \<longleftrightarrow> (\<exists>child. r = Done child (t # rest) \<and> c = wrap child)"
  by (auto simp: close_group_def split: parsed.splits list.splits)

lemma close_group_Starved: "close_group t wrap r = Starved \<longleftrightarrow> r = Starved"
  by (auto simp: close_group_def split: parsed.splits list.splits)

lemma current_Some: "current ts = Some t \<longleftrightarrow> (\<exists>rest. ts = t # rest)"
  by (cases ts) (auto simp: current_def)

lemma current_None: "current ts = None \<longleftrightarrow> ts = []"
  by (cases ts) (auto simp: current_def)

lemma parse_term_Done: "parse_term U e f tok ts = Done c rest \<Longrightarrow> rest = ts"
  by (auto simp: parse_term_def Let_def split: if_splits)

lemma parse_term_not_Starved [simp]: "parse_term U e f tok ts \<noteq> Starved"
  by (simp add: parse_term_def Let_def)

text \<open>The tokens a method takes at least, and the fuel it needs.\<close>

definition takes :: "parser_call \<Rightarrow> nat" where
  "takes m =
     (case m of
        CallMore e as \<Rightarrow> 0
      | CallSequence e cs \<Rightarrow> (if cs = [] then 1 else 0)
      | _ \<Rightarrow> 1)"

definition needs :: "parser_call \<Rightarrow> nat" where
  "needs m =
     (case m of
        CallAlternatives e \<Rightarrow> 4
      | CallMore e as \<Rightarrow> 4
      | CallSequence e cs \<Rightarrow> 3
      | CallUnary \<Rightarrow> 2
      | CallPrimary \<Rightarrow> 1)"

definition consumes :: "calls \<Rightarrow> bool" where
  "consumes call \<longleftrightarrow>
     (\<forall>m ts c rest. call m ts = Done c rest \<longrightarrow> length rest + takes m \<le> length ts)"

lemma consumesD: "consumes call \<Longrightarrow> call m ts = Done c rest \<Longrightarrow> length rest + takes m \<le> length ts"
  by (simp add: consumes_def)

lemma parse_after_Done:
  assumes "consumes call" "parse_after U call e f left = Done c rest"
  shows "length rest + 1 \<le> length left"
  using assms(2)
  by (auto simp: parse_after_def close_group_Done split: list.splits option.splits if_splits
      dest!: consumesD [OF assms(1)] parse_term_Done)

lemma run_method_consumes:
  assumes call: "consumes call"
  shows "consumes (run_method U call)"
  unfolding consumes_def
proof (intro allI impI)
  fix m ts c rest
  assume r: "run_method U call m ts = Done c rest"
  note take = consumesD [OF call]
  show "length rest + takes m \<le> length ts"
  proof (cases m)
    case (CallAlternatives e)
    with r obtain c1 ts1 where "call (CallSequence e []) ts = Done c1 ts1"
        "call (CallMore e [c1]) ts1 = Done c rest"
      by (auto simp: run_method_def parseAlternatives_def split: parsed.splits)
    from take [OF this(1)] take [OF this(2)] CallAlternatives show ?thesis by (simp add: takes_def)
  next
    case (CallMore e as)
    show ?thesis
    proof (cases "current ts = Some TokenPipe")
      case True
      with r CallMore obtain c1 ts1 where "call (CallSequence e []) (tl ts) = Done c1 ts1"
          "call (CallMore e (as @ [c1])) ts1 = Done c rest"
        by (auto simp: run_method_def parseMore_def split: parsed.splits)
      from take [OF this(1)] take [OF this(2)] CallMore show ?thesis by (simp add: takes_def)
    next
      case False
      with r CallMore show ?thesis by (simp add: run_method_def parseMore_def takes_def)
    qed
  next
    case (CallSequence e cs)
    show ?thesis
    proof (cases "rest = ts \<and> cs \<noteq> []")
      case True
      with CallSequence show ?thesis by (simp add: takes_def)
    next
      case False
      with r CallSequence obtain c1 ts1 where "call CallUnary ts = Done c1 ts1"
          "call (CallSequence e (cs @ [c1])) ts1 = Done c rest"
        by (auto simp: run_method_def parseSequence_def split: parsed.splits if_splits)
      from take [OF this(1)] take [OF this(2)] CallSequence show ?thesis by (simp add: takes_def)
    qed
  next
    case CallUnary
    show ?thesis
    proof (cases "current ts = Some TokenMinus")
      case True
      with r CallUnary obtain c1 where "call CallPrimary (tl ts) = Done c1 rest"
        by (auto simp: run_method_def parseUnary_def split: parsed.splits)
      from take [OF this] CallUnary show ?thesis by (simp add: takes_def)
    next
      case False
      with r CallUnary have "call CallPrimary ts = Done c rest"
        by (simp add: run_method_def parseUnary_def)
      from take [OF this] CallUnary show ?thesis by (simp add: takes_def)
    qed
  next
    case CallPrimary
    with r obtain e f left where "prefixes_of False False ts = Some (e, f, left)"
        "parse_after U call e f left = Done c rest"
      by (auto simp: run_method_def parsePrimary_def split: option.splits)
    from prefixes_shorter [OF this(1)] parse_after_Done [OF call this(2)] CallPrimary
    show ?thesis by (simp add: takes_def)
  qed
qed

lemma descend_consumes: "consumes (descend U n)"
proof (induction n)
  case 0
  show ?case by (simp add: consumes_def)
next
  case (Suc n)
  then show ?case by (simp add: run_method_consumes)
qed

lemma not_Starved_step:
  assumes call: "consumes call"
    and enough: "\<And>m ts. 4 * length ts + needs m \<le> n \<Longrightarrow> call m ts \<noteq> Starved"
    and fuel: "4 * length ts + needs m \<le> Suc n"
  shows "run_method U call m ts \<noteq> Starved"
proof (cases m)
  case (CallAlternatives e)
  have "call (CallSequence e []) ts \<noteq> Starved"
    by (rule enough) (use fuel CallAlternatives in \<open>simp add: needs_def\<close>)
  moreover have "call (CallMore e [c]) rest \<noteq> Starved" if "call (CallSequence e []) ts = Done c rest" for c rest
    by (rule enough) (use fuel CallAlternatives consumesD [OF call that] in \<open>simp add: needs_def takes_def\<close>)
  ultimately show ?thesis
    using CallAlternatives by (auto simp: run_method_def parseAlternatives_def split: parsed.splits)
next
  case (CallMore e as)
  have "call (CallSequence e []) (tl ts) \<noteq> Starved" if "current ts = Some TokenPipe"
    by (rule enough) (use fuel CallMore that in \<open>auto simp: needs_def current_Some\<close>)
  moreover have "call (CallMore e (as @ [c])) rest \<noteq> Starved"
    if "current ts = Some TokenPipe" "call (CallSequence e []) (tl ts) = Done c rest" for c rest
    by (rule enough) (use fuel CallMore that(1) consumesD [OF call that(2)] in
        \<open>auto simp: needs_def takes_def current_Some\<close>)
  ultimately show ?thesis
    using CallMore by (auto simp: run_method_def parseMore_def split: parsed.splits)
next
  case (CallSequence e cs)
  have "call CallUnary ts \<noteq> Starved"
    by (rule enough) (use fuel CallSequence in \<open>simp add: needs_def\<close>)
  moreover have "call (CallSequence e (cs @ [c])) rest \<noteq> Starved" if "call CallUnary ts = Done c rest" for c rest
    by (rule enough) (use fuel CallSequence consumesD [OF call that] in \<open>simp add: needs_def takes_def\<close>)
  ultimately show ?thesis
    using CallSequence by (auto simp: run_method_def parseSequence_def split: parsed.splits)
next
  case CallUnary
  have "call CallPrimary ts' \<noteq> Starved" if "length ts' \<le> length ts" for ts'
    by (rule enough) (use fuel CallUnary that in \<open>simp add: needs_def\<close>)
  then show ?thesis
    using CallUnary by (auto simp: run_method_def parseUnary_def split: parsed.splits)
next
  case CallPrimary
  have "parse_after U call e f left \<noteq> Starved" if "length left \<le> length ts" for e f left
  proof -
    have "call (CallAlternatives (Some close)) rest \<noteq> Starved" if "left = t # rest" for close t rest
      by (rule enough) (use fuel CallPrimary that \<open>length left \<le> length ts\<close> in \<open>simp add: needs_def\<close>)
    then show ?thesis
      by (auto simp: parse_after_def close_group_Starved split: list.splits option.splits)
  qed
  then show ?thesis
    using CallPrimary by (auto simp: run_method_def parsePrimary_def dest: prefixes_shorter split: option.splits)
qed

lemma descend_not_Starved: "4 * length ts + needs m \<le> n \<Longrightarrow> descend U n m ts \<noteq> Starved"
proof (induction n arbitrary: m ts)
  case 0
  then show ?case by (cases m) (simp_all add: needs_def)
next
  case (Suc n)
  then show ?case
    using not_Starved_step [OF descend_consumes [of U n], of n] by simp
qed

lemma parse_not_starved: "descend U (parse_fuel ts) (CallAlternatives None) ts \<noteq> Starved"
  by (rule descend_not_Starved) (simp add: parse_fuel_def needs_def)

end
