(* ===== verification/KeywordMatch.thy ===== *)
theory KeywordMatch
  imports KeywordParser
begin

text \<open>
  Matching keyword expressions (internal/keywordmatch/match.go). \<open>eval\<close> computes the match sets
  of a tree in a sentence as lists of word positions, the way the code does; \<open>sem\<close> is the
  reference, a set of sets of positions. Theory KeywordSpec shows that they agree.
\<close>

section \<open>Match sets\<close>

type_synonym matchSet = "nat list"

datatype matchMode = Unordered | Contiguous

definition hasNonEmptyMatch :: "matchSet list \<Rightarrow> bool" where
  "hasNonEmptyMatch results = list_ex (\<lambda>r. r \<noteq> []) results"

definition overlaps :: "matchSet \<Rightarrow> matchSet \<Rightarrow> bool" where
  "overlaps left right = list_ex (\<lambda>a. list_ex (\<lambda>b. a = b) right) left"

fun minimum :: "matchSet \<Rightarrow> nat" where
  "minimum [] = 0"
| "minimum (v # vs) = fold (\<lambda>value result. if value < result then value else result) vs v"

fun maximum :: "matchSet \<Rightarrow> nat" where
  "maximum [] = 0"
| "maximum (v # vs) = fold (\<lambda>value result. if result < value then value else result) vs v"

definition fits_after :: "matchMode \<Rightarrow> matchSet \<Rightarrow> matchSet \<Rightarrow> bool" where
  "fits_after mode a b \<longleftrightarrow>
     \<not> overlaps a b \<and>
     \<not> (mode = Contiguous \<and> a \<noteq> [] \<and> b \<noteq> [] \<and> maximum a + 1 \<noteq> minimum b)"

definition combine :: "matchSet list \<Rightarrow> matchSet list \<Rightarrow> matchMode \<Rightarrow> matchSet list" where
  "combine left right mode =
     concat (map (\<lambda>a. map (\<lambda>b. a @ b) (filter (fits_after mode a) right)) left)"

fun covers_from :: "nat list \<Rightarrow> nat \<Rightarrow> matchSet \<Rightarrow> bool" where
  "covers_from seen n [] = True"
| "covers_from seen n (index # rest) =
     (if n \<le> index \<or> index \<in> set seen then False else covers_from (index # seen) n rest)"

definition coversAll :: "matchSet \<Rightarrow> nat \<Rightarrow> bool" where
  "coversAll result n \<longleftrightarrow> length result = n \<and> covers_from [] n result"

definition remap :: "matchSet \<Rightarrow> nat list \<Rightarrow> matchSet" where
  "remap values indexes = map (\<lambda>v. indexes ! v) (filter (\<lambda>v. v < length indexes) values)"

text \<open>
  \<^verbatim>\<open>setKey\<close>: the loop goes on until it has used as many numbers as the set has elements. Each
  round uses a new one when the elements are different, so as many rounds as elements are
  enough; with a repeated element the code would not end, and the model has no key.
\<close>

definition rune_text :: "int \<Rightarrow> rune" where
  "rune_text n =
     (if n < 0 \<or> 1114111 < n \<or> (55296 \<le> n \<and> n \<le> 57343) then 65533 else nat n)"

fun pick :: "matchSet \<Rightarrow> int list \<Rightarrow> int \<Rightarrow> int" where
  "pick [] used best = best"
| "pick (c # cs) used best =
     (if int c \<in> set used then pick cs used best
      else if best = -1 \<or> int c < best then pick cs used (int c)
      else pick cs used best)"

fun key_loop :: "nat \<Rightarrow> matchSet \<Rightarrow> int list \<Rightarrow> runes \<Rightarrow> runes option" where
  "key_loop fuel values used key =
     (if length values \<le> card (set used) then Some key
      else case fuel of
        0 \<Rightarrow> None
      | Suc n \<Rightarrow>
          let best = pick values used (-1)
          in key_loop n values (best # used) (key @ [rune_text (best + 1), of_char CHR '','']))"

definition setKey :: "matchSet \<Rightarrow> runes" where
  "setKey values =
     (if values = [] then runes ''_''
      else case key_loop (length values) values [] [] of Some key \<Rightarrow> key | None \<Rightarrow> [])"

fun dedup_from :: "runes list \<Rightarrow> matchSet list \<Rightarrow> matchSet list" where
  "dedup_from seen [] = []"
| "dedup_from seen (v # vs) =
     (if setKey v \<in> set seen then dedup_from seen vs else v # dedup_from (setKey v # seen) vs)"

definition deduplicate :: "matchSet list \<Rightarrow> matchSet list" where
  "deduplicate values = dedup_from [] values"

section \<open>Evaluation\<close>

definition ignored :: "termNode \<Rightarrow> bool" where
  "ignored n \<longleftrightarrow> \<not> term_forced n \<and> \<not> term_exact n \<and> isServiceWord (term_value n)"

definition term_matches :: "termNode \<Rightarrow> word \<Rightarrow> bool" where
  "term_matches n candidate \<longleftrightarrow>
     (if term_exact n then word_surface candidate = term_value n else word_morph candidate = term_morph n)"

fun forcedTerms :: "node \<Rightarrow> termNode list" where
  "forcedTerms (Term n) = (if term_forced n \<or> term_exact n then [n] else [])"
| "forcedTerms (Sequence cs) = concat (map forcedTerms cs)"
| "forcedTerms (Alternative cs) = concat (map forcedTerms cs)"
| "forcedTerms (Negative c) = forcedTerms c"
| "forcedTerms (Quoted c) = forcedTerms c"
| "forcedTerms (Bracket c) = forcedTerms c"

definition matchesForced :: "word \<Rightarrow> termNode list \<Rightarrow> bool" where
  "matchesForced candidate forced = list_ex (\<lambda>t. term_matches t candidate) forced"

definition significantWords :: "word list \<Rightarrow> termNode list \<Rightarrow> word list \<times> nat list" where
  "significantWords sentence forced =
     (let kept = filter (\<lambda>(index, candidate).
            \<not> (isServiceWord (word_surface candidate) \<and> \<not> matchesForced candidate forced))
            (enumerate 0 sentence)
      in (map snd kept, map fst kept))"

definition eval_term :: "word list \<Rightarrow> termNode \<Rightarrow> matchSet list" where
  "eval_term sentence n =
     (if ignored n then [[]]
      else map (\<lambda>i. [i]) (filter (\<lambda>i. term_matches n (sentence ! i)) [0..<length sentence]))"

text \<open>The loop over the positive children of a sequence.\<close>

fun combine_children :: "matchMode \<Rightarrow> matchSet list \<Rightarrow> matchSet list list \<Rightarrow> matchSet list" where
  "combine_children mode results [] = deduplicate results"
| "combine_children mode results (childResults # rest) =
     (if childResults = [] then []
      else let results = combine results childResults mode
           in if results = [] then [] else combine_children mode results rest)"

definition eval_quoted :: "matchSet list \<Rightarrow> nat \<Rightarrow> nat list \<Rightarrow> matchSet list" where
  "eval_quoted candidates n indexes =
     deduplicate (map (\<lambda>c. remap c indexes)
       (filter (\<lambda>c. length c = n \<and> coversAll c n) candidates))"

fun eval :: "word list \<Rightarrow> matchMode \<Rightarrow> node \<Rightarrow> matchSet list"
  and eval_children :: "word list \<Rightarrow> matchMode \<Rightarrow> node list \<Rightarrow> bool \<times> matchSet list list"
where
  "eval S mode (Term n) = eval_term S n"
| "eval S mode (Sequence cs) =
     (case eval_children S mode cs of
        (excluded, positive) \<Rightarrow>
          if excluded \<or> positive = [] then [] else combine_children mode [[]] positive)"
| "eval S mode (Alternative cs) = deduplicate (concat (map (eval S mode) cs))"
| "eval S mode (Negative c) = eval S mode c"
| "eval S mode (Quoted c) =
     (case significantWords S (forcedTerms c) of
        (filtered, indexes) \<Rightarrow>
          if filtered = [] then []
          else eval_quoted (eval filtered Unordered c) (length filtered) indexes)"
| "eval S mode (Bracket c) = deduplicate (eval S Contiguous c)"
| "eval_children S mode [] = (False, [])"
| "eval_children S mode (c # cs) =
     (case eval_children S mode cs of
        (excluded, positive) \<Rightarrow>
          (case c of
             Negative e \<Rightarrow> (hasNonEmptyMatch (eval S Unordered e) \<or> excluded, positive)
           | _ \<Rightarrow> (excluded, eval S mode c # positive)))"

section \<open>Expressions\<close>

definition Match :: "unicode \<Rightarrow> runes \<Rightarrow> runes \<Rightarrow> bool" where
  "Match U expression t =
     (case parse U expression of
        None \<Rightarrow> False
      | Some root \<Rightarrow> list_ex (\<lambda>s. hasNonEmptyMatch (eval s Unordered root)) (tokenizeSentences U t))"

definition MatchesAny :: "unicode \<Rightarrow> runes list \<Rightarrow> runes \<Rightarrow> bool" where
  "MatchesAny U expressions t = list_ex (\<lambda>e. Match U e t) expressions"

fun matchNegativeOnly :: "word list \<Rightarrow> node \<Rightarrow> bool \<times> bool"
  and matchNegativeChildren :: "word list \<Rightarrow> bool \<Rightarrow> node list \<Rightarrow> bool \<times> bool"
where
  "matchNegativeOnly S (Negative c) = (True, hasNonEmptyMatch (eval S Unordered c))"
| "matchNegativeOnly S (Sequence cs) =
     (if cs = [] then (False, False) else matchNegativeChildren S False cs)"
| "matchNegativeOnly S (Alternative cs) =
     (if cs = [] then (False, False) else matchNegativeChildren S False cs)"
| "matchNegativeOnly S _ = (False, False)"
| "matchNegativeChildren S matched [] = (True, matched)"
| "matchNegativeChildren S matched (c # cs) =
     (case matchNegativeOnly S c of
        (negativeOnly, childMatched) \<Rightarrow>
          if \<not> negativeOnly then (False, False)
          else matchNegativeChildren S (matched \<or> childMatched) cs)"

definition matchStandaloneExclusion :: "unicode \<Rightarrow> runes \<Rightarrow> runes \<Rightarrow> bool" where
  "matchStandaloneExclusion U expression t =
     (case parse U expression of
        None \<Rightarrow> False
      | Some root \<Rightarrow> list_ex (\<lambda>s. matchNegativeOnly s root = (True, True)) (tokenizeSentences U t))"

definition MatchesAnyExclusion :: "unicode \<Rightarrow> runes list \<Rightarrow> runes \<Rightarrow> bool" where
  "MatchesAnyExclusion U expressions t =
     list_ex (\<lambda>e. Match U e t \<or> matchStandaloneExclusion U e t) expressions"

end
