(* ===== verification/KeywordSpec.thy ===== *)
theory KeywordSpec
  imports KeywordMatch "HOL-Library.Multiset"
begin

text \<open>
  What a keyword expression means, and that internal/keywordmatch/match.go computes it. A
  sentence gives every tree a set of match sets, the sets of word positions it covers; the code
  keeps them as lists of lists and removes repetitions by a text key. \<open>eval_sem\<close> is the
  refinement; the sections after it read the meaning of the common shapes of expression off it.
\<close>

section \<open>Reference semantics\<close>

definition adjacent :: "matchMode \<Rightarrow> nat set \<Rightarrow> nat set \<Rightarrow> bool" where
  "adjacent mode a b \<longleftrightarrow> (mode = Contiguous \<and> a \<noteq> {} \<and> b \<noteq> {} \<longrightarrow> Max a + 1 = Min b)"

definition join :: "matchMode \<Rightarrow> nat set set \<Rightarrow> nat set set \<Rightarrow> nat set set" where
  "join mode A B = {a \<union> b | a b. a \<in> A \<and> b \<in> B \<and> a \<inter> b = {} \<and> adjacent mode a b}"

fun is_negative :: "node \<Rightarrow> bool" where
  "is_negative (Negative c) = True"
| "is_negative _ = False"

definition sem_term :: "word list \<Rightarrow> termNode \<Rightarrow> nat set set" where
  "sem_term S n =
     (if ignored n then {{}} else {{i} | i. i < length S \<and> term_matches n (S ! i)})"

definition sem_quoted :: "nat set set \<Rightarrow> nat list \<Rightarrow> nat set set" where
  "sem_quoted A indexes = {M. M = set indexes \<and> indexes \<noteq> [] \<and> {..<length indexes} \<in> A}"

fun sem :: "word list \<Rightarrow> matchMode \<Rightarrow> node \<Rightarrow> nat set set"
  and sem_children :: "word list \<Rightarrow> matchMode \<Rightarrow> node list \<Rightarrow> bool \<times> nat set set list"
where
  "sem S mode (Term n) = sem_term S n"
| "sem S mode (Sequence cs) =
     (let (excluded, positive) = sem_children S mode cs
      in if excluded \<or> positive = [] then {} else foldl (join mode) {{}} positive)"
| "sem S mode (Alternative cs) = \<Union> (set (map (sem S mode) cs))"
| "sem S mode (Negative c) = sem S mode c"
| "sem S mode (Quoted c) =
     (let (filtered, indexes) = significantWords S (forcedTerms c)
      in sem_quoted (sem filtered Unordered c) indexes)"
| "sem S mode (Bracket c) = sem S Contiguous c"
| "sem_children S mode [] = (False, [])"
| "sem_children S mode (c # cs) =
     (let (excluded, positive) = sem_children S mode cs
      in case c of
           Negative e \<Rightarrow> (sem S Unordered e - {{}} \<noteq> {} \<or> excluded, positive)
         | _ \<Rightarrow> (excluded, sem S mode c # positive))"

section \<open>Match sets as sets\<close>

abbreviation sets :: "matchSet list \<Rightarrow> nat set set" where
  "sets R \<equiv> set ` set R"

definition within :: "nat \<Rightarrow> matchSet list \<Rightarrow> bool" where
  "within n R \<longleftrightarrow> (\<forall>r \<in> set R. distinct r \<and> set r \<subseteq> {..<n})"

lemma within_simps [simp]:
  "within n []"
  "within n (r # R) \<longleftrightarrow> distinct r \<and> set r \<subseteq> {..<n} \<and> within n R"
  "within n (A @ B) \<longleftrightarrow> within n A \<and> within n B"
  by (auto simp: within_def)

lemma within_mono: "within n R \<Longrightarrow> set Q \<subseteq> set R \<Longrightarrow> within n Q"
  by (auto simp: within_def)

lemma minimum_Min: "vs \<noteq> [] \<Longrightarrow> minimum vs = Min (set vs)"
proof (cases vs)
  case (Cons v rest)
  have "(\<lambda>value result. if value < result then value else result) = (min :: nat \<Rightarrow> nat \<Rightarrow> nat)"
    by (auto simp: fun_eq_iff min_def)
  then show ?thesis using Cons by (simp add: Min.set_eq_fold [symmetric] del: list.set)
qed simp

lemma maximum_Max: "vs \<noteq> [] \<Longrightarrow> maximum vs = Max (set vs)"
proof (cases vs)
  case (Cons v rest)
  have "(\<lambda>value result. if result < value then value else result) = (max :: nat \<Rightarrow> nat \<Rightarrow> nat)"
    by (auto simp: fun_eq_iff max_def)
  then show ?thesis using Cons by (simp add: Max.set_eq_fold [symmetric] del: list.set)
qed simp

lemma overlaps_iff: "overlaps a b \<longleftrightarrow> set a \<inter> set b \<noteq> {}"
  by (auto simp: overlaps_def list_ex_iff)

lemma fits_after_iff: "fits_after mode a b \<longleftrightarrow> set a \<inter> set b = {} \<and> adjacent mode (set a) (set b)"
  by (auto simp: fits_after_def adjacent_def overlaps_iff minimum_Min maximum_Max)

lemma hasNonEmptyMatch_iff: "hasNonEmptyMatch R \<longleftrightarrow> sets R - {{}} \<noteq> {}"
  by (auto simp: hasNonEmptyMatch_def list_ex_iff)

lemma set_combine:
  "set (combine L R mode) = {a @ b | a b. a \<in> set L \<and> b \<in> set R \<and> fits_after mode a b}"
  by (auto simp: combine_def)

lemma sets_combine: "sets (combine L R mode) = join mode (sets L) (sets R)"
proof -
  have "sets (combine L R mode) =
     {set (a @ b) | a b. a \<in> set L \<and> b \<in> set R \<and> fits_after mode a b}"
    unfolding set_combine by blast
  also have "\<dots> = join mode (sets L) (sets R)"
    unfolding join_def fits_after_iff set_append by blast
  finally show ?thesis .
qed

lemma within_combine: "within n L \<Longrightarrow> within n R \<Longrightarrow> within n (combine L R mode)"
  unfolding within_def set_combine fits_after_iff by (auto dest!: bspec dest: subsetD)

section \<open>The key of a match set\<close>

lemma pick_Min:
  assumes "-1 \<le> best"
  shows "pick cs used best =
    (let C = int ` set cs - set used
     in if best = -1 then if C = {} then -1 else Min C else Min (insert best C))"
  using assms
proof (induction cs arbitrary: best)
  case Nil
  then show ?case by simp
next
  case (Cons c cs)
  have [simp]: "int c \<noteq> -1" by simp
  show ?case
  proof (cases "int c \<in> set used")
    case True
    then show ?thesis using Cons by (simp add: insert_Diff_if Let_def)
  next
    case False
    let ?C = "int ` set cs - set used"
    have C: "int ` set (c # cs) - set used = insert (int c) ?C"
      using False by auto
    have drop: "Min (insert a (insert b ?C)) = Min (insert b ?C)" if "b \<le> a" for a b :: int
    proof -
      have "Min (insert b ?C) \<le> a" by (rule order_trans [OF Min_le that]) simp_all
      then show ?thesis by (subst Min_insert) (simp_all add: min.absorb2 del: Min_insert)
    qed
    consider "best = -1" | "best \<noteq> -1" "int c < best" | "best \<noteq> -1" "best \<le> int c" by linarith
    then show ?thesis
    proof cases
      case 1
      then show ?thesis using Cons.IH [of "int c"] False unfolding C by (simp add: Let_def)
    next
      case 2
      then show ?thesis
        using Cons.IH [of "int c"] False drop [of "int c" best] unfolding C by (simp add: Let_def)
    next
      case 3
      then show ?thesis
        using Cons.IH [of best] Cons.prems False drop [of best "int c"] unfolding C
        by (simp add: Let_def insert_commute)
    qed
  qed
qed

definition key_of :: "nat set \<Rightarrow> runes" where
  "key_of A = concat (map (\<lambda>i. [rune_text (int i + 1), of_char CHR '','']) (sorted_list_of_set A))"

lemma key_loop_key_of:
  assumes "distinct v" "set used \<subseteq> int ` set v" "card (set v - nat ` set used) \<le> fuel"
  shows "key_loop fuel v used key = Some (key @ key_of (set v - nat ` set used))"
  using assms
proof (induction fuel arbitrary: used key)
  case 0
  then have sub: "set v \<subseteq> nat ` set used" by simp
  then have none: "set v - nat ` set used = {}" by blast
  from sub have "card (set v) \<le> card (set used)"
    by (meson List.finite_set card_image_le card_mono finite_imageI le_trans)
  moreover have "card (set v) = length v" using 0 by (simp add: distinct_card)
  ultimately show ?case by (simp add: key_of_def none)
next
  case (Suc fuel)
  let ?A = "set v - nat ` set used"
  have inj: "inj_on nat (set used)" 
    by (rule inj_on_inverseI [where g = int]) (use Suc.prems(2) in auto)
  have sub: "nat ` set used \<subseteq> set v" using Suc.prems(2) by auto
  have card: "card ?A = length v - card (set used)"
    using sub inj Suc.prems(1) by (simp add: card_Diff_subset card_image distinct_card)
  show ?case
  proof (cases "?A = {}")
    case True
    have "length v \<le> card (set used)" using card unfolding True by simp
    then show ?thesis unfolding True by (simp add: key_of_def)
  next
    case False
    then have more: "\<not> length v \<le> card (set used)" using card by (metis card_gt_0_iff finite_Diff List.finite_set diff_is_0_eq not_gr_zero)
    have img: "int ` set v - set used = int ` ?A"
      using Suc.prems(2) by force
    have best: "pick v used (-1) = int (Min ?A)"
      using False pick_Min [of "-1" v used] img
      by (simp add: Let_def mono_Min_commute [symmetric] mono_def)
    have Min: "Min ?A \<in> ?A" using False by (intro Min_in) auto
    have rest: "set v - nat ` set (int (Min ?A) # used) = ?A - {Min ?A}" by auto
    have "key_loop fuel v (int (Min ?A) # used) (key @ [rune_text (int (Min ?A) + 1), of_char CHR '',''])
        = Some ((key @ [rune_text (int (Min ?A) + 1), of_char CHR '','']) @ key_of (?A - {Min ?A}))"
      unfolding rest [symmetric]
    proof (rule Suc.IH)
      show "distinct v" by (rule Suc.prems)
      show "set (int (Min ?A) # used) \<subseteq> int ` set v" using Suc.prems(2) Min by auto
      show "card (set v - nat ` set (int (Min ?A) # used)) \<le> fuel"
        unfolding rest using Suc.prems(3) Min by simp
    qed
    moreover have "key_of ?A = [rune_text (int (Min ?A) + 1), of_char CHR '',''] @ key_of (?A - {Min ?A})"
      using False by (simp add: key_of_def sorted_list_of_set_nonempty)
    ultimately show ?thesis using more best by (simp add: Let_def)
  qed
qed

lemma setKey_key_of:
  "distinct v \<Longrightarrow> setKey v = (if v = [] then runes ''_'' else key_of (set v))"
  using key_loop_key_of [of v "[]" "length v" "[]"]
  by (simp add: setKey_def card_length del: key_loop.simps)

lemma rune_text_small: "i < 55295 \<Longrightarrow> rune_text (int i + 1) = Suc i"
  by (simp add: rune_text_def)

lemma concat_pairs_inj:
  assumes "concat (map (\<lambda>i. [f i, c]) xs) = concat (map (\<lambda>i. [f i, c]) ys)"
    and "inj_on f (set xs \<union> set ys)"
  shows "xs = ys"
  using assms
proof (induction xs arbitrary: ys)
  case Nil
  then show ?case by (cases ys) auto
next
  case (Cons x xs)
  then obtain y rest where ys: "ys = y # rest" by (cases ys) auto
  have "f x = f y" and tail: "concat (map (\<lambda>i. [f i, c]) xs) = concat (map (\<lambda>i. [f i, c]) rest)"
    using Cons.prems(1) ys by simp_all
  moreover have "x = y" by (rule inj_onD [OF Cons.prems(2) \<open>f x = f y\<close>]) (simp_all add: ys)
  moreover have "inj_on f (set xs \<union> set rest)"
    using Cons.prems(2) ys by (auto intro: inj_on_subset)
  ultimately show ?case using Cons.IH ys by simp
qed

lemma key_of_inj:
  assumes "key_of A = key_of B" "A \<subseteq> {..<55295}" "B \<subseteq> {..<55295}"
  shows "A = B"
proof -
  have fin: "finite A" "finite B" using assms by (auto intro: finite_subset)
  have "inj_on (\<lambda>i. rune_text (int i + 1)) (A \<union> B)"
    using assms by (auto intro!: inj_onI simp: rune_text_small subset_iff)
  then have "sorted_list_of_set A = sorted_list_of_set B"
    using concat_pairs_inj [of "\<lambda>i. rune_text (int i + 1)"] assms(1) fin by (simp add: key_of_def)
  then show ?thesis using fin by (metis set_sorted_list_of_set)
qed

lemma length_key_of: "length (key_of A) = 2 * card A"
  by (simp add: key_of_def length_concat comp_def sum_list_triv)

lemma setKey_eq_iff:
  assumes "distinct v" "distinct w" "set v \<subseteq> {..<55295}" "set w \<subseteq> {..<55295}"
  shows "setKey v = setKey w \<longleftrightarrow> set v = set w"
proof -
  have odd: "key_of A \<noteq> runes ''_''" for A
    using length_key_of [of A] by (auto simp: runes_def)
  show ?thesis
    using assms odd [of "set v"] odd [of "set w"] key_of_inj [of "set v" "set w"]
    by (cases "v = []"; cases "w = []") (auto simp: setKey_key_of)
qed

lemma set_dedup_from: "set (dedup_from seen vs) \<subseteq> set vs"
  by (induction vs arbitrary: seen) auto

lemma keys_dedup_from: "setKey ` set (dedup_from seen vs) = setKey ` set vs - set seen"
  by (induction vs arbitrary: seen) auto

lemma within_deduplicate: "within n R \<Longrightarrow> within n (deduplicate R)"
  unfolding deduplicate_def by (rule within_mono [OF _ set_dedup_from])

lemma sets_deduplicate:
  assumes "within n R" "n \<le> 55295"
  shows "sets (deduplicate R) = sets R"
proof
  show "sets (deduplicate R) \<subseteq> sets R"
    using set_dedup_from by (auto simp: deduplicate_def)
  show "sets R \<subseteq> sets (deduplicate R)"
  proof
    fix M
    assume "M \<in> sets R"
    then obtain v where v: "v \<in> set R" "M = set v" by auto
    then have "setKey v \<in> setKey ` set (deduplicate R)"
      by (simp add: deduplicate_def keys_dedup_from)
    then obtain w where w: "w \<in> set (deduplicate R)" "setKey v = setKey w" by auto
    then have "w \<in> set R" using set_dedup_from by (auto simp: deduplicate_def)
    then have "set v = set w"
      using assms v w by (subst setKey_eq_iff [symmetric]) (fastforce simp: within_def)+
    then show "M \<in> sets (deduplicate R)" using v w by auto
  qed
qed

lemma distinct_dedup_from: "distinct (map setKey (dedup_from seen vs))"
proof (induction vs arbitrary: seen)
  case (Cons v vs)
  then show ?case
    using keys_dedup_from [of "setKey v # seen" vs] by auto
qed simp

text \<open>No match set is kept twice, whatever the order of its positions.\<close>

lemma distinct_deduplicate:
  assumes "within n R" "n \<le> 55295"
  shows "distinct (map set (deduplicate R))"
proof -
  have "inj_on set (set (deduplicate R))"
  proof (rule inj_onI)
    fix v w
    assume vw: "v \<in> set (deduplicate R)" "w \<in> set (deduplicate R)" "set v = set w"
    have "setKey v = setKey w"
      by (subst setKey_eq_iff) (use within_deduplicate [OF assms(1)] assms(2) vw in \<open>fastforce simp: within_def\<close>)+
    then show "v = w"
      using distinct_dedup_from [of "[]" R] vw by (auto simp: deduplicate_def distinct_map dest: inj_onD)
  qed
  moreover have "distinct (deduplicate R)"
    using distinct_dedup_from [of "[]" R] by (simp add: deduplicate_def distinct_map)
  ultimately show ?thesis by (simp add: distinct_map)
qed

section \<open>Evaluation computes the reference semantics\<close>

lemma coversAll_iff: "coversAll c n \<longleftrightarrow> length c = n \<and> distinct c \<and> set c = {..<n}"
proof -
  have "covers_from seen n c \<longleftrightarrow> distinct c \<and> set c \<inter> set seen = {} \<and> set c \<subseteq> {..<n}" for seen
    by (induction c arbitrary: seen) (auto simp: not_le)
  then have "coversAll c n \<longleftrightarrow> length c = n \<and> distinct c \<and> set c \<subseteq> {..<n}"
    by (auto simp: coversAll_def)
  moreover have "set c = {..<n}" if "length c = n" "distinct c" "set c \<subseteq> {..<n}"
    using that by (intro card_subset_eq) (simp_all add: distinct_card)
  ultimately show ?thesis by auto
qed

lemma remap_all:
  "set c \<subseteq> {..<length indexes} \<Longrightarrow> remap c indexes = map (\<lambda>v. indexes ! v) c"
  by (simp add: remap_def filter_id_conv subset_iff)

lemma set_remap_cover: "set c = {..<length indexes} \<Longrightarrow> set (remap c indexes) = set indexes"
  by (simp add: remap_all lessThan_atLeast0 nth_image)

lemma distinct_remap:
  "distinct c \<Longrightarrow> set c = {..<length indexes} \<Longrightarrow> distinct indexes \<Longrightarrow> distinct (remap c indexes)"
  by (simp add: remap_all distinct_map inj_on_nth)

lemma significantWords_shape:
  assumes "significantWords S forced = (filtered, indexes)"
  shows "length filtered = length indexes" "distinct indexes" "set indexes \<subseteq> {..<length S}"
    "length filtered \<le> length S" "list_all2 (\<lambda>w i. S ! i = w) filtered indexes"
proof -
  let ?P = "\<lambda>(index, candidate). \<not> (isServiceWord (word_surface candidate) \<and> \<not> matchesForced candidate forced)"
  have def: "filtered = map snd (filter ?P (enumerate 0 S))" "indexes = map fst (filter ?P (enumerate 0 S))"
    using assms by (simp_all add: significantWords_def Let_def)
  show "length filtered = length indexes" by (simp add: def)
  show "distinct indexes" unfolding def by (rule distinct_map_filter) simp
  show "set indexes \<subseteq> {..<length S}" unfolding def by (auto simp: in_set_enumerate_eq)
  show "length filtered \<le> length S"
    using length_filter_le [of ?P "enumerate 0 S"] by (simp add: def)
  show "list_all2 (\<lambda>w i. S ! i = w) filtered indexes"
    unfolding def list_all2_map1 list_all2_map2 list_all2_same
  proof
    fix p
    assume "p \<in> set (filter ?P (enumerate 0 S))"
    then have "p \<in> set (enumerate 0 S)" by simp
    then show "S ! fst p = snd p" unfolding in_set_enumerate_eq by simp
  qed
qed

lemma within_eval_term: "within (length S) (eval_term S n)"
  by (auto simp: eval_term_def within_def)

lemma sets_eval_term: "sets (eval_term S n) = sem_term S n"
  by (auto simp: eval_term_def sem_term_def image_iff)

lemma combine_children_spec:
  assumes "within n results" "list_all (within n) positive" "n \<le> 55295"
  shows "within n (combine_children mode results positive)"
    "sets (combine_children mode results positive) = foldl (join mode) (sets results) (map sets positive)"
proof -
  have empty: "foldl (join mode) {} As = {}" for As by (induction As) (simp_all add: join_def)
  have none: "join mode A {} = {}" for A by (simp add: join_def)
  have "within n (combine_children mode results positive) \<and>
    sets (combine_children mode results positive) = foldl (join mode) (sets results) (map sets positive)"
    using assms(1, 2)
  proof (induction positive arbitrary: results)
    case Nil
    then show ?case using assms(3) by (simp add: within_deduplicate sets_deduplicate)
  next
    case (Cons childResults rest)
    then have "within n (combine results childResults mode)" by (simp add: within_combine)
    then have IH: "within n (combine_children mode (combine results childResults mode) rest)"
      "sets (combine_children mode (combine results childResults mode) rest)
        = foldl (join mode) (join mode (sets results) (sets childResults)) (map sets rest)"
      using Cons.IH [of "combine results childResults mode"] Cons.prems by (simp_all add: sets_combine)
    have "join mode (sets results) (sets childResults) = {}" if "combine results childResults mode = []"
      using sets_combine [of results childResults mode] that by simp
    then show ?case using IH by (auto simp: Let_def empty none)
  qed
  then show "within n (combine_children mode results positive)"
    "sets (combine_children mode results positive) = foldl (join mode) (sets results) (map sets positive)"
    by simp_all
qed

lemma eval_quoted_spec:
  assumes "within (length indexes) candidates" "distinct indexes" "set indexes \<subseteq> {..<n}" "n \<le> 55295"
    "indexes \<noteq> []"
  shows "within n (eval_quoted candidates (length indexes) indexes)"
    "sets (eval_quoted candidates (length indexes) indexes) = sem_quoted (sets candidates) indexes"
proof -
  let ?kept = "filter (\<lambda>c. length c = length indexes \<and> coversAll c (length indexes)) candidates"
  have in': "within n (map (\<lambda>c. remap c indexes) ?kept)"
    using assms(2, 3)
    by (auto simp: within_def coversAll_iff set_remap_cover distinct_remap)
  then show "within n (eval_quoted candidates (length indexes) indexes)"
    by (simp add: eval_quoted_def within_deduplicate)
  have "sets (eval_quoted candidates (length indexes) indexes) = sets (map (\<lambda>c. remap c indexes) ?kept)"
    unfolding eval_quoted_def using in' assms(4) by (rule sets_deduplicate)
  also have "\<dots> = {M. \<exists>c \<in> set candidates. set c = {..<length indexes} \<and> M = set indexes}"
  proof -
    have covers: "length c = length indexes \<and> coversAll c (length indexes) \<longleftrightarrow> set c = {..<length indexes}"
      if "c \<in> set candidates" for c
    proof -
      have "length c = card (set c)" "distinct c"
        using assms(1) that by (auto simp: within_def distinct_card)
      then show ?thesis by (metis card_lessThan coversAll_iff)
    qed
    have kept: "set ?kept = {c \<in> set candidates. set c = {..<length indexes}}"
      using covers by auto
    have "sets (map (\<lambda>c. remap c indexes) ?kept) = (\<lambda>c. set (remap c indexes)) ` set ?kept"
      by (simp add: image_image del: set_filter)
    also have "\<dots> = (\<lambda>c. set indexes) ` set ?kept"
      unfolding kept by (rule image_cong [OF refl]) (simp add: set_remap_cover)
    finally show ?thesis unfolding kept by blast
  qed
  also have "\<dots> = sem_quoted (sets candidates) indexes"
    using assms(5) by (auto simp: sem_quoted_def image_iff)
  finally show "sets (eval_quoted candidates (length indexes) indexes) = sem_quoted (sets candidates) indexes" .
qed


theorem eval_sem:
  shows "length S \<le> 55295 \<Longrightarrow> within (length S) (eval S mode n) \<and> sets (eval S mode n) = sem S mode n"
    and "length S \<le> 55295 \<Longrightarrow>
      list_all (within (length S)) (snd (eval_children S mode cs)) \<and>
      sem_children S mode cs =
        (fst (eval_children S mode cs), map sets (snd (eval_children S mode cs)))"
proof (induction S mode n and S mode cs rule: eval_eval_children.induct)
  case (1 S mode n)
  then show ?case by (simp add: within_eval_term sets_eval_term)
next
  case (2 S mode cs)
  obtain excluded positive where children: "eval_children S mode cs = (excluded, positive)" by fastforce
  then have "list_all (within (length S)) positive" "sem_children S mode cs = (excluded, map sets positive)"
    using 2 by simp_all
  then show ?case
    using 2 combine_children_spec [of "length S" "[[]]" positive mode] by (simp add: children)
next
  case (3 S mode cs)
  have all: "within (length S) (concat (map (eval S mode) cs))"
    using 3 by (auto simp: within_def)
  have "sets (concat (map (eval S mode) cs)) = (\<Union>c \<in> set cs. sets (eval S mode c))" by auto
  also have "\<dots> = (\<Union>c \<in> set cs. sem S mode c)" using 3 by simp
  finally show ?case using 3 all by (simp add: within_deduplicate sets_deduplicate)
next
  case (4 S mode c)
  then show ?case by simp
next
  case (5 S mode c)
  obtain filtered indexes where words: "significantWords S (forcedTerms c) = (filtered, indexes)" by fastforce
  note shape = significantWords_shape [OF words]
  have IH: "within (length indexes) (eval filtered Unordered c)"
    "sets (eval filtered Unordered c) = sem filtered Unordered c" if "filtered \<noteq> []"
    using 5 words that shape by simp_all
  show ?case
  proof (cases "filtered = []")
    case True
    then show ?thesis using words shape by (simp add: sem_quoted_def)
  next
    case False
    then have "indexes \<noteq> []" using shape(1) by auto
    then show ?thesis
      using eval_quoted_spec [OF IH(1) shape(2,3)] IH(2) False 5 words shape(1) by simp
  qed
next
  case (6 S mode c)
  then show ?case
    using sets_deduplicate [of "length S" "eval S Contiguous c"] by (simp add: within_deduplicate)
next
  case (7 S mode)
  then show ?case by simp
next
  case (8 S mode c cs)
  obtain excluded positive where children: "eval_children S mode cs = (excluded, positive)" by fastforce
  with 8 show ?case by (cases c) (simp_all add: hasNonEmptyMatch_iff)
qed

lemmas eval_within = eval_sem(1) [THEN conjunct1]
  and sets_eval = eval_sem(1) [THEN conjunct2]

lemma Match_sem:
  assumes "parse U expression = Some root"
    and "list_all (\<lambda>s. length s \<le> 55295) (tokenizeSentences U t)"
  shows "Match U expression t \<longleftrightarrow>
    (\<exists>s \<in> set (tokenizeSentences U t). \<exists>M \<in> sem s Unordered root. M \<noteq> {})"
  using assms by (auto simp: Match_def hasNonEmptyMatch_iff sets_eval list_ex_iff list_all_iff)

section \<open>Reading the common shapes of expression\<close>

text \<open>
  A plain expression, words side by side, gives every word that counts a position of its own; a
  bracketed one asks for the words in a row; a quoted one asks for the words of the sentence, all
  of them and nothing else.
\<close>

definition counted :: "termNode list \<Rightarrow> termNode list" where
  "counted ts = filter (\<lambda>t. \<not> ignored t) ts"

definition placed :: "word list \<Rightarrow> termNode list \<Rightarrow> nat list \<Rightarrow> bool" where
  "placed S ts ps \<longleftrightarrow>
     distinct ps \<and> list_all2 (\<lambda>t p. p < length S \<and> term_matches t (S ! p)) ts ps"

abbreviation phrase :: "termNode list \<Rightarrow> node" where
  "phrase ts \<equiv> Sequence (map Term ts)"

lemma sem_children_terms: "sem_children S mode (map Term ts) = (False, map (sem_term S) ts)"
  by (induction ts) simp_all

lemma sem_phrase:
  "ts \<noteq> [] \<Longrightarrow> sem S mode (phrase ts) = foldl (join mode) {{}} (map (sem_term S) ts)"
  by (simp add: sem_children_terms)

lemma join_ignored: "join mode A {{}} = A"
  by (auto simp: join_def adjacent_def)

lemma foldl_counted:
  "foldl (join mode) A (map (sem_term S) (counted ts)) = foldl (join mode) A (map (sem_term S) ts)"
  by (induction ts arbitrary: A) (simp_all add: counted_def sem_term_def join_ignored)

lemma list_all_counted: "list_all (\<lambda>t. \<not> ignored t) (counted ts)"
  by (simp add: counted_def list_all_iff)

lemma collect_through:
  "(\<And>x. P x \<longleftrightarrow> (\<exists>a b. x = g a b \<and> Q a b)) \<Longrightarrow> {f (g a b) | a b. Q a b} = {f x | x. P x}"
  by auto

lemma join_singletons:
  "join mode {F k | k. P k} {{i} | i. Q i} =
     {F k \<union> {i} | k i. (P k \<and> Q i) \<and> F k \<inter> {i} = {} \<and> adjacent mode (F k) {i}}"
  unfolding join_def by blast

lemma list_all2_snoc_left:
  "list_all2 P (xs @ [x]) zs \<longleftrightarrow> (\<exists>ys y. zs = ys @ [y] \<and> list_all2 P xs ys \<and> P x y)"
proof (cases zs rule: rev_cases)
  case (snoc ys y)
  then show ?thesis
    by (subst list_all2_rev [symmetric]) (simp add: list_all2_rev conj_commute)
qed simp

lemma join_term:
  "\<not> ignored t \<Longrightarrow> join Unordered A (sem_term S t) =
     {insert i a | i a. a \<in> A \<and> i \<notin> a \<and> i < length S \<and> term_matches t (S ! i)}"
  by (auto simp: join_def sem_term_def adjacent_def)

lemma foldl_placed:
  assumes "list_all (\<lambda>t. \<not> ignored t) ts"
  shows "foldl (join Unordered) {{}} (map (sem_term S) ts) = {set ps | ps. placed S ts ps}"
  using assms
proof (induction ts rule: rev_induct)
  case Nil
  then show ?case by (simp add: placed_def)
next
  case (snoc t ts)
  have "foldl (join Unordered) {{}} (map (sem_term S) (ts @ [t])) =
      {set (qs @ [i]) | qs i. placed S ts qs \<and> i \<notin> set qs \<and> i < length S \<and> term_matches t (S ! i)}"
    using snoc by (auto simp: join_term)
  also have "\<dots> = {set ps | ps. placed S (ts @ [t]) ps}"
  proof -
    have "placed S (ts @ [t]) ps \<longleftrightarrow>
        (\<exists>qs i. ps = qs @ [i] \<and> placed S ts qs \<and> i \<notin> set qs \<and> i < length S \<and> term_matches t (S ! i))" for ps
      by (auto simp: placed_def list_all2_snoc_left)
    then show ?thesis by (rule collect_through)
  qed
  finally show ?case .
qed

theorem sem_plain:
  "ts \<noteq> [] \<Longrightarrow> sem S Unordered (phrase ts) = {set ps | ps. placed S (counted ts) ps}"
  unfolding foldl_placed [OF list_all_counted, symmetric] foldl_counted by (rule sem_phrase)

definition in_a_row :: "word list \<Rightarrow> termNode list \<Rightarrow> nat \<Rightarrow> bool" where
  "in_a_row S ts k \<longleftrightarrow>
     k + length ts \<le> length S \<and> list_all2 term_matches ts (take (length ts) (drop k S))"

lemma in_a_row_snoc:
  "in_a_row S (ts @ [t]) k \<longleftrightarrow>
     in_a_row S ts k \<and> k + length ts < length S \<and> term_matches t (S ! (k + length ts))"
proof (cases "k + length ts < length S")
  case True
  then have "take (Suc (length ts)) (drop k S) = take (length ts) (drop k S) @ [S ! (k + length ts)]"
    by (simp add: take_Suc_conv_app_nth)
  then show ?thesis using True by (auto simp: in_a_row_def list_all2_snoc_left)
qed (simp add: in_a_row_def)

lemma Max_run: "0 < n \<Longrightarrow> Max {k..<k + n} + 1 = k + (n :: nat)"
  by (subst Max_eqI [of _ "k + n - 1"]) auto

lemma foldl_in_a_row:
  assumes "list_all (\<lambda>t. \<not> ignored t) ts"
  shows "foldl (join Contiguous) {{}} (map (sem_term S) ts) =
    {{k..<k + length ts} | k. in_a_row S ts k}"
  using assms
proof (induction ts rule: rev_induct)
  case Nil
  then show ?case by (auto simp: in_a_row_def)
next
  case (snoc t ts)
  let ?n = "length ts"
  let ?P = "\<lambda>k i. in_a_row S ts k \<and> (i < length S \<and> term_matches t (S ! i))"
  have here: "{k..<k + ?n} \<union> {k + ?n} = {k..<k + length (ts @ [t])}" for k
    by auto
  have "foldl (join Contiguous) {{}} (map (sem_term S) (ts @ [t])) =
      join Contiguous {{k..<k + ?n} | k. in_a_row S ts k} (sem_term S t)"
    using snoc by simp
  also have "\<dots> = {{k..<k + ?n} \<union> {i} | k i. ?P k i
      \<and> {k..<k + ?n} \<inter> {i} = {} \<and> adjacent Contiguous {k..<k + ?n} {i}}"
    using snoc.prems by (simp add: sem_term_def join_singletons del: Int_insert_right)
  also have "\<dots> = {{k..<k + ?n} \<union> {k + ?n} | k. ?P k (k + ?n)}"
  proof (cases "ts = []")
    case True
    then show ?thesis by (auto simp: adjacent_def in_a_row_def intro: less_imp_le)
  next
    case False
    then have "{k..<k + ?n} \<inter> {i} = {} \<and> adjacent Contiguous {k..<k + ?n} {i} \<longleftrightarrow> i = k + ?n" for k i
      using Max_run [of ?n k] by (auto simp: adjacent_def)
    then show ?thesis by simp
  qed
  also have "\<dots> = {{k..<k + length (ts @ [t])} | k. in_a_row S (ts @ [t]) k}"
    unfolding here in_a_row_snoc by simp
  finally show ?case .
qed

theorem sem_bracket:
  "ts \<noteq> [] \<Longrightarrow> sem S mode (Bracket (phrase ts)) =
     {{k..<k + length (counted ts)} | k. in_a_row S (counted ts) k}"
  unfolding foldl_in_a_row [OF list_all_counted, symmetric] foldl_counted sem.simps(6)
  by (rule sem_phrase)


lemma image_mset_eq_mset: "image_mset f M = mset ws \<Longrightarrow> \<exists>ps. mset ps = M \<and> map f ps = ws"
proof (induction ws arbitrary: M)
  case Nil
  then show ?case by simp
next
  case (Cons w ws)
  then have "image_mset f M = add_mset w (mset ws)" by simp
  then obtain N p where N: "M = add_mset p N" "image_mset f N = mset ws" "f p = w"
    by (metis msed_map_invR)
  obtain ps where ps: "mset ps = N" "map f ps = ws"
    using Cons.IH [OF N(2)] by blast
  have "mset (p # ps) = M" unfolding N(1) mset.simps ps(1) ..
  moreover have "map f (p # ps) = w # ws" unfolding list.map N(3) ps(2) ..
  ultimately show ?case by (intro exI conjI)
qed

lemma placed_everywhere:
  "(\<exists>ps. placed S ts ps \<and> set ps = {..<length S}) \<longleftrightarrow>
   (\<exists>ws. mset ws = mset S \<and> list_all2 term_matches ts ws)"
proof
  assume "\<exists>ps. placed S ts ps \<and> set ps = {..<length S}"
  then obtain ps where ps: "placed S ts ps" "set ps = {..<length S}" by blast
  then have "mset ps = mset [0..<length S]"
    using set_eq_iff_mset_eq_distinct [of ps "[0..<length S]"]
    by (simp add: placed_def lessThan_atLeast0)
  then have "mset (map (nth S) ps) = mset (map (nth S) [0..<length S])" by simp
  then have "mset (map (nth S) ps) = mset S" by (simp only: map_nth)
  moreover have "list_all2 term_matches ts (map (nth S) ps)"
    using ps(1) by (auto simp: placed_def list_all2_map2 elim: list_all2_mono)
  ultimately show "\<exists>ws. mset ws = mset S \<and> list_all2 term_matches ts ws" by blast
next
  assume "\<exists>ws. mset ws = mset S \<and> list_all2 term_matches ts ws"
  then obtain ws where ws: "mset ws = mset S" "list_all2 term_matches ts ws" by blast
  have "image_mset (nth S) (mset [0..<length S]) = mset (map (nth S) [0..<length S])" by simp
  then have "image_mset (nth S) (mset [0..<length S]) = mset ws" by (simp only: map_nth ws(1))
  then obtain ps where ps: "mset ps = mset [0..<length S]" "map (nth S) ps = ws"
    using image_mset_eq_mset by blast
  have "set ps = {..<length S}" 
    using mset_eq_setD [OF ps(1)] by (simp only: set_upt atLeast0LessThan)
  moreover have "distinct ps" using mset_eq_imp_distinct_iff [OF ps(1)] by simp
  moreover have "list_all2 (\<lambda>t p. p < length S \<and> term_matches t (S ! p)) ts ps"
  proof (rule list_all2_all_nthI)
    show "length ts = length ps" using list_all2_lengthD [OF ws(2)] unfolding ps(2) [symmetric] by simp
    fix k
    assume "k < length ts"
    with \<open>length ts = length ps\<close> have k: "k < length ps" by simp
    then have "ps ! k \<in> set ps" by simp
    moreover have "term_matches (ts ! k) (ws ! k)" using ws(2) \<open>k < length ts\<close> by (rule list_all2_nthD)
    ultimately show "ps ! k < length S \<and> term_matches (ts ! k) (S ! (ps ! k))"
      using \<open>set ps = _\<close> k unfolding ps(2) [symmetric] by simp
  qed
  ultimately show "\<exists>ps. placed S ts ps \<and> set ps = {..<length S}"
    by (auto simp: placed_def)
qed

definition covers_words :: "termNode list \<Rightarrow> word list \<Rightarrow> bool" where
  "covers_words ts words \<longleftrightarrow>
     words \<noteq> [] \<and> (\<exists>ws. mset ws = mset words \<and> list_all2 term_matches (counted ts) ws)"

theorem sem_quoted_phrase:
  assumes "ts \<noteq> []" "significantWords S (forcedTerms (phrase ts)) = (filtered, indexes)"
  shows "sem S mode (Quoted (phrase ts)) = (if covers_words ts filtered then {set indexes} else {})"
proof -
  note shape = significantWords_shape [OF assms(2)]
  have "{..<length indexes} \<in> sem filtered Unordered (phrase ts) \<longleftrightarrow>
      (\<exists>ps. placed filtered (counted ts) ps \<and> set ps = {..<length filtered})"
    unfolding sem_plain [OF assms(1)] shape(1) by blast
  moreover have "indexes \<noteq> [] \<longleftrightarrow> filtered \<noteq> []" using shape(1) by auto
  ultimately have "sem_quoted (sem filtered Unordered (phrase ts)) indexes =
      (if covers_words ts filtered then {set indexes} else {})"
    unfolding sem_quoted_def covers_words_def placed_everywhere by auto
  then show ?thesis using assms(2) by simp
qed

lemma counted_placed_nonempty: "placed S ts ps \<Longrightarrow> ps \<noteq> [] \<longleftrightarrow> ts \<noteq> []"
  by (auto simp: placed_def)


section \<open>Exclusions\<close>

lemma sem_children_split:
  "sem_children S mode cs =
     ((\<exists>e. Negative e \<in> set cs \<and> sem S Unordered e - {{}} \<noteq> {}),
      map (sem S mode) (filter (\<lambda>c. \<not> is_negative c) cs))"
proof (induction cs)
  case (Cons c cs)
  then show ?case by (cases c) auto
qed simp

theorem sem_sequence:
  "sem S mode (Sequence cs) =
     (if (\<exists>e. Negative e \<in> set cs \<and> sem S Unordered e - {{}} \<noteq> {}) \<or> list_all is_negative cs
      then {}
      else foldl (join mode) {{}} (map (sem S mode) (filter (\<lambda>c. \<not> is_negative c) cs)))"
  by (simp add: sem_children_split filter_empty_conv list_all_iff)

text \<open>A standalone exclusion never matches by itself and excludes what its words match.\<close>

lemma matchNegativeChildren_all:
  "matchNegativeChildren S matched (map Negative cs) =
     (True, matched \<or> list_ex (\<lambda>c. hasNonEmptyMatch (eval S Unordered c)) cs)"
  by (induction cs arbitrary: matched) auto

lemma eval_children_all:
  "eval_children S mode (map Negative cs) =
     (list_ex (\<lambda>c. hasNonEmptyMatch (eval S Unordered c)) cs, [])"
  by (induction cs) simp_all

lemma standalone_exclusion:
  assumes "parse U expression = Some (Sequence (map Negative cs))" "cs \<noteq> []"
  shows "\<not> Match U expression t"
    "MatchesAnyExclusion U [expression] t \<longleftrightarrow>
      list_ex (\<lambda>s. list_ex (\<lambda>c. hasNonEmptyMatch (eval s Unordered c)) cs) (tokenizeSentences U t)"
proof -
  show no: "\<not> Match U expression t"
    by (simp add: Match_def assms(1) eval_children_all hasNonEmptyMatch_def list_ex_iff)
  show "MatchesAnyExclusion U [expression] t \<longleftrightarrow>
      list_ex (\<lambda>s. list_ex (\<lambda>c. hasNonEmptyMatch (eval s Unordered c)) cs) (tokenizeSentences U t)"
    using assms(2)
    by (simp add: MatchesAnyExclusion_def no matchStandaloneExclusion_def assms(1) matchNegativeChildren_all)
qed

text \<open>An expression the parser refuses matches nothing, in a rule or as an exclusion.\<close>

lemma refused_matches_nothing:
  assumes "parse U expression = None"
  shows "\<not> Match U expression t" "\<not> MatchesAnyExclusion U [expression] t"
  using assms by (simp_all add: Match_def MatchesAnyExclusion_def matchStandaloneExclusion_def)

lemma Match_needs_words:
  assumes "tokenizeSentences U t = []"
  shows "\<not> MatchesAny U es t" "\<not> MatchesAnyExclusion U es t"
  using assms
  by (auto simp: MatchesAny_def MatchesAnyExclusion_def Match_def matchStandaloneExclusion_def list_ex_iff
      split: option.splits)

end
