(* ===== verification/KeywordFacts.thy ===== *)
theory KeywordFacts
  imports KeywordSpec "HOL-Library.Code_Target_Nat"
begin

text \<open>
  The properties of keyword matching (internal/keywordmatch), stated on expressions and texts.
  The witnesses use \<open>plain_unicode\<close>, the tables of package unicode cut to the Latin and Russian
  letters, with an NFKC that changes nothing, which is what it does on such letters.
\<close>

section \<open>A small unicode\<close>

definition latin_rune :: "rune \<Rightarrow> bool" where
  "latin_rune r \<longleftrightarrow> (65 \<le> r \<and> r \<le> 90) \<or> (97 \<le> r \<and> r \<le> 122)"

definition russian_rune :: "rune \<Rightarrow> bool" where
  "russian_rune r \<longleftrightarrow> (1040 \<le> r \<and> r \<le> 1103) \<or> r = 1025 \<or> r = 1105"

definition plain_unicode :: unicode where
  "plain_unicode =
     \<lparr>uni_IsLetter = (\<lambda>r. latin_rune r \<or> russian_rune r), uni_IsDigit = (\<lambda>r. 48 \<le> r \<and> r \<le> 57),
      uni_IsSpace = (\<lambda>r. r = 32 \<or> (9 \<le> r \<and> r \<le> 13)), uni_Cyrillic = russian_rune,
      uni_Latin = latin_rune,
      uni_ToLower = (\<lambda>r. if (65 \<le> r \<and> r \<le> 90) \<or> (1040 \<le> r \<and> r \<le> 1071) then r + 32
                         else if r = 1025 then 1105 else r),
      uni_NFKC = (\<lambda>s. s)\<rparr>"

definition plain_term :: "string \<Rightarrow> termNode" where
  "plain_term s = \<lparr>term_value = runes s, term_morph = englishStem (runes s),
                   term_exact = False, term_forced = False\<rparr>"

lemma some_nonempty: "(\<exists>M \<in> {f x | x. P x}. M \<noteq> {}) \<longleftrightarrow> (\<exists>x. P x \<and> f x \<noteq> {})"
  by blast

lemma placed_somewhere:
  "(\<exists>M \<in> {set ps | ps. placed s ts ps}. M \<noteq> {}) \<longleftrightarrow> ts \<noteq> [] \<and> (\<exists>ps. placed s ts ps)"
proof -
  have "placed s ts ps \<and> set ps \<noteq> {} \<longleftrightarrow> ts \<noteq> [] \<and> placed s ts ps" for ps
    using counted_placed_nonempty [of s ts ps] by auto
  then show ?thesis unfolding some_nonempty by simp
qed

lemma join_start: "join mode {{}} A = A"
  by (auto simp: join_def adjacent_def)

lemma sem_single: "\<not> is_negative c \<Longrightarrow> sem S mode (Sequence [c]) = sem S mode c"
  unfolding sem_sequence by (cases c) (simp_all add: join_start)

section \<open>Properties\<close>

text \<open>
  C6. The evaluation of a tree in a sentence computes its meaning: the match sets the code
  returns are, as sets of positions, the sets of the reference semantics, each without a
  repeated position and inside the sentence. The text keys that remove repetitions tell
  positions apart up to the surrogate range, so the sentence has at most 55295 words.
\<close>

theorem evaluation_is_the_meaning:
  assumes "length S \<le> 55295"
  shows "sets (eval S mode n) = sem S mode n \<and> within (length S) (eval S mode n)"
  using eval_sem(1) [OF assms] by blast

definition demo_words :: "word list" where
  "demo_words = map (\<lambda>s. \<lparr>word_surface = runes s, word_morph = englishStem (runes s)\<rparr>)
     [''we'', ''buy'', ''red'', ''cars'']"

lemma evaluation_is_the_meaning_witness:
  "sets (eval demo_words Contiguous (phrase [plain_term ''red'', plain_term ''car'']))
     = sem demo_words Contiguous (phrase [plain_term ''red'', plain_term ''car'']) \<and>
   eval demo_words Contiguous (phrase [plain_term ''red'', plain_term ''car'']) = [[2, 3]]"
proof -
  have "length demo_words \<le> 55295" by (simp add: demo_words_def)
  moreover have "eval demo_words Contiguous (phrase [plain_term ''red'', plain_term ''car'']) = [[2, 3]]"
    by code_simp
  ultimately show ?thesis using evaluation_is_the_meaning by blast
qed


text \<open>
  C27. What a list of words means. An expression whose positive parts are plain words matches a
  text when some sentence holds no match of an exclusion and has, for every word of the
  expression that counts, a position of its own with a word of the same stem (or the same
  surface, after an exclamation mark); at least one word has to count.
\<close>

theorem plain_words_match:
  assumes "parse U expression = Some (Sequence cs)"
    and "filter (\<lambda>c. \<not> is_negative c) cs = map Term ts" "ts \<noteq> []"
    and "list_all (\<lambda>s. length s \<le> 55295) (tokenizeSentences U t)"
  shows "Match U expression t \<longleftrightarrow>
    (\<exists>s \<in> set (tokenizeSentences U t).
       (\<forall>e. Negative e \<in> set cs \<longrightarrow> sem s Unordered e \<subseteq> {{}}) \<and>
       counted ts \<noteq> [] \<and> (\<exists>ps. placed s (counted ts) ps))"
proof -
  have some: "\<not> list_all is_negative cs"
  proof -
    have "filter (\<lambda>c. \<not> is_negative c) cs \<noteq> []" using assms(2,3) by simp
    then show ?thesis unfolding filter_empty_conv list_all_iff by blast
  qed
  have "(\<exists>M \<in> sem s Unordered (Sequence cs). M \<noteq> {}) \<longleftrightarrow>
      (\<forall>e. Negative e \<in> set cs \<longrightarrow> sem s Unordered e \<subseteq> {{}}) \<and>
      counted ts \<noteq> [] \<and> (\<exists>ps. placed s (counted ts) ps)" for s
  proof -
    have "foldl (join Unordered) {{}} (map (sem s Unordered) (map Term ts)) =
        {set ps | ps. placed s (counted ts) ps}"
      using sem_plain [OF assms(3), of s] sem_phrase [OF assms(3), of s Unordered]
      by (simp add: comp_def del: sem.simps(2))
    then show ?thesis
      unfolding sem_sequence assms(2) using some placed_somewhere [of s "counted ts"] by auto
  qed
  then show ?thesis by (simp only: Match_sem [OF assms(1,4)])
qed

lemma demo_expression:
  "parse plain_unicode (runes ''red -bike the car'') =
     Some (Sequence [Term (plain_term ''red''), Negative (Term (plain_term ''bike''\<lparr>term_forced := True\<rparr>)),
                     Term (plain_term ''the''), Term (plain_term ''car'')])"
  by code_simp

lemma demo_sentences:
  "map length (tokenizeSentences plain_unicode (runes ''We sell bikes! Two cars, all red.'')) = [3, 4]"
  by code_simp

lemma plain_words_match_witness:
  "Match plain_unicode (runes ''red -bike the car'') (runes ''We sell bikes! Two cars, all red.'')"
proof -
  let ?t = "runes ''We sell bikes! Two cars, all red.''"
  let ?ts = "[plain_term ''red'', plain_term ''the'', plain_term ''car'']"
  obtain s1 s2 where s: "tokenizeSentences plain_unicode ?t = [s1, s2]" "length s1 = 3" "length s2 = 4"
    using demo_sentences by (auto simp: map_eq_Cons_conv)
  have "list_all (\<lambda>s. length s \<le> 55295) (tokenizeSentences plain_unicode ?t)"
    using s by simp
  note iff = plain_words_match [OF demo_expression, of ?ts ?t, simplified, OF this]
  have "tokenizeSentences plain_unicode ?t ! 1 = [\<lparr>word_surface = runes ''two'', word_morph = runes ''two''\<rparr>,
      \<lparr>word_surface = runes ''cars'', word_morph = runes ''car''\<rparr>,
      \<lparr>word_surface = runes ''all'', word_morph = runes ''all''\<rparr>,
      \<lparr>word_surface = runes ''red'', word_morph = runes ''red''\<rparr>]" by code_simp
  then have s2: "s2 = [\<lparr>word_surface = runes ''two'', word_morph = runes ''two''\<rparr>,
      \<lparr>word_surface = runes ''cars'', word_morph = runes ''car''\<rparr>,
      \<lparr>word_surface = runes ''all'', word_morph = runes ''all''\<rparr>,
      \<lparr>word_surface = runes ''red'', word_morph = runes ''red''\<rparr>]" using s(1) by simp
  have "counted ?ts = [plain_term ''red'', plain_term ''car'']" by code_simp
  moreover have "placed s2 [plain_term ''red'', plain_term ''car''] [3, 1]"
    unfolding s2 by code_simp
  moreover have "sem s2 Unordered (Term (plain_term ''bike''\<lparr>term_forced := True\<rparr>)) = {}"
  proof -
    have "eval_term s2 (plain_term ''bike''\<lparr>term_forced := True\<rparr>) = []" unfolding s2 by code_simp
    then show ?thesis using sets_eval_term [of s2] by (metis image_empty list.set(1) sem.simps(1))
  qed
  ultimately show ?thesis unfolding iff s(1) by auto
qed


text \<open>
  C26. Brackets fix the order. A bracketed list of words matches when some sentence has the words
  next to each other, in that order; words in brackets always count.
\<close>

theorem brackets_match_in_a_row:
  assumes "parse U expression = Some (Sequence [Bracket (phrase ts)])" "ts \<noteq> []"
    and "list_all (\<lambda>s. length s \<le> 55295) (tokenizeSentences U t)"
  shows "Match U expression t \<longleftrightarrow>
    (\<exists>s \<in> set (tokenizeSentences U t). \<exists>k. counted ts \<noteq> [] \<and> in_a_row s (counted ts) k)"
proof -
  have "(\<exists>M \<in> sem s Unordered (Sequence [Bracket (phrase ts)]). M \<noteq> {}) \<longleftrightarrow>
      (\<exists>k. counted ts \<noteq> [] \<and> in_a_row s (counted ts) k)" for s
  proof -
    have "sem s Unordered (Sequence [Bracket (phrase ts)]) =
        {{k..<k + length (counted ts)} | k. in_a_row s (counted ts) k}"
      by (rule trans [OF sem_single sem_bracket [OF assms(2)]]) simp
    then show ?thesis unfolding some_nonempty by auto
  qed
  then show ?thesis by (simp only: Match_sem [OF assms(1,3)])
qed

lemma demo_bracket:
  "parse plain_unicode (runes ''[the red car]'') =
     Some (Sequence [Bracket (phrase (map (\<lambda>s. plain_term s\<lparr>term_forced := True\<rparr>) [''the'', ''red'', ''car'']))])"
  by code_simp

lemma brackets_match_in_a_row_witness:
  "\<not> Match plain_unicode (runes ''[the red car]'') (runes ''the car is red'') \<and>
   (Match plain_unicode (runes ''[the red car]'') (runes ''sell the red cars'') \<longleftrightarrow>
    (\<exists>s \<in> set (tokenizeSentences plain_unicode (runes ''sell the red cars'')).
       \<exists>k. counted (map (\<lambda>s. plain_term s\<lparr>term_forced := True\<rparr>) [''the'', ''red'', ''car'']) \<noteq> [] \<and>
         in_a_row s (counted (map (\<lambda>s. plain_term s\<lparr>term_forced := True\<rparr>) [''the'', ''red'', ''car''])) k))"
proof -
  have "list_all (\<lambda>s. length s \<le> 55295) (tokenizeSentences plain_unicode (runes ''sell the red cars''))"
    by code_simp
  moreover have "\<not> Match plain_unicode (runes ''[the red car]'') (runes ''the car is red'')" by code_simp
  ultimately show ?thesis using brackets_match_in_a_row [OF demo_bracket] by simp
qed

text \<open>
  C25. Quotes ask for exactly these words. A quoted list of words matches when, in some sentence,
  the words that are left without the service words the expression does not force are, in some
  order and one for one, the words of the expression that count.
\<close>

theorem quotes_match_exactly:
  assumes "parse U expression = Some (Sequence [Quoted (phrase ts)])" "ts \<noteq> []"
    and "list_all (\<lambda>s. length s \<le> 55295) (tokenizeSentences U t)"
  shows "Match U expression t \<longleftrightarrow>
    (\<exists>s \<in> set (tokenizeSentences U t).
       covers_words ts (fst (significantWords s (forcedTerms (phrase ts)))))"
proof -
  have "(\<exists>M \<in> sem s Unordered (Sequence [Quoted (phrase ts)]). M \<noteq> {}) \<longleftrightarrow>
      covers_words ts (fst (significantWords s (forcedTerms (phrase ts))))" for s
  proof -
    obtain filtered indexes where words: "significantWords s (forcedTerms (phrase ts)) = (filtered, indexes)"
      by fastforce
    have "covers_words ts filtered \<Longrightarrow> set indexes \<noteq> {}"
      using significantWords_shape(1) [OF words] by (auto simp: covers_words_def)
    then show ?thesis
      using sem_quoted_phrase [OF assms(2) words, of Unordered]
      by (simp add: sem_single words del: sem.simps forcedTerms.simps)
  qed
  then show ?thesis by (simp only: Match_sem [OF assms(1,3)])
qed

lemma demo_quoted:
  "parse plain_unicode (runes [CHR 34] @ runes ''red car'' @ runes [CHR 34]) =
     Some (Sequence [Quoted (phrase (map plain_term [''red'', ''car'']))])"
  by code_simp

lemma quotes_match_exactly_witness:
  "Match plain_unicode (runes [CHR 34] @ runes ''red car'' @ runes [CHR 34]) (runes ''the cars are red'') \<and>
   (Match plain_unicode (runes [CHR 34] @ runes ''red car'' @ runes [CHR 34]) (runes ''the old cars are red'') \<longleftrightarrow>
    (\<exists>s \<in> set (tokenizeSentences plain_unicode (runes ''the old cars are red'')).
       covers_words (map plain_term [''red'', ''car''])
         (fst (significantWords s (forcedTerms (phrase (map plain_term [''red'', ''car''])))))))"
proof -
  have "list_all (\<lambda>s. length s \<le> 55295) (tokenizeSentences plain_unicode (runes ''the old cars are red''))"
    by code_simp
  moreover have "Match plain_unicode (runes [CHR 34] @ runes ''red car'' @ runes [CHR 34]) (runes ''the cars are red'')"
    by code_simp
  ultimately show ?thesis using quotes_match_exactly [OF demo_quoted] by simp
qed

text \<open>
  A standalone exclusion. An expression of exclusions alone never matches as a rule; as a
  global exclusion it excludes a text when one of its parts matches a sentence.
\<close>

theorem standalone_exclusions:
  assumes "parse U expression = Some (Sequence (map Negative cs))" "cs \<noteq> []"
    and "list_all (\<lambda>s. length s \<le> 55295) (tokenizeSentences U t)"
  shows "\<not> Match U expression t \<and>
    (MatchesAnyExclusion U [expression] t \<longleftrightarrow>
      (\<exists>s \<in> set (tokenizeSentences U t). \<exists>c \<in> set cs. \<exists>M \<in> sem s Unordered c. M \<noteq> {}))"
proof -
  have "hasNonEmptyMatch (eval s Unordered c) \<longleftrightarrow> (\<exists>M \<in> sem s Unordered c. M \<noteq> {})"
    if "s \<in> set (tokenizeSentences U t)" for s c
  proof -
    have "length s \<le> 55295" using assms(3) that by (simp add: list_all_iff)
    then show ?thesis unfolding hasNonEmptyMatch_iff sets_eval [OF \<open>length s \<le> 55295\<close>] by blast
  qed
  then have "list_ex (\<lambda>s. list_ex (\<lambda>c. hasNonEmptyMatch (eval s Unordered c)) cs) (tokenizeSentences U t) \<longleftrightarrow>
      (\<exists>s \<in> set (tokenizeSentences U t). \<exists>c \<in> set cs. \<exists>M \<in> sem s Unordered c. M \<noteq> {})"
    unfolding list_ex_iff by (simp cong: bex_cong_simp)
  then show ?thesis using standalone_exclusion [OF assms(1,2), of t] by blast
qed

lemma demo_exclusion:
  "parse plain_unicode (runes ''-the -car'') =
     Some (Sequence (map Negative (map (\<lambda>s. Term (plain_term s\<lparr>term_forced := True\<rparr>)) [''the'', ''car''])))"
  by code_simp

lemma standalone_exclusions_witness:
  "\<not> Match plain_unicode (runes ''-the -car'') (runes ''Bikes and cars'') \<and>
   MatchesAnyExclusion plain_unicode [runes ''-the -car''] (runes ''Bikes and cars'') \<and>
   \<not> MatchesAnyExclusion plain_unicode [runes ''-the -car''] (runes ''Bikes'')"
proof -
  have "list_all (\<lambda>s. length s \<le> 55295) (tokenizeSentences plain_unicode (runes ''Bikes and cars''))"
    by code_simp
  moreover have "MatchesAnyExclusion plain_unicode [runes ''-the -car''] (runes ''Bikes and cars'')" by code_simp
  moreover have "\<not> MatchesAnyExclusion plain_unicode [runes ''-the -car''] (runes ''Bikes'')" by code_simp
  ultimately show ?thesis using standalone_exclusions [OF demo_exclusion] by simp
qed

text \<open>
  C28. The recursive descent always ends with a tree or a refusal, within four calls for every
  token and four more.
\<close>

theorem the_parser_ends:
  "descend U (parse_fuel ts) (CallAlternatives None) ts \<noteq> Starved"
  by (rule parse_not_starved)

end
