(* ===== verification/Utf8.thy ===== *)
theory Utf8
  imports GoText KeywordText
begin

text \<open>
  Strings and runes. A Go string is a list of bytes; \<^verbatim>\<open>for _, r := range s\<close> and
  \<^verbatim>\<open>[]rune(s)\<close> decode it as UTF-8, reading U+FFFD for every byte that begins no valid
  encoding, and \<^verbatim>\<open>string(runes)\<close> and \<^verbatim>\<open>WriteRune\<close> encode. Decoding gives back what was
  encoded.
\<close>

section \<open>Decoding\<close>

definition rune_error :: rune where "rune_error = 65533"

definition continuation :: "nat \<Rightarrow> bool" where
  "continuation b \<longleftrightarrow> 128 \<le> b \<and> b \<le> 191"

text \<open>
  The first rune of a list of bytes and the number of bytes it takes. The second byte is bounded
  more tightly after the leading bytes whose shorter forms, surrogates or numbers beyond
  U+10FFFF are not valid.
\<close>

definition decode_two :: "nat \<Rightarrow> nat list \<Rightarrow> rune \<times> nat" where
  "decode_two b bs =
     (case bs of
        b1 # _ \<Rightarrow> if continuation b1 then ((b - 192) * 64 + (b1 - 128), 2) else (rune_error, 1)
      | [] \<Rightarrow> (rune_error, 1))"

definition decode_three :: "nat \<Rightarrow> nat list \<Rightarrow> rune \<times> nat" where
  "decode_three b bs =
     (case bs of
        b1 # b2 # _ \<Rightarrow>
          if (if b = 224 then 160 else 128) \<le> b1 \<and> b1 \<le> (if b = 237 then 159 else 191) \<and> continuation b2
          then ((b - 224) * 4096 + (b1 - 128) * 64 + (b2 - 128), 3) else (rune_error, 1)
      | _ \<Rightarrow> (rune_error, 1))"

definition decode_four :: "nat \<Rightarrow> nat list \<Rightarrow> rune \<times> nat" where
  "decode_four b bs =
     (case bs of
        b1 # b2 # b3 # _ \<Rightarrow>
          if (if b = 240 then 144 else 128) \<le> b1 \<and> b1 \<le> (if b = 244 then 143 else 191) \<and>
             continuation b2 \<and> continuation b3
          then ((b - 240) * 262144 + (b1 - 128) * 4096 + (b2 - 128) * 64 + (b3 - 128), 4)
          else (rune_error, 1)
      | _ \<Rightarrow> (rune_error, 1))"

definition decode_rune :: "nat \<Rightarrow> nat list \<Rightarrow> rune \<times> nat" where
  "decode_rune b bs =
     (if b < 128 then (b, 1)
      else if 194 \<le> b \<and> b \<le> 223 then decode_two b bs
      else if 224 \<le> b \<and> b \<le> 239 then decode_three b bs
      else if 240 \<le> b \<and> b \<le> 244 then decode_four b bs
      else (rune_error, 1))"

fun decode_bytes :: "nat list \<Rightarrow> runes" where
  "decode_bytes [] = []"
| "decode_bytes (b # bs) =
     (case decode_rune b bs of (r, n) \<Rightarrow> r # decode_bytes (drop (n - 1) bs))"

definition decode :: "string \<Rightarrow> runes" where
  "decode s = decode_bytes (map of_char s)"

section \<open>Encoding\<close>

definition valid_rune :: "rune \<Rightarrow> bool" where
  "valid_rune r \<longleftrightarrow> r < 55296 \<or> 57343 < r \<and> r \<le> 1114111"

definition encode_valid :: "rune \<Rightarrow> nat list" where
  "encode_valid r =
     (if r < 128 then [r]
      else if r < 2048 then [192 + r div 64, 128 + r mod 64]
      else if r < 65536 then [224 + r div 4096, 128 + r div 64 mod 64, 128 + r mod 64]
      else [240 + r div 262144, 128 + r div 4096 mod 64, 128 + r div 64 mod 64, 128 + r mod 64])"

definition encode_rune :: "rune \<Rightarrow> nat list" where
  "encode_rune r = encode_valid (if valid_rune r then r else rune_error)"

definition encode :: "runes \<Rightarrow> string" where
  "encode rs = map char_of (concat (map encode_rune rs))"

section \<open>What was encoded comes back\<close>

lemma encode_valid_bytes: "b \<in> set (encode_valid r) \<Longrightarrow> r \<le> 1114111 \<Longrightarrow> b < 256"
  unfolding encode_valid_def by (auto split: if_splits)

lemma encode_rune_bytes: "b \<in> set (encode_rune r) \<Longrightarrow> b < 256"
  unfolding encode_rune_def
  by (rule encode_valid_bytes) (auto simp: valid_rune_def rune_error_def split: if_splits)

lemma base64_digits:
  fixes r :: nat
  shows "r = r div 4096 * 4096 + r div 64 mod 64 * 64 + r mod 64"
    and "r = r div 262144 * 262144 + r div 4096 mod 64 * 4096 + r div 64 mod 64 * 64 + r mod 64"
proof -
  have "r div 64 * 64 + r mod 64 = r" "r div 64 div 64 * 64 + r div 64 mod 64 = r div 64"
    "r div 4096 div 64 * 64 + r div 4096 mod 64 = r div 4096"
    by (rule div_mult_mod_eq)+
  moreover have "r div 64 div 64 = r div 4096" "r div 4096 div 64 = r div 262144"
    by (simp_all flip: div_mult2_eq)
  ultimately show "r = r div 4096 * 4096 + r div 64 mod 64 * 64 + r mod 64"
    "r = r div 262144 * 262144 + r div 4096 mod 64 * 4096 + r div 64 mod 64 * 64 + r mod 64"
    by linarith+
qed

lemma decode_encode_two:
  assumes "128 \<le> r" "r < 2048"
  shows "decode_rune (192 + r div 64) ((128 + r mod 64) # bs) = (r, 2)"
proof -
  have "194 \<le> 192 + r div 64" "192 + r div 64 \<le> 223" "r div 64 * 64 + r mod 64 = r"
    using assms by auto
  then show ?thesis by (simp add: decode_rune_def decode_two_def continuation_def)
qed

lemma decode_encode_three:
  assumes "2048 \<le> r" "r < 65536" "valid_rune r"
  shows "decode_rune (224 + r div 4096) ((128 + r div 64 mod 64) # (128 + r mod 64) # bs) = (r, 3)"
proof -
  define a b where "a = r div 4096" and "b = r div 64 mod 64"
  have r: "a * 4096 + b * 64 + r mod 64 = r" "b < 64" "r mod 64 < 64"
    using base64_digits(1) [of r] by (auto simp: a_def b_def)
  have "a \<le> 15" using assms(2) by (auto simp: a_def)
  moreover have "a = 0 \<longrightarrow> 32 \<le> b" using r assms(1) by auto
  moreover have "a = 13 \<longrightarrow> b \<le> 31"
  proof
    assume "a = 13"
    then have "r < 55296" using assms(3) r by (auto simp: valid_rune_def)
    with \<open>a = 13\<close> r show "b \<le> 31" by linarith
  qed
  ultimately show ?thesis unfolding a_def [symmetric] b_def [symmetric]
    using r by (auto simp: decode_rune_def decode_three_def continuation_def)
qed

lemma decode_encode_four:
  assumes "65536 \<le> r" "valid_rune r"
  shows "decode_rune (240 + r div 262144)
    ((128 + r div 4096 mod 64) # (128 + r div 64 mod 64) # (128 + r mod 64) # bs) = (r, 4)"
proof -
  define a b c where "a = r div 262144" and "b = r div 4096 mod 64" and "c = r div 64 mod 64"
  have r: "a * 262144 + b * 4096 + c * 64 + r mod 64 = r" "b < 64" "c < 64" "r mod 64 < 64"
    using base64_digits(2) [of r] by (auto simp: a_def b_def c_def)
  have "a \<le> 4" using assms by (auto simp: a_def valid_rune_def)
  moreover have "a = 0 \<longrightarrow> 16 \<le> b" using r assms(1) by auto
  moreover have "a = 4 \<longrightarrow> b \<le> 15" using r assms by (auto simp: valid_rune_def)
  ultimately show ?thesis unfolding a_def [symmetric] b_def [symmetric] c_def [symmetric]
    using r by (auto simp: decode_rune_def decode_four_def continuation_def)
qed

lemma decode_encode_rune:
  "valid_rune r \<Longrightarrow> decode_bytes (encode_rune r @ bs) = r # decode_bytes bs"
  by (auto simp: encode_rune_def encode_valid_def decode_encode_two decode_encode_three
      decode_encode_four) (simp add: decode_rune_def)

lemma decode_encode_bytes:
  "list_all valid_rune rs \<Longrightarrow> decode_bytes (concat (map encode_rune rs)) = rs"
  by (induction rs) (auto simp: decode_encode_rune)

lemma bytes_of_chars: "list_all (\<lambda>b. b < 256) bs \<Longrightarrow> map (of_char \<circ> char_of) bs = (bs :: nat list)"
  by (induction bs) auto

theorem decode_encode: "list_all valid_rune rs \<Longrightarrow> decode (encode rs) = rs"
proof -
  have "list_all (\<lambda>b. b < 256) (concat (map encode_rune rs))"
    using encode_rune_bytes by (auto simp: list_all_iff)
  from bytes_of_chars [OF this] show "list_all valid_rune rs \<Longrightarrow> decode (encode rs) = rs"
    unfolding decode_def encode_def by (simp add: decode_encode_bytes)
qed

lemma encode_Nil [simp]: "encode [] = ''''"
  by (simp add: encode_def)

lemma decode_Nil [simp]: "decode '''' = []"
  by (simp add: decode_def)

section \<open>Case\<close>

text \<open>\<^verbatim>\<open>strings.ToLower\<close>\<close>

definition ToLower :: "unicode \<Rightarrow> string \<Rightarrow> string" where
  "ToLower U s = encode (map (uni_ToLower U) (decode s))"

end
