(* ===== verification/CanonicalText.thy ===== *)
theory CanonicalText
  imports Utf8
begin

text \<open>
  The words of a message as the triggers see them: the tokens of
  internal/analytics/text/normalize.go (lower case, no links or names, io read as ie) and
  their canonical keys of internal/analytics/canonical.go (a table of exceptions, and the
  endings of English words).
\<close>

section \<open>Tokens\<close>

definition terminalPunctuation :: "string \<Rightarrow> char option" where
  "terminalPunctuation value = find (\<lambda>c. suffix [c] value) ''.!?''"

definition noise_field :: "unicode \<Rightarrow> string \<Rightarrow> bool" where
  "noise_field U field \<longleftrightarrow>
     (let lower = ToLower U field in
      prefix ''http://'' lower \<or> prefix ''https://'' lower \<or> prefix ''www.'' lower \<or>
      prefix ''@'' field)"

definition kept_field :: "unicode \<Rightarrow> string \<Rightarrow> string list" where
  "kept_field U field =
     (if noise_field U field
      then (case terminalPunctuation field of None \<Rightarrow> [] | Some c \<Rightarrow> [[c]])
      else [field])"

definition stripNoise :: "unicode \<Rightarrow> string \<Rightarrow> string" where
  "stripNoise U value = join_with CHR '' '' (concat (map (kept_field U) (Fields value)))"

text \<open>The loop over the runes with its builder; \<open>flush_builder\<close> is the closure \<^verbatim>\<open>flush\<close>.\<close>

definition flush_builder :: "runes \<Rightarrow> string list" where
  "flush_builder tok = (if tok = [] then [] else [encode tok])"

fun tokens_from :: "unicode \<Rightarrow> runes \<Rightarrow> runes \<Rightarrow> string list" where
  "tokens_from U tok [] = flush_builder tok"
| "tokens_from U tok (r # rs) =
     (let r' = (if r = rune_io then rune_ie else r) in
      if uni_IsLetter U r' \<or> uni_IsDigit U r' then tokens_from U (tok @ [r']) rs
      else flush_builder tok @ tokens_from U [] rs)"

definition tokens :: "unicode \<Rightarrow> string \<Rightarrow> string list" where
  "tokens U value = tokens_from U [] (decode (stripNoise U (ToLower U value)))"

definition Normalize :: "unicode \<Rightarrow> string \<Rightarrow> string" where
  "Normalize U value = join_with CHR '' '' (tokens U value)"

section \<open>Canonical tokens\<close>

definition exception_groups :: "(string \<times> string list) list" where
  "exception_groups = [
     (''denXgi'', [''denXgi'', ''deneg'', ''denXgam'', ''denXgami'', ''denXgah'', ''denXjata'',
        ''denXjat'', ''denXjatam'', ''denXjatami'', ''denUjki'', ''denUjek'', ''denUjkam'',
        ''denUjkami'', ''denXgosY'', ''denXgosov'', ''denXgosam'', ''denXgosami'']),
     (''babki'', [''babki'', ''babok'', ''babkam'', ''babkami'', ''babosY'', ''babosov'',
        ''babosam'', ''babosami'', ''babosiki'', ''babosikov''])]"

definition canonicalExceptions :: "(string \<times> string) list" where
  "canonicalExceptions =
     concat (map (\<lambda>(c, forms). map (\<lambda>w. (encode (cyr w), encode (cyr c))) forms) exception_groups) @
     [(''buy'', ''buy''), (''buys'', ''buy''), (''buying'', ''buy''), (''bought'', ''buy'')]"

text \<open>\<^verbatim>\<open>tokenLanguage\<close>: \<open>None\<close> is the empty result of a token of no or of two scripts.\<close>

datatype language = RU | EN

fun language_from :: "unicode \<Rightarrow> language option \<Rightarrow> runes \<Rightarrow> language option" where
  "language_from U language [] = language"
| "language_from U language (r # rs) =
     (let step = (\<lambda>cur. if language \<noteq> None \<and> language \<noteq> Some cur then None
                         else language_from U (Some cur) rs)
      in if uni_Cyrillic U r then step RU
         else if uni_Latin U r then step EN
         else None)"

definition tokenLanguage :: "unicode \<Rightarrow> string \<Rightarrow> language option" where
  "tokenLanguage U token = language_from U None (decode token)"

definition english_ending :: "string \<Rightarrow> string \<Rightarrow> bool" where
  "english_ending token s \<longleftrightarrow> suffix s token \<and> length s + 2 < length (decode token)"

definition without_ending :: "string \<Rightarrow> string \<Rightarrow> string" where
  "without_ending token s =
     (let base = take (length token - length s) token in
      if s = ''ied'' then base @ ''y''
      else if s = ''ing'' \<or> s = ''ed''
      then (let baseRunes = decode base in
            if 2 < length baseRunes \<and>
               baseRunes ! (length baseRunes - 1) = baseRunes ! (length baseRunes - 2)
            then encode (butlast baseRunes) else base)
      else base)"

definition canonicalToken :: "string \<Rightarrow> language \<Rightarrow> string" where
  "canonicalToken token language =
     (case map_of canonicalExceptions token of
        Some canonical \<Rightarrow> canonical
      | None \<Rightarrow>
          if language = EN
          then (case find (english_ending token) [''ing'', ''ied'', ''ed'', ''es'', ''s''] of
                  Some s \<Rightarrow> without_ending token s
                | None \<Rightarrow> token)
          else token)"

definition CanonicalTokenSet :: "unicode \<Rightarrow> string list \<Rightarrow> string list" where
  "CanonicalTokenSet U toks =
     remdups (concat (map (\<lambda>token. case tokenLanguage U token of
                                     None \<Rightarrow> []
                                   | Some language \<Rightarrow> [canonicalToken token language]) toks))"

text \<open>The set of one token has at most one element, the first the \<^verbatim>\<open>range\<close> meets.\<close>

definition canonicalTokenKey :: "unicode \<Rightarrow> string \<Rightarrow> string" where
  "canonicalTokenKey U token =
     (case CanonicalTokenSet U [token] of [] \<Rightarrow> token | value # _ \<Rightarrow> value)"

lemma canonicalTokenKey_eq:
  "canonicalTokenKey U token =
     (case tokenLanguage U token of None \<Rightarrow> token | Some language \<Rightarrow> canonicalToken token language)"
  by (simp add: canonicalTokenKey_def CanonicalTokenSet_def split: option.split)

end
