(* ===== verification/TriggerMatch.thy ===== *)
theory TriggerMatch
  imports CanonicalText KeywordMatch RuntimeConfig
begin

text \<open>
  The choice of a trigger for a message (internal/telegram/gotd/live_sink.go,
  \<^verbatim>\<open>matchCanonicalTrigger\<close> and the functions below it). A trigger of several words asks for
  a word of its own in one sentence for each of its slots: \<^verbatim>\<open>sentenceMatchesCompound\<close> looks
  for augmenting paths, and is shown here to find such an assignment exactly when there is one.
\<close>

section \<open>Sentences and slots\<close>

text \<open>The runes that end a sentence here; \<^verbatim>\<open>flush\<close> normalises what the builder holds.\<close>

definition phrase_end :: "rune \<Rightarrow> bool" where
  "phrase_end r \<longleftrightarrow> is_rune r CHR ''.'' \<or> is_rune r CHR ''!'' \<or> is_rune r CHR ''?'' \<or> r = 10 \<or> r = 13"

definition flush_phrase :: "unicode \<Rightarrow> runes \<Rightarrow> string list list" where
  "flush_phrase U sentence =
     (let toks = Fields (Normalize U (encode sentence)) in if toks = [] then [] else [toks])"

fun phrases_from :: "unicode \<Rightarrow> runes \<Rightarrow> runes \<Rightarrow> string list list" where
  "phrases_from U sentence [] = flush_phrase U sentence"
| "phrases_from U sentence (r # rs) =
     (if phrase_end r then flush_phrase U sentence @ phrases_from U [] rs
      else phrases_from U (sentence @ [r]) rs)"

definition normalizedPhraseSentences :: "unicode \<Rightarrow> string \<Rightarrow> string list list" where
  "normalizedPhraseSentences U value = phrases_from U [] (decode value)"

text \<open>The keys a slot accepts, a map used as a set in the code, are a list.\<close>

definition add_form :: "unicode \<Rightarrow> string list list \<Rightarrow> string \<Rightarrow> string list list" where
  "add_form U required form =
     (let toks = Fields (Normalize U form) in
      if length toks \<noteq> length required then required
      else map2 (\<lambda>keys token. keys @ [canonicalTokenKey U token]) required toks)"

definition compoundTokenVariants :: "unicode \<Rightarrow> CanonicalTrigger \<Rightarrow> string list list" where
  "compoundTokenVariants U trigger =
     (let canonicalTokens = Fields (Normalize U (ct_Canonical trigger)) in
      if length canonicalTokens < 2 then []
      else foldl (add_form U) (map (\<lambda>token. [canonicalTokenKey U token]) canonicalTokens)
             (ct_Forms trigger))"

section \<open>The assignment\<close>

text \<open>
  \<open>assign fuel A R slot is (seen, M)\<close> is the closure \<^verbatim>\<open>assign\<close> at the tokens \<open>is\<close> that its loop
  has still to look at: \<open>A\<close> are the keys of the sentence's tokens, \<open>R\<close> the slots, \<open>M\<close> is
  \<^verbatim>\<open>matchedSlot\<close>, with \<open>None\<close> for -1. It returns the answer with both slices as the
  closure leaves them. Fuel bounds the depth of the recursion; \<open>None\<close> says it was used up.
\<close>

fun assign :: "nat \<Rightarrow> string list \<Rightarrow> string list list \<Rightarrow> nat \<Rightarrow> nat list \<Rightarrow> bool list \<times> nat option list \<Rightarrow>
    (bool \<times> bool list \<times> nat option list) option" where
  "assign fuel A R slot [] (seen, M) = Some (False, seen, M)"
| "assign fuel A R slot (i # is) (seen, M) =
     (if seen ! i \<or> A ! i \<notin> set (R ! slot) then assign fuel A R slot is (seen, M)
      else
        (case M ! i of
           None \<Rightarrow> Some (True, seen[i := True], M[i := Some slot])
         | Some other \<Rightarrow>
             (case fuel of
                0 \<Rightarrow> None
              | Suc n \<Rightarrow>
                  (case assign n A R other [0..<length A] (seen[i := True], M) of
                     None \<Rightarrow> None
                   | Some (True, seen', M') \<Rightarrow> Some (True, seen', M'[i := Some slot])
                   | Some (False, seen', M') \<Rightarrow> assign fuel A R slot is (seen', M')))))"

fun assign_slots :: "string list \<Rightarrow> string list list \<Rightarrow> nat list \<Rightarrow> nat option list \<Rightarrow> bool option" where
  "assign_slots A R [] M = Some True"
| "assign_slots A R (slot # slots) M =
     (case assign (length A) A R slot [0..<length A] (replicate (length A) False, M) of
        None \<Rightarrow> None
      | Some (True, _, M') \<Rightarrow> assign_slots A R slots M'
      | Some (False, _, _) \<Rightarrow> Some False)"

definition sentenceMatchesCompound :: "unicode \<Rightarrow> string list \<Rightarrow> string list list \<Rightarrow> bool option" where
  "sentenceMatchesCompound U sentence required =
     (if length sentence < length required then Some False
      else assign_slots (map (canonicalTokenKey U) sentence) required [0..<length required]
             (replicate (length sentence) None))"

section \<open>Scores\<close>

definition matchLegacyKeyword :: "unicode \<Rightarrow> string \<Rightarrow> string list \<Rightarrow> string option" where
  "matchLegacyKeyword U txt keywords =
     map_option TrimSpace (find (\<lambda>keyword. Match U (decode keyword) (decode txt)) keywords)"

definition canonicalTriggerMatchScore ::
  "unicode \<Rightarrow> string list list \<Rightarrow> string \<Rightarrow> CanonicalTrigger \<Rightarrow> nat" where
  "canonicalTriggerMatchScore U sentences txt trigger =
     (let required = compoundTokenVariants U trigger in
      if 2 \<le> length required \<and>
         list_ex (\<lambda>s. sentenceMatchesCompound U s required = Some True) sentences
      then length required
      else if matchLegacyKeyword U txt (ct_Forms trigger) \<noteq> None then 1 else 0)"

text \<open>The loop over the triggers keeps the first with the best score so far.\<close>

definition better ::
  "(CanonicalTrigger \<Rightarrow> nat) \<Rightarrow> CanonicalTrigger option \<times> nat \<Rightarrow> CanonicalTrigger \<Rightarrow>
     CanonicalTrigger option \<times> nat" where
  "better score best trigger =
     (if snd best < score trigger then (Some trigger, score trigger) else best)"

definition matchCanonicalTrigger ::
  "unicode \<Rightarrow> string \<Rightarrow> CanonicalTrigger list \<Rightarrow> CanonicalTrigger option" where
  "matchCanonicalTrigger U txt triggers =
     (let sentences = normalizedPhraseSentences U txt in
      fst (foldl (better (canonicalTriggerMatchScore U sentences txt)) (None, 0) triggers))"

definition triggerAllowsPrivate ::
  "unicode \<Rightarrow> CanonicalTrigger \<Rightarrow> string list \<Rightarrow> string \<Rightarrow> bool" where
  "triggerAllowsPrivate U trigger keywords sourceText \<longleftrightarrow>
     MatchesAny U (map decode keywords) (decode sourceText) \<or>
     (let allowed = filter (\<lambda>n. n \<noteq> '''') (map (Normalize U) keywords) in
      list_ex (\<lambda>value. Normalize U value \<in> set allowed) (ct_Canonical trigger # ct_Forms trigger))"

end
