(* ===== verification/CatalogStore.thy ===== *)
theory CatalogStore
  imports AccountStore
begin

text \<open>
  The catalogs of channels and the memberships of accounts in them
  (internal/repository/sqlite/catalog_store.go and the catalog part of production_store.go).
  The catalog \<^verbatim>\<open>outbound\<close> is the table \<^verbatim>\<open>outbound_channels\<close>, \<^verbatim>\<open>scout\<close> is \<^verbatim>\<open>scout_chats\<close>. The
  clock a function reads is its argument \<open>now\<close>.
\<close>

section \<open>Entities (domain/channel.go)\<close>

abbreviation CatalogOutbound :: string where "CatalogOutbound \<equiv> ''outbound''"
abbreviation CatalogScout :: string where "CatalogScout \<equiv> ''scout''"
abbreviation ChannelReady :: string where "ChannelReady \<equiv> ''ready''"
abbreviation ChannelJoining :: string where "ChannelJoining \<equiv> ''joining''"
abbreviation ChannelPaused :: string where "ChannelPaused \<equiv> ''paused''"

record Channel =
  chl_ID :: ID
  chl_TelegramID :: string
  chl_Title :: string
  chl_Link :: string
  chl_Topic :: string
  chl_Username :: string
  chl_Type :: string
  chl_Status :: string
  chl_Active :: bool
  chl_SentCount :: nat
  chl_MessageCount :: nat
  chl_LastActivityAt :: "time option"
  chl_RemovalRequestedAt :: "time option"
  chl_LastError :: string
  chl_CreatedAt :: time
  chl_UpdatedAt :: time

record ChannelMembership =
  mem_AccountID :: ID
  mem_ChannelID :: ID
  mem_IsMember :: bool
  mem_Status :: string
  mem_LastCheckAt :: "time option"
  mem_RequestSubmittedAt :: "time option"
  mem_JoinedAt :: "time option"
  mem_JoinNotBefore :: "time option"
  mem_RestStartedAt :: "time option"
  mem_RestUntil :: "time option"
  mem_RestDurationHours :: int
  mem_LastError :: string

section \<open>Tables\<close>

datatype catalog_table = OutboundChannels | ScoutChats

definition catalogTable :: "string \<Rightarrow> db_error + catalog_table" where
  "catalogTable catalog =
     (if catalog = CatalogOutbound then Inr OutboundChannels
      else if catalog = CatalogScout then Inr ScoutChats
      else Inl ErrUnsupportedCatalog)"

definition table_rows :: "catalog_table \<Rightarrow> db \<Rightarrow> channel_row list" where
  "table_rows T d = (case T of OutboundChannels \<Rightarrow> db_outbound d | ScoutChats \<Rightarrow> db_scout d)"

definition with_rows :: "catalog_table \<Rightarrow> channel_row list \<Rightarrow> db \<Rightarrow> db" where
  "with_rows T rows d =
     (case T of OutboundChannels \<Rightarrow> d\<lparr>db_outbound := rows\<rparr> | ScoutChats \<Rightarrow> d\<lparr>db_scout := rows\<rparr>)"

text \<open>The constraints of the schema: three unique columns and the statuses of the \<^verbatim>\<open>CHECK\<close>.\<close>

definition channel_statuses :: "catalog_table \<Rightarrow> string list" where
  "channel_statuses T =
     [''ready'', ''joining'', ''partial'', ''error'', ''flood_wait'', ''paused''] @
     (case T of OutboundChannels \<Rightarrow> [] | ScoutChats \<Rightarrow> [''collecting''])"

definition channel_rows_ok :: "catalog_table \<Rightarrow> channel_row list \<Rightarrow> bool" where
  "channel_rows_ok T rows \<longleftrightarrow>
     distinct (map ch_id rows) \<and> distinct (map ch_telegram_chat_id rows) \<and>
     distinct (map ch_link rows) \<and> list_all (\<lambda>r. ch_status r \<in> set (channel_statuses T)) rows"

text \<open>A statement that writes the table, refused as a whole when a constraint fails.\<close>

definition write_channels :: "catalog_table \<Rightarrow> channel_row list \<Rightarrow> (db, db_error, unit) op" where
  "write_channels T rows d =
     (if channel_rows_ok T rows then (Inr (), with_rows T rows d) else (Inl ErrConstraint, d))"

section \<open>Listing\<close>

definition scanCatalogChannel :: "catalog_table \<Rightarrow> channel_row \<Rightarrow> Channel option" where
  "scanCatalogChannel T r =
     (case (parseTime (ch_created_at r), parseTime (ch_updated_at r),
            parse_opt (ch_last_activity_at r), parse_opt (ch_removal_requested_at r)) of
        (Some created, Some updated, Some activity, Some removal) \<Rightarrow>
          Some \<lparr>chl_ID = ch_id r, chl_TelegramID = ch_telegram_chat_id r, chl_Title = ch_title r,
                chl_Link = ch_link r, chl_Topic = ch_topic r, chl_Username = '''', chl_Type = '''',
                chl_Status = ch_status r, chl_Active = ch_active r,
                chl_SentCount = (if T = ScoutChats then 0 else ch_sent_count r),
                chl_MessageCount = (if T = ScoutChats then ch_sent_count r else 0),
                chl_LastActivityAt = activity, chl_RemovalRequestedAt = removal,
                chl_LastError = ch_last_error r, chl_CreatedAt = created, chl_UpdatedAt = updated\<rparr>
      | _ \<Rightarrow> None)"

definition listed_channels :: "catalog_table \<Rightarrow> channel_row list \<Rightarrow> channel_row list" where
  "listed_channels T rows =
     sort_key (\<lambda>r. (ch_created_at r, ch_id r))
       (if T = ScoutChats then filter (\<lambda>r. ch_archived_at r = None) rows else rows)"

definition ListCatalog :: "string \<Rightarrow> db \<Rightarrow> db_error + Channel list" where
  "ListCatalog catalog d =
     (case catalogTable catalog of
        Inl e \<Rightarrow> Inl e
      | Inr T \<Rightarrow>
          (case those (map (scanCatalogChannel T) (listed_channels T (table_rows T d))) of
             None \<Rightarrow> Inl ErrParseTime
           | Some channels \<Rightarrow> Inr channels))"

section \<open>Saving a channel\<close>

definition default_channel :: "time \<Rightarrow> Channel \<Rightarrow> Channel" where
  "default_channel now c =
     c\<lparr>chl_CreatedAt := (if IsZero (chl_CreatedAt c) then now else chl_CreatedAt c),
       chl_UpdatedAt := (if IsZero (chl_UpdatedAt c) then now else chl_UpdatedAt c),
       chl_TelegramID := (if chl_TelegramID c = '''' then chl_ID c else chl_TelegramID c),
       chl_Status := (if chl_Status c = '''' then ChannelPaused else chl_Status c)\<rparr>"

text \<open>The update that takes an archived scouted channel of the same link back.\<close>

definition archived_link :: "Channel \<Rightarrow> channel_row \<Rightarrow> bool" where
  "archived_link c r \<longleftrightarrow> AsciiToLower (ch_link r) = AsciiToLower (chl_Link c) \<and> ch_archived_at r \<noteq> None"

definition restore_row :: "Channel \<Rightarrow> channel_row \<Rightarrow> channel_row" where
  "restore_row c r =
     r\<lparr>ch_id := chl_ID c, ch_title := chl_Title c, ch_link := chl_Link c, ch_topic := chl_Topic c,
       ch_status := chl_Status c, ch_active := chl_Active c, ch_removal_requested_at := None,
       ch_archived_at := None, ch_last_error := chl_LastError c,
       ch_updated_at := formatTime (chl_UpdatedAt c)\<rparr>"

definition row_of_channel :: "nat \<Rightarrow> Channel \<Rightarrow> channel_row" where
  "row_of_channel n c =
     \<lparr>ch_id = chl_ID c, ch_telegram_chat_id = chl_TelegramID c, ch_title = chl_Title c,
      ch_link = chl_Link c, ch_topic = chl_Topic c, ch_status = chl_Status c,
      ch_active = chl_Active c, ch_removal_requested_at = formatTimePtr (chl_RemovalRequestedAt c),
      ch_archived_at = None, ch_sent_count = n,
      ch_last_activity_at = formatTimePtr (chl_LastActivityAt c), ch_last_error = chl_LastError c,
      ch_created_at = formatTime (chl_CreatedAt c), ch_updated_at = formatTime (chl_UpdatedAt c)\<rparr>"

text \<open>\<^verbatim>\<open>ON CONFLICT(id) DO UPDATE\<close>: all but the creation, a removal request is kept.\<close>

definition excluded_row :: "channel_row \<Rightarrow> channel_row \<Rightarrow> channel_row" where
  "excluded_row new r =
     r\<lparr>ch_telegram_chat_id := ch_telegram_chat_id new, ch_title := ch_title new,
       ch_link := ch_link new, ch_topic := ch_topic new, ch_status := ch_status new,
       ch_active := ch_active new, ch_sent_count := ch_sent_count new,
       ch_last_activity_at := ch_last_activity_at new,
       ch_removal_requested_at := (case ch_removal_requested_at new of
                                     Some t \<Rightarrow> Some t | None \<Rightarrow> ch_removal_requested_at r),
       ch_last_error := ch_last_error new, ch_updated_at := ch_updated_at new\<rparr>"

definition upsert_channel :: "catalog_table \<Rightarrow> channel_row \<Rightarrow> (db, db_error, unit) op" where
  "upsert_channel T new d =
     (let rows = table_rows T d;
          p = (\<lambda>r. ch_id r = ch_id new)
      in write_channels T (if sql_exists p rows then sql_update p (excluded_row new) rows else rows @ [new]) d)"

definition SaveCatalog :: "time \<Rightarrow> string \<Rightarrow> Channel \<Rightarrow> (db, db_error, unit) op" where
  "SaveCatalog now catalog channel d =
     (case catalogTable catalog of
        Inl e \<Rightarrow> (Inl e, d)
      | Inr T \<Rightarrow>
          let c = default_channel now channel in
          if chl_Link c = '''' then (Inl ErrLinkRequired, d)
          else if T = ScoutChats then
            (let restored = sql_affected (archived_link c) (db_scout d) in
             case write_channels T (sql_update (archived_link c) (restore_row c) (db_scout d)) d of
               (Inl e, d1) \<Rightarrow> (Inl e, d1)
             | (Inr _, d1) \<Rightarrow>
                 if 1 < restored then (Inl ErrRestoreCount, d1)
                 else if restored = 1 then (Inr (), d1)
                 else upsert_channel T (row_of_channel (chl_MessageCount c) c) d1)
          else upsert_channel T (row_of_channel (chl_SentCount c) c) d)"

definition SetCatalogTopics ::
  "time \<Rightarrow> string \<Rightarrow> ID list \<Rightarrow> string \<Rightarrow> (db, db_error, unit) op" where
  "SetCatalogTopics now catalog ids topic d =
     (case catalogTable catalog of
        Inl e \<Rightarrow> (Inl e, d)
      | Inr T \<Rightarrow>
          foldl (\<lambda>(res, d) i. case res of
                   Inl e \<Rightarrow> (Inl e, d)
                 | Inr _ \<Rightarrow>
                     if sql_affected (\<lambda>r. ch_id r = i) (table_rows T d) \<noteq> 1 then (Inl ErrChannelNotFound, d)
                     else (Inr (), with_rows T (sql_update (\<lambda>r. ch_id r = i)
                             (\<lambda>r. r\<lparr>ch_topic := topic, ch_updated_at := formatTime now\<rparr>) (table_rows T d)) d))
            (Inr (), d) ids)"

section \<open>Memberships\<close>

definition membership_key :: "membership_row \<Rightarrow> ID \<times> string \<times> ID" where
  "membership_key r = (mr_account_id r, mr_catalog r, mr_channel_id r)"

definition scan_membership :: "membership_row \<Rightarrow> ChannelMembership option" where
  "scan_membership r =
     (case (parse_opt (mr_last_check_at r), parse_opt (mr_request_submitted_at r),
            parse_opt (mr_joined_at r), parse_opt (mr_join_not_before r),
            parse_opt (mr_rest_started_at r), parse_opt (mr_rest_until r)) of
        (Some check, Some request, Some joined, Some notBefore, Some started, Some till) \<Rightarrow>
          Some \<lparr>mem_AccountID = mr_account_id r, mem_ChannelID = mr_channel_id r,
                mem_IsMember = mr_is_member r, mem_Status = mr_status r, mem_LastCheckAt = check,
                mem_RequestSubmittedAt = request, mem_JoinedAt = joined, mem_JoinNotBefore = notBefore,
                mem_RestStartedAt = started, mem_RestUntil = till,
                mem_RestDurationHours = mr_rest_duration_hours r, mem_LastError = mr_last_error r\<rparr>
      | _ \<Rightarrow> None)"

definition ListMemberships :: "string \<Rightarrow> ID \<Rightarrow> db \<Rightarrow> db_error + ChannelMembership list" where
  "ListMemberships catalog channelID d =
     (case those (map scan_membership (sort_key mr_account_id
             (filter (\<lambda>r. mr_catalog r = catalog \<and> mr_channel_id r = channelID) (db_memberships d)))) of
        None \<Rightarrow> Inl ErrParseTime
      | Some ms \<Rightarrow> Inr ms)"

definition LoadMembership :: "ID \<Rightarrow> string \<Rightarrow> ID \<Rightarrow> db \<Rightarrow> db_error + ChannelMembership option" where
  "LoadMembership accountID catalog channelID d =
     (case sql_select (\<lambda>r. membership_key r = (accountID, catalog, channelID)) (db_memberships d) of
        None \<Rightarrow> Inr None
      | Some r \<Rightarrow>
          (case scan_membership r of None \<Rightarrow> Inl ErrParseTime | Some m \<Rightarrow> Inr (Some m)))"

text \<open>\<^verbatim>\<open>COALESCE((SELECT json_extract(...)), 1)\<close>: a missing setting counts as switched on.\<close>

definition setting_on :: "bool option \<Rightarrow> bool" where
  "setting_on s = (case s of None \<Rightarrow> True | Some b \<Rightarrow> b)"

definition rest_of_join :: "ChannelMembership \<Rightarrow> (time \<times> time) option" where
  "rest_of_join m =
     (case mem_JoinedAt m of
        None \<Rightarrow> None
      | Some joined \<Rightarrow>
          if ValidateGroupRestHours (mem_RestDurationHours m) = None
          then Some (joined, joined + mem_RestDurationHours m * Hour) else None)"

definition row_of_membership :: "string \<Rightarrow> ChannelMembership \<Rightarrow> db \<Rightarrow> membership_row" where
  "row_of_membership catalog m d =
     (let rest = setting_on (db_rest_setting d);
          window = (if rest then rest_of_join m else None)
      in \<lparr>mr_account_id = mem_AccountID m, mr_catalog = catalog, mr_channel_id = mem_ChannelID m,
          mr_is_member = mem_IsMember m, mr_status = mem_Status m,
          mr_last_check_at = formatTimePtr (mem_LastCheckAt m),
          mr_request_submitted_at = formatTimePtr (mem_RequestSubmittedAt m),
          mr_joined_at = formatTimePtr (mem_JoinedAt m),
          mr_join_not_before = (if setting_on (db_join_setting d) then formatTimePtr (mem_JoinNotBefore m) else None),
          mr_rest_started_at = map_option (formatTime \<circ> fst) window,
          mr_rest_until = map_option (formatTime \<circ> snd) window,
          mr_rest_duration_hours = (if rest then mem_RestDurationHours m else 0),
          mr_last_error = mem_LastError m\<rparr>)"

definition coalesce :: "'a option \<Rightarrow> 'a option \<Rightarrow> 'a option" where
  "coalesce a b = (case a of None \<Rightarrow> b | Some x \<Rightarrow> Some x)"

definition rest_begins :: "membership_row \<Rightarrow> membership_row \<Rightarrow> bool" where
  "rest_begins new r \<longleftrightarrow>
     mr_joined_at r = None \<and> mr_joined_at new \<noteq> None \<and>
     1 \<le> mr_rest_duration_hours r \<and> mr_rest_duration_hours r \<le> 720 \<and>
     mr_rest_duration_hours new = mr_rest_duration_hours r"

text \<open>\<^verbatim>\<open>ON CONFLICT(account_id,catalog,channel_id) DO UPDATE\<close>\<close>

definition excluded_membership :: "membership_row \<Rightarrow> db \<Rightarrow> membership_row \<Rightarrow> membership_row" where
  "excluded_membership new d r =
     (let rest = setting_on (db_rest_setting d) in
      r\<lparr>mr_is_member := mr_is_member new, mr_status := mr_status new,
        mr_last_check_at := mr_last_check_at new,
        mr_request_submitted_at := coalesce (mr_request_submitted_at r) (mr_request_submitted_at new),
        mr_joined_at := coalesce (mr_joined_at r) (mr_joined_at new),
        mr_join_not_before := (if setting_on (db_join_setting d)
                               then coalesce (mr_join_not_before r) (mr_join_not_before new) else None),
        mr_rest_started_at := (if \<not> rest then None
                               else if rest_begins new r then mr_rest_started_at new else mr_rest_started_at r),
        mr_rest_until := (if \<not> rest then None
                          else if rest_begins new r then mr_rest_until new else mr_rest_until r),
        mr_rest_duration_hours := (if rest then mr_rest_duration_hours r else 0),
        mr_last_error := mr_last_error new\<rparr>)"

text \<open>The \<^verbatim>\<open>CHECK\<close>s and the foreign key of the table.\<close>

definition membership_row_ok :: "db \<Rightarrow> membership_row \<Rightarrow> bool" where
  "membership_row_ok d r \<longleftrightarrow>
     sql_exists (\<lambda>a. ar_id a = mr_account_id r) (db_accounts d) \<and>
     mr_catalog r \<in> {CatalogOutbound, CatalogScout} \<and>
     mr_status r \<in> {''pending'', ''joining'', ''pending_approval'', ''member'', ''leaving'',
                     ''flood_wait'', ''error'', ''paused''}"

definition SaveMembership :: "string \<Rightarrow> ChannelMembership \<Rightarrow> (db, db_error, unit) op" where
  "SaveMembership catalog m d =
     (let new = row_of_membership catalog m d;
          p = (\<lambda>r. membership_key r = membership_key new)
      in if \<not> membership_row_ok d new then (Inl ErrConstraint, d)
         else (Inr (), d\<lparr>db_memberships :=
                 (if sql_exists p (db_memberships d)
                  then sql_update p (excluded_membership new d) (db_memberships d)
                  else db_memberships d @ [new])\<rparr>))"

fun save_memberships :: "string \<Rightarrow> ChannelMembership list \<Rightarrow> (db, db_error, unit) op" where
  "save_memberships catalog [] d = (Inr (), d)"
| "save_memberships catalog (m # ms) d =
     (case SaveMembership catalog m d of
        (Inl e, d1) \<Rightarrow> (Inl e, d1)
      | (Inr _, d1) \<Rightarrow> save_memberships catalog ms d1)"

definition ActivateCatalogWithMemberships ::
  "time \<Rightarrow> string \<Rightarrow> Channel \<Rightarrow> ChannelMembership list \<Rightarrow> (db, db_error, unit) op" where
  "ActivateCatalogWithMemberships now catalog channel memberships d =
     (if list_ex (\<lambda>m. mem_ChannelID m \<noteq> chl_ID channel) memberships then (Inl ErrMembershipMismatch, d)
      else in_tx (\<lambda>d.
        case SaveCatalog now catalog channel d of
          (Inl e, d1) \<Rightarrow> (Inl e, d1)
        | (Inr _, d1) \<Rightarrow> save_memberships catalog memberships d1) d)"

definition DeleteMembership :: "string \<Rightarrow> ID \<Rightarrow> ID \<Rightarrow> (db, db_error, unit) op" where
  "DeleteMembership catalog accountID channelID d =
     (Inr (), d\<lparr>db_memberships := filter (\<lambda>r. membership_key r \<noteq> (accountID, catalog, channelID))
                                   (db_memberships d)\<rparr>)"

definition of_channel :: "string \<Rightarrow> ID \<Rightarrow> membership_row \<Rightarrow> bool" where
  "of_channel catalog channelID r \<longleftrightarrow> mr_catalog r = catalog \<and> mr_channel_id r = channelID"

section \<open>Removing, leaving, trying again\<close>

definition removal_row :: "stamp \<Rightarrow> channel_row \<Rightarrow> channel_row" where
  "removal_row now r =
     r\<lparr>ch_active := False, ch_status := ChannelPaused,
       ch_removal_requested_at := coalesce (ch_removal_requested_at r) (Some now), ch_updated_at := now\<rparr>"

definition end_job_of_channel :: "job_row \<Rightarrow> job_row" where
  "end_job_of_channel r =
     r\<lparr>jr_status := ''done'', jr_last_error := ''channel_removal_requested'', jr_lease_token := '''',
       jr_lease_until := None\<rparr>"

fun request_removals :: "catalog_table \<Rightarrow> stamp \<Rightarrow> ID list \<Rightarrow> (db, db_error, unit) op" where
  "request_removals T now [] d = (Inr (), d)"
| "request_removals T now (i # ids) d =
     (let d1 = with_rows T (sql_update (\<lambda>r. ch_id r = i) (removal_row now) (table_rows T d)) d in
      if sql_affected (\<lambda>r. ch_id r = i) (table_rows T d) \<noteq> 1 then (Inl ErrChannelNotFound, d1)
      else request_removals T now ids
        (d1\<lparr>db_jobs := sql_update
              (\<lambda>r. jr_channel_id r = i \<and> (jr_status r = ''queued'' \<or> jr_status r = ''delayed''))
              end_job_of_channel (db_jobs d1)\<rparr>))"

definition RequestCatalogRemoval :: "time \<Rightarrow> string \<Rightarrow> ID list \<Rightarrow> (db, db_error, unit) op" where
  "RequestCatalogRemoval now catalog ids d =
     (case catalogTable catalog of
        Inl e \<Rightarrow> (Inl e, d)
      | Inr T \<Rightarrow>
          if ids = [] then (Inr (), d) else in_tx (request_removals T (formatTime now) ids) d)"

text \<open>A join that was never submitted is dropped, every other membership has to leave.\<close>

definition never_submitted :: "membership_row \<Rightarrow> bool" where
  "never_submitted r \<longleftrightarrow> mr_status r = ''joining'' \<and> \<not> mr_is_member r \<and> mr_request_submitted_at r = None"

definition RequestCatalogLeave :: "time \<Rightarrow> string \<Rightarrow> ID \<Rightarrow> (db, db_error, unit) op" where
  "RequestCatalogLeave now catalog channelID d =
     (case catalogTable catalog of
        Inl e \<Rightarrow> (Inl e, d)
      | Inr T \<Rightarrow>
          if sql_affected (\<lambda>r. ch_id r = channelID) (table_rows T d) = 0 then (Inl ErrChannelNotFound, d)
          else
            let d1 = with_rows T (sql_update (\<lambda>r. ch_id r = channelID)
                       (\<lambda>r. r\<lparr>ch_active := False, ch_status := ChannelPaused, ch_updated_at := formatTime now\<rparr>)
                       (table_rows T d)) d;
                kept = filter (\<lambda>r. \<not> (of_channel catalog channelID r \<and> never_submitted r)) (db_memberships d1)
            in (Inr (), d1\<lparr>db_memberships := sql_update (of_channel catalog channelID)
                  (\<lambda>r. r\<lparr>mr_status := ''leaving'', mr_join_not_before := None, mr_last_error := ''''\<rparr>) kept\<rparr>))"

definition awaiting_approval :: "string \<Rightarrow> ID \<Rightarrow> membership_row \<Rightarrow> bool" where
  "awaiting_approval catalog channelID r \<longleftrightarrow>
     of_channel catalog channelID r \<and> \<not> mr_is_member r \<and> mr_status r = ''pending_approval''"

definition retry_row :: "membership_row \<Rightarrow> membership_row" where
  "retry_row r =
     r\<lparr>mr_is_member := False, mr_status := ''joining'', mr_last_check_at := None,
       mr_request_submitted_at := None, mr_join_not_before := None, mr_last_error := ''''\<rparr>"

definition RetryPendingCatalogMemberships ::
  "string \<Rightarrow> ID \<Rightarrow> time \<Rightarrow> (db, db_error, nat) op" where
  "RetryPendingCatalogMemberships catalog channelID retryAt d =
     (case catalogTable catalog of
        Inl e \<Rightarrow> (Inl e, d)
      | Inr T \<Rightarrow> in_tx (\<lambda>d.
          let p = awaiting_approval catalog channelID;
              affected = sql_affected p (db_memberships d);
              d1 = d\<lparr>db_memberships := sql_update p retry_row (db_memberships d)\<rparr>;
              q = (\<lambda>r. ch_id r = channelID \<and> ch_removal_requested_at r = None)
          in if affected = 0 then (Inr 0, d1)
             else
               let d2 = with_rows T (sql_update q
                          (\<lambda>r. r\<lparr>ch_status := ChannelJoining, ch_updated_at := formatTime retryAt\<rparr>)
                          (table_rows T d1)) d1
               in if sql_affected q (table_rows T d1) \<noteq> 1 then (Inl ErrBeingRemoved, d2)
                  else (Inr affected, d2)) d)"

definition removable :: "string \<Rightarrow> ID \<Rightarrow> db \<Rightarrow> channel_row \<Rightarrow> bool" where
  "removable catalog channelID d r \<longleftrightarrow>
     ch_id r = channelID \<and> ch_removal_requested_at r \<noteq> None \<and>
     \<not> sql_exists (of_channel catalog channelID) (db_memberships d)"

definition CompleteCatalogRemoval :: "time \<Rightarrow> string \<Rightarrow> ID \<Rightarrow> (db, db_error, unit) op" where
  "CompleteCatalogRemoval now catalog channelID d =
     (case catalogTable catalog of
        Inl e \<Rightarrow> (Inl e, d)
      | Inr T \<Rightarrow> in_tx (\<lambda>d.
          let p = (\<lambda>r. removable catalog channelID d r \<and> (T = ScoutChats \<longrightarrow> ch_archived_at r = None));
              affected = sql_affected p (table_rows T d);
              d1 = (if T = ScoutChats
                    then with_rows T (sql_update p
                           (\<lambda>r. r\<lparr>ch_active := True, ch_status := ChannelPaused,
                                  ch_archived_at := Some (formatTime now), ch_updated_at := formatTime now\<rparr>)
                           (table_rows T d)) d
                    else with_rows T (filter (\<lambda>r. \<not> p r) (table_rows T d)) d)
          in if 1 < affected then (Inl ErrRemovalCount, d1)
             else if affected = 0 then (Inr (), d1)
             else (Inr (), d1\<lparr>db_memberships :=
                     filter (\<lambda>r. \<not> of_channel catalog channelID r) (db_memberships d1)\<rparr>)) d)"

section \<open>The schedule of joins\<close>

fun earliest_due :: "time \<Rightarrow> time option \<Rightarrow> stamp list \<Rightarrow> db_error + time option" where
  "earliest_due after earliest [] = Inr earliest"
| "earliest_due after earliest (s # ss) =
     (case parseTime s of
        None \<Rightarrow> Inl ErrParseTime
      | Some v \<Rightarrow>
          earliest_due after
            (if \<not> After v after then earliest
             else case earliest of
                    None \<Rightarrow> Some v
                  | Some e \<Rightarrow> if Before v e then Some v else Some e) ss)"

definition NextJoiningDue :: "ID \<Rightarrow> time \<Rightarrow> db \<Rightarrow> db_error + time option" where
  "NextJoiningDue accountID after d =
     earliest_due after None (List.map_filter
       (\<lambda>r. if mr_account_id r = accountID \<and> mr_status r = ''joining'' then mr_join_not_before r else None)
       (db_memberships d))"

definition ClearJoinIntervals :: "(db, db_error, unit) op" where
  "ClearJoinIntervals d =
     (Inr (), d\<lparr>db_memberships := sql_update (\<lambda>r. mr_join_not_before r \<noteq> None)
                (\<lambda>r. r\<lparr>mr_join_not_before := None\<rparr>) (db_memberships d)\<rparr>)"

end
