(* ===== verification/LiveSink.thy ===== *)
theory LiveSink
  imports TriggerMatch CatalogStore JobStore
begin

text \<open>
  The sink of incoming messages (internal/telegram/gotd/live_sink.go): a message is handed to
  the collector without its sender, then matched against the settings in force, and a match in
  an active outbound channel becomes one or two jobs of the delivery queue. The digest of job
  identifiers, \<^verbatim>\<open>hex(sha256(...))\<close>, is the parameter \<open>digest\<close>; the collector is the parameter
  \<open>collect\<close>.
\<close>

section \<open>Numbers\<close>

text \<open>\<^verbatim>\<open>strconv.FormatInt(n, 10)\<close>\<close>

fun format_nat :: "nat \<Rightarrow> string" where
  "format_nat n = (if n < 10 then [digit_char n] else format_nat (n div 10) @ [digit_char (n mod 10)])"

declare format_nat.simps [simp del]

definition FormatInt :: "int \<Rightarrow> string" where
  "FormatInt n = (if n < 0 then CHR ''-'' # format_nat (nat (- n)) else format_nat (nat n))"

section \<open>Updates\<close>

record IncomingUpdate =
  upd_ChatID :: string
  upd_MessageID :: int
  upd_Text :: string
  upd_SenderID :: string
  upd_SenderUsername :: string
  upd_MessageAt :: time
  upd_EditedAt :: "time option"

definition storageChatID :: "string \<Rightarrow> string" where
  "storageChatID chatID =
     (let c = TrimSpace chatID in
      case find (\<lambda>namespace. prefix namespace c) [''channel:'', ''chat:'', ''user:''] of
        Some namespace \<Rightarrow> TrimPrefix c namespace
      | None \<Rightarrow> c)"

text \<open>What the collector gets: no sender.\<close>

definition anonymous_update :: "IncomingUpdate \<Rightarrow> IncomingUpdate" where
  "anonymous_update u =
     \<lparr>upd_ChatID = storageChatID (upd_ChatID u), upd_MessageID = upd_MessageID u, upd_Text = upd_Text u,
      upd_SenderID = '''', upd_SenderUsername = '''', upd_MessageAt = upd_MessageAt u,
      upd_EditedAt = upd_EditedAt u\<rparr>"

definition CollectHistory ::
  "(IncomingUpdate \<Rightarrow> 'c \<Rightarrow> ('e + unit) \<times> 'c) \<Rightarrow> IncomingUpdate \<Rightarrow> 'c \<Rightarrow> ('e + unit) \<times> 'c" where
  "CollectHistory collect u c = collect (anonymous_update u) c"

section \<open>The jobs of a trigger\<close>

definition outgoingJobID :: "(string \<Rightarrow> string) \<Rightarrow> IncomingUpdate \<Rightarrow> string \<Rightarrow> string list \<Rightarrow> ID" where
  "outgoingJobID digest u jobType identity =
     digest (join_with (CHR 0x00) (upd_ChatID u # FormatInt (upd_MessageID u) # jobType # identity))"

definition keyword_job ::
  "(string \<Rightarrow> string) \<Rightarrow> IncomingUpdate \<Rightarrow> ID \<Rightarrow> CanonicalTrigger \<Rightarrow> time \<Rightarrow> string list \<Rightarrow> OutgoingMessageJob" where
  "keyword_job digest u channelID trigger now identity =
     \<lparr>job_ID = outgoingJobID digest u JobKeywordResponse identity, job_Type = JobKeywordResponse,
      job_AccountID = None, job_ChannelID = channelID, job_RuleID = ct_ID trigger,
      job_TargetTelegramID = TrimSpace (upd_SenderID u),
      job_ReplyToMessageID = FormatInt (upd_MessageID u), job_Text = '''', job_AllowPrivate = False,
      job_KeywordDeliveryMode = '''', job_FallbackToPublic = False, job_Status = ''queued'',
      job_Attempts = 0, job_NextAttemptAt = now, job_CreatedAt = now\<rparr>"

text \<open>\<open>mode_job\<close> is the closure \<^verbatim>\<open>base\<close>.\<close>

definition mode_job ::
  "(string \<Rightarrow> string) \<Rightarrow> IncomingUpdate \<Rightarrow> ID \<Rightarrow> CanonicalTrigger \<Rightarrow> time \<Rightarrow> string \<Rightarrow> bool \<Rightarrow> OutgoingMessageJob" where
  "mode_job digest u channelID trigger now mode fallback =
     (keyword_job digest u channelID trigger now [mode])
       \<lparr>job_KeywordDeliveryMode := mode, job_FallbackToPublic := fallback\<rparr>"

definition keywordDeliveryJobs ::
  "unicode \<Rightarrow> (string \<Rightarrow> string) \<Rightarrow> Snapshot \<Rightarrow> IncomingUpdate \<Rightarrow> ID \<Rightarrow> CanonicalTrigger \<Rightarrow> time \<Rightarrow> OutgoingMessageJob list" where
  "keywordDeliveryJobs U digest snapshot u channelID trigger now =
     (let target = TrimSpace (upd_SenderID u);
          job = mode_job digest u channelID trigger now
      in if snap_DeliveryMode snapshot = '''' then
           [(keyword_job digest u channelID trigger now [])
              \<lparr>job_AllowPrivate := snap_DirectMessages snapshot \<and> target \<noteq> '''' \<and>
                 triggerAllowsPrivate U trigger (snap_DirectMessageKeywords snapshot) (upd_Text u)\<rparr>]
         else
           let mode = Normalized_mode (snap_DeliveryMode snapshot) in
           if mode = KeywordDeliveryModePrivate then
             (if target = '''' then [] else [job KeywordDeliveryModePrivate True])
           else if mode = KeywordDeliveryModeBoth then
             job KeywordDeliveryModeComments False #
               (if target \<noteq> '''' then [job KeywordDeliveryModePrivate False] else [])
           else [job KeywordDeliveryModeComments False])"

section \<open>Triggering\<close>

definition outboundChannel :: "string \<Rightarrow> db \<Rightarrow> db_error + ID" where
  "outboundChannel telegramID d =
     (case ListCatalog CatalogOutbound d of
        Inl e \<Rightarrow> Inl e
      | Inr rows \<Rightarrow>
          (case find (\<lambda>row. chl_Active row \<and> storageChatID (chl_TelegramID row) = storageChatID telegramID) rows of
             Some row \<Rightarrow> Inr (chl_ID row)
           | None \<Rightarrow> Inr ''''))"

definition trigger_of :: "unicode \<Rightarrow> Snapshot \<Rightarrow> string \<Rightarrow> CanonicalTrigger option" where
  "trigger_of U snapshot txt =
     (case matchCanonicalTrigger U txt (snap_CanonicalTriggers snapshot) of
        Some trigger \<Rightarrow> Some trigger
      | None \<Rightarrow>
          map_option (\<lambda>legacy. \<lparr>ct_ID = '''', ct_Canonical = legacy, ct_Forms = [legacy]\<rparr>)
            (matchLegacyKeyword U txt (snap_Keywords snapshot)))"

definition draft_of :: "IncomingUpdate \<Rightarrow> CanonicalTrigger \<Rightarrow> time \<Rightarrow> LiveDeliveryDraft" where
  "draft_of u trigger now =
     \<lparr>draft_SourceMessage = TrimSpace (upd_Text u), draft_TriggerCanonicalID = ct_ID trigger,
      draft_TriggerSnapshot = ct_Canonical trigger, draft_TriggeredAt = now\<rparr>"

fun enqueue_responses ::
  "time \<Rightarrow> LiveDeliveryDraft \<Rightarrow> OutgoingMessageJob list \<Rightarrow> (db, db_error, unit) op" where
  "enqueue_responses now draft [] d = (Inr (), d)"
| "enqueue_responses now draft (job # jobs) d =
     (case EnqueueKeywordResponse now job draft d of
        (Inl e, d1) \<Rightarrow> (Inl e, d1)
      | (Inr _, d1) \<Rightarrow> enqueue_responses now draft jobs d1)"

text \<open>The trigger a message is answered for, when the settings let it be answered.\<close>

definition answered_trigger :: "unicode \<Rightarrow> Snapshot \<Rightarrow> IncomingUpdate \<Rightarrow> CanonicalTrigger option" where
  "answered_trigger U snapshot u =
     (if upd_EditedAt u \<noteq> None then None
      else if snap_OutboundPaused snapshot then None
      else
        let txt = ToLower U (TrimSpace (upd_Text u)) in
        if txt = '''' \<or> txt = ToLower U (TrimSpace (snap_SharedReply snapshot)) then None
        else if MatchesAnyExclusion U (map decode (snap_MinusKeywords snapshot)) (decode (upd_Text u)) then None
        else trigger_of U snapshot txt)"

definition Trigger ::
  "unicode \<Rightarrow> (string \<Rightarrow> string) \<Rightarrow> time \<Rightarrow> Snapshot \<Rightarrow> IncomingUpdate \<Rightarrow> (db, db_error, unit) op" where
  "Trigger U digest now snapshot u d =
     (case answered_trigger U snapshot u of
        None \<Rightarrow> (Inr (), d)
      | Some trigger \<Rightarrow>
          (case outboundChannel (upd_ChatID u) d of
             Inl e \<Rightarrow> (Inl e, d)
           | Inr channelID \<Rightarrow>
               if channelID = '''' then (Inr (), d)
               else enqueue_responses now (draft_of u trigger now)
                      (keywordDeliveryJobs U digest snapshot u channelID trigger now) d))"

definition Ingest ::
  "unicode \<Rightarrow> (string \<Rightarrow> string) \<Rightarrow> (IncomingUpdate \<Rightarrow> 'c \<Rightarrow> (db_error + unit) \<times> 'c) \<Rightarrow> time \<Rightarrow> Snapshot \<Rightarrow>
     IncomingUpdate \<Rightarrow> ('c \<times> db, db_error, unit) op" where
  "Ingest U digest collect now snapshot u w =
     (case CollectHistory collect u (fst w) of
        (Inl e, c) \<Rightarrow> (Inl e, (c, snd w))
      | (Inr _, c) \<Rightarrow>
          (case Trigger U digest now snapshot u (snd w) of
             (res, d) \<Rightarrow> (res, (c, d))))"

end
