(* ===== verification/SlotAssignment.thy ===== *)
theory SlotAssignment
  imports TriggerMatch
begin

text \<open>
  Why \<^verbatim>\<open>sentenceMatchesCompound\<close> is right. A successful search for an augmenting path
  reassigns the tokens it has seen so that one slot more has a token; a failed one leaves the
  assignment alone, and the tokens it has seen are then all the tokens of one slot more than
  there are tokens, so that no assignment exists.
\<close>

section \<open>The parts of a search\<close>

definition unseen :: "bool list \<Rightarrow> nat set" where
  "unseen seen = {i. i < length seen \<and> \<not> seen ! i}"

definition accepts_token :: "string list \<Rightarrow> string list list \<Rightarrow> nat \<Rightarrow> nat \<Rightarrow> bool" where
  "accepts_token A R slot i \<longleftrightarrow> A ! i \<in> set (R ! slot)"

definition slots_on :: "nat set \<Rightarrow> nat option list \<Rightarrow> nat set" where
  "slots_on I M = {slot. \<exists>i \<in> I. M ! i = Some slot}"

definition one_each :: "nat set \<Rightarrow> nat option list \<Rightarrow> bool" where
  "one_each I M \<longleftrightarrow> (\<forall>i \<in> I. \<forall>j \<in> I. M ! i \<noteq> None \<and> M ! i = M ! j \<longrightarrow> i = j)"

lemma finite_unseen [simp]: "finite (unseen seen)"
  by (simp add: unseen_def)

lemma unseen_update: "i < length seen \<Longrightarrow> unseen (seen[i := True]) = unseen seen - {i}"
  by (auto simp: unseen_def nth_list_update split: if_splits)

lemma all_tokens: "set [0..<n] \<subseteq> {..<n}"
  by auto

section \<open>A failed search\<close>

text \<open>Every token it saw is assigned, and all tokens of that slot were seen.\<close>

definition closed_search :: "string list \<Rightarrow> string list list \<Rightarrow> nat option list \<Rightarrow> bool list \<Rightarrow> bool list \<Rightarrow> bool" where
  "closed_search A R M seen seen' \<longleftrightarrow>
     (\<forall>i < length A. seen' ! i \<and> \<not> seen ! i \<longrightarrow>
        (\<exists>slot. M ! i = Some slot \<and> (\<forall>j < length A. accepts_token A R slot j \<longrightarrow> seen' ! j)))"

lemma assign_fails:
  assumes "assign fuel A R slot is (seen, M) = Some (False, seen', M')"
    and "length seen = length A" "set is \<subseteq> {..<length A}"
  shows "M' = M \<and> length seen' = length A \<and> (\<forall>i < length A. seen ! i \<longrightarrow> seen' ! i) \<and>
    (\<forall>i \<in> set is. accepts_token A R slot i \<longrightarrow> seen' ! i) \<and> closed_search A R M seen seen'"
  using assms
proof (induction fuel A R slot "is" "(seen, M)" arbitrary: seen M seen' M' rule: assign.induct)
  case (1 fuel A R slot seen M)
  then show ?case by (simp add: closed_search_def)
next
  case (2 fuel A R slot i "is" seen M)
  have i: "i < length A" and sub: "set is \<subseteq> {..<length A}" using 2(6) by auto
  show ?case
  proof (cases "seen ! i \<or> A ! i \<notin> set (R ! slot)")
    case True
    with 2(4) have "assign fuel A R slot is (seen, M) = Some (False, seen', M')" by simp
    from 2(1) [OF True this 2(5) sub] True i show ?thesis by (auto simp: accepts_token_def)
  next
    case False
    then obtain other n seen1 M1 where o: "M ! i = Some other" "fuel = Suc n"
      and nested: "assign n A R other [0..<length A] (seen[i := True], M) = Some (False, seen1, M1)"
      and rest: "assign fuel A R slot is (seen1, M1) = Some (False, seen', M')"
      using 2(4) by (auto split: option.splits nat.splits bool.splits)
    have IH1: "M1 = M" "length seen1 = length A"
        "\<forall>j < length A. seen[i := True] ! j \<longrightarrow> seen1 ! j"
        "\<forall>j \<in> set [0..<length A]. accepts_token A R other j \<longrightarrow> seen1 ! j"
        "closed_search A R M (seen[i := True]) seen1"
      using 2(2) [OF False o nested] 2(5) all_tokens by simp_all
    have IH2: "M' = M1" "length seen' = length A" "\<forall>j < length A. seen1 ! j \<longrightarrow> seen' ! j"
        "\<forall>j \<in> set is. accepts_token A R slot j \<longrightarrow> seen' ! j" "closed_search A R M1 seen1 seen'"
      using 2(3) [OF False o nested refl _ refl rest IH1(2) sub] by simp_all
    have i1: "seen1 ! i" using IH1(3) i 2(5) by auto
    have mono: "\<forall>j < length A. seen ! j \<longrightarrow> seen' ! j"
      using IH1(3) IH2(3) 2(5) by (metis length_list_update nth_list_update_eq nth_list_update_neq)
    have "closed_search A R M seen seen'"
      unfolding closed_search_def
    proof (intro allI impI)
      fix j assume j: "j < length A" "seen' ! j \<and> \<not> seen ! j"
      consider "j = i" | "j \<noteq> i" "seen1 ! j" | "\<not> seen1 ! j" by blast
      then show "\<exists>slot. M ! j = Some slot \<and> (\<forall>k < length A. accepts_token A R slot k \<longrightarrow> seen' ! k)"
      proof cases
        case 1 then show ?thesis using o(1) IH1(4) IH2(3) by auto
      next
        case 2 then show ?thesis using IH1(5) IH2(3) j unfolding closed_search_def
          by (metis nth_list_update_neq)
      next
        case 3 then show ?thesis using IH2(5) j IH1(1) unfolding closed_search_def by blast
      qed
    qed
    then show ?thesis using mono IH1(1) IH2 i1 i by auto
  qed
qed


section \<open>A successful search\<close>

lemma one_each_subset: "one_each I M \<Longrightarrow> J \<subseteq> I \<Longrightarrow> one_each J M"
  unfolding one_each_def by blast

lemma slots_on_mono: "J \<subseteq> I \<Longrightarrow> slots_on J M \<subseteq> slots_on I M"
  unfolding slots_on_def by blast

lemma put_slot:
  assumes "one_each (I - {i}) M" "slot \<notin> slots_on (I - {i}) M" "i \<in> I" "i < length M"
  shows "one_each I (M[i := Some slot])"
    and "slots_on I (M[i := Some slot]) = insert slot (slots_on (I - {i}) M)"
proof -
  have at: "M[i := Some slot] ! j = (if j = i then Some slot else M ! j)" for j
    using assms(4) by simp
  show "one_each I (M[i := Some slot])"
    unfolding one_each_def
  proof (intro ballI impI)
    fix j k assume jk: "j \<in> I" "k \<in> I"
      "M[i := Some slot] ! j \<noteq> None \<and> M[i := Some slot] ! j = M[i := Some slot] ! k"
    show "j = k"
    proof (cases "j = i \<or> k = i")
      case True
      then show ?thesis using jk assms(2) by (fastforce simp: at slots_on_def split: if_splits)
    next
      case False
      then show ?thesis using jk assms(1) by (auto simp: at one_each_def)
    qed
  qed
  show "slots_on I (M[i := Some slot]) = insert slot (slots_on (I - {i}) M)"
    using assms(3) by (auto simp: slots_on_def at split: if_splits)
qed

lemma slot_of_other:
  assumes "one_each I M" "i \<in> I" "M ! i = Some other"
  shows "other \<notin> slots_on (I - {i}) M" "insert other (slots_on (I - {i}) M) = slots_on I M"
proof -
  show "other \<notin> slots_on (I - {i}) M"
  proof
    assume "other \<in> slots_on (I - {i}) M"
    then obtain j where "j \<in> I" "j \<noteq> i" "M ! j = Some other" unfolding slots_on_def by blast
    with assms show False unfolding one_each_def by simp
  qed
  have "slots_on I M = slots_on {i} M \<union> slots_on (I - {i}) M"
    using assms(2) unfolding slots_on_def by blast
  then show "insert other (slots_on (I - {i}) M) = slots_on I M"
    using assms(3) by (simp add: slots_on_def)
qed

lemma extend_slots:
  assumes "J \<subseteq> I" "one_each I M" "slot \<notin> slots_on I M" "one_each J M'"
    and "slots_on J M' = insert slot (slots_on J M)" and same: "\<forall>i \<in> I - J. M' ! i = M ! i"
  shows "one_each I M'" and "slots_on I M' = insert slot (slots_on I M)"
proof -
  have split: "slots_on I N = slots_on J N \<union> slots_on (I - J) N" for N
    using assms(1) unfolding slots_on_def by blast
  have rest: "slots_on (I - J) M' = slots_on (I - J) M" using same unfolding slots_on_def by auto
  show "slots_on I M' = insert slot (slots_on I M)" by (simp add: split rest assms(5))
  have apart: "M' ! j \<noteq> M' ! k" if "j \<in> J" "k \<in> I - J" "M' ! k = Some t" for j k t
  proof
    assume "M' ! j = M' ! k"
    with that have "t \<in> slots_on J M'" unfolding slots_on_def by force
    moreover have k: "M ! k = Some t" using that same by simp
    moreover have "t \<noteq> slot" using k that assms(3) unfolding slots_on_def by blast
    ultimately have "t \<in> slots_on J M" using assms(5) by auto
    then obtain j' where "j' \<in> J" "M ! j' = Some t" unfolding slots_on_def by blast
    with k that assms(1,2) show False unfolding one_each_def by (metis DiffE option.discI subsetD)
  qed
  show "one_each I M'"
    unfolding one_each_def
  proof (intro ballI impI)
    fix j k assume jk: "j \<in> I" "k \<in> I" "M' ! j \<noteq> None \<and> M' ! j = M' ! k"
    then obtain t where t: "M' ! j = Some t" "M' ! k = Some t" by (metis not_None_eq)
    consider "j \<in> J" "k \<in> J" | "j \<in> I - J" "k \<in> I - J" | "j \<in> J" "k \<in> I - J" | "k \<in> J" "j \<in> I - J"
      using jk by blast
    then show "j = k"
    proof cases
      case 1 then show ?thesis using assms(4) t unfolding one_each_def by simp
    next
      case 2 then show ?thesis using assms(2) t same unfolding one_each_def by simp
    next
      case 3 then show ?thesis using apart t by metis
    next
      case 4 then show ?thesis using apart t by metis
    qed
  qed
qed

definition reassigned ::
  "string list \<Rightarrow> string list list \<Rightarrow> nat \<Rightarrow> bool list \<Rightarrow> nat option list \<Rightarrow> nat option list \<Rightarrow> bool" where
  "reassigned A R slot seen M M' \<longleftrightarrow>
     length M' = length A \<and> (\<forall>i < length A. seen ! i \<longrightarrow> M' ! i = M ! i) \<and>
     one_each (unseen seen) M' \<and> slots_on (unseen seen) M' = insert slot (slots_on (unseen seen) M) \<and>
     (\<forall>i < length A. \<forall>t. M' ! i = Some t \<longrightarrow> M ! i = Some t \<or> accepts_token A R t i)"

lemma reassigned_put:
  assumes "reassigned A R other (seen[i := True]) M N" "length seen = length A" "i < length A"
    and "\<not> seen ! i" "M ! i = Some other" "one_each (unseen seen) M" "slot \<notin> slots_on (unseen seen) M"
    and "accepts_token A R slot i"
  shows "reassigned A R slot seen M (N[i := Some slot])"
proof -
  let ?I = "unseen seen"
  have i: "i \<in> ?I" using assms(2-4) by (simp add: unseen_def)
  have I: "unseen (seen[i := True]) = ?I - {i}" using assms(2,3) by (simp add: unseen_update)
  have N: "length N = length A" "one_each (?I - {i}) N" "slots_on (?I - {i}) N = slots_on ?I M"
    using assms(1) slot_of_other(2) [OF assms(6) i assms(5)] by (auto simp: reassigned_def I)
  have "one_each ?I (N[i := Some slot])" "slots_on ?I (N[i := Some slot]) = insert slot (slots_on ?I M)"
    using put_slot [OF N(2) _ i, of slot] N assms(3,7) by auto
  moreover have "N[i := Some slot] ! j = M ! j" if "j < length A" "seen ! j" for j
  proof -
    have "j \<noteq> i" using assms(4) that by auto
    then show ?thesis using assms(1) that by (simp add: reassigned_def)
  qed
  moreover have "M ! j = Some t \<or> accepts_token A R t j" if "j < length A" "N[i := Some slot] ! j = Some t" for j t
    using assms(1,3,8) N(1) that by (cases "j = i") (auto simp: reassigned_def)
  ultimately show ?thesis using N(1) by (simp add: reassigned_def)
qed

lemma reassigned_free:
  assumes "length seen = length A" "length M = length A" "i < length A" "\<not> seen ! i" "M ! i = None"
    and "one_each (unseen seen) M" "slot \<notin> slots_on (unseen seen) M" "accepts_token A R slot i"
  shows "reassigned A R slot seen M (M[i := Some slot])"
proof -
  let ?I = "unseen seen"
  have i: "i \<in> ?I" using assms(1,3,4) by (simp add: unseen_def)
  have "slots_on (?I - {i}) M = slots_on ?I M" using assms(5) unfolding slots_on_def by auto
  then have "one_each ?I (M[i := Some slot])" "slots_on ?I (M[i := Some slot]) = insert slot (slots_on ?I M)"
    using put_slot [OF one_each_subset [OF assms(6)] _ i, of slot] assms(2,3,7) by auto
  then show ?thesis using assms by (auto simp: reassigned_def nth_list_update)
qed

lemma reassigned_later:
  assumes "reassigned A R slot seen1 M M'" "length seen = length A" "length seen1 = length A"
    and "\<forall>i < length A. seen ! i \<longrightarrow> seen1 ! i" "one_each (unseen seen) M" "slot \<notin> slots_on (unseen seen) M"
  shows "reassigned A R slot seen M M'"
proof -
  have sub: "unseen seen1 \<subseteq> unseen seen" using assms(2-4) by (auto simp: unseen_def)
  have "\<forall>i \<in> unseen seen - unseen seen1. M' ! i = M ! i"
    using assms(1-3) by (auto simp: reassigned_def unseen_def)
  from extend_slots [OF sub assms(5,6) _ _ this] assms(1,4) show ?thesis
    by (simp add: reassigned_def)
qed

lemma assign_succeeds:
  assumes "assign fuel A R slot is (seen, M) = Some (True, seen', M')"
    and "length seen = length A" "length M = length A" "set is \<subseteq> {..<length A}"
    and "one_each (unseen seen) M" "slot \<notin> slots_on (unseen seen) M"
  shows "reassigned A R slot seen M M'"
  using assms
proof (induction fuel A R slot "is" "(seen, M)" arbitrary: seen M seen' M' rule: assign.induct)
  case (1 fuel A R slot seen M)
  then show ?case by simp
next
  case (2 fuel A R slot i "is" seen M)
  note len = 2(5,6) and inv = 2(8,9)
  have i: "i < length A" and sub: "set is \<subseteq> {..<length A}" using 2(7) by auto
  show ?case
  proof (cases "seen ! i \<or> A ! i \<notin> set (R ! slot)")
    case True
    with 2(4) have "assign fuel A R slot is (seen, M) = Some (True, seen', M')" by simp
    from 2(1) [OF True this len sub inv] show ?thesis .
  next
    case False
    then have ok: "\<not> seen ! i" "accepts_token A R slot i" by (auto simp: accepts_token_def)
    show ?thesis
    proof (cases "M ! i")
      case None
      with 2(4) False have "M' = M[i := Some slot]" by simp
      with reassigned_free [OF len i ok(1) None inv ok(2)] show ?thesis by simp
    next
      case (Some other)
      then obtain n res where f: "fuel = Suc n"
        and nested: "assign n A R other [0..<length A] (seen[i := True], M) = Some res"
        using 2(4) False by (auto split: nat.splits option.splits)
      obtain b seen1 M1 where res: "res = (b, seen1, M1)" by (cases res)
      have I: "unseen (seen[i := True]) = unseen seen - {i}" "i \<in> unseen seen"
        using len i ok(1) by (simp_all add: unseen_update) (simp add: unseen_def)
      have inv1: "one_each (unseen (seen[i := True])) M" "other \<notin> slots_on (unseen (seen[i := True])) M"
        using one_each_subset [OF inv(1)] slot_of_other(1) [OF inv(1) I(2) Some] by (auto simp: I(1))
      show ?thesis
      proof (cases b)
        case True
        with res nested have "assign n A R other [0..<length A] (seen[i := True], M) = Some (True, seen1, M1)"
          by simp
        from 2(2) [OF False Some f this _ len(2) all_tokens inv1] len(1)
        have "reassigned A R other (seen[i := True]) M M1" by simp
        from reassigned_put [OF this len(1) i ok(1) Some inv ok(2)] show ?thesis
          using 2(4) False Some f nested res True by simp
      next
        case nb: False
        with res nested have n: "assign n A R other [0..<length A] (seen[i := True], M) = Some (False, seen1, M1)"
          by simp
        from assign_fails [OF this _ all_tokens] len(1)
        have M1: "M1 = M" and len1: "length seen1 = length A"
          and "\<forall>j < length A. seen[i := True] ! j \<longrightarrow> seen1 ! j" by simp_all
        then have mono: "\<forall>j < length A. seen ! j \<longrightarrow> seen1 ! j"
          using len(1) i by (metis nth_list_update_eq nth_list_update_neq)
        then have sub1: "unseen seen1 \<subseteq> unseen seen" using len(1) len1 by (auto simp: unseen_def)
        have rest: "assign fuel A R slot is (seen1, M1) = Some (True, seen', M')"
          using 2(4) False Some f n by simp
        have "one_each (unseen seen1) M1" "slot \<notin> slots_on (unseen seen1) M1"
          using one_each_subset [OF inv(1) sub1] inv(2) slots_on_mono [OF sub1] M1 by auto
        from 2(3) [OF False Some f n refl _ refl rest len1 _ sub this] len(2)
        have "reassigned A R slot seen1 M M'" unfolding M1 by simp
        from reassigned_later [OF this len(1) len1 mono inv] show ?thesis .
      qed
    qed
  qed
qed


section \<open>The fuel\<close>

lemma assign_returns:
  assumes "card (unseen seen) \<le> fuel" "length seen = length A" "set is \<subseteq> {..<length A}"
  shows "assign fuel A R slot is (seen, M) \<noteq> None"
  using assms
proof (induction fuel A R slot "is" "(seen, M)" arbitrary: seen M rule: assign.induct)
  case (2 fuel A R slot i "is" seen M)
  have i: "i < length A" and sub: "set is \<subseteq> {..<length A}" using 2(6) by auto
  show ?case
  proof (cases "seen ! i \<or> A ! i \<notin> set (R ! slot) \<or> M ! i = None")
    case True
    then show ?thesis using 2(1) [OF _ 2(4,5) sub] by auto
  next
    case False
    then obtain other where o: "M ! i = Some other" and ok: "\<not> (seen ! i \<or> A ! i \<notin> set (R ! slot))"
      by auto
    have "i \<in> unseen seen" using ok i 2(5) by (simp add: unseen_def)
    then have "card (unseen seen) = Suc (card (unseen seen - {i}))" by (rule card.remove [OF finite_unseen])
    moreover have "unseen (seen[i := True]) = unseen seen - {i}" using 2(5) i by (simp add: unseen_update)
    ultimately have "Suc (card (unseen (seen[i := True]))) \<le> fuel" using 2(4) by metis
    then obtain n where f: "fuel = Suc n" and n: "card (unseen (seen[i := True])) \<le> n"
      by (metis Suc_le_D Suc_le_mono)
    have "assign n A R other [0..<length A] (seen[i := True], M) \<noteq> None"
      using 2(2) [OF ok o f n _ all_tokens] 2(5) by simp
    then obtain b seen1 M1 where nested: "assign n A R other [0..<length A] (seen[i := True], M) = Some (b, seen1, M1)"
      by (metis not_None_eq prod_cases3)
    show ?thesis
    proof (cases b)
      case True
      then show ?thesis using ok o f nested by simp
    next
      case nb: False
      then have nested: "assign n A R other [0..<length A] (seen[i := True], M) = Some (False, seen1, M1)"
        using nested by simp
      from assign_fails [OF this _ all_tokens] 2(5)
      have len1: "length seen1 = length A" and "\<forall>j < length A. seen[i := True] ! j \<longrightarrow> seen1 ! j"
        by simp_all
      then have "unseen seen1 \<subseteq> unseen (seen[i := True])" using 2(5) by (auto simp: unseen_def)
      then have "card (unseen seen1) \<le> fuel"
        using card_mono [OF finite_unseen] n f by (meson le_SucI order_trans)
      from 2(3) [OF ok o f nested refl _ refl this len1 sub] show ?thesis
        using ok o f nested by simp
    qed
  qed
qed simp

section \<open>The assignment of all slots\<close>

text \<open>The abstract question: does every slot have a token of its own that it accepts?\<close>

definition assignable :: "string list \<Rightarrow> string list list \<Rightarrow> bool" where
  "assignable A R \<longleftrightarrow>
     (\<exists>f. inj_on f {..<length R} \<and> (\<forall>slot < length R. f slot < length A \<and> accepts_token A R slot (f slot)))"

definition partly_assigned :: "string list \<Rightarrow> string list list \<Rightarrow> nat \<Rightarrow> nat option list \<Rightarrow> bool" where
  "partly_assigned A R k M \<longleftrightarrow>
     length M = length A \<and> one_each {..<length A} M \<and> slots_on {..<length A} M = {..<k} \<and>
     (\<forall>i < length A. \<forall>t. M ! i = Some t \<longrightarrow> accepts_token A R t i)"

lemma unseen_fresh: "unseen (replicate n False) = {..<n}"
  by (auto simp: unseen_def)

lemma partly_assigned_step:
  assumes "partly_assigned A R k M"
    and "assign (length A) A R k [0..<length A] (replicate (length A) False, M) = Some (True, seen', M')"
  shows "partly_assigned A R (Suc k) M'"
proof -
  have "reassigned A R k (replicate (length A) False) M M'"
    using assign_succeeds [OF assms(2) _ _ all_tokens] assms(1)
    by (simp add: partly_assigned_def unseen_fresh)
  then show ?thesis
    using assms(1) unfolding partly_assigned_def reassigned_def unseen_fresh lessThan_Suc
    by (metis length_replicate)
qed

lemma full_assignment:
  assumes "partly_assigned A R (length R) M"
  shows "assignable A R"
proof -
  have "\<forall>slot \<in> {..<length R}. \<exists>i < length A. M ! i = Some slot"
    using assms unfolding partly_assigned_def slots_on_def by (auto simp: set_eq_iff)
  then obtain f where f: "\<forall>slot \<in> {..<length R}. f slot < length A \<and> M ! f slot = Some slot"
    by metis
  then have "inj_on f {..<length R}" by (intro inj_onI) (metis option.inject)
  with f assms show ?thesis unfolding assignable_def partly_assigned_def by blast
qed

lemma no_assignment:
  assumes M: "partly_assigned A R k M" and k: "k < length R"
    and fails: "assign (length A) A R k [0..<length A] (replicate (length A) False, M) = Some (False, seen', M')"
  shows "\<not> assignable A R"
proof
  assume "assignable A R"
  then obtain f where f: "inj_on f {..<length R}"
      "\<forall>slot < length R. f slot < length A \<and> accepts_token A R slot (f slot)"
    unfolding assignable_def by blast
  define T where "T = {i. i < length A \<and> seen' ! i}"
  have own: "\<forall>i \<in> set [0..<length A]. accepts_token A R k i \<longrightarrow> seen' ! i"
    and closed: "closed_search A R M (replicate (length A) False) seen'"
    using assign_fails [OF fails _ all_tokens] by simp_all
  have T: "\<exists>slot. M ! i = Some slot \<and> (\<forall>j < length A. accepts_token A R slot j \<longrightarrow> j \<in> T)" if "i \<in> T" for i
    using closed that by (auto simp: closed_search_def T_def)
  have img: "slots_on T M = (\<lambda>i. the (M ! i)) ` T"
    using T unfolding slots_on_def by force
  have "inj_on (\<lambda>i. the (M ! i)) T"
  proof (rule inj_onI)
    fix i j assume ij: "i \<in> T" "j \<in> T" "the (M ! i) = the (M ! j)"
    then obtain s t where "M ! i = Some s" "M ! j = Some t" using T by metis
    with ij(3) have "M ! i \<noteq> None" "M ! i = M ! j" by simp_all
    with ij(1,2) show "i = j" using M ij unfolding partly_assigned_def one_each_def T_def by blast
  qed
  then have card: "card (slots_on T M) = card T" by (simp add: img card_image)
  have below: "slots_on T M \<subseteq> {..<k}"
    using M slots_on_mono [of T "{..<length A}" M] by (auto simp: partly_assigned_def T_def)
  have "f slot \<in> T" if "slot \<in> insert k (slots_on T M)" for slot
  proof -
    note mem = that
    have slot: "slot < length R" using mem below k by auto
    show ?thesis
    proof (cases "slot = k")
      case True then show ?thesis using own f(2) slot by (auto simp: T_def)
    next
      case False
      then obtain i where "i \<in> T" "M ! i = Some slot" using mem unfolding slots_on_def by blast
      then show ?thesis using T f(2) slot by fastforce
    qed
  qed
  then have sub: "f ` insert k (slots_on T M) \<subseteq> T" by blast
  have "inj_on f (insert k (slots_on T M))"
    using f(1) by (rule inj_on_subset) (use below k in auto)
  then have "card (insert k (slots_on T M)) \<le> card T"
    using card_inj_on_le [OF _ sub] by (simp add: T_def)
  moreover have "finite (slots_on T M)" "k \<notin> slots_on T M" using below finite_subset by auto
  ultimately show False using card by simp
qed

lemma assign_slots_assignable:
  "partly_assigned A R k M \<Longrightarrow> k \<le> length R \<Longrightarrow>
     assign_slots A R [k..<length R] M = Some (assignable A R)"
proof (induction "length R - k" arbitrary: k M)
  case 0
  then have "k = length R" by simp
  with 0 full_assignment show ?case by simp
next
  case (Suc n)
  then have k: "k < length R" "[k..<length R] = k # [Suc k..<length R]" by (simp_all add: upt_conv_Cons)
  have "assign (length A) A R k [0..<length A] (replicate (length A) False, M) \<noteq> None"
    by (rule assign_returns) (auto simp: unseen_fresh)
  then obtain b seen' M' where
    r: "assign (length A) A R k [0..<length A] (replicate (length A) False, M) = Some (b, seen', M')"
    by (metis not_None_eq prod_cases3)
  show ?case
  proof (cases b)
    case True
    with r have "assign (length A) A R k [0..<length A] (replicate (length A) False, M) = Some (True, seen', M')"
      by simp
    from partly_assigned_step [OF Suc(3) this] Suc(1) [of "Suc k" M'] Suc(2) k r True show ?thesis
      by simp
  next
    case False
    with r no_assignment [OF Suc(3) k(1)] k show ?thesis by simp
  qed
qed

lemma partly_assigned_start: "partly_assigned A R 0 (replicate (length A) None)"
  by (auto simp: partly_assigned_def one_each_def slots_on_def)

lemma assignable_length: "assignable A R \<Longrightarrow> length R \<le> length A"
  unfolding assignable_def using card_inj_on_le [of _ "{..<length R}" "{..<length A}"] by force

lemma sentenceMatchesCompound_assignable:
  "sentenceMatchesCompound U s R = Some (assignable (map (canonicalTokenKey U) s) R)"
  using assign_slots_assignable [OF partly_assigned_start, of R "map (canonicalTokenKey U) s"]
    assignable_length [of "map (canonicalTokenKey U) s" R]
  by (auto simp: sentenceMatchesCompound_def)

end
