(* ===== verification/LiveFacts.thy ===== *)
theory LiveFacts
  imports LiveSink SlotAssignment QueueFacts KeywordFacts
begin

text \<open>
  The properties of the sink of incoming messages (internal/telegram/gotd/live_sink.go): how a
  trigger is chosen, which jobs a message leads to, and that it leads to them once.
\<close>

section \<open>Choosing a trigger\<close>

text \<open>
  C18. A trigger of several words asks for a word each. The search for augmenting paths always
  ends within its fuel, and it answers yes exactly when the slots can be given different words
  of the sentence, each with a key that its slot accepts.
\<close>

theorem compound_triggers_need_a_word_each:
  "sentenceMatchesCompound U sentence required =
     Some (\<exists>f. inj_on f {..<length required} \<and>
       (\<forall>slot < length required. f slot < length sentence \<and>
          canonicalTokenKey U (sentence ! f slot) \<in> set (required ! slot)))"
proof -
  have "(f slot < length sentence \<and> accepts_token (map (canonicalTokenKey U) sentence) required slot (f slot)) \<longleftrightarrow>
      (f slot < length sentence \<and> canonicalTokenKey U (sentence ! f slot) \<in> set (required ! slot))" for f slot
    by (auto simp: accepts_token_def)
  then show ?thesis by (simp add: sentenceMatchesCompound_assignable assignable_def)
qed

text \<open>Here the first slot has to give up the word it got first.\<close>

lemma compound_triggers_need_a_word_each_witness:
  "sentenceMatchesCompound plain_unicode [''red'', ''car''] [[''red'', ''car''], [''red'']] = Some True"
proof -
  have keys: "canonicalTokenKey plain_unicode ''red'' = ''red''" "canonicalTokenKey plain_unicode ''car'' = ''car''"
    by code_simp+
  have "inj_on (\<lambda>slot. 1 - slot) {..<length [[''red'', ''car''], [''red'']]}"
    by (auto simp: inj_on_def)
  moreover have "\<forall>slot < length [[''red'', ''car''], [''red'']]. 1 - slot < length [''red'', ''car''] \<and>
      canonicalTokenKey plain_unicode ([''red'', ''car''] ! (1 - slot)) \<in> set ([[''red'', ''car''], [''red'']] ! slot)"
    using keys by (auto simp: less_Suc_eq numeral_2_eq_2)
  ultimately show ?thesis unfolding compound_triggers_need_a_word_each by blast
qed

lemma best_so_far:
  assumes "foldl (better score) (None, 0) ts = (best, n)"
  shows "n = (case best of None \<Rightarrow> 0 | Some t \<Rightarrow> score t) \<and> (\<forall>t \<in> set ts. score t \<le> n) \<and>
    (\<forall>t. best = Some t \<longrightarrow> 0 < score t \<and> (\<exists>i < length ts. ts ! i = t \<and> (\<forall>j < i. score (ts ! j) < score t)))"
  using assms
proof (induction ts arbitrary: best n rule: rev_induct)
  case (snoc x ts)
  obtain b m where bm: "foldl (better score) (None, 0) ts = (b, m)" by fastforce
  note IH = snoc.IH [OF bm]
  have step: "(best, n) = better score (b, m) x" using snoc.prems bm by simp
  show ?case
  proof (cases "m < score x")
    case True
    then have best: "best = Some x" "n = score x" using step by (simp_all add: better_def)
    have "\<forall>j < length ts. score ((ts @ [x]) ! j) < score x"
      using IH True by (metis le_less_trans nth_append nth_mem)
    then show ?thesis using best IH True by (auto intro!: exI [of _ "length ts"])
  next
    case False
    then have "best = b" "n = m" using step by (simp_all add: better_def)
    then show ?thesis using IH False by (auto simp: nth_append)
  qed
qed simp

text \<open>
  The trigger with the best score wins, the first of equals. A trigger is chosen exactly when
  it has a positive score, no later trigger has a better one and every earlier one a lower one.
\<close>

theorem the_best_trigger_wins:
  "let score = canonicalTriggerMatchScore U (normalizedPhraseSentences U txt) txt in
     case matchCanonicalTrigger U txt triggers of
       None \<Rightarrow> \<forall>t \<in> set triggers. score t = 0
     | Some t \<Rightarrow> 0 < score t \<and> (\<forall>t' \<in> set triggers. score t' \<le> score t) \<and>
         (\<exists>i < length triggers. triggers ! i = t \<and> (\<forall>j < i. score (triggers ! j) < score t))"
proof -
  define score where "score = canonicalTriggerMatchScore U (normalizedPhraseSentences U txt) txt"
  obtain best n where f: "foldl (better score) (None, 0) triggers = (best, n)" by fastforce
  then have "matchCanonicalTrigger U txt triggers = best"
    by (simp add: matchCanonicalTrigger_def score_def Let_def)
  with best_so_far [OF f] show ?thesis
    unfolding score_def [symmetric] Let_def by (auto split: option.split)
qed

definition demo_triggers :: "CanonicalTrigger list" where
  "demo_triggers = [\<lparr>ct_ID = ''t1'', ct_Canonical = ''sale'', ct_Forms = [''sale'']\<rparr>,
     \<lparr>ct_ID = ''t2'', ct_Canonical = ''bike'', ct_Forms = [''bikes'']\<rparr>]"

lemma the_best_trigger_wins_witness:
  "\<exists>t. matchCanonicalTrigger plain_unicode ''my bikes'' demo_triggers = Some t \<and> ct_ID t = ''t2'' \<and>
     0 < canonicalTriggerMatchScore plain_unicode (normalizedPhraseSentences plain_unicode ''my bikes'') ''my bikes'' t"
proof -
  have "map_option ct_ID (matchCanonicalTrigger plain_unicode ''my bikes'' demo_triggers) = Some ''t2''"
    by code_simp
  then obtain t where "matchCanonicalTrigger plain_unicode ''my bikes'' demo_triggers = Some t" "ct_ID t = ''t2''"
    by auto
  with the_best_trigger_wins [of plain_unicode "''my bikes''" demo_triggers] show ?thesis by (simp add: Let_def)
qed

section \<open>The jobs of a message\<close>

text \<open>Enqueueing a response adds its row and its history, or changes nothing.\<close>

definition fresh_row :: "OutgoingMessageJob \<Rightarrow> job_row \<Rightarrow> bool" where
  "fresh_row job r \<longleftrightarrow>
     (\<exists>now job'. prepareEnqueue now job = Inr job' \<and> r = row_of_job job')"

definition extends_by :: "job_row list \<Rightarrow> history_row list \<Rightarrow> db \<Rightarrow> db \<Rightarrow> bool" where
  "extends_by rows hs d d' \<longleftrightarrow> d' = d\<lparr>db_jobs := db_jobs d @ rows, db_history := db_history d @ hs\<rparr>"

lemma extends_by_refl: "extends_by [] [] d d"
  by (simp add: extends_by_def)

lemma extends_by_trans: "extends_by rs hs d d1 \<Longrightarrow> extends_by rs' hs' d1 d2 \<Longrightarrow> extends_by (rs @ rs') (hs @ hs') d d2"
  by (simp add: extends_by_def)

lemma insertHistory_extends:
  assumes "insertHistory j draft d = (res, d')"
  shows "(\<exists>hs. extends_by [] hs d d' \<and> (\<forall>h \<in> set hs. hr_job_id h = j \<and> hr_final_status h = None)) \<and>
    (res = Inr () \<longrightarrow> j \<in> history_jobs d')"
proof -
  consider (known) "j \<in> history_jobs d" "d' = d" | (clash) "d' = d" "res \<noteq> Inr ()"
    | (added) "d' = d\<lparr>db_history := db_history d @ [history_of_draft d j draft]\<rparr>"
  proof (cases "sql_exists (\<lambda>h. hr_job_id h = j) (db_history d)")
    case True
    then have "j \<in> history_jobs d" by (auto simp: sql_exists_iff history_jobs_def)
    moreover have "d' = d" using True assms by (simp add: insertHistory_def)
    ultimately show ?thesis by (rule known)
  next
    case False
    then have "d' = d \<and> res \<noteq> Inr () \<or> d' = d\<lparr>db_history := db_history d @ [history_of_draft d j draft]\<rparr>"
      using assms by (auto simp: insertHistory_def split: if_splits)
    then show ?thesis using clash added by blast
  qed
  then show ?thesis
  proof cases
    case added
    have "extends_by [] [history_of_draft d j draft] d d'" "j \<in> history_jobs d'"
      unfolding added by (simp_all add: extends_by_def history_jobs_def history_of_draft_def)
    then show ?thesis by (intro conjI exI [of _ "[history_of_draft d j draft]"]) (simp_all add: history_of_draft_def)
  qed (use extends_by_refl in \<open>auto intro!: exI [of _ "[]"]\<close>)
qed

lemma prepareEnqueue_ID: "prepareEnqueue now job = Inr job' \<Longrightarrow> job_ID job' = job_ID job"
  by (auto simp: prepareEnqueue_def split: if_splits)

lemma insertJob_extends:
  assumes "insertJob job d = (Inr n, d')"
  shows "(\<exists>rs. extends_by rs [] d d' \<and> (\<forall>r \<in> set rs. r = row_of_job job) \<and> length rs \<le> 1) \<and>
    the_job d' (job_ID job) \<noteq> None"
proof -
  consider (known) "\<exists>r \<in> set (db_jobs d). jr_id r = job_ID job" "d' = d"
    | (added) "d' = d\<lparr>db_jobs := db_jobs d @ [row_of_job job]\<rparr>"
    using assms by (auto simp: insertJob_def sql_exists_def list_ex_iff split: if_splits)
  then show ?thesis
  proof cases
    case known
    then show ?thesis using extends_by_refl
      by (auto simp: sql_select_def find_None_iff intro!: exI [of _ "[]"])
  next
    case added
    then have "extends_by [row_of_job job] [] d d'" by (simp add: extends_by_def)
    moreover have "the_job d' (job_ID job) \<noteq> None"
    proof -
      have "row_of_job job \<in> set (db_jobs d')" by (simp add: added)
      moreover have "jr_id (row_of_job job) = job_ID job" by (simp add: row_of_job_def)
      ultimately show ?thesis unfolding sql_select_None_iff by blast
    qed
    ultimately show ?thesis by (intro conjI exI [of _ "[row_of_job job]"]) simp_all
  qed
qed

lemma EnqueueKeywordResponse_extends:
  assumes "EnqueueKeywordResponse now job draft d = (res, d')"
  shows "\<exists>rs hs. extends_by rs hs d d' \<and> length rs \<le> 1 \<and> (\<forall>r \<in> set rs. fresh_row job r) \<and>
      (\<forall>h \<in> set hs. hr_job_id h = job_ID job \<and> hr_final_status h = None)"
    and "res = Inr () \<Longrightarrow> the_job d' (job_ID job) \<noteq> None \<and> job_ID job \<in> history_jobs d'"
proof -
  consider (same) "d' = d" "res \<noteq> Inr ()"
    | (added) job' inserted d1 where "prepareEnqueue now job = Inr job'" "insertJob job' d = (Inr inserted, d1)"
        "insertHistory (job_ID job') draft d1 = (Inr (), d')"
  proof -
    show thesis
      using assms that
      by (auto simp: EnqueueKeywordResponse_def in_tx_def split: if_splits sum.splits prod.splits)
  qed
  note split = this
  show "\<exists>rs hs. extends_by rs hs d d' \<and> length rs \<le> 1 \<and> (\<forall>r \<in> set rs. fresh_row job r) \<and>
      (\<forall>h \<in> set hs. hr_job_id h = job_ID job \<and> hr_final_status h = None)"
  proof (cases rule: split)
    case same
    then show ?thesis using extends_by_refl by (intro exI [of _ "[]"]) simp
  next
    case added
    obtain rs where rs: "extends_by rs [] d d1" "\<forall>r \<in> set rs. r = row_of_job job'" "length rs \<le> 1"
      using insertJob_extends [OF added(2)] by blast
    obtain hs where hs: "extends_by [] hs d1 d'" "\<forall>h \<in> set hs. hr_job_id h = job_ID job' \<and> hr_final_status h = None"
      using insertHistory_extends [OF added(3)] by blast
    have "extends_by rs hs d d'" using extends_by_trans [OF rs(1) hs(1)] by simp
    with rs hs added(1) prepareEnqueue_ID show ?thesis unfolding fresh_row_def by metis
  qed
  show "res = Inr () \<Longrightarrow> the_job d' (job_ID job) \<noteq> None \<and> job_ID job \<in> history_jobs d'"
  proof (cases rule: split)
    case added
    have "the_job d1 (job_ID job') \<noteq> None" using insertJob_extends [OF added(2)] by simp
    moreover have "db_jobs d' = db_jobs d1" using insertHistory_extends [OF added(3)] by (auto simp: extends_by_def)
    ultimately show ?thesis
      using insertHistory_extends [OF added(3)] prepareEnqueue_ID [OF added(1)] by simp
  qed simp
qed


lemma the_job_extends: "extends_by rs hs d d' \<Longrightarrow> the_job d j \<noteq> None \<Longrightarrow> the_job d' j \<noteq> None"
  by (auto simp: extends_by_def sql_select_append)

lemma history_jobs_extends: "extends_by rs hs d d' \<Longrightarrow> history_jobs d \<subseteq> history_jobs d'"
  by (auto simp: extends_by_def history_jobs_def)

lemma enqueue_responses_extends:
  assumes "enqueue_responses now draft jobs d = (res, d')"
  shows "(\<exists>rs hs. extends_by rs hs d d' \<and> length rs \<le> length jobs \<and>
      (\<forall>r \<in> set rs. \<exists>job \<in> set jobs. fresh_row job r) \<and>
      (\<forall>h \<in> set hs. hr_job_id h \<in> job_ID ` set jobs \<and> hr_final_status h = None)) \<and>
    (res = Inr () \<longrightarrow> (\<forall>job \<in> set jobs. the_job d' (job_ID job) \<noteq> None \<and> job_ID job \<in> history_jobs d'))"
  using assms
proof (induction jobs arbitrary: d)
  case Nil
  then show ?case using extends_by_refl by (auto intro!: exI [of _ "[]"])
next
  case (Cons job jobs)
  obtain r1 d1 where one: "EnqueueKeywordResponse now job draft d = (r1, d1)" by fastforce
  obtain rs hs where ext: "extends_by rs hs d d1" "length rs \<le> 1" "\<forall>r \<in> set rs. fresh_row job r"
      "\<forall>h \<in> set hs. hr_job_id h = job_ID job \<and> hr_final_status h = None"
    using EnqueueKeywordResponse_extends(1) [OF one] by blast
  show ?case
  proof (cases r1)
    case (Inl e)
    with one Cons.prems have res: "d' = d1" "res \<noteq> Inr ()" by auto
    show ?thesis
      using ext by (intro conjI exI [of _ rs] exI [of _ hs]) (auto simp: res)
  next
    case (Inr u)
    with one Cons.prems have rest: "enqueue_responses now draft jobs d1 = (res, d')" by simp
    from Cons.IH [OF rest] obtain rs' hs' where ext': "extends_by rs' hs' d1 d'" "length rs' \<le> length jobs"
      "\<forall>r \<in> set rs'. \<exists>job \<in> set jobs. fresh_row job r"
      "\<forall>h \<in> set hs'. hr_job_id h \<in> job_ID ` set jobs \<and> hr_final_status h = None"
      and all: "res = Inr () \<longrightarrow> (\<forall>job \<in> set jobs. the_job d' (job_ID job) \<noteq> None \<and> job_ID job \<in> history_jobs d')"
      by blast
    have "the_job d1 (job_ID job) \<noteq> None" "job_ID job \<in> history_jobs d1"
      using EnqueueKeywordResponse_extends(2) [OF one] Inr by simp_all
    then have "the_job d' (job_ID job) \<noteq> None \<and> job_ID job \<in> history_jobs d'"
      using the_job_extends [OF ext'(1)] history_jobs_extends [OF ext'(1)] by blast
    moreover have "extends_by (rs @ rs') (hs @ hs') d d'" by (rule extends_by_trans [OF ext(1) ext'(1)])
    ultimately show ?thesis
      using ext ext' all by (intro conjI exI [of _ "rs @ rs'"] exI [of _ "hs @ hs'"]) auto
  qed
qed

lemma those_set: "those xs = Some ys \<Longrightarrow> y \<in> set ys \<Longrightarrow> Some y \<in> set xs"
  by (induction xs arbitrary: ys) (auto split: option.splits)

lemma find_SomeD: "find P xs = Some x \<Longrightarrow> x \<in> set xs \<and> P x"
  by (induction xs) (auto split: if_splits)

lemma outboundChannel_active:
  assumes "outboundChannel chat d = Inr channelID" "channelID \<noteq> ''''"
  shows "\<exists>c \<in> set (db_outbound d). ch_id c = channelID \<and> ch_active c \<and>
    storageChatID (ch_telegram_chat_id c) = storageChatID chat"
proof -
  obtain rows where rows: "ListCatalog CatalogOutbound d = Inr rows"
    using assms(1) by (auto simp: outboundChannel_def split: sum.splits)
  let ?p = "\<lambda>row. chl_Active row \<and> storageChatID (chl_TelegramID row) = storageChatID chat"
  obtain row where found: "find ?p rows = Some row" and id: "chl_ID row = channelID"
    using assms rows by (cases "find ?p rows") (auto simp: outboundChannel_def)
  from find_SomeD [OF found] id have row: "row \<in> set rows" "chl_Active row" "chl_ID row = channelID"
      "storageChatID (chl_TelegramID row) = storageChatID chat"
    by simp_all
  have "those (map (scanCatalogChannel OutboundChannels) (listed_channels OutboundChannels (db_outbound d))) = Some rows"
    using rows by (auto simp: ListCatalog_def catalogTable_def table_rows_def split: option.splits)
  from those_set [OF this row(1)] obtain c where
    "c \<in> set (db_outbound d)" "scanCatalogChannel OutboundChannels c = Some row"
    by (auto simp: listed_channels_def)
  then show ?thesis using row by (auto simp: scanCatalogChannel_def split: option.splits)
qed

text \<open>What the settings let a job of a message be.\<close>

definition job_as_settings_say :: "Snapshot \<Rightarrow> IncomingUpdate \<Rightarrow> ID \<Rightarrow> CanonicalTrigger \<Rightarrow> OutgoingMessageJob \<Rightarrow> bool" where
  "job_as_settings_say snapshot u channelID trigger job \<longleftrightarrow>
     job_Type job = JobKeywordResponse \<and> job_AccountID job = None \<and> job_ChannelID job = channelID \<and>
     job_RuleID job = ct_ID trigger \<and> job_TargetTelegramID job = TrimSpace (upd_SenderID u) \<and>
     job_ReplyToMessageID job = FormatInt (upd_MessageID u) \<and> job_Status job = ''queued'' \<and>
     job_Attempts job = 0 \<and>
     (job_AllowPrivate job \<longrightarrow> snap_DirectMessages snapshot \<and> job_TargetTelegramID job \<noteq> '''') \<and>
     (job_KeywordDeliveryMode job = KeywordDeliveryModePrivate \<longrightarrow>
        snap_DeliveryMode snapshot \<in> {KeywordDeliveryModePrivate, KeywordDeliveryModeBoth} \<and>
        job_TargetTelegramID job \<noteq> '''') \<and>
     (job_FallbackToPublic job \<longrightarrow> snap_DeliveryMode snapshot = KeywordDeliveryModePrivate)"

lemma keywordDeliveryJobs_as_settings_say:
  assumes "job \<in> set (keywordDeliveryJobs U digest snapshot u channelID trigger now)"
  shows "job_as_settings_say snapshot u channelID trigger job"
  using assms
  by (auto simp: keywordDeliveryJobs_def Let_def mode_job_def keyword_job_def job_as_settings_say_def
      Normalized_mode_def split: if_splits)

lemma prepared_as_settings_say:
  assumes "prepareEnqueue t job = Inr job'" "job_as_settings_say snapshot u channelID trigger job"
  shows "job_as_settings_say snapshot u channelID trigger job'"
proof -
  have "job' = job\<lparr>job_Status := job_Status job', job_NextAttemptAt := job_NextAttemptAt job',
      job_CreatedAt := job_CreatedAt job'\<rparr>" "job_Status job' = (if job_Status job = '''' then ''queued'' else job_Status job)"
    using assms(1) unfolding prepareEnqueue_def by (auto split: if_splits)
  with assms(2) show ?thesis unfolding job_as_settings_say_def by (cases job, cases job') simp
qed

lemma prepared_again: "prepareEnqueue t job = Inr job' \<Longrightarrow> prepareEnqueue t job' = Inr job'"
  by (cases job, cases job') (auto simp: prepareEnqueue_def IsZero_def split: if_splits)

lemma keywordDeliveryJobs_two: "length (keywordDeliveryJobs U digest snapshot u channelID trigger now) \<le> 2"
  by (simp add: keywordDeliveryJobs_def Let_def)

lemma keywordDeliveryJobs_now:
  "map job_ID (keywordDeliveryJobs U digest snapshot u channelID trigger now) =
   map job_ID (keywordDeliveryJobs U digest snapshot u channelID' trigger now')"
  by (simp add: keywordDeliveryJobs_def Let_def mode_job_def keyword_job_def)


lemma Trigger_cases:
  assumes "Trigger U digest now snapshot u d = (res, d')"
  obtains (quiet) "d' = d"
  | (jobs) trigger channelID where "answered_trigger U snapshot u = Some trigger"
      "outboundChannel (upd_ChatID u) d = Inr channelID" "channelID \<noteq> ''''"
      "enqueue_responses now (draft_of u trigger now)
         (keywordDeliveryJobs U digest snapshot u channelID trigger now) d = (res, d')"
  using assms that by (auto simp: Trigger_def split: option.splits sum.splits if_splits)


definition demo_update :: IncomingUpdate where
  "demo_update = \<lparr>upd_ChatID = ''channel:100'', upd_MessageID = 7, upd_Text = '' Bikes, please'',
     upd_SenderID = ''42'', upd_SenderUsername = ''bob'', upd_MessageAt = 1, upd_EditedAt = None\<rparr>"

definition live_settings :: Snapshot where
  "live_settings = empty_snapshot\<lparr>snap_Keywords := [''bikes''], snap_DeliveryMode := ''both'', snap_SharedReply := ''hi''\<rparr>"

abbreviation demo_trigger :: "db \<Rightarrow> (db_error + unit) \<times> db" where
  "demo_trigger \<equiv> Trigger plain_unicode id (20 * Second) live_settings demo_update"

lemma demo_trigger_run:
  "(case demo_trigger demo_db of (res, d) \<Rightarrow> (res, map jr_keyword_delivery_mode (db_jobs d))) =
     (Inr (), ['''', ''comments'', ''private''])"
  by code_simp

lemma demo_trigger_modes:
  "fst (demo_trigger demo_db) = Inr ()"
  "map jr_keyword_delivery_mode (db_jobs (snd (demo_trigger demo_db))) = ['''', ''comments'', ''private'']"
  using demo_trigger_run by (auto simp: case_prod_beta)



section \<open>The same message again\<close>

lemma EnqueueKeywordResponse_known:
  assumes "the_job d (job_ID job) \<noteq> None" "job_ID job \<in> history_jobs d"
  shows "snd (EnqueueKeywordResponse now job draft d) = d"
proof -
  have insert: "snd (insertHistory (job_ID job) draft d) = d"
    using assms(2) by (auto simp: insertHistory_def history_jobs_def sql_exists_iff)
  have "sql_exists (\<lambda>r. jr_id r = job_ID job) (db_jobs d)"
    using assms(1) by (auto simp: sql_select_None_iff sql_exists_iff)
  then have "snd (insertJob job' d) = d \<and> (\<forall>n. fst (insertJob job' d) = Inr n \<longrightarrow> n = 0)"
    if "job_ID job' = job_ID job" for job'
    using that by (auto simp: insertJob_def)
  then show ?thesis
    using insert prepareEnqueue_ID
    by (auto simp: EnqueueKeywordResponse_def in_tx_def split: sum.splits prod.splits if_splits)
      (metis fst_conv snd_conv)+
qed

lemma enqueue_responses_known:
  "\<forall>job \<in> set jobs. the_job d (job_ID job) \<noteq> None \<and> job_ID job \<in> history_jobs d \<Longrightarrow>
     snd (enqueue_responses now draft jobs d) = d"
proof (induction jobs)
  case (Cons job jobs)
  then have "snd (EnqueueKeywordResponse now job draft d) = d" by (simp add: EnqueueKeywordResponse_known)
  with Cons show ?case by (auto split: prod.split sum.split)
qed simp

text \<open>Enqueueing responses is a run of the queue's own calls.\<close>

lemma enqueue_responses_serve:
  "\<exists>cs. snd (enqueue_responses now draft jobs d) = serve cs d \<and>
     (\<forall>(t, c) \<in> set cs. \<exists>job \<in> set jobs. c = CallEnqueueKeyword job draft)"
proof (induction jobs arbitrary: d)
  case Nil
  then show ?case by (auto intro!: exI [of _ "[]"])
next
  case (Cons job jobs)
  obtain r1 d1 where one: "EnqueueKeywordResponse now job draft d = (r1, d1)" by fastforce
  obtain cs where cs: "snd (enqueue_responses now draft jobs d1) = serve cs d1"
    "\<forall>(t, c) \<in> set cs. \<exists>job \<in> set jobs. c = CallEnqueueKeyword job draft" using Cons.IH by blast
  show ?case
  proof (cases r1)
    case (Inl e)
    then show ?thesis using one by (auto intro!: exI [of _ "[(now, CallEnqueueKeyword job draft)]"])
  next
    case (Inr x)
    have "snd (enqueue_responses now draft (job # jobs) d) = serve ((now, CallEnqueueKeyword job draft) # cs) d"
      using one Inr cs(1) by simp
    moreover have "\<forall>(t, c) \<in> set ((now, CallEnqueueKeyword job draft) # cs).
        \<exists>job' \<in> set (job # jobs). c = CallEnqueueKeyword job' draft"
      using cs(2) by fastforce
    ultimately show ?thesis by blast
  qed
qed

lemma Trigger_queue_inv:
  assumes "queue_inv d"
  shows "queue_inv (snd (Trigger U digest now snapshot u d))"
proof -
  obtain res d' where T: "Trigger U digest now snapshot u d = (res, d')" by fastforce
  then show ?thesis
  proof (cases rule: Trigger_cases)
    case quiet
    then show ?thesis using assms T by simp
  next
    case (jobs trigger channelID)
    let ?jobs = "keywordDeliveryJobs U digest snapshot u channelID trigger now"
    obtain cs where cs: "d' = serve cs d" "\<forall>(t, c) \<in> set cs. \<exists>job \<in> set ?jobs. c = CallEnqueueKeyword job (draft_of u trigger now)"
      using enqueue_responses_serve [of now "draft_of u trigger now" ?jobs d] jobs(4) by auto
    have "\<forall>job \<in> set ?jobs. job_Attempts job < maxDeliveryAttempts"
      using keywordDeliveryJobs_as_settings_say by (fastforce simp: job_as_settings_say_def maxDeliveryAttempts_def)
    with cs(2) have "\<forall>(t, c) \<in> set cs. call_ok c" by fastforce
    with assms cs(1) T show ?thesis
      using serve_books_ok serve_outcomes unfolding queue_inv_def by auto
  qed
qed

text \<open>
  C8. A message is answered once. When matching a message has led to its jobs, seeing the same
  message again under the same settings changes nothing, however much later, whatever calls the
  delivery queue has served meanwhile, and whatever has become of the jobs.
\<close>

theorem messages_are_answered_once:
  assumes "queue_inv d" "Trigger U digest now snapshot u d = (Inr (), d')"
    and "\<exists>channelID. outboundChannel (upd_ChatID u) d = Inr channelID \<and> channelID \<noteq> ''''"
    and "\<forall>(time, c) \<in> set cs. call_ok c"
  shows "snd (Trigger U digest later snapshot u (serve cs d')) = serve cs d'"
proof (cases "answered_trigger U snapshot u")
  case None
  then show ?thesis by (simp add: Trigger_def)
next
  case (Some trigger)
  obtain channelID where ch: "outboundChannel (upd_ChatID u) d = Inr channelID" "channelID \<noteq> ''''"
    using assms(3) by blast
  let ?jobs = "keywordDeliveryJobs U digest snapshot u channelID trigger now"
  have "enqueue_responses now (draft_of u trigger now) ?jobs d = (Inr (), d')"
    using assms(2) Some ch by (simp add: Trigger_def)
  from enqueue_responses_extends [OF this]
  have known: "\<forall>job \<in> set ?jobs. the_job d' (job_ID job) \<noteq> None \<and> job_ID job \<in> history_jobs d'" by blast
  have "queue_ok d'"
    using Trigger_queue_inv [OF assms(1), of U digest now snapshot u] assms(2) by (simp add: queue_inv_def)
  then have "history_jobs d' \<subseteq> history_jobs (serve cs d')" using serve_history_jobs assms(4) by blast
  with known have kept: "\<forall>i \<in> set (map job_ID ?jobs). the_job (serve cs d') i \<noteq> None \<and> i \<in> history_jobs (serve cs d')"
    using serve_job by (fastforce simp: not_None_eq)
  then have again: "snd (enqueue_responses later (draft_of u trigger later)
      (keywordDeliveryJobs U digest snapshot u channelID' trigger later) (serve cs d')) = serve cs d'" for channelID'
    using keywordDeliveryJobs_now [of U digest snapshot u channelID trigger now channelID' later]
    by (intro enqueue_responses_known) (metis image_eqI list.set_map)
  show ?thesis using again by (simp add: Trigger_def Some split: sum.split)
qed

lemma messages_are_answered_once_witness:
  "length (db_jobs (snd (demo_trigger demo_db))) = 3 \<and>
   snd (Trigger plain_unicode id (90 * Second) live_settings demo_update (serve demo_calls (snd (demo_trigger demo_db)))) =
     serve demo_calls (snd (demo_trigger demo_db))"
proof -
  have first: "demo_trigger demo_db = (Inr (), snd (demo_trigger demo_db))"
    using demo_trigger_modes(1) by (metis prod.collapse)
  have "outboundChannel (upd_ChatID demo_update) demo_db = Inr ''c1''" by code_simp
  then have ch: "\<exists>c. outboundChannel (upd_ChatID demo_update) demo_db = Inr c \<and> c \<noteq> ''''" by simp
  from messages_are_answered_once [OF demo_inv first ch demo_calls_ok, of "90 * Second"]
  have "snd (Trigger plain_unicode id (90 * Second) live_settings demo_update (serve demo_calls (snd (demo_trigger demo_db)))) =
    serve demo_calls (snd (demo_trigger demo_db))" .
  moreover have "length (db_jobs (snd (demo_trigger demo_db))) = 3"
    using arg_cong [OF demo_trigger_modes(2), of length] by simp
  ultimately show ?thesis by simp
qed

end
