(* ===== verification/ConfigFacts.thy ===== *)
theory ConfigFacts
  imports RuntimeConfig
begin

text \<open>
  The invariant of the store of settings: revisions grow, no channel is closed while the store
  sends to it, and a subscriber has got the current snapshot or finds it in its channel.
\<close>

section \<open>Sending to subscribers\<close>

definition replaced :: "bool \<Rightarrow> Snapshot \<Rightarrow> updates_chan \<Rightarrow> updates_chan" where
  "replaced steals next ch = (if steals then take_pending ch else ch)\<lparr>chan_pending := Some next\<rparr>"

lemma replacePending_open:
  "\<not> chan_closed ch \<Longrightarrow> replacePending steals next ch = Some (replaced steals next ch)"
  by (cases "chan_pending ch")
    (auto simp: replacePending_def try_send_def replaced_def take_pending_def Let_def)

lemma notify_open:
  assumes "distinct (map sub_updates xs)"
    and "\<forall>x \<in> set xs. sub_updates x < length chans \<and> \<not> chan_closed (chans ! sub_updates x)"
  shows "\<exists>chans'. notify steals next xs chans = Some chans' \<and> length chans' = length chans \<and>
    (\<forall>c < length chans. chans' ! c =
       (if \<exists>x \<in> set xs. sub_updates x = c \<and> sub_after x < snap_Revision next
        then replaced (steals c) next (chans ! c) else chans ! c))"
  using assms
proof (induction xs arbitrary: chans)
  case (Cons x xs)
  let ?c = "sub_updates x"
  define chans1 where "chans1 = (if sub_after x < snap_Revision next
      then chans[?c := replaced (steals ?c) next (chans ! ?c)] else chans)"
  have c: "?c < length chans" "\<not> chan_closed (chans ! ?c)" "?c \<notin> sub_updates ` set xs"
    using Cons(2,3) by auto
  have start: "notify steals next (x # xs) chans = notify steals next xs chans1"
    using c by (simp add: chans1_def replacePending_open)
  have other: "\<forall>c < length chans. c \<noteq> ?c \<longrightarrow> chans1 ! c = chans ! c" "length chans1 = length chans"
    by (auto simp: chans1_def)
  have own: "chans1 ! ?c = (if sub_after x < snap_Revision next
      then replaced (steals ?c) next (chans ! ?c) else chans ! ?c)"
    using c(1) by (simp add: chans1_def)
  have "\<forall>y \<in> set xs. sub_updates y < length chans1 \<and> \<not> chan_closed (chans1 ! sub_updates y)"
  proof
    fix y assume y: "y \<in> set xs"
    then have "sub_updates y \<noteq> ?c" using c(3) by (metis image_eqI)
    then show "sub_updates y < length chans1 \<and> \<not> chan_closed (chans1 ! sub_updates y)"
      using Cons(3) y other by auto
  qed
  with Cons(1) [of chans1] Cons(2) obtain chans' where
    n: "notify steals next xs chans1 = Some chans'" "length chans' = length chans1"
    and at: "\<forall>c < length chans1. chans' ! c =
       (if \<exists>y \<in> set xs. sub_updates y = c \<and> sub_after y < snap_Revision next
        then replaced (steals c) next (chans1 ! c) else chans1 ! c)"
    by auto
  have "chans' ! k = (if \<exists>y \<in> set (x # xs). sub_updates y = k \<and> sub_after y < snap_Revision next
      then replaced (steals k) next (chans ! k) else chans ! k)" if k: "k < length chans" for k
  proof (cases "k = ?c")
    case True
    then have "\<not> (\<exists>y \<in> set xs. sub_updates y = k \<and> sub_after y < snap_Revision next)" using c(3) by (metis image_eqI)
    then show ?thesis using at k other(2) own True by auto
  next
    case False
    then show ?thesis using at k other by auto
  qed
  then show ?case using start n other(2) by auto
qed simp

section \<open>What a channel has carried\<close>

definition carried :: "updates_chan \<Rightarrow> Snapshot list" where
  "carried ch = chan_taken ch @ (case chan_pending ch of None \<Rightarrow> [] | Some v \<Rightarrow> [v])"

definition chan_grows :: "revision \<Rightarrow> updates_chan \<Rightarrow> bool" where
  "chan_grows lim ch \<longleftrightarrow>
     sorted_wrt (<) (map snap_Revision (carried ch)) \<and> (\<forall>v \<in> set (carried ch). snap_Revision v \<le> lim) \<and>
     chan_closed ch = chan_once ch"

definition up_to_date :: "Snapshot \<Rightarrow> revision \<Rightarrow> updates_chan \<Rightarrow> bool" where
  "up_to_date cur after ch \<longleftrightarrow>
     \<not> chan_closed ch \<and> (\<forall>v \<in> set (carried ch). after < snap_Revision v) \<and>
     (after < snap_Revision cur \<longrightarrow> carried ch \<noteq> [] \<and> last (carried ch) = cur)"

lemma taken_carried: "set (chan_taken ch) \<subseteq> set (carried ch)"
  by (simp add: carried_def)

lemma carried_take [simp]: "carried (take_pending ch) = carried ch"
  by (simp add: carried_def take_pending_def split: option.split)

lemma take_pending_flags [simp]:
  "chan_closed (take_pending ch) = chan_closed ch" "chan_once (take_pending ch) = chan_once ch"
  "chan_pending (take_pending ch) = None"
  by (simp_all add: take_pending_def split: option.split)

lemma carried_replaced:
  "carried (replaced steals next ch) = (if steals then carried ch else chan_taken ch) @ [next]"
  by (auto simp: carried_def replaced_def take_pending_def split: option.split)

lemma replaced_flags [simp]:
  "chan_closed (replaced steals next ch) = chan_closed ch" "chan_once (replaced steals next ch) = chan_once ch"
  by (simp_all add: replaced_def)

lemma chan_grows_take [simp]: "chan_grows lim (take_pending ch) = chan_grows lim ch"
  by (simp add: chan_grows_def)

lemma up_to_date_take [simp]: "up_to_date cur after (take_pending ch) = up_to_date cur after ch"
  by (simp add: up_to_date_def)

lemma chan_grows_replaced:
  assumes "chan_grows lim ch" "lim < snap_Revision next"
  shows "chan_grows (snap_Revision next) (replaced steals next ch)"
proof -
  have "sorted_wrt (<) (map snap_Revision (chan_taken ch))" "\<forall>v \<in> set (chan_taken ch). snap_Revision v \<le> lim"
    using assms(1) by (auto simp: chan_grows_def carried_def sorted_wrt_append)
  with assms show ?thesis
    by (auto simp: chan_grows_def carried_replaced sorted_wrt_append intro: le_less_trans less_imp_le)
qed

lemma chan_grows_later: "chan_grows lim ch \<Longrightarrow> lim \<le> lim2 \<Longrightarrow> chan_grows lim2 ch"
  by (auto simp: chan_grows_def)

lemma up_to_date_replaced:
  "up_to_date cur after ch \<Longrightarrow> after < snap_Revision next \<Longrightarrow> up_to_date next after (replaced steals next ch)"
  using taken_carried [of ch] by (auto simp: up_to_date_def carried_replaced)

section \<open>The invariant\<close>

definition config_ok :: "config_store \<Rightarrow> bool" where
  "config_ok s \<longleftrightarrow>
     (\<exists>cur. cs_current s = Some cur \<and> snap_Revision cur = cs_revision s \<and>
        (\<forall>x \<in> set (cs_subscribers s). sub_updates x < length (cs_chans s) \<and>
           up_to_date cur (sub_after x) (cs_chans s ! sub_updates x))) \<and>
     (\<forall>ch \<in> set (cs_chans s). chan_grows (cs_revision s) ch) \<and>
     distinct (map sub_updates (cs_subscribers s))"

lemma config_ok_NewStore: "config_ok (NewStore initial)"
  by (simp add: config_ok_def NewStore_def)

lemma revision_step:
  assumes "unat (lim :: revision) + 1 < 2 ^ 64"
  shows "unat (lim + 1) = unat lim + 1" "lim < lim + 1"
proof -
  show "unat (lim + 1) = unat lim + 1" using assms unat_add_lem [of lim 1] by simp
  then show "lim < lim + 1" by (simp add: word_less_nat_alt)
qed

lemma publishLocked_ok:
  assumes "config_ok s" "unat (cs_revision s) + 1 < 2 ^ 64"
  shows "\<exists>s'. publishLocked steals next s = Some (cs_revision s + 1, s') \<and> config_ok s' \<and>
    cs_revision s' = cs_revision s + 1 \<and> cs_current s' = Some (next\<lparr>snap_Revision := cs_revision s + 1\<rparr>)"
proof -
  let ?rev = "cs_revision s + 1" and ?next = "next\<lparr>snap_Revision := cs_revision s + 1\<rparr>"
  obtain cur where cur: "cs_current s = Some cur" "snap_Revision cur = cs_revision s"
      "\<forall>x \<in> set (cs_subscribers s). sub_updates x < length (cs_chans s) \<and>
         up_to_date cur (sub_after x) (cs_chans s ! sub_updates x)"
    and grows: "\<forall>ch \<in> set (cs_chans s). chan_grows (cs_revision s) ch"
    and dist: "distinct (map sub_updates (cs_subscribers s))"
    using assms(1) unfolding config_ok_def by blast
  have less: "cs_revision s < ?rev" using revision_step(2) [OF assms(2)] .
  from cur(3) have "\<forall>x \<in> set (cs_subscribers s). sub_updates x < length (cs_chans s) \<and>
      \<not> chan_closed (cs_chans s ! sub_updates x)"
    by (simp add: up_to_date_def)
  from notify_open [OF dist this, of steals ?next] obtain chans where
    n: "notify steals ?next (cs_subscribers s) (cs_chans s) = Some chans" "length chans = length (cs_chans s)"
    and at: "\<forall>c < length (cs_chans s). chans ! c =
       (if \<exists>x \<in> set (cs_subscribers s). sub_updates x = c \<and> sub_after x < snap_Revision ?next
        then replaced (steals c) ?next (cs_chans s ! c) else cs_chans s ! c)"
    by blast
  have "chan_grows ?rev ch" if "ch \<in> set chans" for ch
  proof -
    obtain c where c: "c < length (cs_chans s)" "ch = chans ! c" using \<open>ch \<in> set chans\<close> n(2) by (auto simp: in_set_conv_nth)
    have "chan_grows (cs_revision s) (cs_chans s ! c)" using grows c(1) by simp
    then show ?thesis
      using chan_grows_replaced [of "cs_revision s" _ ?next] chan_grows_later less c at by auto
  qed
  moreover have "up_to_date ?next (sub_after x) (chans ! sub_updates x)" if x: "x \<in> set (cs_subscribers s)" for x
  proof (cases "sub_after x < ?rev")
    case True
    with x cur(3) at have "chans ! sub_updates x = replaced (steals (sub_updates x)) ?next (cs_chans s ! sub_updates x)"
      by auto
    then show ?thesis using up_to_date_replaced [of cur _ _ ?next] cur(3) x True by simp
  next
    case False
    have "y = x" if "y \<in> set (cs_subscribers s)" "sub_updates y = sub_updates x" for y
      using dist that x by (auto simp: distinct_map inj_on_def)
    with False x cur(3) at have "chans ! sub_updates x = cs_chans s ! sub_updates x" by auto
    then show ?thesis using cur(3) x False by (simp add: up_to_date_def)
  qed
  ultimately have "config_ok (s\<lparr>cs_revision := ?rev, cs_current := Some ?next, cs_chans := chans\<rparr>)"
    using cur(3) dist n(2) by (simp add: config_ok_def)
  then show ?thesis by (simp add: publishLocked_def Let_def n(1))
qed


lemma Subscribe_ok:
  assumes "config_ok s"
  shows "\<exists>s'. Subscribe after s = Some (length (cs_chans s), s') \<and> config_ok s' \<and>
    cs_revision s' = cs_revision s \<and> cs_current s' = cs_current s"
proof -
  obtain cur where cur: "cs_current s = Some cur" "snap_Revision cur = cs_revision s"
      "\<forall>x \<in> set (cs_subscribers s). sub_updates x < length (cs_chans s) \<and>
         up_to_date cur (sub_after x) (cs_chans s ! sub_updates x)"
    using assms unfolding config_ok_def by blast
  define ch where "ch = \<lparr>chan_pending = if after < snap_Revision cur then Some cur else None,
    chan_closed = False, chan_once = False, chan_taken = []\<rparr>"
  define s' where "s' = s\<lparr>cs_subscribers := cs_subscribers s @ [\<lparr>sub_after = after, sub_updates = length (cs_chans s)\<rparr>],
    cs_chans := cs_chans s @ [ch]\<rparr>"
  have "Subscribe after s = Some (length (cs_chans s), s')"
    by (simp add: Subscribe_def Let_def cur(1) ch_def s'_def replacePending_open replaced_def)
  moreover have "chan_grows (cs_revision s) ch" "up_to_date cur after ch"
    using cur(2) by (auto simp: ch_def chan_grows_def up_to_date_def carried_def)
  moreover have "\<forall>x \<in> set (cs_subscribers s). up_to_date cur (sub_after x) ((cs_chans s @ [ch]) ! sub_updates x)"
    using cur(3) by (simp add: nth_append)
  ultimately show ?thesis
    using assms cur unfolding config_ok_def s'_def by (auto simp: image_iff less_Suc_eq)
qed

lemma set_remove_subscriber:
  "distinct (map sub_updates xs) \<Longrightarrow> set (remove_subscriber c xs) = {x \<in> set xs. sub_updates x \<noteq> c}"
  by (induction xs) (auto, metis image_eqI)

lemma distinct_remove_subscriber:
  "distinct (map sub_updates xs) \<Longrightarrow> distinct (map sub_updates (remove_subscriber c xs))"
  by (induction xs) (auto simp: set_remove_subscriber)

lemma config_ok_chan:
  assumes "config_ok s" "chan_grows (cs_revision s) ch" "distinct (map sub_updates subs)"
    and "\<forall>x \<in> set subs. x \<in> set (cs_subscribers s) \<and>
      (sub_updates x = c \<longrightarrow> (\<forall>cur. up_to_date cur (sub_after x) (cs_chans s ! c) \<longrightarrow> up_to_date cur (sub_after x) ch))"
  shows "config_ok (s\<lparr>cs_subscribers := subs, cs_chans := (cs_chans s)[c := ch]\<rparr>)"
proof -
  have "\<forall>k \<in> set ((cs_chans s)[c := ch]). chan_grows (cs_revision s) k"
    using assms(1,2) set_update_subset_insert [of "cs_chans s" c ch] unfolding config_ok_def by blast
  moreover have "up_to_date cur (sub_after x) ((cs_chans s)[c := ch] ! sub_updates x)"
    if "x \<in> set subs" "up_to_date cur (sub_after x) (cs_chans s ! sub_updates x)" "sub_updates x < length (cs_chans s)" for x cur
    using assms(4) that by (cases "sub_updates x = c") auto
  ultimately show ?thesis using assms(1,3,4) unfolding config_ok_def by auto
qed

lemma unsubscribe_ok:
  assumes "config_ok s" "c < length (cs_chans s)"
  shows "\<exists>s'. unsubscribe c s = Some s' \<and> config_ok s' \<and> cs_revision s' = cs_revision s \<and>
    cs_current s' = cs_current s"
proof (cases "chan_once (cs_chans s ! c)")
  case True
  then show ?thesis using assms(1) by (simp add: unsubscribe_def)
next
  case False
  have dist: "distinct (map sub_updates (cs_subscribers s))" using assms(1) unfolding config_ok_def by blast
  have grows: "chan_grows (cs_revision s) (cs_chans s ! c)" using assms unfolding config_ok_def by simp
  then have "\<not> chan_closed (cs_chans s ! c)" using False by (simp add: chan_grows_def)
  moreover have "config_ok (s\<lparr>cs_subscribers := remove_subscriber c (cs_subscribers s),
      cs_chans := (cs_chans s)[c := (cs_chans s ! c)\<lparr>chan_closed := True, chan_once := True\<rparr>]\<rparr>)"
    by (rule config_ok_chan [OF assms(1)])
      (use grows dist in \<open>auto simp: chan_grows_def carried_def distinct_remove_subscriber set_remove_subscriber\<close>)
  ultimately show ?thesis using False by (simp add: unsubscribe_def Let_def)
qed

lemma receive_update_ok:
  assumes "config_ok s" "c < length (cs_chans s)"
  shows "config_ok (receive_update c s)"
proof -
  have "chan_grows (cs_revision s) (cs_chans s ! c)" "distinct (map sub_updates (cs_subscribers s))"
    using assms unfolding config_ok_def by auto
  then have "config_ok (s\<lparr>cs_subscribers := cs_subscribers s,
      cs_chans := (cs_chans s)[c := take_pending (cs_chans s ! c)]\<rparr>)"
    by (intro config_ok_chan [OF assms(1)]) simp_all
  then show ?thesis by (simp add: receive_update_def)
qed

section \<open>Runs\<close>

text \<open>The snapshot a run leaves in force: the last one published, under its revision.\<close>

fun latest :: "config_call list \<Rightarrow> Snapshot \<Rightarrow> Snapshot" where
  "latest [] cur = cur"
| "latest (CallPublish _ next # cs) cur = latest cs (next\<lparr>snap_Revision := snap_Revision cur + 1\<rparr>)"
| "latest (CallUpdate _ mutate # cs) cur =
     latest cs ((case mutate of None \<Rightarrow> cur | Some f \<Rightarrow> f cur)\<lparr>snap_Revision := snap_Revision cur + 1\<rparr>)"
| "latest (_ # cs) cur = latest cs cur"

lemma config_ok_Current: "config_ok s \<Longrightarrow> cs_current s = Some (Current s) \<and> snap_Revision (Current s) = cs_revision s"
  unfolding config_ok_def Current_def by auto

lemma run_config_ok:
  assumes "config_ok s" "unat (cs_revision s) + length (filter publishes cs) < 2 ^ 64"
  shows "\<exists>s'. run_config cs s = Some s' \<and> config_ok s' \<and>
    unat (cs_revision s') = unat (cs_revision s) + length (filter publishes cs) \<and>
    Current s' = latest cs (Current s)"
  using assms
proof (induction cs arbitrary: s)
  case (Cons c cs)
  have cur: "snap_Revision (Current s) = cs_revision s" using config_ok_Current [OF Cons(2)] by simp
  have quiet: ?case if "\<not> publishes c" "config_step c s = Some s1" "config_ok s1"
      "cs_revision s1 = cs_revision s" "cs_current s1 = cs_current s" for s1
  proof -
    have "latest (c # cs) (Current s) = latest cs (Current s1)"
      using that(1,5) by (cases c) (simp_all add: Current_def)
    with Cons(1) [OF that(3)] Cons(3) that show ?thesis by simp
  qed
  have loud: ?case if p: "publishes c" "\<And>steals. config_step c s = map_option snd (publishLocked (g steals) next s)"
      "latest (c # cs) (Current s) = latest cs (next\<lparr>snap_Revision := cs_revision s + 1\<rparr>)" for g :: "nat \<Rightarrow> nat \<Rightarrow> bool" and "next"
  proof -
    have small: "unat (cs_revision s) + 1 < 2 ^ 64" using Cons(3) p(1) by simp
    obtain s1 where s1: "publishLocked (g 0) next s = Some (cs_revision s + 1, s1)" "config_ok s1"
        "cs_revision s1 = cs_revision s + 1" "cs_current s1 = Some (next\<lparr>snap_Revision := cs_revision s + 1\<rparr>)"
      using publishLocked_ok [OF Cons(2) small] by blast
    have "unat (cs_revision s1) + length (filter publishes cs) < 2 ^ 64"
      using Cons(3) p(1) revision_step(1) [OF small] s1(3) by simp
    from Cons(1) [OF s1(2) this] show ?thesis
      using p(1) p(2) [of 0] p(3) s1 revision_step(1) [OF small] by (simp add: Current_def)
  qed
  show ?case
  proof (cases c)
    case (CallPublish steals "next")
    then show ?thesis using loud [of "\<lambda>_. steals" "next"] cur by (simp add: Publish_def)
  next
    case (CallUpdate steals mutate)
    then show ?thesis using loud [of "\<lambda>_. steals" "case mutate of None \<Rightarrow> Current s | Some f \<Rightarrow> f (Current s)"] cur
      by (simp add: UpdateConfig_def Let_def)
  next
    case (CallSubscribe after)
    then show ?thesis using quiet Subscribe_ok [OF Cons(2), of after] by fastforce
  next
    case (CallUnsubscribe k)
    then show ?thesis using quiet unsubscribe_ok [OF Cons(2), of k] Cons(2) by fastforce
  next
    case (CallReceive k)
    have "config_ok (if k < length (cs_chans s) then receive_update k s else s)"
      using receive_update_ok [OF Cons(2)] Cons(2) by simp
    with CallReceive show ?thesis using quiet by (simp add: receive_update_def)
  qed
qed simp


section \<open>The property\<close>

text \<open>
  C23. Settings reach their subscribers. Whatever calls run, with receivers taking values at any
  moment, no call panics on a closed channel, the last snapshot published is in force under the
  number of publications so far, every receiver gets snapshots in the order of their revisions,
  only those beyond the revision it subscribed after, and it has the snapshot in force unless
  its channel holds it.
\<close>

theorem settings_reach_subscribers:
  assumes "length (filter publishes cs) + 1 < 2 ^ 64"
  shows "\<exists>s. run_config cs (NewStore initial) = Some s \<and>
    Current s = latest cs (initial\<lparr>snap_Revision := 1\<rparr>) \<and>
    unat (snap_Revision (Current s)) = 1 + length (filter publishes cs) \<and>
    (\<forall>ch \<in> set (cs_chans s). sorted_wrt (<) (map snap_Revision (chan_taken ch))) \<and>
    (\<forall>x \<in> set (cs_subscribers s). let ch = cs_chans s ! sub_updates x in
       (\<forall>v \<in> set (chan_taken ch). sub_after x < snap_Revision v) \<and>
       (sub_after x < snap_Revision (Current s) \<longrightarrow>
          (case chan_pending ch of
             Some v \<Rightarrow> v = Current s
           | None \<Rightarrow> chan_taken ch \<noteq> [] \<and> last (chan_taken ch) = Current s)))"
proof -
  have "unat (cs_revision (NewStore initial)) + length (filter publishes cs) < 2 ^ 64"
    using assms by (simp add: NewStore_def)
  from run_config_ok [OF config_ok_NewStore this] obtain s where
    run: "run_config cs (NewStore initial) = Some s" "config_ok s"
      "unat (cs_revision s) = unat (cs_revision (NewStore initial)) + length (filter publishes cs)"
      "Current s = latest cs (Current (NewStore initial))"
    by blast
  have cur: "snap_Revision (Current s) = cs_revision s" "cs_current s = Some (Current s)"
    using config_ok_Current [OF run(2)] by simp_all
  have ok: "\<forall>ch \<in> set (cs_chans s). chan_grows (cs_revision s) ch"
    "\<forall>x \<in> set (cs_subscribers s). up_to_date (Current s) (sub_after x) (cs_chans s ! sub_updates x)"
    using run(2) cur(2) unfolding config_ok_def by auto
  have "\<forall>ch \<in> set (cs_chans s). sorted_wrt (<) (map snap_Revision (chan_taken ch))"
    using ok(1) by (auto simp: chan_grows_def carried_def sorted_wrt_append)
  moreover have "let ch = cs_chans s ! sub_updates x in
       (\<forall>v \<in> set (chan_taken ch). sub_after x < snap_Revision v) \<and>
       (sub_after x < snap_Revision (Current s) \<longrightarrow>
          (case chan_pending ch of
             Some v \<Rightarrow> v = Current s
           | None \<Rightarrow> chan_taken ch \<noteq> [] \<and> last (chan_taken ch) = Current s))"
    if "x \<in> set (cs_subscribers s)" for x
    using bspec [OF ok(2) that]
    by (auto simp: up_to_date_def carried_def Let_def split: option.splits)
  moreover have "Current (NewStore initial) = initial\<lparr>snap_Revision := 1\<rparr>"
      "unat (cs_revision (NewStore initial)) = 1"
    by (simp_all add: NewStore_def Current_def)
  ultimately show ?thesis
    using run(1,3,4) cur(1) by (intro exI [of _ s] conjI ballI) simp_all
qed

definition demo_settings :: "string \<Rightarrow> Snapshot" where
  "demo_settings reply = empty_snapshot\<lparr>snap_SharedReply := reply\<rparr>"

text \<open>A subscriber misses the second snapshot, for the third replaced it before it looked.\<close>

definition demo_config_calls :: "config_call list" where
  "demo_config_calls =
     [CallSubscribe 0, CallReceive 0, CallPublish (\<lambda>_. False) (demo_settings ''b''),
      CallPublish (\<lambda>_. False) (demo_settings ''c''), CallReceive 0]"

lemma demo_config_run:
  "map_option (\<lambda>s. map (map snap_SharedReply \<circ> chan_taken) (cs_chans s))
     (run_config demo_config_calls (NewStore (demo_settings ''a''))) = Some [[''a'', ''c'']]"
  by code_simp

lemma settings_reach_subscribers_witness:
  "\<exists>s. run_config demo_config_calls (NewStore (demo_settings ''a'')) = Some s \<and>
     unat (snap_Revision (Current s)) = 3 \<and> map (map snap_SharedReply \<circ> chan_taken) (cs_chans s) = [[''a'', ''c'']]"
proof -
  have n: "length (filter publishes demo_config_calls) = 2" by (simp add: demo_config_calls_def)
  then have "length (filter publishes demo_config_calls) + 1 < 2 ^ 64" by simp
  from settings_reach_subscribers [OF this, of "demo_settings ''a''"] demo_config_run n show ?thesis
    by (auto simp: numeral_eq_Suc)
qed

end
