(* ===== verification/MessageStore.thy ===== *)
theory MessageStore
  imports LiveSink
begin

text \<open>
  The scouted messages: the collector (internal/usecase/scouting/collector.go), the cipher of
  their texts (internal/service/crypto/message_cipher.go) and their tables
  (internal/repository/sqlite/message_store.go). The AEAD of the cipher, XChaCha20-Poly1305, is
  the parameter \<open>aead\<close>; what a call reads from its surroundings (clock, random source, free
  disk space, cancellation) is the record \<open>ingest_env\<close>.
\<close>

section \<open>The cipher\<close>

record aead =
  aead_NonceSize :: nat
  aead_Seal :: "string \<Rightarrow> string \<Rightarrow> string \<Rightarrow> string"
  aead_Open :: "string \<Rightarrow> string \<Rightarrow> string \<Rightarrow> string option"

datatype scout_error =
    ErrCancelled
  | ErrNonceSource
  | ErrNonceSize
  | ErrDecrypt
  | ErrChatIDRequired
  | ErrMessageIDPositive
  | ErrIdentityRequired
  | ErrCiphertextRequired
  | ErrTimestampRequired
  | ErrDiskProbe
  | ErrLowDisk
  | ErrUnknownChat
  | ErrIgnoredEdit
  | ErrMessageTimestampMismatch
  | ErrScoutTime
  | ErrCursorFields

record ingest_env =
  env_now :: time
  env_received :: time
  env_random :: "string option"
  env_disk :: "int option"
  env_cancelled :: bool

text \<open>\<^verbatim>\<open>binary.BigEndian.PutUint32\<close> and \<^verbatim>\<open>PutUint64\<close>: the lowest \<open>8 * k\<close> bits.\<close>

fun big_endian :: "nat \<Rightarrow> int \<Rightarrow> string" where
  "big_endian 0 n = []"
| "big_endian (Suc k) n = big_endian k (n div 256) @ [char_of (nat (n mod 256))]"

text \<open>The Unix epoch as an instant: 719162 days after 1 January of year 1.\<close>

definition unix_epoch :: time where
  "unix_epoch = 719162 * 24 * Hour"

definition UnixNano :: "time \<Rightarrow> int" where
  "UnixNano t = t - unix_epoch"

definition messageAAD :: "string \<Rightarrow> int \<Rightarrow> time \<Rightarrow> string" where
  "messageAAD chatID messageID messageAt =
     big_endian 4 (int (length chatID)) @ chatID @ big_endian 8 messageID @ big_endian 8 (UnixNano messageAt)"

definition Encrypt ::
  "aead \<Rightarrow> ingest_env \<Rightarrow> string \<Rightarrow> string \<Rightarrow> int \<Rightarrow> time \<Rightarrow> scout_error + string \<times> string" where
  "Encrypt A env plaintext chatID messageID messageAt =
     (if env_cancelled env then Inl ErrCancelled
      else case env_random env of
             None \<Rightarrow> Inl ErrNonceSource
           | Some nonce \<Rightarrow> Inr (aead_Seal A nonce plaintext (messageAAD chatID messageID messageAt), nonce))"

definition Decrypt ::
  "aead \<Rightarrow> string \<Rightarrow> string \<Rightarrow> string \<Rightarrow> int \<Rightarrow> time \<Rightarrow> scout_error + string" where
  "Decrypt A ciphertext nonce chatID messageID messageAt =
     (if length nonce \<noteq> aead_NonceSize A then Inl ErrNonceSize
      else case aead_Open A nonce ciphertext (messageAAD chatID messageID messageAt) of
             None \<Rightarrow> Inl ErrDecrypt
           | Some plaintext \<Rightarrow> Inr plaintext)"

section \<open>Tables\<close>

record message_row =
  sm_chat :: string
  sm_message :: int
  sm_encrypted_text :: string
  sm_nonce :: string
  sm_message_at :: stamp
  sm_received_at :: stamp
  sm_edited_at :: "stamp option"

record tombstone_row =
  tb_chat :: string
  tb_message :: int
  tb_deleted_at :: stamp

record cursor_row =
  cu_account_id :: ID
  cu_chat_id :: string
  cu_message_id :: int
  cu_updated_at :: stamp

text \<open>
  The database with the tables of scouting; \<open>ss_paused\<close> is the flag of the message store that
  collection stopped for want of disk space. The rows of a table are in the order of their
  \<^verbatim>\<open>AUTOINCREMENT\<close> identifiers.
\<close>

record scout_store =
  ss_db :: db
  ss_messages :: "message_row list"
  ss_tombstones :: "tombstone_row list"
  ss_cursors :: "cursor_row list"
  ss_paused :: bool

text \<open>\<^verbatim>\<open>formatScoutTime\<close> writes all nine digits of the fraction.\<close>

definition formatScoutTime :: "time \<Rightarrow> stamp" where
  "formatScoutTime t = Stamp (t div Second) (''.'' @ pad_digits 9 (nat (t mod Second)) @ ''Z'')"

definition formatScoutTimePtr :: "time option \<Rightarrow> stamp option" where
  "formatScoutTimePtr value = map_option formatScoutTime value"

definition is_message :: "string \<Rightarrow> int \<Rightarrow> message_row \<Rightarrow> bool" where
  "is_message chatID messageID r \<longleftrightarrow> sm_chat r = chatID \<and> sm_message r = messageID"

definition is_tombstone :: "string \<Rightarrow> int \<Rightarrow> tombstone_row \<Rightarrow> bool" where
  "is_tombstone chatID messageID r \<longleftrightarrow> tb_chat r = chatID \<and> tb_message r = messageID"

definition tombstoned :: "string \<Rightarrow> int \<Rightarrow> scout_store \<Rightarrow> bool" where
  "tombstoned chatID messageID s \<longleftrightarrow> sql_exists (is_tombstone chatID messageID) (ss_tombstones s)"

definition store_Exists :: "string \<Rightarrow> int \<Rightarrow> scout_store \<Rightarrow> bool" where
  "store_Exists chatID messageID s \<longleftrightarrow> sql_exists (is_message chatID messageID) (ss_messages s)"

text \<open>\<^verbatim>\<open>None\<close>: the message is not accepted.\<close>

definition CanonicalMessageAt ::
  "string \<Rightarrow> int \<Rightarrow> time \<Rightarrow> scout_store \<Rightarrow> scout_error + time option" where
  "CanonicalMessageAt chatID messageID incoming s =
     (if tombstoned chatID messageID s then Inr None
      else case sql_select (is_message chatID messageID) (ss_messages s) of
             None \<Rightarrow> Inr (Some incoming)
           | Some r \<Rightarrow>
               (case parseTime (sm_message_at r) of
                  None \<Rightarrow> Inl ErrScoutTime
                | Some canonical \<Rightarrow> Inr (Some canonical)))"

section \<open>Saving a message\<close>

record EncryptedMessage =
  em_ChatID :: string
  em_MessageID :: int
  em_Ciphertext :: string
  em_Nonce :: string
  em_MessageAt :: time
  em_ReceivedAt :: time
  em_EditedAt :: "time option"

text \<open>The disk has to have 1 GiB left (main.go).\<close>

definition minFreeBytes :: int where
  "minFreeBytes = 2 ^ 30"

definition checkDisk :: "ingest_env \<Rightarrow> (scout_store, scout_error, unit) op" where
  "checkDisk env s =
     (case env_disk env of
        None \<Rightarrow> (Inl ErrDiskProbe, s)
      | Some available \<Rightarrow>
          if available < minFreeBytes then (Inl ErrLowDisk, s\<lparr>ss_paused := True\<rparr>)
          else (Inr (), s\<lparr>ss_paused := False\<rparr>))"

definition row_of_message :: "EncryptedMessage \<Rightarrow> message_row" where
  "row_of_message m =
     \<lparr>sm_chat = em_ChatID m, sm_message = em_MessageID m, sm_encrypted_text = em_Ciphertext m,
      sm_nonce = em_Nonce m, sm_message_at = formatScoutTime (em_MessageAt m),
      sm_received_at = formatScoutTime (em_ReceivedAt m), sm_edited_at = formatScoutTimePtr (em_EditedAt m)\<rparr>"

text \<open>\<^verbatim>\<open>edited_at IS NULL OR ? > edited_at\<close>\<close>

definition newer_edit :: "stamp \<Rightarrow> stamp option \<Rightarrow> bool" where
  "newer_edit new old \<longleftrightarrow> (case old of None \<Rightarrow> True | Some e \<Rightarrow> e < new)"

definition edit_target :: "EncryptedMessage \<Rightarrow> time \<Rightarrow> message_row \<Rightarrow> bool" where
  "edit_target m edited r \<longleftrightarrow>
     is_message (em_ChatID m) (em_MessageID m) r \<and> sm_message_at r = formatScoutTime (em_MessageAt m) \<and>
     newer_edit (formatScoutTime edited) (sm_edited_at r)"

definition edit_row :: "EncryptedMessage \<Rightarrow> message_row \<Rightarrow> message_row" where
  "edit_row m r =
     r\<lparr>sm_encrypted_text := em_Ciphertext m, sm_nonce := em_Nonce m,
       sm_edited_at := formatScoutTimePtr (em_EditedAt m)\<rparr>"

text \<open>\<^verbatim>\<open>UPDATE scout_chats\<close> after a row was inserted (1) or changed (0).\<close>

definition note_activity :: "EncryptedMessage \<Rightarrow> nat \<Rightarrow> scout_store \<Rightarrow> scout_store" where
  "note_activity m inserted s =
     s\<lparr>ss_db := (ss_db s)\<lparr>db_scout :=
         sql_update (\<lambda>r. ch_telegram_chat_id r = em_ChatID m)
           (\<lambda>r. r\<lparr>ch_sent_count := ch_sent_count r + inserted,
                  ch_last_activity_at := Some (formatScoutTime (em_ReceivedAt m)),
                  ch_updated_at := formatScoutTime (em_ReceivedAt m)\<rparr>) (db_scout (ss_db s))\<rparr>\<rparr>"

text \<open>The transaction: an insertion, else an edit of the row that is there.\<close>

definition save_message :: "EncryptedMessage \<Rightarrow> (scout_store, scout_error, unit) op" where
  "save_message m s =
     (if \<not> tombstoned (em_ChatID m) (em_MessageID m) s \<and> \<not> store_Exists (em_ChatID m) (em_MessageID m) s then
        (if sql_exists (\<lambda>r. ch_telegram_chat_id r = em_ChatID m) (db_scout (ss_db s))
         then (Inr (), note_activity m 1 (s\<lparr>ss_messages := ss_messages s @ [row_of_message m]\<rparr>))
         else (Inl ErrUnknownChat, s))
      else case em_EditedAt m of
             None \<Rightarrow> (Inr (), s)
           | Some edited \<Rightarrow>
               if sql_affected (edit_target m edited) (ss_messages s) > 0 then
                 (Inr (), note_activity m 0
                    (s\<lparr>ss_messages := sql_update (edit_target m edited) (edit_row m) (ss_messages s)\<rparr>))
               else if tombstoned (em_ChatID m) (em_MessageID m) s then (Inr (), s)
               else case sql_select (is_message (em_ChatID m) (em_MessageID m)) (ss_messages s) of
                      None \<Rightarrow> (Inl ErrIgnoredEdit, s)
                    | Some r \<Rightarrow>
                        if sm_message_at r \<noteq> formatScoutTime (em_MessageAt m)
                        then (Inl ErrMessageTimestampMismatch, s) else (Inr (), s))"

definition SaveEncrypted :: "ingest_env \<Rightarrow> EncryptedMessage \<Rightarrow> (scout_store, scout_error, unit) op" where
  "SaveEncrypted env m s =
     (if env_cancelled env then (Inl ErrCancelled, s)
      else if em_ChatID m = '''' \<or> em_MessageID m \<le> 0 then (Inl ErrIdentityRequired, s)
      else if em_Ciphertext m = '''' \<or> em_Nonce m = '''' then (Inl ErrCiphertextRequired, s)
      else if IsZero (em_MessageAt m) then (Inl ErrTimestampRequired, s)
      else case checkDisk env s of
             (Inl e, s1) \<Rightarrow> (Inl e, s1)
           | (Inr _, s1) \<Rightarrow> in_tx (save_message m) s1)"

section \<open>Deleting and pruning\<close>

text \<open>The insertion of a tombstone, which an existing later one outlives.\<close>

definition put_tombstone :: "stamp \<Rightarrow> string \<Rightarrow> int \<Rightarrow> tombstone_row list \<Rightarrow> tombstone_row list" where
  "put_tombstone deletedAt chatID messageID rows =
     (if sql_exists (is_tombstone chatID messageID) rows
      then sql_update (\<lambda>r. is_tombstone chatID messageID r \<and> tb_deleted_at r < deletedAt)
             (\<lambda>r. r\<lparr>tb_deleted_at := deletedAt\<rparr>) rows
      else rows @ [\<lparr>tb_chat = chatID, tb_message = messageID, tb_deleted_at = deletedAt\<rparr>])"

definition store_Delete :: "string \<Rightarrow> int \<Rightarrow> time \<Rightarrow> (scout_store, scout_error, unit) op" where
  "store_Delete chatID messageID deletedAt s =
     (Inr (), s\<lparr>ss_tombstones := put_tombstone (formatScoutTime deletedAt) chatID messageID (ss_tombstones s),
                ss_messages := filter (\<lambda>r. \<not> is_message chatID messageID r) (ss_messages s)\<rparr>)"

text \<open>scouting/retention.go: a hundred years of 365 days.\<close>

definition RetentionPeriod :: duration where
  "RetentionPeriod = 100 * 365 * 24 * Hour"

definition PruneBefore :: "time \<Rightarrow> (scout_store, scout_error, nat) op" where
  "PruneBefore before s =
     (let old = (\<lambda>r. sm_message_at r < formatScoutTime before);
          buried = foldl (\<lambda>rows r. put_tombstone (formatScoutTime (before + RetentionPeriod))
                                     (sm_chat r) (sm_message r) rows)
                     (ss_tombstones s) (filter old (ss_messages s))
      in (Inr (sql_affected old (ss_messages s)),
          s\<lparr>ss_messages := filter (\<lambda>r. \<not> old r) (ss_messages s),
            ss_tombstones := filter (\<lambda>r. \<not> tb_deleted_at r < formatScoutTime before) buried\<rparr>))"

section \<open>The collector\<close>

definition validateIdentity :: "string \<Rightarrow> int \<Rightarrow> scout_error + unit" where
  "validateIdentity chatID messageID =
     (if chatID = '''' then Inl ErrChatIDRequired
      else if messageID \<le> 0 then Inl ErrMessageIDPositive else Inr ())"

definition collector_save ::
  "aead \<Rightarrow> ingest_env \<Rightarrow> string \<Rightarrow> int \<Rightarrow> string \<Rightarrow> time \<Rightarrow> time \<Rightarrow> time option \<Rightarrow>
     (scout_store, scout_error, unit) op" where
  "collector_save A env chatID messageID txt messageAt receivedAt editedAt s =
     (case validateIdentity chatID messageID of
        Inl e \<Rightarrow> (Inl e, s)
      | Inr _ \<Rightarrow>
          (case Encrypt A env txt chatID messageID messageAt of
             Inl e \<Rightarrow> (Inl e, s)
           | Inr (ciphertext, nonce) \<Rightarrow>
               SaveEncrypted env
                 \<lparr>em_ChatID = chatID, em_MessageID = messageID, em_Ciphertext = ciphertext, em_Nonce = nonce,
                  em_MessageAt = messageAt, em_ReceivedAt = receivedAt, em_EditedAt = editedAt\<rparr> s))"

definition collector_Ingest ::
  "aead \<Rightarrow> ingest_env \<Rightarrow> IncomingUpdate \<Rightarrow> (scout_store, scout_error, unit) op" where
  "collector_Ingest A env u s =
     (case CanonicalMessageAt (upd_ChatID u) (upd_MessageID u)
             (if IsZero (upd_MessageAt u) then env_now env else upd_MessageAt u) s of
        Inl e \<Rightarrow> (Inl e, s)
      | Inr None \<Rightarrow> (Inr (), s)
      | Inr (Some canonical) \<Rightarrow>
          collector_save A env (upd_ChatID u) (upd_MessageID u) (upd_Text u) canonical (env_received env)
            (upd_EditedAt u) s)"

definition collector_Delete :: "ingest_env \<Rightarrow> string \<Rightarrow> int \<Rightarrow> (scout_store, scout_error, unit) op" where
  "collector_Delete env chatID messageID s =
     (case validateIdentity chatID messageID of
        Inl e \<Rightarrow> (Inl e, s)
      | Inr _ \<Rightarrow> store_Delete chatID messageID (env_now env) s)"

definition collector_Exists :: "string \<Rightarrow> int \<Rightarrow> scout_store \<Rightarrow> scout_error + bool" where
  "collector_Exists chatID messageID s =
     (case validateIdentity chatID messageID of
        Inl e \<Rightarrow> Inl e
      | Inr _ \<Rightarrow> Inr (store_Exists chatID messageID s))"

text \<open>\<^verbatim>\<open>Retention.RunOnce\<close> of an hourly tick; the vacuum of the file has no effect on the tables.\<close>

definition retention_RunOnce :: "time \<Rightarrow> (scout_store, scout_error, nat) op" where
  "retention_RunOnce now s = PruneBefore (now - RetentionPeriod) s"

section \<open>The sink in front of the collector (live_sink.go)\<close>

definition sink_Delete :: "ingest_env \<Rightarrow> string \<Rightarrow> int \<Rightarrow> (scout_store, scout_error, unit) op" where
  "sink_Delete env chatID messageID s = collector_Delete env (storageChatID chatID) messageID s"

definition sink_Exists :: "string \<Rightarrow> int \<Rightarrow> scout_store \<Rightarrow> scout_error + bool" where
  "sink_Exists chatID messageID s = collector_Exists (storageChatID chatID) messageID s"

section \<open>Rows for the analysis (repository/sqlite/analytics_rows.go)\<close>

record SourceRow =
  src_Text :: string
  src_Topic :: string
  src_SourceID :: ID
  src_MessageID :: string
  src_MessageAt :: time

definition analytics_row :: "aead \<Rightarrow> channel_row \<Rightarrow> message_row \<Rightarrow> scout_error + SourceRow" where
  "analytics_row A chat r =
     (case parseTime (sm_message_at r) of
        None \<Rightarrow> Inl ErrScoutTime
      | Some messageAt \<Rightarrow>
          (case Decrypt A (sm_encrypted_text r) (sm_nonce r) (ch_telegram_chat_id chat) (sm_message r) messageAt of
             Inl e \<Rightarrow> Inl e
           | Inr plaintext \<Rightarrow>
               Inr \<lparr>src_Text = plaintext, src_Topic = ch_topic chat, src_SourceID = ch_id chat,
                    src_MessageID = FormatInt (sm_message r), src_MessageAt = messageAt\<rparr>))"

text \<open>
  The join with the active chats in the order of \<^verbatim>\<open>message_at, id\<close>. \<open>wanted\<close> is the filter of a
  scope by topics, \<^verbatim>\<open>None\<close> for every other scope.
\<close>

definition joined_rows :: "scout_store \<Rightarrow> (channel_row \<times> message_row) list" where
  "joined_rows s =
     concat (map (\<lambda>r. map (\<lambda>c. (c, r))
                        (filter (\<lambda>c. ch_telegram_chat_id c = sm_chat r \<and> ch_active c) (db_scout (ss_db s))))
              (sort_key sm_message_at (ss_messages s)))"

fun analytics_rows :: "aead \<Rightarrow> (channel_row \<times> message_row) list \<Rightarrow> scout_error + SourceRow list" where
  "analytics_rows A [] = Inr []"
| "analytics_rows A ((c, r) # rest) =
     (case analytics_row A c r of
        Inl e \<Rightarrow> Inl e
      | Inr row \<Rightarrow> map_sum id ((#) row) (analytics_rows A rest))"

definition Rows :: "unicode \<Rightarrow> aead \<Rightarrow> string list option \<Rightarrow> scout_store \<Rightarrow> scout_error + SourceRow list" where
  "Rows U A topics s =
     analytics_rows A
       (case topics of
          None \<Rightarrow> joined_rows s
        | Some ts \<Rightarrow>
            filter (\<lambda>(c, r). ToLower U (TrimSpace (ch_topic c)) \<in> set (map (\<lambda>t. ToLower U (TrimSpace t)) ts))
              (joined_rows s))"

end
