(* ===== verification/TelegramApi.thy ===== *)
theory TelegramApi
  imports MessageStore
begin

text \<open>
  What the adapter uses of the Telegram client library (package \<^verbatim>\<open>tg\<close>): the classes of peers,
  chats and messages it distinguishes, its requests and its errors, and the functions of
  internal/telegram/gotd that read them. The client itself is the record \<open>tg_client\<close>: the answer
  to a request may depend on all requests made before, the newest first.
\<close>

section \<open>Classes\<close>

datatype PeerClass = PeerChannel int | PeerChat int | PeerUser int | PeerOther

datatype InputPeer = InputPeerChannel int int | InputPeerChat int | InputPeerUser int int | InputPeerOther

datatype ChatClass = TgChannel int int string | TgChat int string | ChatOther

datatype UpdatesClass = Updates "ChatClass list" | UpdatesCombined "ChatClass list" | UpdatesOther

datatype ChatInvite = ChatInviteAlready ChatClass | ChatInviteOther

datatype InviteJoin = InviteJoinOk UpdatesClass | InviteJoinOther

text \<open>The full channel with the identifier of its linked chat, if it is a \<^verbatim>\<open>ChannelFull\<close> and has one.\<close>

datatype FullChat = ChannelFull "int option" | FullChatOther

record tg_message =
  msg_ID :: int
  msg_Out :: bool
  msg_PeerID :: PeerClass
  msg_FromID :: "PeerClass option"
  msg_Date :: int
  msg_EditDate :: int
  msg_Message :: string

datatype MessageClass = Message tg_message | MessageOther

datatype MessagesClass =
    MessagesMessages "MessageClass list"
  | MessagesMessagesSlice "MessageClass list"
  | MessagesChannelMessages "MessageClass list"
  | MessagesOther

section \<open>Requests and errors\<close>

datatype tg_request =
    ContactsResolveUsername string
  | MessagesCheckChatInvite string
  | MessagesImportChatInvite string
  | ChannelsJoinChannel int int
  | ChannelsGetParticipant int int
  | ChannelsLeaveChannel int int
  | MessagesDeleteChatUser int
  | ChannelsGetFullChannel int int
  | MessagesGetHistory InputPeer int int nat

text \<open>\<^verbatim>\<open>RPC t n\<close> is a \<^verbatim>\<open>tgerr.Error\<close> of type \<open>t\<close> with argument \<open>n\<close>.\<close>

datatype tg_error = RPC string int | TransportError

definition tgerr_Is :: "tg_error \<Rightarrow> string list \<Rightarrow> bool" where
  "tgerr_Is e types = (case e of RPC t n \<Rightarrow> t \<in> set types | TransportError \<Rightarrow> False)"

type_synonym requests = "tg_request list"

record tg_client =
  on_ResolveUsername :: "requests \<Rightarrow> string \<Rightarrow> tg_error + ChatClass list"
  on_CheckChatInvite :: "requests \<Rightarrow> string \<Rightarrow> tg_error + ChatInvite"
  on_ImportChatInvite :: "requests \<Rightarrow> string \<Rightarrow> tg_error + InviteJoin"
  on_JoinChannel :: "requests \<Rightarrow> int \<Rightarrow> int \<Rightarrow> tg_error + unit"
  on_GetParticipant :: "requests \<Rightarrow> int \<Rightarrow> int \<Rightarrow> tg_error + unit"
  on_LeaveChannel :: "requests \<Rightarrow> int \<Rightarrow> int \<Rightarrow> tg_error + unit"
  on_DeleteChatUser :: "requests \<Rightarrow> int \<Rightarrow> tg_error + unit"
  on_GetFullChannel :: "requests \<Rightarrow> int \<Rightarrow> int \<Rightarrow> tg_error + FullChat \<times> ChatClass list"
  on_GetHistory :: "requests \<Rightarrow> InputPeer \<Rightarrow> int \<Rightarrow> int \<Rightarrow> nat \<Rightarrow> tg_error + MessagesClass"

section \<open>Identities\<close>

definition inputPeerID :: "InputPeer \<Rightarrow> string" where
  "inputPeerID peer =
     (case peer of
        InputPeerChannel i h \<Rightarrow> FormatInt i
      | InputPeerChat i \<Rightarrow> FormatInt i
      | InputPeerUser i h \<Rightarrow> FormatInt i
      | InputPeerOther \<Rightarrow> '''')"

definition telegramPeerIdentity :: "string \<Rightarrow> int \<Rightarrow> string" where
  "telegramPeerIdentity namespace i = namespace @ '':'' @ FormatInt i"

definition inputPeerIdentity :: "InputPeer \<Rightarrow> string" where
  "inputPeerIdentity peer =
     (case peer of
        InputPeerChannel i h \<Rightarrow> telegramPeerIdentity ''channel'' i
      | InputPeerChat i \<Rightarrow> telegramPeerIdentity ''chat'' i
      | InputPeerUser i h \<Rightarrow> telegramPeerIdentity ''user'' i
      | InputPeerOther \<Rightarrow> '''')"

definition peerID :: "PeerClass \<Rightarrow> string" where
  "peerID peer =
     (case peer of
        PeerChannel i \<Rightarrow> FormatInt i | PeerChat i \<Rightarrow> FormatInt i | PeerUser i \<Rightarrow> FormatInt i
      | PeerOther \<Rightarrow> '''')"

definition peerIdentity :: "PeerClass \<Rightarrow> string" where
  "peerIdentity peer =
     (case peer of
        PeerChannel i \<Rightarrow> telegramPeerIdentity ''channel'' i
      | PeerChat i \<Rightarrow> telegramPeerIdentity ''chat'' i
      | PeerUser i \<Rightarrow> telegramPeerIdentity ''user'' i
      | PeerOther \<Rightarrow> '''')"

definition messageSenderUserID :: "tg_message \<Rightarrow> int" where
  "messageSenderUserID m = (case msg_FromID m of Some (PeerUser i) \<Rightarrow> i | _ \<Rightarrow> 0)"

text \<open>\<^verbatim>\<open>time.Unix(seconds, 0).UTC()\<close>\<close>

definition Unix :: "int \<Rightarrow> time" where
  "Unix seconds = unix_epoch + seconds * Second"

definition scoutHistoryMessages :: "MessagesClass \<Rightarrow> MessageClass list" where
  "scoutHistoryMessages page =
     (case page of
        MessagesMessages ms \<Rightarrow> ms | MessagesMessagesSlice ms \<Rightarrow> ms | MessagesChannelMessages ms \<Rightarrow> ms
      | MessagesOther \<Rightarrow> [])"

definition updateChats :: "UpdatesClass \<Rightarrow> ChatClass list" where
  "updateChats updates =
     (case updates of Updates cs \<Rightarrow> cs | UpdatesCombined cs \<Rightarrow> cs | UpdatesOther \<Rightarrow> [])"

text \<open>The identities of two messages differ when their peers do, their storage keys need not.\<close>

lemma telegramPeerIdentity_not_empty [simp]: "telegramPeerIdentity n i \<noteq> ''''"
  by (simp add: telegramPeerIdentity_def)

end
