(* ===== verification/UpdateRouter.thy ===== *)
theory UpdateRouter
  imports TelegramApi
begin

text \<open>
  The router of Telegram updates (\<^verbatim>\<open>scoutUpdateRouter\<close> of
  internal/telegram/gotd/updates.go) with the program's collector, the live sink: a new message
  of a watched chat is stored and matched, an edit replaces what is stored, a deletion removes
  it. The sealed reference to a sender (sender_references.go) is the parameter \<open>seal\<close>.
\<close>

section \<open>Senders\<close>

record tg_user =
  usr_ID :: int
  usr_AccessHash :: int
  usr_Username :: string

definition Store_reference :: "(tg_user \<Rightarrow> string) \<Rightarrow> tg_user \<Rightarrow> string" where
  "Store_reference seal user =
     (if usr_ID user = 0 \<or> usr_AccessHash user = 0 then ''''
      else seal (user\<lparr>usr_Username := TrimSpace (TrimPrefix (usr_Username user) ''@'')\<rparr>))"

definition senderReference :: "(tg_user \<Rightarrow> string) \<Rightarrow> (int \<Rightarrow> tg_user option) \<Rightarrow> tg_message \<Rightarrow> string" where
  "senderReference seal users m =
     (case msg_FromID m of
        Some (PeerUser i) \<Rightarrow> (case users i of None \<Rightarrow> '''' | Some user \<Rightarrow> Store_reference seal user)
      | _ \<Rightarrow> '''')"

section \<open>The router\<close>

text \<open>\<open>rt_seen\<close> is the set of the messages this router has stored, \<open>rt_managed\<close> the program's own users.\<close>

record router =
  rt_allowed :: "string list"
  rt_activationUnix :: int
  rt_collect :: bool
  rt_seen :: "(string \<times> int) list"
  rt_managed :: "int list"

definition newScoutUpdateRouter :: "string list \<Rightarrow> int \<Rightarrow> bool \<Rightarrow> int list \<Rightarrow> router" where
  "newScoutUpdateRouter allowed activationUnix collect managed =
     \<lparr>rt_allowed = allowed, rt_activationUnix = activationUnix, rt_collect = collect, rt_seen = [],
      rt_managed = managed\<rparr>"

definition allows :: "router \<Rightarrow> string \<Rightarrow> bool" where
  "allows r chatID \<longleftrightarrow> chatID \<in> set (rt_allowed r)"

definition managed_Contains :: "router \<Rightarrow> int \<Rightarrow> bool" where
  "managed_Contains r userID \<longleftrightarrow> userID \<noteq> 0 \<and> userID \<in> set (rt_managed r)"

datatype router_error = CollectFailed scout_error | TriggerFailed db_error

text \<open>
  The surroundings of one update: the parameters of the live sink, its settings and clock, and
  what the collector reads.
\<close>

record sink_env =
  se_unicode :: unicode
  se_digest :: "string \<Rightarrow> string"
  se_aead :: aead
  se_seal :: "tg_user \<Rightarrow> string"
  se_users :: "int \<Rightarrow> tg_user option"
  se_snapshot :: Snapshot
  se_now :: time
  se_ingest :: ingest_env

definition sink_Trigger :: "sink_env \<Rightarrow> IncomingUpdate \<Rightarrow> (scout_store, router_error, unit) op" where
  "sink_Trigger E u s =
     (case Trigger (se_unicode E) (se_digest E) (se_now E) (se_snapshot E) u (ss_db s) of
        (res, d) \<Rightarrow> (map_sum TriggerFailed id res, s\<lparr>ss_db := d\<rparr>))"

definition router_ingest ::
  "sink_env \<Rightarrow> string \<Rightarrow> IncomingUpdate \<Rightarrow> bool \<Rightarrow> (scout_store, router_error, unit) op" where
  "router_ingest E telegramID u trigger s =
     (case CollectHistory (collector_Ingest (se_aead E) (se_ingest E)) u s of
        (Inl e, s1) \<Rightarrow> (Inl (CollectFailed e), s1)
      | (Inr _, s1) \<Rightarrow>
          if \<not> trigger then (Inr (), s1) else sink_Trigger E (u\<lparr>upd_ChatID := telegramID\<rparr>) s1)"

definition message_update :: "sink_env \<Rightarrow> string \<Rightarrow> tg_message \<Rightarrow> bool \<Rightarrow> IncomingUpdate" where
  "message_update E chatID m edited =
     \<lparr>upd_ChatID = chatID, upd_MessageID = msg_ID m, upd_Text = msg_Message m,
      upd_SenderID = senderReference (se_seal E) (se_users E) m, upd_SenderUsername = '''',
      upd_MessageAt = Unix (msg_Date m),
      upd_EditedAt = (if edited then Some (Unix (msg_EditDate m)) else None)\<rparr>"

definition managed_sender :: "router \<Rightarrow> tg_message \<Rightarrow> bool" where
  "managed_sender r m \<longleftrightarrow> msg_Out m \<or> managed_Contains r (messageSenderUserID m)"

text \<open>A message that passed the filters of a collecting router.\<close>

definition collect_message ::
  "sink_env \<Rightarrow> tg_message \<Rightarrow> bool \<Rightarrow> (router \<times> scout_store, router_error, unit) op" where
  "collect_message E m edited w =
     (let r = fst w; chatID = peerIdentity (msg_PeerID m)
      in case router_ingest E (peerID (msg_PeerID m)) (message_update E chatID m edited)
                (\<not> managed_sender r m) (snd w) of
           (Inl e, s) \<Rightarrow> (Inl e, (r, s))
         | (Inr _, s) \<Rightarrow> (Inr (), (r\<lparr>rt_seen := List.insert (chatID, msg_ID m) (rt_seen r)\<rparr>, s)))"

definition router_message ::
  "sink_env \<Rightarrow> MessageClass \<Rightarrow> bool \<Rightarrow> (router \<times> scout_store, router_error, unit) op" where
  "router_message E cls edited w =
     (case cls of
        MessageOther \<Rightarrow> (Inr (), w)
      | Message m \<Rightarrow>
          let r = fst w; telegramID = peerID (msg_PeerID m); chatID = peerIdentity (msg_PeerID m) in
          if telegramID = '''' \<or> chatID = '''' \<or> \<not> allows r telegramID then (Inr (), w)
          else if \<not> rt_collect r then
            (if edited \<or> msg_Date m < rt_activationUnix r \<or> managed_sender r m then (Inr (), w)
             else case sink_Trigger E (message_update E telegramID m False) (snd w) of
                    (res, s) \<Rightarrow> (res, (r, s)))
          else if edited then
            (case sink_Exists chatID (msg_ID m) (snd w) of
               Inl e \<Rightarrow> (Inl (CollectFailed e), w)
             | Inr stored \<Rightarrow> if \<not> stored then (Inr (), w) else collect_message E m edited w)
          else if msg_Date m < rt_activationUnix r then (Inr (), w)
          else collect_message E m edited w)"

section \<open>Deletions\<close>

definition consumeSeen :: "string \<Rightarrow> int \<Rightarrow> router \<Rightarrow> bool \<times> router" where
  "consumeSeen chatID messageID r =
     (if (chatID, messageID) \<in> set (rt_seen r)
      then (True, r\<lparr>rt_seen := removeAll (chatID, messageID) (rt_seen r)\<rparr>) else (False, r))"

fun delete_messages ::
  "ingest_env \<Rightarrow> string \<Rightarrow> int list \<Rightarrow> (router \<times> scout_store, router_error, unit) op" where
  "delete_messages env chatID [] w = (Inr (), w)"
| "delete_messages env chatID (i # ids) w =
     (let (seen, r) = consumeSeen chatID i (fst w)
      in case (if seen then Inr True else sink_Exists chatID i (snd w)) of
           Inl e \<Rightarrow> (Inl (CollectFailed e), (r, snd w))
         | Inr stored \<Rightarrow>
             if \<not> stored then delete_messages env chatID ids (r, snd w)
             else case sink_Delete env chatID i (snd w) of
                    (Inl e, s) \<Rightarrow> (Inl (CollectFailed e), (r, s))
                  | (Inr _, s) \<Rightarrow> delete_messages env chatID ids (r, s))"

definition router_delete ::
  "ingest_env \<Rightarrow> string \<Rightarrow> string \<Rightarrow> int list \<Rightarrow> (router \<times> scout_store, router_error, unit) op" where
  "router_delete env telegramID chatID ids w =
     (if \<not> rt_collect (fst w) \<or> \<not> allows (fst w) telegramID then (Inr (), w)
      else delete_messages env chatID ids w)"

text \<open>The chats are in the order in which the map of allowed chats is iterated.\<close>

fun delete_everywhere ::
  "ingest_env \<Rightarrow> int list \<Rightarrow> (string \<times> string) list \<Rightarrow> (router \<times> scout_store, router_error, unit) op" where
  "delete_everywhere env ids [] w = (Inr (), w)"
| "delete_everywhere env ids ((telegramID, chatID) # chats) w =
     (case router_delete env telegramID chatID ids w of
        (Inl e, w1) \<Rightarrow> (Inl e, w1)
      | (Inr _, w1) \<Rightarrow> delete_everywhere env ids chats w1)"

definition deleteSeen :: "ingest_env \<Rightarrow> int list \<Rightarrow> (router \<times> scout_store, router_error, unit) op" where
  "deleteSeen env ids w =
     delete_everywhere env ids
       (concat (map (\<lambda>telegramID. map (\<lambda>namespace. (telegramID, namespace @ '':'' @ telegramID)) [''chat'', ''user''])
                  (rt_allowed (fst w)))) w"

section \<open>Dispatching\<close>

datatype tg_update =
    UpdateNewMessage MessageClass
  | UpdateNewChannelMessage MessageClass
  | UpdateEditMessage MessageClass
  | UpdateEditChannelMessage MessageClass
  | UpdateDeleteChannelMessages int "int list"
  | UpdateDeleteMessages "int list"

definition router_dispatch :: "sink_env \<Rightarrow> tg_update \<Rightarrow> (router \<times> scout_store, router_error, unit) op" where
  "router_dispatch E u w =
     (case u of
        UpdateNewMessage m \<Rightarrow> router_message E m False w
      | UpdateNewChannelMessage m \<Rightarrow> router_message E m False w
      | UpdateEditMessage m \<Rightarrow> router_message E m True w
      | UpdateEditChannelMessage m \<Rightarrow> router_message E m True w
      | UpdateDeleteChannelMessages channelID ids \<Rightarrow>
          router_delete (se_ingest E) (FormatInt channelID) (telegramPeerIdentity ''channel'' channelID) ids w
      | UpdateDeleteMessages ids \<Rightarrow> deleteSeen (se_ingest E) ids w)"

end
