(* ===== verification/HistorySync.thy ===== *)
theory HistorySync
  imports TelegramApi
begin

text \<open>
  The synchronisation of one chat's history (\<^verbatim>\<open>syncScoutHistoryPeer\<close> of
  internal/telegram/gotd/updates.go) and its cursor
  (internal/repository/sqlite/analytics_scheduler_store.go).
\<close>

section \<open>Cursors\<close>

definition is_cursor :: "ID \<Rightarrow> string \<Rightarrow> cursor_row \<Rightarrow> bool" where
  "is_cursor accountID chatID r \<longleftrightarrow> cu_account_id r = accountID \<and> cu_chat_id r = chatID"

definition ScoutCursor :: "ID \<Rightarrow> string \<Rightarrow> scout_store \<Rightarrow> scout_error + int" where
  "ScoutCursor accountID chatID s =
     (case sql_select (is_cursor accountID (TrimSpace chatID)) (ss_cursors s) of
        None \<Rightarrow> Inr 0
      | Some r \<Rightarrow> (case parseTime (cu_updated_at r) of None \<Rightarrow> Inl ErrScoutTime | Some _ \<Rightarrow> Inr (cu_message_id r)))"

definition SaveScoutCursor :: "time \<Rightarrow> ID \<Rightarrow> string \<Rightarrow> int \<Rightarrow> (scout_store, scout_error, unit) op" where
  "SaveScoutCursor now accountID chatID messageID s =
     (let a = TrimSpace accountID; c = TrimSpace chatID; p = is_cursor a c
      in if a = '''' \<or> c = '''' \<or> messageID < 0 then (Inl ErrCursorFields, s)
         else (Inr (), s\<lparr>ss_cursors :=
                 (if sql_exists p (ss_cursors s)
                  then sql_update p (\<lambda>r. r\<lparr>cu_message_id := max (cu_message_id r) messageID,
                                           cu_updated_at := formatTime now\<rparr>) (ss_cursors s)
                  else ss_cursors s @ [\<lparr>cu_account_id = a, cu_chat_id = c, cu_message_id = messageID,
                                         cu_updated_at = formatTime now\<rparr>])\<rparr>))"

definition saveScoutHistoryCursor ::
  "time \<Rightarrow> ID \<Rightarrow> string \<Rightarrow> int \<Rightarrow> int \<Rightarrow> (scout_store, scout_error, unit) op" where
  "saveScoutHistoryCursor now accountID chatID previousID nextID s =
     (if nextID \<le> previousID then (Inr (), s) else SaveScoutCursor now accountID chatID nextID s)"

section \<open>Pages\<close>

definition scoutHistoryPageSize :: nat where
  "scoutHistoryPageSize = 100"

definition scoutHistoryRetention :: duration where
  "scoutHistoryRetention = 7 * 24 * Hour"

datatype history_error =
    HistoryStore scout_error
  | HistoryRPC tg_error
  | HistoryCancelled
  | HistoryPeer
  | HistoryStuck

text \<open>
  The surroundings of a run: the client, whether the context is done after some requests and
  whether it ends during the pause between two pages, what the collector reads when it gets the
  next message, and the clock of the store.
\<close>

record history_env =
  he_client :: tg_client
  he_done :: "requests \<Rightarrow> bool"
  he_paused :: "requests \<Rightarrow> bool"
  he_env :: "requests \<Rightarrow> nat \<Rightarrow> ingest_env"
  he_now :: "requests \<Rightarrow> time"

text \<open>What does not change during a run: account, peer and its identity, cursor, cutoff.\<close>

record history_run =
  run_account :: ID
  run_peer :: InputPeer
  run_chat :: string
  run_cursor :: int
  run_cutoff :: time

text \<open>The loop over a page keeps \<^verbatim>\<open>maxSeenID\<close>, \<^verbatim>\<open>nextOffsetID\<close>, \<^verbatim>\<open>reachedCutoff\<close> and \<^verbatim>\<open>collected\<close>.\<close>

record page_state =
  pg_maxSeen :: int
  pg_nextOffset :: int
  pg_reachedCutoff :: bool
  pg_collected :: nat

definition see_message :: "tg_message \<Rightarrow> page_state \<Rightarrow> page_state" where
  "see_message m p =
     p\<lparr>pg_maxSeen := (if pg_maxSeen p < msg_ID m then msg_ID m else pg_maxSeen p),
       pg_nextOffset := (if pg_nextOffset p = 0 \<or> msg_ID m < pg_nextOffset p then msg_ID m else pg_nextOffset p)\<rparr>"

definition history_update :: "string \<Rightarrow> tg_message \<Rightarrow> IncomingUpdate" where
  "history_update chatID m =
     \<lparr>upd_ChatID = chatID, upd_MessageID = msg_ID m, upd_Text = msg_Message m, upd_SenderID = '''',
      upd_SenderUsername = '''', upd_MessageAt = Unix (msg_Date m), upd_EditedAt = None\<rparr>"

fun collect_page ::
  "aead \<Rightarrow> (nat \<Rightarrow> ingest_env) \<Rightarrow> history_run \<Rightarrow> MessageClass list \<Rightarrow> page_state \<Rightarrow> scout_store \<Rightarrow>
     scout_error option \<times> page_state \<times> scout_store" where
  "collect_page A env R [] p s = (None, p, s)"
| "collect_page A env R (MessageOther # ms) p s = collect_page A env R ms p s"
| "collect_page A env R (Message m # ms) p s =
     (if msg_ID m \<le> 0 then collect_page A env R ms p s
      else
        let p1 = see_message m p in
        if run_cursor R = 0 \<and> Before (Unix (msg_Date m)) (run_cutoff R) then
          collect_page A env R ms (p1\<lparr>pg_reachedCutoff := True\<rparr>) s
        else if msg_ID m \<le> run_cursor R then collect_page A env R ms p1 s
        else if TrimSpace (msg_Message m) = '''' then collect_page A env R ms p1 s
        else
          case CollectHistory (collector_Ingest A (env (pg_collected p1))) (history_update (run_chat R) m) s of
            (Inl e, s1) \<Rightarrow> (Some e, p1, s1)
          | (Inr _, s1) \<Rightarrow> collect_page A env R ms (p1\<lparr>pg_collected := Suc (pg_collected p1)\<rparr>) s1)"

section \<open>The loop\<close>

text \<open>Every result is the number of collected messages, an error or none, and the state left.\<close>

type_synonym history_result = "(nat \<times> history_error option) \<times> requests \<times> scout_store"

definition finish_history ::
  "history_env \<Rightarrow> history_run \<Rightarrow> nat \<Rightarrow> int \<Rightarrow> requests \<Rightarrow> scout_store \<Rightarrow> history_result" where
  "finish_history E R collected maxSeen log s =
     (case saveScoutHistoryCursor (he_now E log) (run_account R) (run_chat R) (run_cursor R) maxSeen s of
        (Inl e, s1) \<Rightarrow> ((collected, Some (HistoryStore e)), log, s1)
      | (Inr _, s1) \<Rightarrow> ((collected, None), log, s1))"

definition history_page :: "history_env \<Rightarrow> history_run \<Rightarrow> int \<Rightarrow> requests \<Rightarrow> tg_error + MessageClass list" where
  "history_page E R offset log =
     map_sum id scoutHistoryMessages
       (on_GetHistory (he_client E) log (run_peer R) offset (run_cursor R) scoutHistoryPageSize)"

definition stuck_page :: "int \<Rightarrow> int \<Rightarrow> bool" where
  "stuck_page offset nextOffset \<longleftrightarrow> nextOffset = 0 \<or> (offset \<noteq> 0 \<and> offset \<le> nextOffset)"

text \<open>
  The oldest message of a page is the offset of the next, and offsets are positive and decrease,
  so the loop ends.
\<close>

lemma collect_page_offset:
  assumes "collect_page A env R ms p s = (res, p1, s1)"
  shows "pg_nextOffset p1 = pg_nextOffset p \<or> 0 < pg_nextOffset p1"
  using assms
proof (induction A env R ms p s rule: collect_page.induct)
  case (3 A env R m ms p s)
  have keep: "pg_nextOffset (see_message m p) = pg_nextOffset p \<or> 0 < pg_nextOffset (see_message m p)"
    if "0 < msg_ID m"
    using that by (simp add: see_message_def)
  show ?case
  proof (cases "msg_ID m \<le> 0")
    case True
    then show ?thesis using 3 by simp
  next
    case False
    then show ?thesis
      using "3.prems" "3.IH"(2-5) [OF False refl] keep
      by (auto simp: Let_def split: if_splits prod.splits sum.splits)
  qed
qed auto

function history_loop ::
  "aead \<Rightarrow> history_env \<Rightarrow> history_run \<Rightarrow> int \<Rightarrow> int \<Rightarrow> nat \<Rightarrow> requests \<Rightarrow> scout_store \<Rightarrow> history_result" where
  "history_loop A E R offset maxSeen collected log s =
     (if he_done E log then ((collected, Some HistoryCancelled), log, s)
      else
        let log1 = MessagesGetHistory (run_peer R) offset (run_cursor R) scoutHistoryPageSize # log in
        case history_page E R offset log of
          Inl e \<Rightarrow> ((collected, Some (HistoryRPC e)), log1, s)
        | Inr messages \<Rightarrow>
            if messages = [] then finish_history E R collected maxSeen log1 s
            else
              case collect_page A (he_env E log1) R messages
                     \<lparr>pg_maxSeen = maxSeen, pg_nextOffset = offset, pg_reachedCutoff = False, pg_collected = collected\<rparr> s of
                (Some e, p, s1) \<Rightarrow> ((pg_collected p, Some (HistoryStore e)), log1, s1)
              | (None, p, s1) \<Rightarrow>
                  if pg_reachedCutoff p \<or> length messages < scoutHistoryPageSize then
                    finish_history E R (pg_collected p) (pg_maxSeen p) log1 s1
                  else if stuck_page offset (pg_nextOffset p) then
                    ((pg_collected p, Some HistoryStuck), log1, s1)
                  else if he_paused E log1 then ((pg_collected p, Some HistoryCancelled), log1, s1)
                  else history_loop A E R (pg_nextOffset p) (pg_maxSeen p) (pg_collected p) log1 s1)"
  by pat_completeness auto

termination
proof (relation "measures [\<lambda>(A, E, R, offset, _). if offset = 0 then 1 else 0, \<lambda>(A, E, R, offset, _). nat offset]",
       goal_cases)
  case 1
  then show ?case by simp
next
  case (2 A E R offset maxSeen collected log s log1 messages res rest p s1)
  have "pg_nextOffset p = offset \<or> 0 < pg_nextOffset p"
    using 2(5-7) collect_page_offset [of A "he_env E log1" R messages _ s None p s1] by (metis page_state.select_convs(2))
  then show ?case using 2 by (auto simp: stuck_page_def)
qed

declare history_loop.simps [simp del]

definition syncScoutHistoryPeer ::
  "aead \<Rightarrow> history_env \<Rightarrow> ID \<Rightarrow> InputPeer \<Rightarrow> time \<Rightarrow> requests \<Rightarrow> scout_store \<Rightarrow> history_result" where
  "syncScoutHistoryPeer A E accountID peer now log s =
     (let chatID = inputPeerIdentity peer in
      if chatID = '''' then ((0, Some HistoryPeer), log, s)
      else case ScoutCursor accountID chatID s of
             Inl e \<Rightarrow> ((0, Some (HistoryStore e)), log, s)
           | Inr cursor \<Rightarrow>
               history_loop A E
                 \<lparr>run_account = accountID, run_peer = peer, run_chat = chatID, run_cursor = cursor,
                  run_cutoff = now - scoutHistoryRetention\<rparr> 0 cursor 0 log s)"

end
