(* ===== verification/MessageFacts.thy ===== *)
theory MessageFacts
  imports UpdateRouter HistorySync LiveFacts
begin

text \<open>
  What the store of scouted messages keeps of each message, as an abstract history of versions
  and deletions, and the synchronisation and the router on top of it.
\<close>

section \<open>Times with nine digits\<close>

lemma less_append_same_length:
  fixes xs ys :: "'a::linorder list"
  assumes "length xs = length ys"
  shows "xs @ us < ys @ vs \<longleftrightarrow> xs < ys \<or> (xs = ys \<and> us < vs)"
  using assms by (induction xs ys rule: list_induct2) auto

lemma digit_char_less:
  assumes "a < 10" "b < 10"
  shows "digit_char a < digit_char b \<longleftrightarrow> a < b"
  using assms by (simp add: digit_char_def less_char_def)

lemma digit_char_eq:
  assumes "a < 10" "b < 10"
  shows "digit_char a = digit_char b \<longleftrightarrow> a = b"
  using assms by (metis char_digit_digit_char option.inject)

lemma pad_digits_eq:
  "a < 10 ^ k \<Longrightarrow> b < 10 ^ k \<Longrightarrow> pad_digits k a = pad_digits k b \<longleftrightarrow> a = b"
proof (induction k arbitrary: a b)
  case (Suc k)
  have "a div 10 < 10 ^ k" "b div 10 < 10 ^ k"
    using Suc.prems by (simp_all add: less_mult_imp_div_less mult.commute)
  then have "pad_digits (Suc k) a = pad_digits (Suc k) b \<longleftrightarrow> a div 10 = b div 10 \<and> a mod 10 = b mod 10"
    by (simp add: Suc.IH digit_char_eq)
  then show ?case by (metis div_mult_mod_eq)
qed simp

lemma pad_digits_less:
  "a < 10 ^ k \<Longrightarrow> b < 10 ^ k \<Longrightarrow> pad_digits k a < pad_digits k b \<longleftrightarrow> a < b"
proof (induction k arbitrary: a b)
  case (Suc k)
  have lt: "a div 10 < 10 ^ k" "b div 10 < 10 ^ k"
    using Suc.prems by (simp_all add: less_mult_imp_div_less mult.commute)
  then have "pad_digits (Suc k) a < pad_digits (Suc k) b \<longleftrightarrow>
      a div 10 < b div 10 \<or> (a div 10 = b div 10 \<and> a mod 10 < b mod 10)"
    by (simp add: Suc.IH less_append_same_length pad_digits_eq digit_char_less)
  also have "\<dots> \<longleftrightarrow> a < b"
    using div_mult_mod_eq [of a 10] div_mult_mod_eq [of b 10] by linarith
  finally show ?case .
qed simp

lemma scout_frac_bound: "nat (t mod Second) < 10 ^ 9"
  by (simp add: Second_def nat_less_iff)

lemma format_scout_less: "formatScoutTime t < formatScoutTime u \<longleftrightarrow> t < u"
proof -
  have "pad_digits 9 (nat (t mod Second)) @ ''Z'' < pad_digits 9 (nat (u mod Second)) @ ''Z'' \<longleftrightarrow>
        t mod Second < u mod Second"
    using scout_frac_bound [of t] scout_frac_bound [of u]
      nat_less_eq_zless [of "t mod Second" "u mod Second"] pos_mod_sign [of Second t]
    by (simp only: less_append_same_length length_pad_digits pad_digits_less pad_digits_eq) (simp add: Second_def)
  then have "formatScoutTime t < formatScoutTime u \<longleftrightarrow>
      t div Second < u div Second \<or> (t div Second = u div Second \<and> t mod Second < u mod Second)"
    by (simp add: formatScoutTime_def less_stamp_def)
  also have "\<dots> \<longleftrightarrow> t < u"
    using div_mult_mod_eq [of t Second] div_mult_mod_eq [of u Second] unfolding Second_def
    by (smt (verit) zdiv_mono1)
  finally show ?thesis .
qed

lemma parse_scout: "parseTime (formatScoutTime t) = Some t"
proof -
  have d: "parse_digits 0 (pad_digits 9 (nat (t mod Second))) = Some (nat (t mod Second))"
    using scout_frac_bound [of t] by (simp add: parse_pad_digits)
  have "parse_frac (''.'' @ pad_digits 9 (nat (t mod Second)) @ ''Z'') = Some (nat (t mod Second))"
    using d by (simp add: parse_frac_def butlast_append Let_def)
  then show ?thesis by (simp add: parseTime_def formatScoutTime_def Second_def)
qed

lemma format_scout_eq [simp]: "formatScoutTime t = formatScoutTime u \<longleftrightarrow> t = u"
  by (metis parse_scout option.inject)

lemma parse_scout_opt [simp]: "parse_opt (formatScoutTimePtr e) = Some e"
  by (cases e) (simp_all add: parse_opt_def formatScoutTimePtr_def parse_scout)

lemma format_scout_ptr_eq [simp]: "formatScoutTimePtr a = formatScoutTimePtr b \<longleftrightarrow> a = b"
  by (metis parse_scout_opt option.inject)


section \<open>What is kept of a message\<close>

text \<open>
  The documented behaviour of an AEAD: what was sealed opens under the same nonce and additional
  data. The random source gives a nonce of the size asked for or an error.
\<close>

definition aead_ok :: "aead \<Rightarrow> bool" where
  "aead_ok A \<longleftrightarrow>
     (\<forall>n p a. length n = aead_NonceSize A \<longrightarrow> aead_Open A n (aead_Seal A n p a) a = Some p)"

definition env_ok :: "aead \<Rightarrow> ingest_env \<Rightarrow> bool" where
  "env_ok A env \<longleftrightarrow> (\<forall>n. env_random env = Some n \<longrightarrow> length n = aead_NonceSize A)"

text \<open>A version has the time of the message, its text and the time of its edit; a deletion has its time.\<close>

datatype kept = Kept time string "time option" | Deleted time

definition read_row :: "aead \<Rightarrow> message_row \<Rightarrow> kept option" where
  "read_row A r =
     (case parseTime (sm_message_at r) of
        None \<Rightarrow> None
      | Some mt \<Rightarrow>
          (case (Decrypt A (sm_encrypted_text r) (sm_nonce r) (sm_chat r) (sm_message r) mt, parse_opt (sm_edited_at r)) of
             (Inr txt, Some e) \<Rightarrow> Some (Kept mt txt e)
           | _ \<Rightarrow> None))"

definition read_tombstone :: "tombstone_row \<Rightarrow> kept option" where
  "read_tombstone t = map_option Deleted (parseTime (tb_deleted_at t))"

definition message_state :: "aead \<Rightarrow> scout_store \<Rightarrow> string \<Rightarrow> int \<Rightarrow> kept option" where
  "message_state A s c i =
     (case sql_select (is_tombstone c i) (ss_tombstones s) of
        Some t \<Rightarrow> read_tombstone t
      | None \<Rightarrow> Option.bind (sql_select (is_message c i) (ss_messages s)) (read_row A))"

definition row_ok :: "aead \<Rightarrow> message_row \<Rightarrow> bool" where
  "row_ok A r \<longleftrightarrow>
     (\<exists>mt txt e. mt \<noteq> 0 \<and> sm_message_at r = formatScoutTime mt \<and> sm_edited_at r = formatScoutTimePtr e \<and>
        length (sm_nonce r) = aead_NonceSize A \<and>
        sm_encrypted_text r = aead_Seal A (sm_nonce r) txt (messageAAD (sm_chat r) (sm_message r) mt))"

definition message_key :: "message_row \<Rightarrow> string \<times> int" where
  "message_key r = (sm_chat r, sm_message r)"

definition tombstone_key :: "tombstone_row \<Rightarrow> string \<times> int" where
  "tombstone_key r = (tb_chat r, tb_message r)"

definition scout_inv :: "aead \<Rightarrow> scout_store \<Rightarrow> bool" where
  "scout_inv A s \<longleftrightarrow>
     distinct (map message_key (ss_messages s)) \<and> distinct (map tombstone_key (ss_tombstones s)) \<and>
     (\<forall>r \<in> set (ss_messages s). row_ok A r) \<and>
     (\<forall>t \<in> set (ss_tombstones s). \<exists>mt. tb_deleted_at t = formatScoutTime mt) \<and>
     message_key ` set (ss_messages s) \<inter> tombstone_key ` set (ss_tombstones s) = {}"

section \<open>The abstract history of a message\<close>

definition newer :: "time option \<Rightarrow> time option \<Rightarrow> bool" where
  "newer new old \<longleftrightarrow> (case new of None \<Rightarrow> False | Some e \<Rightarrow> (case old of None \<Rightarrow> True | Some o' \<Rightarrow> o' < e))"

fun receive :: "time \<Rightarrow> string \<Rightarrow> time option \<Rightarrow> kept option \<Rightarrow> kept option" where
  "receive mt txt e None = Some (Kept mt txt e)"
| "receive mt txt e (Some (Kept mt0 txt0 e0)) =
     Some (if newer e e0 then Kept mt0 txt e else Kept mt0 txt0 e0)"
| "receive mt txt e (Some (Deleted t)) = Some (Deleted t)"

fun bury :: "time \<Rightarrow> kept option \<Rightarrow> kept option" where
  "bury now (Some (Deleted t)) = Some (Deleted (max t now))"
| "bury now st = Some (Deleted now)"

fun age :: "time \<Rightarrow> kept option \<Rightarrow> kept option" where
  "age before None = None"
| "age before (Some (Kept mt txt e)) =
     (if mt < before then Some (Deleted (before + RetentionPeriod)) else Some (Kept mt txt e))"
| "age before (Some (Deleted t)) = (if t < before then None else Some (Deleted t))"

datatype scout_call =
    CallIngest ingest_env IncomingUpdate
  | CallDelete ingest_env string int
  | CallPrune time

fun serve_scout :: "aead \<Rightarrow> scout_call \<Rightarrow> (scout_store, scout_error, unit) op" where
  "serve_scout A (CallIngest env u) s = collector_Ingest A env u s"
| "serve_scout A (CallDelete env c i) s = collector_Delete env c i s"
| "serve_scout A (CallPrune before) s = (case PruneBefore before s of (res, s') \<Rightarrow> (map_sum id (\<lambda>_. ()) res, s'))"

definition message_time :: "ingest_env \<Rightarrow> IncomingUpdate \<Rightarrow> time" where
  "message_time env u = (if IsZero (upd_MessageAt u) then env_now env else upd_MessageAt u)"

fun abstract_call :: "scout_call \<Rightarrow> string \<Rightarrow> int \<Rightarrow> kept option \<Rightarrow> kept option" where
  "abstract_call (CallIngest env u) c i st =
     (if upd_ChatID u = c \<and> upd_MessageID u = i
      then receive (message_time env u) (upd_Text u) (upd_EditedAt u) st else st)"
| "abstract_call (CallDelete env c' i') c i st = (if c' = c \<and> i' = i then bury (env_now env) st else st)"
| "abstract_call (CallPrune before) c i st = age before st"

fun call_env_ok :: "aead \<Rightarrow> scout_call \<Rightarrow> bool" where
  "call_env_ok A (CallIngest env u) = env_ok A env"
| "call_env_ok A (CallDelete env c i) = True"
| "call_env_ok A (CallPrune before) = True"

section \<open>Rows and tombstones by key\<close>

lemma is_message_key: "is_message c i = (\<lambda>r. message_key r = (c, i))"
  by (auto simp: is_message_def message_key_def fun_eq_iff)

lemma is_tombstone_key: "is_tombstone c i = (\<lambda>r. tombstone_key r = (c, i))"
  by (auto simp: is_tombstone_def tombstone_key_def fun_eq_iff)

lemma select_message:
  assumes "scout_inv A s" "r \<in> set (ss_messages s)"
  shows "sql_select (is_message (sm_chat r) (sm_message r)) (ss_messages s) = Some r"
  using assms sql_select_key [of message_key "ss_messages s" r]
  by (simp add: scout_inv_def is_message_key message_key_def)

lemma tombstoned_iff: "tombstoned c i s \<longleftrightarrow> (c, i) \<in> tombstone_key ` set (ss_tombstones s)"
  by (auto simp: tombstoned_def sql_exists_iff is_tombstone_def tombstone_key_def rev_image_eqI)

lemma store_Exists_iff: "store_Exists c i s \<longleftrightarrow> (c, i) \<in> message_key ` set (ss_messages s)"
  by (auto simp: store_Exists_def sql_exists_iff is_message_def message_key_def rev_image_eqI)

lemma tombstoned_select: "tombstoned c i s \<longleftrightarrow> sql_select (is_tombstone c i) (ss_tombstones s) \<noteq> None"
  by (auto simp: tombstoned_def sql_exists_iff sql_select_None_iff)

lemma not_tombstoned_select: "\<not> tombstoned c i s \<longleftrightarrow> sql_select (is_tombstone c i) (ss_tombstones s) = None"
  by (simp add: tombstoned_select)

lemma read_row_sealed:
  assumes "aead_ok A" "sm_message_at r = formatScoutTime mt" "sm_edited_at r = formatScoutTimePtr e"
    "length (sm_nonce r) = aead_NonceSize A"
    "sm_encrypted_text r = aead_Seal A (sm_nonce r) txt (messageAAD (sm_chat r) (sm_message r) mt)"
  shows "read_row A r = Some (Kept mt txt e)"
  using assms by (simp add: read_row_def parse_scout Decrypt_def aead_ok_def)

lemma row_ok_read:
  assumes "aead_ok A" "row_ok A r"
  obtains mt tx e where "read_row A r = Some (Kept mt tx e)" "sm_message_at r = formatScoutTime mt"
    "sm_edited_at r = formatScoutTimePtr e"
  using assms read_row_sealed unfolding row_ok_def by metis

lemma message_state_row:
  assumes "scout_inv A s" "r \<in> set (ss_messages s)"
  shows "message_state A s (sm_chat r) (sm_message r) = read_row A r"
proof -
  have "\<not> tombstoned (sm_chat r) (sm_message r) s"
    using assms by (auto simp: tombstoned_iff scout_inv_def message_key_def)
  then show ?thesis
    using select_message [OF assms] by (simp add: message_state_def not_tombstoned_select)
qed

lemma read_row_not_deleted: "read_row A r \<noteq> Some (Deleted t)"
  by (auto simp: read_row_def split: option.splits sum.splits)


section \<open>The store refines the history\<close>

definition same_tables :: "scout_store \<Rightarrow> scout_store \<Rightarrow> bool" where
  "same_tables s s' \<longleftrightarrow> ss_messages s' = ss_messages s \<and> ss_tombstones s' = ss_tombstones s"

lemma same_tables_state:
  assumes "same_tables s s'"
  shows "message_state A s' = message_state A s" "scout_inv A s' = scout_inv A s"
    "tombstoned c i s' = tombstoned c i s" "store_Exists c i s' = store_Exists c i s"
proof -
  have eq: "ss_messages s' = ss_messages s" "ss_tombstones s' = ss_tombstones s"
    using assms by (simp_all add: same_tables_def)
  show "message_state A s' = message_state A s"
    by (rule ext, rule ext) (simp only: message_state_def eq)
  show "scout_inv A s' = scout_inv A s" by (simp only: scout_inv_def eq)
  show "tombstoned c i s' = tombstoned c i s" "store_Exists c i s' = store_Exists c i s"
    by (simp_all only: tombstoned_def store_Exists_def eq)
qed

lemma same_tables_refl [simp]: "same_tables s s"
  by (simp add: same_tables_def)

lemma note_activity_tables [simp]:
  "ss_messages (note_activity m n s) = ss_messages s" "ss_tombstones (note_activity m n s) = ss_tombstones s"
  by (simp_all add: note_activity_def)

lemma state_of_append:
  assumes "scout_inv A s" "row_ok A r" "message_key r \<notin> message_key ` set (ss_messages s)"
    "message_key r \<notin> tombstone_key ` set (ss_tombstones s)"
    "ss_messages s' = ss_messages s @ [r]" "ss_tombstones s' = ss_tombstones s"
  shows "scout_inv A s'"
    "message_state A s' c i = (if message_key r = (c, i) then read_row A r else message_state A s c i)"
proof -
  show "scout_inv A s'" using assms by (auto simp: scout_inv_def)
  have "sql_select (is_message c i) (ss_messages s) = None" "sql_select (is_tombstone c i) (ss_tombstones s) = None"
    if "message_key r = (c, i)"
    using that assms(3,4) by (force simp: sql_select_None_iff is_message_key is_tombstone_key)+
  then show "message_state A s' c i = (if message_key r = (c, i) then read_row A r else message_state A s c i)"
    using assms(5,6) by (auto simp: message_state_def sql_select_append is_message_key split: option.splits)
qed

lemma state_of_update:
  assumes "scout_inv A s" "\<And>r. message_key (f r) = message_key r"
    "\<And>r. r \<in> set (ss_messages s) \<Longrightarrow> p r \<Longrightarrow> row_ok A (f r)"
    "ss_messages s' = sql_update p f (ss_messages s)" "ss_tombstones s' = ss_tombstones s"
  shows "scout_inv A s'"
    "message_state A s' c i =
       (if tombstoned c i s then message_state A s c i
        else Option.bind (sql_select (is_message c i) (ss_messages s)) (\<lambda>r. read_row A (if p r then f r else r)))"
proof -
  have keys: "map message_key (ss_messages s') = map message_key (ss_messages s)"
    using assms(2,4) by (simp add: sql_update_def)
  then have "message_key ` set (ss_messages s') = message_key ` set (ss_messages s)"
    by (metis list.set_map)
  moreover have "\<forall>r \<in> set (ss_messages s'). row_ok A r"
    using assms(1,3,4) by (auto simp: scout_inv_def set_sql_update)
  ultimately show "scout_inv A s'"
    using assms(1,5) keys by (simp add: scout_inv_def)
  have "sql_select (is_message c i) (ss_messages s') =
      map_option (\<lambda>r. if p r then f r else r) (sql_select (is_message c i) (ss_messages s))"
    using assms(2) by (simp add: assms(4) is_message_key sql_select_update)
  then show "message_state A s' c i =
      (if tombstoned c i s then message_state A s c i
       else Option.bind (sql_select (is_message c i) (ss_messages s)) (\<lambda>r. read_row A (if p r then f r else r)))"
    using assms(5)
    by (cases "sql_select (is_message c i) (ss_messages s)")
       (simp_all add: message_state_def tombstoned_select split: option.splits)
qed

lemma checkDisk_tables: "checkDisk env s = (res, s1) \<Longrightarrow> same_tables s s1"
  by (auto simp: checkDisk_def same_tables_def split: option.splits if_splits)

lemma collector_save_cases:
  assumes "collector_save A env c i tx mt received e s = (res, s')" "env_ok A env"
  obtains (failed) err where "res = Inl err" "same_tables s s'"
    | (saved) n s1 where "res = Inr ()" "length n = aead_NonceSize A" "same_tables s s1" "mt \<noteq> 0"
        "save_message \<lparr>em_ChatID = c, em_MessageID = i, em_Ciphertext = aead_Seal A n tx (messageAAD c i mt),
           em_Nonce = n, em_MessageAt = mt, em_ReceivedAt = received, em_EditedAt = e\<rparr> s1 = (Inr (), s')"
proof (cases res)
  case (Inl err)
  have "same_tables s s'"
    using assms Inl
    by (auto simp: collector_save_def SaveEncrypted_def validateIdentity_def in_tx_def same_tables_def
        dest!: checkDisk_tables split: if_splits sum.splits prod.splits)
  with Inl show ?thesis by (rule failed)
next
  case (Inr x)
  obtain n s1 where "env_random env = Some n" "checkDisk env s = (Inr (), s1)" "mt \<noteq> 0"
    "save_message \<lparr>em_ChatID = c, em_MessageID = i, em_Ciphertext = aead_Seal A n tx (messageAAD c i mt),
       em_Nonce = n, em_MessageAt = mt, em_ReceivedAt = received, em_EditedAt = e\<rparr> s1 = (Inr (), s')"
    using assms(1) Inr
    by (auto simp: collector_save_def SaveEncrypted_def validateIdentity_def Encrypt_def in_tx_ok IsZero_def
        split: if_splits sum.splits prod.splits option.splits)
  then show ?thesis
    using assms(2) Inr by (intro saved [of n s1] checkDisk_tables) (simp_all add: env_ok_def)
qed

text \<open>A successful transaction appends the row or updates the row that is there.\<close>

lemma save_message_effect:
  assumes "save_message m s = (Inr (), s')"
  shows "ss_tombstones s' = ss_tombstones s"
    "\<not> tombstoned (em_ChatID m) (em_MessageID m) s \<Longrightarrow> \<not> store_Exists (em_ChatID m) (em_MessageID m) s \<Longrightarrow>
       ss_messages s' = ss_messages s @ [row_of_message m]"
    "tombstoned (em_ChatID m) (em_MessageID m) s \<or> store_Exists (em_ChatID m) (em_MessageID m) s \<Longrightarrow>
       ss_messages s' =
         (case em_EditedAt m of None \<Rightarrow> ss_messages s
          | Some e \<Rightarrow> sql_update (edit_target m e) (edit_row m) (ss_messages s))"
  using assms
  by (auto simp: save_message_def sql_update_affected_0 split: if_splits option.splits)


lemma message_state_tombstone:
  assumes "scout_inv A s" "tombstoned c i s"
  shows "\<exists>t. message_state A s c i = Some (Deleted t)"
proof -
  obtain tb where tb: "sql_select (is_tombstone c i) (ss_tombstones s) = Some tb"
    using assms(2) by (auto simp: tombstoned_select)
  then obtain mt where "tb_deleted_at tb = formatScoutTime mt"
    using assms(1) sql_select_SomeD [OF tb] unfolding scout_inv_def by blast
  with tb show ?thesis by (simp add: message_state_def read_tombstone_def parse_scout)
qed

lemma message_state_absent:
  assumes "\<not> tombstoned c i s" "\<not> store_Exists c i s"
  shows "message_state A s c i = None"
proof -
  have "sql_select (is_message c i) (ss_messages s) = None"
    using assms(2) by (simp add: store_Exists_def sql_exists_iff sql_select_None_iff)
  with assms(1) show ?thesis by (simp add: message_state_def not_tombstoned_select)
qed

lemma stored_row:
  assumes "scout_inv A s" "store_Exists c i s"
  obtains r where "r \<in> set (ss_messages s)" "sm_chat r = c" "sm_message r = i" "\<not> tombstoned c i s"
    "sql_select (is_message c i) (ss_messages s) = Some r" "row_ok A r"
proof -
  obtain r where r: "r \<in> set (ss_messages s)" "sm_chat r = c" "sm_message r = i"
    using assms(2) by (auto simp: store_Exists_iff message_key_def)
  have "\<not> tombstoned c i s" "row_ok A r"
    using assms(1) r by (auto simp: tombstoned_iff scout_inv_def message_key_def)
  with r select_message [OF assms(1) r(1)] show thesis by (intro that) auto
qed

lemma newer_edit_format: "newer_edit (formatScoutTime e) (formatScoutTimePtr old) \<longleftrightarrow> newer (Some e) old"
  by (cases old) (simp_all add: newer_edit_def newer_def formatScoutTimePtr_def format_scout_less)

text \<open>One edit of one stored message.\<close>

lemma edit_state:
  assumes inv: "scout_inv A s" and A: "aead_ok A" and stored: "store_Exists c i s"
    and m: "em_ChatID m = c" "em_MessageID m = i" "em_EditedAt m = Some e" "length (em_Nonce m) = aead_NonceSize A"
    "em_Ciphertext m = aead_Seal A (em_Nonce m) tx (messageAAD c i (em_MessageAt m))"
    and nz: "em_MessageAt m \<noteq> 0"
    and row: "message_state A s c i = Some (Kept (em_MessageAt m) tx0 e0)"
    and upd: "ss_messages s' = sql_update (edit_target m e) (edit_row m) (ss_messages s)"
    "ss_tombstones s' = ss_tombstones s"
  shows "scout_inv A s'"
    "message_state A s' c' i' = (if c' = c \<and> i' = i then receive (em_MessageAt m) tx (Some e) (message_state A s c i)
       else message_state A s c' i')"
proof -
  have rok: "row_ok A (edit_row m r)" and keep: "message_key (edit_row m r') = message_key r'"
    and rd: "read_row A (edit_row m r) = Some (Kept (em_MessageAt m) tx (Some e))"
    if "edit_target m e r" for r r'
  proof -
    have r: "sm_chat r = c" "sm_message r = i" "sm_message_at r = formatScoutTime (em_MessageAt m)"
      using that m by (simp_all add: edit_target_def is_message_def)
    then show "row_ok A (edit_row m r)"
      using m nz unfolding row_ok_def
      by (intro exI [of _ "em_MessageAt m"] exI [of _ tx] exI [of _ "Some e"]) (simp add: edit_row_def)
    show "message_key (edit_row m r') = message_key r'" by (simp add: edit_row_def message_key_def)
    show "read_row A (edit_row m r) = Some (Kept (em_MessageAt m) tx (Some e))"
      using m r by (intro read_row_sealed [OF A]) (simp_all add: edit_row_def)
  qed
  have key: "message_key (edit_row m r) = message_key r" for r
    by (simp add: edit_row_def message_key_def)
  note st = state_of_update [OF inv key rok upd]
  show "scout_inv A s'" by (rule st(1))
  obtain r where r: "sm_chat r = c" "sm_message r = i" "\<not> tombstoned c i s"
      "sql_select (is_message c i) (ss_messages s) = Some r" "row_ok A r" "r \<in> set (ss_messages s)"
    using stored_row [OF inv stored] by metis
  have r': "read_row A r = Some (Kept (em_MessageAt m) tx0 e0)"
    using row r message_state_row [OF inv r(6)] by simp
  have times: "sm_message_at r = formatScoutTime (em_MessageAt m)" "sm_edited_at r = formatScoutTimePtr e0"
    using row_ok_read [OF A r(5)] r' by (metis kept.inject(1) option.inject)+
  have target: "edit_target m e r \<longleftrightarrow> newer (Some e) e0"
    using r times m by (simp add: edit_target_def is_message_def newer_edit_format)
  have other: "Option.bind (sql_select (is_message c' i') (ss_messages s))
      (\<lambda>r. read_row A (if edit_target m e r then edit_row m r else r)) =
      Option.bind (sql_select (is_message c' i') (ss_messages s)) (read_row A)"
    if "\<not> (c' = c \<and> i' = i)"
    using that m
    by (cases "sql_select (is_message c' i') (ss_messages s)")
       (auto simp: edit_target_def is_message_def dest!: sql_select_SomeD)
  show "message_state A s' c' i' = (if c' = c \<and> i' = i then receive (em_MessageAt m) tx (Some e) (message_state A s c i)
       else message_state A s c' i')"
  proof (cases "c' = c \<and> i' = i")
    case True
    then show ?thesis
      using st(2) [of c i] r r' target rd row by simp
  next
    case False
    then show ?thesis
      using st(2) [of c' i'] other
      by (cases "tombstoned c' i' s") (auto simp: message_state_def not_tombstoned_select)
  qed
qed


text \<open>Each operation: the invariant is kept, and what it does to the history of every message.\<close>

definition refines :: "aead \<Rightarrow> scout_call \<Rightarrow> scout_store \<Rightarrow> scout_error + unit \<Rightarrow> scout_store \<Rightarrow> bool" where
  "refines A call s res s' \<longleftrightarrow>
     scout_inv A s' \<and>
     (\<forall>c i. message_state A s' c i =
        (if isl res then message_state A s c i else abstract_call call c i (message_state A s c i)))"

lemma refines_unchanged:
  assumes "scout_inv A s" "same_tables s s'"
    "\<not> isl res \<Longrightarrow> (\<And>c i. abstract_call call c i (message_state A s c i) = message_state A s c i)"
  shows "refines A call s res s'"
  using assms by (auto simp: refines_def same_tables_state)

lemma ingest_new:
  assumes inv: "scout_inv A s" and A: "aead_ok A" and fresh: "\<not> tombstoned c i s" "\<not> store_Exists c i s"
    and nz: "mt \<noteq> 0"
    and m: "em_ChatID m = c" "em_MessageID m = i" "em_MessageAt m = mt" "em_EditedAt m = e"
    "length (em_Nonce m) = aead_NonceSize A" "em_Ciphertext m = aead_Seal A (em_Nonce m) tx (messageAAD c i mt)"
    and saved: "save_message m s = (Inr (), s')"
  shows "scout_inv A s'" "message_state A s' c' i' = (if c' = c \<and> i' = i then Some (Kept mt tx e) else message_state A s c' i')"
proof -
  note eff = save_message_effect [OF saved]
  let ?r = "row_of_message m"
  have key: "message_key ?r = (c, i)"
    using m by (simp add: message_key_def row_of_message_def)
  have ok: "row_ok A ?r"
    using m nz unfolding row_ok_def
    by (intro exI [of _ mt] exI [of _ tx] exI [of _ e]) (simp add: row_of_message_def)
  have new: "message_key ?r \<notin> message_key ` set (ss_messages s)" "message_key ?r \<notin> tombstone_key ` set (ss_tombstones s)"
    using fresh by (simp_all add: key tombstoned_iff store_Exists_iff)
  have rd: "read_row A ?r = Some (Kept mt tx e)"
    using m by (intro read_row_sealed [OF A]) (simp_all add: row_of_message_def)
  note st = state_of_append [OF inv ok new _ eff(1)]
  show "scout_inv A s'" using st(1) eff(2) fresh m by simp
  show "message_state A s' c' i' = (if c' = c \<and> i' = i then Some (Kept mt tx e) else message_state A s c' i')"
    using st(2) [of c' i'] eff(2) fresh m rd key by auto
qed

lemma ingest_refines:
  assumes inv: "scout_inv A s" and A: "aead_ok A" and env: "env_ok A env"
    and run: "collector_Ingest A env u s = (res, s')"
  shows "refines A (CallIngest env u) s res s'"
proof -
  let ?c = "upd_ChatID u" and ?i = "upd_MessageID u"
  consider (buried) "tombstoned ?c ?i s" | (absent) "\<not> tombstoned ?c ?i s" "\<not> store_Exists ?c ?i s"
    | (stored) "store_Exists ?c ?i s" by blast
  then show ?thesis
  proof cases
    case buried
    then have "s' = s" using run by (simp add: collector_Ingest_def CanonicalMessageAt_def)
    moreover obtain t where "message_state A s ?c ?i = Some (Deleted t)"
      using message_state_tombstone [OF inv buried] by blast
    ultimately show ?thesis by (intro refines_unchanged [OF inv]) auto
  next
    case absent
    have run': "collector_save A env ?c ?i (upd_Text u) (message_time env u) (env_received env) (upd_EditedAt u) s = (res, s')"
      using run absent message_state_absent [OF absent, of A]
      by (auto simp: collector_Ingest_def CanonicalMessageAt_def message_time_def store_Exists_def sql_exists_iff
          sql_select_None_iff [THEN iffD2])
    from run' env show ?thesis
    proof (cases rule: collector_save_cases)
      case (failed err)
      then show ?thesis by (intro refines_unchanged [OF inv]) auto
    next
      case (saved n s1)
      have fresh: "\<not> tombstoned ?c ?i s1" "\<not> store_Exists ?c ?i s1" and inv1: "scout_inv A s1"
        using absent inv same_tables_state [OF saved(3)] by simp_all
      show ?thesis
        using ingest_new [OF inv1 A fresh saved(4) _ _ _ refl _ _ saved(5)] saved(2) saved(1)
          same_tables_state(1) [OF saved(3)] message_state_absent [OF absent]
        by (auto simp: refines_def)
    qed
  next
    case stored
    obtain r where r: "sm_chat r = ?c" "sm_message r = ?i" "\<not> tombstoned ?c ?i s"
        "sql_select (is_message ?c ?i) (ss_messages s) = Some r" "row_ok A r" "r \<in> set (ss_messages s)"
      using stored_row [OF inv stored] by metis
    obtain mt tx0 e0 where rd: "read_row A r = Some (Kept mt tx0 e0)" "sm_message_at r = formatScoutTime mt"
      using row_ok_read [OF A r(5)] by metis
    have st: "message_state A s ?c ?i = Some (Kept mt tx0 e0)"
      using message_state_row [OF inv r(6)] r rd by simp
    have run': "collector_save A env ?c ?i (upd_Text u) mt (env_received env) (upd_EditedAt u) s = (res, s')"
      using run r rd by (simp add: collector_Ingest_def CanonicalMessageAt_def parse_scout)
    from run' env show ?thesis
    proof (cases rule: collector_save_cases)
      case (failed err)
      then show ?thesis by (intro refines_unchanged [OF inv]) auto
    next
      case (saved n s1)
      note same = same_tables_state [OF saved(3)]
      have stored1: "store_Exists ?c ?i s1" and inv1: "scout_inv A s1" using stored inv same by simp_all
      note eff = save_message_effect [OF saved(5)]
      show ?thesis
      proof (cases "upd_EditedAt u")
        case None
        then have "same_tables s s'"
          using eff(1,3) stored1 saved(3) by (simp add: same_tables_def)
        then show ?thesis
          using None st by (intro refines_unchanged [OF inv]) (auto simp: newer_def)
      next
        case (Some e)
        have upd: "ss_messages s' = sql_update (edit_target \<lparr>em_ChatID = ?c, em_MessageID = ?i,
              em_Ciphertext = aead_Seal A n (upd_Text u) (messageAAD ?c ?i mt), em_Nonce = n, em_MessageAt = mt,
              em_ReceivedAt = env_received env, em_EditedAt = upd_EditedAt u\<rparr> e)
            (edit_row \<lparr>em_ChatID = ?c, em_MessageID = ?i,
              em_Ciphertext = aead_Seal A n (upd_Text u) (messageAAD ?c ?i mt), em_Nonce = n, em_MessageAt = mt,
              em_ReceivedAt = env_received env, em_EditedAt = upd_EditedAt u\<rparr>) (ss_messages s1)"
          using eff(3) stored1 Some by simp
        have st1: "message_state A s1 ?c ?i = Some (Kept mt tx0 e0)" using st same by simp
        note edited = edit_state [where tx = "upd_Text u" and ?tx0.0 = tx0 and ?e0.0 = e0,
            OF inv1 A stored1 _ _ _ _ _ _ _ upd eff(1)]
        have "scout_inv A s'"
          using Some saved(2,4) st1 by (intro edited(1)) simp_all
        moreover have "message_state A s' c' i' =
            (if c' = ?c \<and> i' = ?i then receive mt (upd_Text u) (Some e) (message_state A s1 ?c ?i)
             else message_state A s1 c' i')" for c' i'
          using edited(2) [where c' = c' and i' = i'] Some saved(2,4) st1 by simp
        ultimately show ?thesis
          using Some saved(1) st same(1) by (simp add: refines_def)
      qed
    qed
  qed
qed


subsection \<open>Deletions and pruning\<close>

lemma sql_select_filter_key:
  assumes "distinct (map key rows)"
  shows "sql_select (\<lambda>r. key r = k) (filter q rows) =
         Option.bind (sql_select (\<lambda>r. key r = k) rows) (\<lambda>r. if q r then Some r else None)"
  using assms
proof (induction rows)
  case (Cons a rows)
  have "sql_select (\<lambda>r. key r = k) (filter q rows) = None" if "key a = k"
    using that Cons.prems unfolding sql_select_None_iff by (auto simp: image_iff)
  with Cons show ?case by auto
qed simp

lemma format_scout_max: "max (formatScoutTime a) (formatScoutTime b) = formatScoutTime (max a b)"
  by (auto simp: max_def not_le format_scout_less dest: order_less_le_trans)

lemma put_tombstone_select:
  "sql_select (is_tombstone c' i') (put_tombstone d c i rows) =
     (if c' = c \<and> i' = i
      then Some \<lparr>tb_chat = c, tb_message = i,
                 tb_deleted_at = (case sql_select (is_tombstone c i) rows of None \<Rightarrow> d | Some t \<Rightarrow> max (tb_deleted_at t) d)\<rparr>
      else sql_select (is_tombstone c' i') rows)"
proof (cases "sql_exists (is_tombstone c i) rows")
  case True
  have upd: "sql_select (is_tombstone c' i') (put_tombstone d c i rows) =
      map_option (\<lambda>r. if is_tombstone c i r \<and> tb_deleted_at r < d then r\<lparr>tb_deleted_at := d\<rparr> else r)
        (sql_select (is_tombstone c' i') rows)" for c' i'
    using True sql_select_update [of _ tombstone_key "\<lambda>r. r\<lparr>tb_deleted_at := d\<rparr>" "(c', i')" rows]
    by (simp add: put_tombstone_def is_tombstone_key tombstone_key_def)
  obtain t where t: "sql_select (is_tombstone c i) rows = Some t"
    using True by (cases "sql_select (is_tombstone c i) rows") (auto simp: sql_exists_iff sql_select_None_iff)
  then have key: "tb_chat t = c" "tb_message t = i"
    by (auto dest!: sql_select_SomeD simp: is_tombstone_def)
  show ?thesis
  proof (cases "c' = c \<and> i' = i")
    case True
    then show ?thesis using upd [of c i] t key by (cases t) (auto simp: is_tombstone_def max_def)
  next
    case False
    then show ?thesis
      using upd [of c' i'] by (cases "sql_select (is_tombstone c' i') rows")
        (auto simp: is_tombstone_def dest!: sql_select_SomeD)
  qed
next
  case False
  then have "sql_select (is_tombstone c i) rows = None"
    by (simp add: sql_exists_iff sql_select_None_iff)
  with False show ?thesis
    by (auto simp: put_tombstone_def sql_select_append is_tombstone_def split: option.splits)
qed

lemma put_tombstone_keys:
  "tombstone_key ` set (put_tombstone d c i rows) = insert (c, i) (tombstone_key ` set rows)"
  "distinct (map tombstone_key rows) \<Longrightarrow> distinct (map tombstone_key (put_tombstone d c i rows))"
proof -
  have upd: "map tombstone_key (sql_update p (\<lambda>r. r\<lparr>tb_deleted_at := d\<rparr>) rows) = map tombstone_key rows" for p
    by (simp add: sql_update_def tombstone_key_def)
  have mem: "sql_exists (is_tombstone c i) rows \<longleftrightarrow> (c, i) \<in> tombstone_key ` set rows"
    by (auto simp: sql_exists_iff is_tombstone_def tombstone_key_def rev_image_eqI)
  show "tombstone_key ` set (put_tombstone d c i rows) = insert (c, i) (tombstone_key ` set rows)"
  proof (cases "sql_exists (is_tombstone c i) rows")
    case True
    then have "map tombstone_key (put_tombstone d c i rows) = map tombstone_key rows"
      by (simp only: put_tombstone_def if_True upd)
    then have "tombstone_key ` set (put_tombstone d c i rows) = tombstone_key ` set rows"
      by (metis list.set_map)
    with True mem show ?thesis by (simp add: insert_absorb)
  next
    case False
    then show ?thesis by (simp add: put_tombstone_def tombstone_key_def)
  qed
  show "distinct (map tombstone_key (put_tombstone d c i rows))" if "distinct (map tombstone_key rows)"
  proof (cases "sql_exists (is_tombstone c i) rows")
    case True
    then show ?thesis using that by (simp add: put_tombstone_def upd)
  next
    case False
    then have "(c, i) \<notin> tombstone_key ` set rows" using mem by blast
    with False that show ?thesis by (simp add: put_tombstone_def tombstone_key_def)
  qed
qed

lemma put_tombstone_times:
  assumes "\<forall>t \<in> set rows. \<exists>mt. tb_deleted_at t = formatScoutTime mt"
  shows "\<forall>t \<in> set (put_tombstone (formatScoutTime d) c i rows). \<exists>mt. tb_deleted_at t = formatScoutTime mt"
  using assms by (auto simp: put_tombstone_def set_sql_update)

lemma delete_refines:
  assumes inv: "scout_inv A s" and run: "collector_Delete env c i s = (res, s')"
  shows "refines A (CallDelete env c i) s res s'"
proof (cases "validateIdentity c i")
  case (Inl e)
  then have "res = Inl e" "s' = s" using run by (simp_all add: collector_Delete_def)
  then show ?thesis by (intro refines_unchanged [OF inv]) simp_all
next
  case (Inr x)
  let ?d = "formatScoutTime (env_now env)"
  have res: "res = Inr ()" and tabs: "ss_tombstones s' = put_tombstone ?d c i (ss_tombstones s)"
      "ss_messages s' = filter (\<lambda>r. \<not> is_message c i r) (ss_messages s)"
    using run Inr by (auto simp: collector_Delete_def store_Delete_def)
  have "message_key ` set (ss_messages s') \<inter> tombstone_key ` set (ss_tombstones s') = {}"
    using inv by (auto simp: tabs put_tombstone_keys scout_inv_def is_message_key)
  moreover have "distinct (map tombstone_key (ss_tombstones s'))"
    using inv put_tombstone_keys(2) by (simp add: tabs scout_inv_def)
  moreover have "\<forall>t \<in> set (ss_tombstones s'). \<exists>mt. tb_deleted_at t = formatScoutTime mt"
    using inv put_tombstone_times [of "ss_tombstones s"] by (simp add: tabs scout_inv_def)
  moreover have "distinct (map message_key (ss_messages s'))" "\<forall>r \<in> set (ss_messages s'). row_ok A r"
    using inv by (simp_all add: tabs scout_inv_def distinct_map_filter)
  ultimately have inv': "scout_inv A s'" by (simp add: scout_inv_def)
  have other: "sql_select (is_message c' i') (ss_messages s') = sql_select (is_message c' i') (ss_messages s)"
    if "\<not> (c' = c \<and> i' = i)" for c' i'
    using that inv unfolding is_message_key tabs(2)
    by (subst sql_select_filter_key)
       (auto simp: scout_inv_def split: Option.bind_splits dest!: sql_select_SomeD)
  have "message_state A s' c' i' = abstract_call (CallDelete env c i) c' i' (message_state A s c' i')" for c' i'
  proof (cases "c' = c \<and> i' = i")
    case False
    then show ?thesis
      using other [OF False]
      by (cases "sql_select (is_tombstone c' i') (ss_tombstones s)")
         (auto simp: message_state_def tabs(1) put_tombstone_select)
  next
    case key: True
    show ?thesis
    proof (cases "sql_select (is_tombstone c i) (ss_tombstones s)")
      case None
      then have "message_state A s c i \<noteq> Some (Deleted t)" for t
        by (simp add: message_state_def read_row_not_deleted split: Option.bind_splits)
      then have "bury (env_now env) (message_state A s c i) = Some (Deleted (env_now env))"
        by (cases "(env_now env, message_state A s c i)" rule: bury.cases) simp_all
      then show ?thesis
        using key None by (simp add: message_state_def tabs(1) put_tombstone_select read_tombstone_def parse_scout)
    next
      case (Some t)
      then obtain mt where "tb_deleted_at t = formatScoutTime mt"
        using inv sql_select_SomeD [OF Some] unfolding scout_inv_def by blast
      then show ?thesis
        using key Some
        by (simp add: message_state_def tabs(1) put_tombstone_select read_tombstone_def parse_scout format_scout_max)
    qed
  qed
  with inv' res show ?thesis by (simp add: refines_def)
qed


definition bury_all :: "stamp \<Rightarrow> message_row list \<Rightarrow> tombstone_row list \<Rightarrow> tombstone_row list" where
  "bury_all d olds rows = foldl (\<lambda>rows r. put_tombstone d (sm_chat r) (sm_message r) rows) rows olds"

lemma bury_all_keys:
  "tombstone_key ` set (bury_all d olds rows) = message_key ` set olds \<union> tombstone_key ` set rows"
  "distinct (map tombstone_key rows) \<Longrightarrow> distinct (map tombstone_key (bury_all d olds rows))"
  unfolding bury_all_def
  by (induction olds arbitrary: rows) (auto simp: put_tombstone_keys message_key_def)

lemma bury_all_times:
  assumes "\<forall>t \<in> set rows. \<exists>mt. tb_deleted_at t = formatScoutTime mt"
  shows "\<forall>t \<in> set (bury_all (formatScoutTime d) olds rows). \<exists>mt. tb_deleted_at t = formatScoutTime mt"
  using assms unfolding bury_all_def
proof (induction olds arbitrary: rows)
  case (Cons r olds)
  show ?case
    using Cons.IH [OF put_tombstone_times [OF Cons.prems]] by simp
qed simp

lemma bury_all_select:
  assumes "distinct (map message_key olds)" "message_key ` set olds \<inter> tombstone_key ` set rows = {}"
  shows "sql_select (is_tombstone c i) (bury_all d olds rows) =
         (if (c, i) \<in> message_key ` set olds then Some \<lparr>tb_chat = c, tb_message = i, tb_deleted_at = d\<rparr>
          else sql_select (is_tombstone c i) rows)"
  using assms
proof (induction olds arbitrary: rows)
  case (Cons r olds)
  let ?rows = "put_tombstone d (sm_chat r) (sm_message r) rows"
  have "message_key ` set olds \<inter> tombstone_key ` set ?rows = {}"
    using Cons.prems by (auto simp: put_tombstone_keys message_key_def)
  then have IH: "sql_select (is_tombstone c i) (bury_all d olds ?rows) =
      (if (c, i) \<in> message_key ` set olds then Some \<lparr>tb_chat = c, tb_message = i, tb_deleted_at = d\<rparr>
       else sql_select (is_tombstone c i) ?rows)"
    using Cons by simp
  have "sql_select (is_tombstone (sm_chat r) (sm_message r)) rows = None"
    using Cons.prems(2) unfolding sql_select_None_iff by (auto simp: is_tombstone_key message_key_def image_iff)
  then show ?case
    using IH by (auto simp: bury_all_def put_tombstone_select message_key_def)
qed (simp add: bury_all_def)

definition old_row :: "time \<Rightarrow> message_row \<Rightarrow> bool" where
  "old_row before r \<longleftrightarrow> sm_message_at r < formatScoutTime before"

lemma PruneBefore_tables:
  assumes "PruneBefore before s = (res, s')"
  shows "res = Inr (sql_affected (old_row before) (ss_messages s))"
    "ss_messages s' = filter (\<lambda>r. \<not> old_row before r) (ss_messages s)"
    "ss_tombstones s' = filter (\<lambda>t. \<not> tb_deleted_at t < formatScoutTime before)
       (bury_all (formatScoutTime (before + RetentionPeriod)) (filter (old_row before) (ss_messages s)) (ss_tombstones s))"
  using assms by (auto simp: PruneBefore_def bury_all_def old_row_def [abs_def] Let_def)

lemma prune_refines:
  assumes inv: "scout_inv A s" and A: "aead_ok A" and run: "PruneBefore before s = (res, s')"
  shows "refines A (CallPrune before) s (map_sum id (\<lambda>_. ()) res) s'"
proof -
  let ?d = "before + RetentionPeriod" and ?olds = "filter (old_row before) (ss_messages s)"
  let ?buried = "bury_all (formatScoutTime ?d) ?olds (ss_tombstones s)"
  note tabs = PruneBefore_tables [OF run]
  have dis: "distinct (map message_key ?olds)" "message_key ` set ?olds \<inter> tombstone_key ` set (ss_tombstones s) = {}"
    using inv by (auto simp: scout_inv_def distinct_map_filter)
  note sel = bury_all_select [OF dis]
  have dk: "distinct (map message_key (ss_messages s))" "distinct (map tombstone_key ?buried)"
    using inv bury_all_keys(2) by (simp_all add: scout_inv_def)
  have "message_key ` set (ss_messages s') \<inter> tombstone_key ` set (ss_tombstones s') = {}"
  proof -
    have "message_key ` set (ss_messages s') \<inter> message_key ` set ?olds = {}"
      using dk(1) unfolding tabs(2) by (auto simp: distinct_map inj_on_eq_iff)
    moreover have "message_key ` set (ss_messages s') \<inter> tombstone_key ` set (ss_tombstones s) = {}"
      using inv by (auto simp: scout_inv_def tabs(2))
    ultimately have "message_key ` set (ss_messages s') \<inter> tombstone_key ` set ?buried = {}"
      by (auto simp: bury_all_keys)
    then show ?thesis by (auto simp: tabs(3))
  qed
  moreover have "\<forall>t \<in> set (ss_tombstones s'). \<exists>mt. tb_deleted_at t = formatScoutTime mt"
    using inv bury_all_times [of "ss_tombstones s" ?d ?olds] unfolding tabs(3) scout_inv_def by simp
  ultimately have inv': "scout_inv A s'"
    using inv dk by (simp add: scout_inv_def tabs(2,3) distinct_map_filter)
  have stays: "\<not> formatScoutTime ?d < formatScoutTime before"
    by (simp add: format_scout_less RetentionPeriod_def go_time)
  have tomb: "sql_select (is_tombstone c i) (ss_tombstones s') =
      (if (c, i) \<in> message_key ` set ?olds then Some \<lparr>tb_chat = c, tb_message = i, tb_deleted_at = formatScoutTime ?d\<rparr>
       else Option.bind (sql_select (is_tombstone c i) (ss_tombstones s))
              (\<lambda>t. if \<not> tb_deleted_at t < formatScoutTime before then Some t else None))" for c i
    using sel [of c i "formatScoutTime ?d"] stays dk(2) unfolding tabs(3) is_tombstone_key
    by (simp add: sql_select_filter_key)
  have msg: "sql_select (is_message c i) (ss_messages s') =
      Option.bind (sql_select (is_message c i) (ss_messages s)) (\<lambda>r. if \<not> old_row before r then Some r else None)" for c i
    using dk(1) unfolding tabs(2) is_message_key by (simp add: sql_select_filter_key)
  have "message_state A s' c i = age before (message_state A s c i)" for c i
  proof -
    consider (buried) "tombstoned c i s" | (stored) "store_Exists c i s" "\<not> tombstoned c i s"
      | (absent) "\<not> tombstoned c i s" "\<not> store_Exists c i s" by blast
    then show ?thesis
    proof cases
      case buried
      obtain t where t: "sql_select (is_tombstone c i) (ss_tombstones s) = Some t"
        using buried by (auto simp: tombstoned_select)
      obtain mt where mt: "tb_deleted_at t = formatScoutTime mt"
        using inv sql_select_SomeD [OF t] unfolding scout_inv_def by blast
      have k: "(c, i) \<in> tombstone_key ` set (ss_tombstones s)" using buried by (simp add: tombstoned_iff)
      have "\<not> store_Exists c i s" using inv k by (auto simp: store_Exists_iff scout_inv_def)
      then have m: "sql_select (is_message c i) (ss_messages s) = None"
        by (simp add: store_Exists_def sql_exists_iff sql_select_None_iff)
      have "(c, i) \<notin> message_key ` set ?olds" using dis(2) k by blast
      then show ?thesis
        using t mt m tomb [of c i] msg [of c i]
        by (simp add: message_state_def read_tombstone_def parse_scout format_scout_less)
    next
      case stored
      obtain r where r: "r \<in> set (ss_messages s)" "sm_chat r = c" "sm_message r = i"
          "sql_select (is_message c i) (ss_messages s) = Some r" "row_ok A r"
        using stored_row [OF inv stored(1)] by metis
      obtain mt tx e where rd: "read_row A r = Some (Kept mt tx e)" "sm_message_at r = formatScoutTime mt"
        using row_ok_read [OF A r(5)] by metis
      have old: "(c, i) \<in> message_key ` set ?olds \<longleftrightarrow> mt < before"
        using r rd dk(1) by (auto simp: old_row_def format_scout_less message_key_def distinct_map inj_on_def rev_image_eqI)
      have st: "message_state A s c i = Some (Kept mt tx e)"
        using message_state_row [OF inv r(1)] r rd by simp
      have "old_row before r \<longleftrightarrow> mt < before" by (simp add: old_row_def rd format_scout_less)
      then show ?thesis
        using old st rd r(4) stored(2) tomb [of c i] msg [of c i]
        by (simp add: message_state_def read_tombstone_def parse_scout not_tombstoned_select)
    next
      case absent
      have m: "sql_select (is_message c i) (ss_messages s) = None"
        using absent(2) by (simp add: store_Exists_def sql_exists_iff sql_select_None_iff)
      have "(c, i) \<notin> message_key ` set ?olds" using absent(2) by (auto simp: store_Exists_iff)
      then show ?thesis
        using m absent(1) tomb [of c i] msg [of c i] message_state_absent [OF absent, of A]
        by (simp add: message_state_def not_tombstoned_select)
    qed
  qed
  with inv' show ?thesis by (simp add: refines_def tabs(1))
qed


section \<open>Any calls\<close>

fun serve_scouts :: "aead \<Rightarrow> scout_call list \<Rightarrow> scout_store \<Rightarrow> scout_store" where
  "serve_scouts A [] s = s"
| "serve_scouts A (call # calls) s = serve_scouts A calls (snd (serve_scout A call s))"

text \<open>The history of one message over the calls that succeed.\<close>

fun abstract_run :: "aead \<Rightarrow> scout_call list \<Rightarrow> scout_store \<Rightarrow> string \<Rightarrow> int \<Rightarrow> kept option \<Rightarrow> kept option" where
  "abstract_run A [] s c i st = st"
| "abstract_run A (call # calls) s c i st =
     (let (res, s1) = serve_scout A call s
      in abstract_run A calls s1 c i (if isl res then st else abstract_call call c i st))"

lemma serve_scout_refines:
  assumes "scout_inv A s" "aead_ok A" "call_env_ok A call" "serve_scout A call s = (res, s')"
  shows "refines A call s res s'"
proof (cases call)
  case (CallIngest env u)
  then show ?thesis using assms ingest_refines by auto
next
  case (CallDelete env c i)
  then show ?thesis using assms delete_refines by auto
next
  case (CallPrune before)
  then show ?thesis
    using assms prune_refines [of A s before] by (cases "PruneBefore before s") auto
qed

lemma serve_scouts_refine:
  assumes "scout_inv A s" "aead_ok A" "\<forall>call \<in> set calls. call_env_ok A call"
  shows "scout_inv A (serve_scouts A calls s) \<and>
    message_state A (serve_scouts A calls s) c i = abstract_run A calls s c i (message_state A s c i)"
  using assms
proof (induction calls arbitrary: s)
  case (Cons call calls)
  obtain res s1 where run: "serve_scout A call s = (res, s1)" by fastforce
  have ref: "refines A call s res s1"
    using Cons.prems run by (intro serve_scout_refines) auto
  then show ?case using Cons.IH [of s1] Cons.prems run by (simp add: refines_def)
qed simp

lemma analytics_rows_ok:
  assumes "\<And>c r. (c, r) \<in> set rows \<Longrightarrow> \<exists>row. analytics_row A c r = Inr row"
  shows "\<exists>out. analytics_rows A rows = Inr out"
  using assms
proof (induction rows)
  case (Cons p rows)
  obtain c r where p: "p = (c, r)" by fastforce
  then obtain row out where "analytics_row A c r = Inr row" "analytics_rows A rows = Inr out"
    using Cons by (metis list.set_intros)
  with p show ?case by simp
qed simp

lemma Rows_ok:
  assumes "scout_inv A s" "aead_ok A"
  shows "\<exists>out. Rows U A topics s = Inr out"
proof -
  have "\<exists>row. analytics_row A ch r = Inr row" if "(ch, r) \<in> set (joined_rows s)" for ch r
  proof -
    have r: "r \<in> set (ss_messages s)" "ch_telegram_chat_id ch = sm_chat r"
      using that by (auto simp: joined_rows_def)
    then have "row_ok A r" using assms(1) by (simp add: scout_inv_def)
    with r(2) assms(2) show ?thesis
      unfolding row_ok_def analytics_row_def aead_ok_def by (auto simp: parse_scout Decrypt_def)
  qed
  then show ?thesis
    unfolding Rows_def by (intro analytics_rows_ok) (auto split: option.splits)
qed

text \<open>
  C9. The collector's tables refine an abstract history of each message: whatever ingestions, deletions
  and prunings run, in any order, what the tables hold of a message, decrypted under its own
  identity and time, is what the successful calls make of it: the first version that arrived,
  replaced only by a strictly later edit, nothing any more once deleted, until the tombstone is
  pruned. So the analysis can decrypt every row at any time.
\<close>

theorem messages_refine_their_history:
  assumes "scout_inv A s" "aead_ok A" "\<forall>call \<in> set calls. call_env_ok A call"
  shows "scout_inv A (serve_scouts A calls s) \<and>
         message_state A (serve_scouts A calls s) c i = abstract_run A calls s c i (message_state A s c i) \<and>
         (\<exists>rows. Rows U A topics (serve_scouts A calls s) = Inr rows)"
  using serve_scouts_refine [OF assms] Rows_ok [OF _ assms(2)] by blast


section \<open>A small store for the witnesses\<close>

definition demo_aead :: aead where
  "demo_aead = \<lparr>aead_NonceSize = 1, aead_Seal = (\<lambda>n p a. CHR ''#'' # p), aead_Open = (\<lambda>n c a. Some (tl c))\<rparr>"

definition demo_ingest :: "time \<Rightarrow> ingest_env" where
  "demo_ingest now = \<lparr>env_now = now, env_received = now, env_random = Some ''n'', env_disk = Some (2 ^ 31),
     env_cancelled = False\<rparr>"

definition scouted :: scout_store where
  "scouted = \<lparr>ss_db = demo_db\<lparr>db_scout := [demo_channel]\<rparr>, ss_messages = [], ss_tombstones = [],
     ss_cursors = [], ss_paused = False\<rparr>"

definition heard :: "string \<Rightarrow> time option \<Rightarrow> IncomingUpdate" where
  "heard txt edited = \<lparr>upd_ChatID = ''100'', upd_MessageID = 7, upd_Text = txt, upd_SenderID = '''',
     upd_SenderUsername = '''', upd_MessageAt = 5 * Second, upd_EditedAt = edited\<rparr>"

definition demo_scout_calls :: "scout_call list" where
  "demo_scout_calls =
     [CallIngest (demo_ingest 6) (heard ''boat'' None),
      CallIngest (demo_ingest 7) (heard ''boats'' (Some (30 * Second))),
      CallIngest (demo_ingest 8) (heard ''boar'' (Some (20 * Second))),
      CallDelete (demo_ingest 9) ''100'' 8, CallPrune (2 * Second)]"

lemma demo_aead_ok: "aead_ok demo_aead"
  by (simp add: aead_ok_def demo_aead_def)

lemma demo_ingest_ok: "env_ok demo_aead (demo_ingest now)"
  by (simp add: env_ok_def demo_ingest_def demo_aead_def)

lemma scouted_inv: "scout_inv A scouted"
  by (simp add: scout_inv_def scouted_def)

lemma demo_scout_history:
  "abstract_run demo_aead demo_scout_calls scouted ''100'' 7 (message_state demo_aead scouted ''100'' 7) =
     Some (Kept (5 * Second) ''boats'' (Some (30 * Second)))"
  by code_simp

lemma messages_refine_their_history_witness:
  "message_state demo_aead (serve_scouts demo_aead demo_scout_calls scouted) ''100'' 7 =
     Some (Kept (5 * Second) ''boats'' (Some (30 * Second))) \<and>
   (\<exists>rows. Rows plain_unicode demo_aead None (serve_scouts demo_aead demo_scout_calls scouted) = Inr rows)"
proof -
  have envs: "\<forall>call \<in> set demo_scout_calls. call_env_ok demo_aead call"
    by (simp add: demo_scout_calls_def demo_ingest_ok)
  from messages_refine_their_history [OF scouted_inv demo_aead_ok envs] demo_scout_history
  show ?thesis by auto
qed

end
