(* ===== verification/HistoryFacts.thy ===== *)
theory HistoryFacts
  imports MessageFacts
begin

text \<open>
  The synchronisation of a chat's history against Telegram's documented paging: what a run
  stores, where it leaves the cursor, and where it gets stuck.
\<close>

section \<open>One message\<close>

text \<open>Surroundings in which nothing fails: enough disk space, a random source, no cancellation.\<close>

definition healthy :: "aead \<Rightarrow> ingest_env \<Rightarrow> bool" where
  "healthy A env \<longleftrightarrow>
     \<not> env_cancelled env \<and> (\<exists>n. env_random env = Some n \<and> length n = aead_NonceSize A) \<and>
     (\<exists>b. env_disk env = Some b \<and> minFreeBytes \<le> b)"

text \<open>A nonce has bytes, and a sealed text has at least its tag.\<close>

definition aead_seals :: "aead \<Rightarrow> bool" where
  "aead_seals A \<longleftrightarrow> aead_ok A \<and> 0 < aead_NonceSize A \<and> (\<forall>n p a. aead_Seal A n p a \<noteq> '''')"

definition chat_known :: "string \<Rightarrow> scout_store \<Rightarrow> bool" where
  "chat_known c s \<longleftrightarrow> c \<in> ch_telegram_chat_id ` set (db_scout (ss_db s))"

text \<open>What a run leaves alone: the chats known and the cursors.\<close>

definition same_frame :: "scout_store \<Rightarrow> scout_store \<Rightarrow> bool" where
  "same_frame s s' \<longleftrightarrow>
     map ch_telegram_chat_id (db_scout (ss_db s')) = map ch_telegram_chat_id (db_scout (ss_db s)) \<and>
     ss_cursors s' = ss_cursors s"

lemma same_frame_refl [simp]: "same_frame s s"
  by (simp add: same_frame_def)

lemma same_frame_trans: "same_frame a b \<Longrightarrow> same_frame b c \<Longrightarrow> same_frame a c"
  by (simp add: same_frame_def)

lemma same_frame_known: "same_frame s s' \<Longrightarrow> chat_known c s' = chat_known c s"
  by (metis chat_known_def list.set_map same_frame_def)

lemma note_activity_frame [simp]: "same_frame s (note_activity m n s)"
  by (simp add: same_frame_def note_activity_def sql_update_def)

lemma same_frame_messages [simp]:
  "same_frame s (note_activity m n (s\<lparr>ss_messages := rows\<rparr>))"
  by (simp add: same_frame_def note_activity_def sql_update_def)

lemma checkDisk_healthy:
  assumes "healthy A env"
  shows "checkDisk env s = (Inr (), s\<lparr>ss_paused := False\<rparr>)"
  using assms by (auto simp: healthy_def checkDisk_def)

lemma save_message_unedited:
  assumes "em_EditedAt m = None" "chat_known (em_ChatID m) s"
  shows "\<exists>s'. save_message m s = (Inr (), s') \<and> same_frame s s'"
proof -
  have "sql_exists (\<lambda>r. ch_telegram_chat_id r = em_ChatID m) (db_scout (ss_db s))"
    using assms(2) by (auto simp: chat_known_def sql_exists_iff)
  then show ?thesis
    using assms(1) by (auto simp: save_message_def)
qed

lemma collector_save_healthy:
  assumes "healthy A env" "aead_seals A" "c \<noteq> ''''" "0 < i" "mt \<noteq> 0" "chat_known c s"
  shows "\<exists>s'. collector_save A env c i tx mt received None s = (Inr (), s') \<and> same_frame s s'"
proof -
  obtain n where n: "env_random env = Some n" "length n = aead_NonceSize A"
    using assms(1) by (auto simp: healthy_def)
  then have "n \<noteq> ''''" using assms(2) by (auto simp: aead_seals_def)
  let ?m = "\<lparr>em_ChatID = c, em_MessageID = i, em_Ciphertext = aead_Seal A n tx (messageAAD c i mt), em_Nonce = n,
             em_MessageAt = mt, em_ReceivedAt = received, em_EditedAt = None\<rparr>"
  have "\<exists>s'. save_message ?m (s\<lparr>ss_paused := False\<rparr>) = (Inr (), s') \<and> same_frame (s\<lparr>ss_paused := False\<rparr>) s'"
    using assms(6) by (intro save_message_unedited) (simp_all add: chat_known_def)
  then obtain s' where "save_message ?m (s\<lparr>ss_paused := False\<rparr>) = (Inr (), s')" "same_frame s s'"
    by (auto simp: same_frame_def)
  then show ?thesis
    using assms n \<open>n \<noteq> ''''\<close> checkDisk_healthy [OF assms(1)]
    by (auto simp: collector_save_def validateIdentity_def Encrypt_def healthy_def SaveEncrypted_def
        aead_seals_def IsZero_def in_tx_def)
qed

lemma row_time:
  assumes "row_ok A r"
  obtains mt where "mt \<noteq> 0" "parseTime (sm_message_at r) = Some mt"
  using assms unfolding row_ok_def by (metis parse_scout)

lemma ingest_healthy:
  assumes inv: "scout_inv A s" and A: "aead_seals A" and env: "healthy A env"
    and u: "upd_ChatID u \<noteq> ''''" "0 < upd_MessageID u" "upd_EditedAt u = None" "upd_MessageAt u \<noteq> 0"
    and known: "chat_known (upd_ChatID u) s"
  shows "\<exists>s'. collector_Ingest A env u s = (Inr (), s') \<and> same_frame s s' \<and>
              refines A (CallIngest env u) s (Inr ()) s'"
proof -
  have save: "\<exists>s'. collector_save A env (upd_ChatID u) (upd_MessageID u) (upd_Text u) mt (env_received env)
                    (upd_EditedAt u) s = (Inr (), s') \<and> same_frame s s'" if "mt \<noteq> 0" for mt
    using collector_save_healthy [OF env A u(1,2) that known] u(3) by simp
  have "\<exists>s'. collector_Ingest A env u s = (Inr (), s') \<and> same_frame s s'"
  proof (cases "tombstoned (upd_ChatID u) (upd_MessageID u) s")
    case True
    then show ?thesis by (simp add: collector_Ingest_def CanonicalMessageAt_def same_frame_def)
  next
    case False
    show ?thesis
    proof (cases "sql_select (is_message (upd_ChatID u) (upd_MessageID u)) (ss_messages s)")
      case None
      then show ?thesis
        using False u save by (simp add: collector_Ingest_def CanonicalMessageAt_def IsZero_def)
    next
      case (Some r)
      have "row_ok A r" using inv sql_select_SomeD [OF Some] by (simp add: scout_inv_def)
      then obtain mt where "mt \<noteq> 0" "parseTime (sm_message_at r) = Some mt" by (rule row_time)
      with False Some save show ?thesis by (simp add: collector_Ingest_def CanonicalMessageAt_def)
    qed
  qed
  moreover have "env_ok A env" using env by (auto simp: healthy_def env_ok_def)
  ultimately show ?thesis
    using ingest_refines [OF inv _ _] A unfolding aead_seals_def by blast
qed

section \<open>A page\<close>

text \<open>The messages received in order, as a change of the histories of all messages.\<close>

definition absorb_one ::
  "string \<Rightarrow> (string \<Rightarrow> int \<Rightarrow> kept option) \<Rightarrow> tg_message \<Rightarrow> string \<Rightarrow> int \<Rightarrow> kept option" where
  "absorb_one chat st m c i =
     (if storageChatID chat = c \<and> msg_ID m = i then receive (Unix (msg_Date m)) (msg_Message m) None (st c i) else st c i)"

definition absorb ::
  "string \<Rightarrow> tg_message list \<Rightarrow> (string \<Rightarrow> int \<Rightarrow> kept option) \<Rightarrow> string \<Rightarrow> int \<Rightarrow> kept option" where
  "absorb chat ms st = foldl (absorb_one chat) st ms"

lemma absorb_append: "absorb chat (ms @ ns) st = absorb chat ns (absorb chat ms st)"
  by (simp add: absorb_def)

definition gathered :: "aead \<Rightarrow> string \<Rightarrow> scout_store \<Rightarrow> tg_message list \<Rightarrow> scout_store \<Rightarrow> bool" where
  "gathered A chat s ms s' \<longleftrightarrow>
     scout_inv A s' \<and> same_frame s s' \<and> message_state A s' = absorb chat ms (message_state A s)"

lemma gathered_Nil: "scout_inv A s \<Longrightarrow> gathered A chat s [] s"
  by (simp add: gathered_def absorb_def same_frame_def)

lemma gathered_append:
  "gathered A chat s ms s1 \<Longrightarrow> gathered A chat s1 ns s2 \<Longrightarrow> gathered A chat s (ms @ ns) s2"
  by (auto simp: gathered_def absorb_append intro: same_frame_trans)

fun class_message :: "MessageClass \<Rightarrow> tg_message option" where
  "class_message (Message m) = Some m"
| "class_message MessageOther = None"

definition page_messages :: "MessageClass list \<Rightarrow> tg_message list" where
  "page_messages ms = List.map_filter class_message ms"

lemma page_messages_simps [simp]:
  "page_messages [] = []"
  "page_messages (Message m # ms) = m # page_messages ms"
  "page_messages (MessageOther # ms) = page_messages ms"
  by (simp_all add: page_messages_def map_filter_simps)

lemma page_messages_append [simp]: "page_messages (ms @ ns) = page_messages ms @ page_messages ns"
  by (induction ms rule: list.induct) (auto simp: page_messages_def map_filter_simps split: option.splits)

definition beyond_cutoff :: "history_run \<Rightarrow> tg_message \<Rightarrow> bool" where
  "beyond_cutoff R m \<longleftrightarrow> run_cursor R = 0 \<and> Before (Unix (msg_Date m)) (run_cutoff R)"

definition wanted :: "history_run \<Rightarrow> tg_message \<Rightarrow> bool" where
  "wanted R m \<longleftrightarrow> \<not> beyond_cutoff R m \<and> run_cursor R < msg_ID m \<and> TrimSpace (msg_Message m) \<noteq> ''''"

definition next_offset :: "int \<Rightarrow> int \<Rightarrow> int" where
  "next_offset o' i = (if o' = 0 \<or> i < o' then i else o')"

lemma collect_page_all:
  assumes "scout_inv A s" and A: "aead_seals A" and env: "\<And>n. healthy A (env n)"
    and "\<forall>m \<in> set (page_messages ms). 0 < msg_ID m \<and> 0 \<le> msg_Date m"
    and chat: "storageChatID (run_chat R) \<noteq> ''''" and "chat_known (storageChatID (run_chat R)) s"
  shows "\<exists>p' s'. collect_page A env R ms p s = (None, p', s') \<and>
           gathered A (run_chat R) s (filter (wanted R) (page_messages ms)) s' \<and>
           pg_collected p' = pg_collected p + length (filter (wanted R) (page_messages ms)) \<and>
           pg_maxSeen p' = foldl max (pg_maxSeen p) (map msg_ID (page_messages ms)) \<and>
           pg_nextOffset p' = foldl next_offset (pg_nextOffset p) (map msg_ID (page_messages ms)) \<and>
           pg_reachedCutoff p' = (pg_reachedCutoff p \<or> (\<exists>m \<in> set (page_messages ms). beyond_cutoff R m))"
  using assms(1,4,6)
proof (induction ms arbitrary: p s)
  case Nil
  then show ?case by (simp add: gathered_Nil)
next
  case (Cons cls ms)
  show ?case
  proof (cases cls)
    case MessageOther
    then show ?thesis using Cons by simp
  next
    case (Message m)
    let ?p1 = "see_message m p"
    have m: "0 < msg_ID m" "0 \<le> msg_Date m" and rest: "\<forall>m \<in> set (page_messages ms). 0 < msg_ID m \<and> 0 \<le> msg_Date m"
      using Cons.prems(2) Message by simp_all
    have seen: "pg_maxSeen ?p1 = max (pg_maxSeen p) (msg_ID m)"
        "pg_nextOffset ?p1 = next_offset (pg_nextOffset p) (msg_ID m)"
        "pg_collected ?p1 = pg_collected p" "pg_reachedCutoff ?p1 = pg_reachedCutoff p"
      by (auto simp: see_message_def next_offset_def)
    show ?thesis
    proof (cases "wanted R m")
      case False
      define p1 where "p1 = (if beyond_cutoff R m then ?p1\<lparr>pg_reachedCutoff := True\<rparr> else ?p1)"
      have step: "collect_page A env R (cls # ms) p s = collect_page A env R ms p1 s"
        using False m Message by (auto simp: p1_def wanted_def beyond_cutoff_def Let_def)
      from Cons.IH [OF Cons.prems(1) rest Cons.prems(3), of p1] step seen False Message show ?thesis
        by (auto simp: p1_def)
    next
      case True
      let ?u = "(anonymous_update (history_update (run_chat R) m))"
      have nz: "Unix (msg_Date m) \<noteq> 0"
        using m(2) by (simp add: Unix_def unix_epoch_def go_time)
      obtain s1 where s1: "collector_Ingest A (env (pg_collected p)) ?u s = (Inr (), s1)" "same_frame s s1"
          "refines A (CallIngest (env (pg_collected p)) ?u) s (Inr ()) s1"
        using ingest_healthy [OF Cons.prems(1) A env, of ?u] m nz chat Cons.prems(3)
        by (auto simp: anonymous_update_def history_update_def)
      let ?p1c = "?p1\<lparr>pg_collected := Suc (pg_collected ?p1)\<rparr>"
      have step: "collect_page A env R (cls # ms) p s = collect_page A env R ms ?p1c s1"
        using True m Message s1(1) seen(3)
        by (auto simp: wanted_def beyond_cutoff_def Let_def CollectHistory_def)
      have "message_state A s1 = absorb_one (run_chat R) (message_state A s) m"
        using s1(3) nz
        by (intro ext) (auto simp: refines_def absorb_one_def anonymous_update_def history_update_def message_time_def IsZero_def)
      then have g1: "gathered A (run_chat R) s [m] s1"
        using s1 by (simp add: gathered_def refines_def absorb_def)
      have inv1: "scout_inv A s1" and known1: "chat_known (storageChatID (run_chat R)) s1"
        using s1 Cons.prems(3) same_frame_known [OF s1(2)] by (simp_all add: refines_def)
      obtain p' s' where IH: "collect_page A env R ms ?p1c s1 = (None, p', s')"
          "gathered A (run_chat R) s1 (filter (wanted R) (page_messages ms)) s'"
          "pg_collected p' = pg_collected ?p1c + length (filter (wanted R) (page_messages ms))"
          "pg_maxSeen p' = foldl max (pg_maxSeen ?p1c) (map msg_ID (page_messages ms))"
          "pg_nextOffset p' = foldl next_offset (pg_nextOffset ?p1c) (map msg_ID (page_messages ms))"
          "pg_reachedCutoff p' = (pg_reachedCutoff ?p1c \<or> (\<exists>m \<in> set (page_messages ms). beyond_cutoff R m))"
        using Cons.IH [OF inv1 rest known1, of ?p1c] by blast
      have "gathered A (run_chat R) s (filter (wanted R) (page_messages (cls # ms))) s'"
        using gathered_append [OF g1 IH(2)] True Message by simp
      moreover have "\<not> beyond_cutoff R m" using True by (simp add: wanted_def)
      ultimately show ?thesis
        using step IH seen True Message by auto
    qed
  qed
qed


section \<open>Telegram's history\<close>

text \<open>
  The history of a chat, newest first: entries of positive identifiers that decrease, a message
  has its entry's identifier, and the dates of messages do not increase. \<open>messages.getHistory\<close>
  answers with the first entries below the offset (0: from the newest) and above the least
  identifier, at most as many as asked for.
\<close>

type_synonym entry = "int \<times> MessageClass"

definition entry_messages :: "entry list \<Rightarrow> tg_message list" where
  "entry_messages es = page_messages (map snd es)"

definition history_ok :: "entry list \<Rightarrow> bool" where
  "history_ok H \<longleftrightarrow>
     sorted_wrt (\<lambda>a b. fst b < fst a) H \<and>
     sorted_wrt (\<lambda>m n. msg_Date n \<le> msg_Date m) (entry_messages H) \<and>
     (\<forall>(i, cls) \<in> set H. 0 < i \<and> (\<forall>m. cls = Message m \<longrightarrow> msg_ID m = i \<and> 0 \<le> msg_Date m))"

definition below :: "int \<Rightarrow> int \<Rightarrow> entry \<Rightarrow> bool" where
  "below offset least e \<longleftrightarrow> (offset = 0 \<or> fst e < offset) \<and> least < fst e"

definition pages_history :: "tg_client \<Rightarrow> InputPeer \<Rightarrow> entry list \<Rightarrow> bool" where
  "pages_history client peer H \<longleftrightarrow>
     (\<forall>log offset least limit. \<exists>page.
        on_GetHistory client log peer offset least limit = Inr page \<and>
        scoutHistoryMessages page = map snd (take limit (filter (below offset least) H)))"

text \<open>Every hundred entries in a row have a message among them.\<close>

definition is_text :: "entry \<Rightarrow> bool" where
  "is_text e \<longleftrightarrow> snd e \<noteq> MessageOther"

definition no_long_silence :: "entry list \<Rightarrow> bool" where
  "no_long_silence es \<longleftrightarrow>
     (\<forall>k < length es. k + scoutHistoryPageSize \<le> length es \<longrightarrow> list_ex is_text (take scoutHistoryPageSize (drop k es)))"

lemma entry_messages_append [simp]: "entry_messages (es @ fs) = entry_messages es @ entry_messages fs"
  by (simp add: entry_messages_def)

lemma entry_messages_simps [simp]:
  "entry_messages [] = []"
  "entry_messages ((i, Message m) # es) = m # entry_messages es"
  "entry_messages ((i, MessageOther) # es) = entry_messages es"
  by (simp_all add: entry_messages_def)

lemma entry_messages_none: "\<not> list_ex is_text es \<Longrightarrow> entry_messages es = []"
proof (induction es)
  case (Cons e es)
  then show ?case by (cases e; cases "snd e") (auto simp: is_text_def entry_messages_def)
qed simp

text \<open>The last message of a list of entries.\<close>

lemma last_message_split:
  assumes "list_ex is_text es"
  obtains pre i m post where "es = pre @ (i, Message m) # post" "\<not> list_ex is_text post"
  using assms
proof (induction es arbitrary: thesis)
  case (Cons e es)
  show ?case
  proof (cases "list_ex is_text es")
    case True
    then obtain pre i m post where "es = pre @ (i, Message m) # post" "\<not> list_ex is_text post"
      using Cons.IH by blast
    then show ?thesis using Cons.prems(1) [of "e # pre" i m post] by simp
  next
    case False
    then have "is_text e" using Cons.prems(2) by simp
    then obtain m where "snd e = Message m" by (cases "snd e") (auto simp: is_text_def)
    then show ?thesis using Cons.prems(1) [of "[]" "fst e" m es] False by (cases e) simp
  qed
qed simp

definition ids_of :: "entry list \<Rightarrow> int list" where
  "ids_of es = map msg_ID (entry_messages es)"

lemma history_ok_suffix: "history_ok (es @ fs) \<Longrightarrow> history_ok fs"
  by (auto simp: history_ok_def sorted_wrt_append)

lemma history_ok_prefix: "history_ok (es @ fs) \<Longrightarrow> history_ok es"
  by (auto simp: history_ok_def sorted_wrt_append)

lemma history_ok_filter: "history_ok H \<Longrightarrow> history_ok (filter (below offset least) H)"
proof (induction H)
  case (Cons e H)
  have "set (entry_messages (filter (below offset least) H)) \<subseteq> set (entry_messages H)"
    unfolding entry_messages_def page_messages_def
    by (auto simp: List.map_filter_def)
  then show ?case using Cons by (cases e; cases "snd e") (auto simp: history_ok_def)
qed simp

lemma entry_message_id:
  assumes "history_ok H" "m \<in> set (entry_messages H)"
  shows "\<exists>e \<in> set H. e = (msg_ID m, Message m)" "0 < msg_ID m" "0 \<le> msg_Date m"
proof -
  obtain e where e: "e \<in> set H" "snd e = Message m"
    using assms(2) unfolding entry_messages_def page_messages_def
    by (auto simp: List.map_filter_def split: option.splits elim!: class_message.elims)
  then show "\<exists>e \<in> set H. e = (msg_ID m, Message m)" "0 < msg_ID m" "0 \<le> msg_Date m"
    using assms(1) by (cases e; force simp: history_ok_def)+
qed

text \<open>Offsets and greatest identifiers over a decreasing list.\<close>

lemma foldl_next_offset:
  assumes "sorted_wrt (>) is" "\<forall>i \<in> set is. 0 < i \<and> (offset = 0 \<or> i < offset)"
  shows "foldl next_offset offset is = (if is = [] then offset else last is)"
  using assms
proof (induction "is" arbitrary: offset)
  case (Cons i js)
  then have "foldl next_offset i js = (if js = [] then i else last js)" by simp
  moreover have "next_offset offset i = i" using Cons.prems by (simp add: next_offset_def)
  ultimately show ?case by simp
qed simp

lemma foldl_max_smaller:
  assumes "\<forall>i \<in> set is. i \<le> (a :: int)"
  shows "foldl max a is = a"
  using assms by (induction "is" arbitrary: a) (simp_all add: max_absorb1)

lemma foldl_max_le: "a \<le> foldl max (a :: int) is"
  by (induction "is" arbitrary: a) (simp_all, meson max.cobounded1 order_trans)

lemma foldl_max_mem: "i \<in> set is \<Longrightarrow> i \<le> foldl max (a :: int) is"
  by (induction "is" arbitrary: a) (auto intro: order_trans [OF max.cobounded2 foldl_max_le])

lemma foldl_max_decreasing:
  assumes "sorted_wrt (>) (is @ js)" "is \<noteq> []"
  shows "foldl max a (is @ js) = foldl max (a :: int) is"
proof -
  have "\<forall>j \<in> set js. j \<le> foldl max a is"
  proof
    fix j assume "j \<in> set js"
    then have "j < hd is" using assms by (cases "is") (auto simp: sorted_wrt_append)
    also have "hd is \<le> foldl max a is" using assms(2) by (intro foldl_max_mem) simp
    finally show "j \<le> foldl max a is" by simp
  qed
  then show ?thesis by (simp add: foldl_max_smaller)
qed

lemma ids_decrease:
  assumes "history_ok H"
  shows "sorted_wrt (>) (ids_of H)"
  using assms
proof (induction H)
  case (Cons e H)
  have "history_ok H" using history_ok_suffix [of "[e]" H] Cons.prems by simp
  have "\<forall>m \<in> set (entry_messages H). msg_ID m < fst e"
  proof
    fix m assume "m \<in> set (entry_messages H)"
    then have "(msg_ID m, Message m) \<in> set H" using entry_message_id(1) [OF \<open>history_ok H\<close>] by blast
    then show "msg_ID m < fst e" using Cons.prems by (auto simp: history_ok_def)
  qed
  then show ?case
    using Cons.IH [OF \<open>history_ok H\<close>] Cons.prems
    by (cases e; cases "snd e") (auto simp: ids_of_def history_ok_def)
qed (simp add: ids_of_def)


section \<open>The loop\<close>

lemma below_split:
  assumes "history_ok H" "filter (below offset least) H = pre @ (i, Message m) # post"
  shows "filter (below i least) H = post" "msg_ID m = i" "0 < i" "offset = 0 \<or> i < offset"
proof -
  let ?all = "filter (below offset least) H"
  have mem: "(i, Message m) \<in> set H" "below offset least (i, Message m)"
    using arg_cong [OF assms(2), of set] by auto
  then show id: "msg_ID m = i" "0 < i" "offset = 0 \<or> i < offset"
    using assms(1) by (auto simp: history_ok_def below_def)
  have dec: "sorted_wrt (\<lambda>a b. fst b < fst a) ?all"
    using history_ok_filter [OF assms(1)] by (simp add: history_ok_def)
  have "filter (below i least) H = filter (\<lambda>e. fst e < i) ?all"
    using id unfolding filter_filter by (intro filter_cong) (auto simp: below_def)
  also have "\<dots> = post"
    using dec unfolding assms(2) by (auto simp: sorted_wrt_append filter_empty_conv filter_id_conv)
  finally show "filter (below i least) H = post" .
qed

lemma entry_messages_of_page: "entry_messages es = page_messages (map snd es)"
  by (simp add: entry_messages_def)

lemma nothing_wanted_beyond:
  assumes "history_ok (es @ fs)" "m \<in> set (entry_messages es)" "beyond_cutoff R m"
  shows "filter (wanted R) (entry_messages fs) = []"
proof -
  have "msg_Date n \<le> msg_Date m" if "n \<in> set (entry_messages fs)" for n
    using assms(1,2) that by (auto simp: history_ok_def sorted_wrt_append)
  then have "beyond_cutoff R n" if "n \<in> set (entry_messages fs)" for n
    using that assms(3) by (fastforce simp: beyond_cutoff_def Before_def Unix_def go_time)
  then show ?thesis by (auto simp: wanted_def filter_empty_conv)
qed

lemma history_loop_all:
  assumes H: "history_ok H" and pages: "pages_history (he_client E) (run_peer R) H"
    and calm: "\<And>log. \<not> he_done E log \<and> \<not> he_paused E log" and env: "\<And>log n. healthy A (he_env E log n)"
    and A: "aead_seals A" and chat: "storageChatID (run_chat R) \<noteq> ''''"
    and silence: "no_long_silence (filter (below 0 (run_cursor R)) H)"
    and "scout_inv A s" and "chat_known (storageChatID (run_chat R)) s" and "0 \<le> offset"
    and "rest = filter (below offset (run_cursor R)) H" and "rest = drop k (filter (below 0 (run_cursor R)) H)"
  shows "\<exists>log' s'. history_loop A E R offset maxSeen collected log s =
           finish_history E R (collected + length (filter (wanted R) (entry_messages rest)))
             (foldl max maxSeen (ids_of rest)) log' s' \<and>
           gathered A (run_chat R) s (filter (wanted R) (entry_messages rest)) s'"
  using assms(8-)
proof (induction "length rest" arbitrary: rest k offset maxSeen collected log s rule: less_induct)
  case less
  let ?log1 = "MessagesGetHistory (run_peer R) offset (run_cursor R) scoutHistoryPageSize # log"
  let ?page = "take scoutHistoryPageSize rest"
  let ?later = "drop scoutHistoryPageSize rest"
  have rest: "rest = ?page @ ?later" by simp
  have okrest: "history_ok rest" using history_ok_filter [OF H] less.prems(4) by simp
  have okpage: "history_ok ?page" using history_ok_prefix [of ?page ?later] okrest by simp
  have got: "history_page E R offset log = Inr (map snd ?page)"
    using pages less.prems(4) unfolding pages_history_def history_page_def by (metis map_sum.simps(2))
  show ?case
  proof (cases "rest = []")
    case True
    then have "history_loop A E R offset maxSeen collected log s = finish_history E R collected maxSeen ?log1 s"
      using got calm by (subst history_loop.simps) simp
    with True less.prems(1) show ?thesis
      by (intro exI [of _ ?log1] exI [of _ s]) (simp add: ids_of_def gathered_Nil)
  next
    case False
    then have nonempty: "map snd ?page \<noteq> []" by (simp add: scoutHistoryPageSize_def)
    let ?p = "\<lparr>pg_maxSeen = maxSeen, pg_nextOffset = offset, pg_reachedCutoff = False, pg_collected = collected\<rparr>"
    have "\<forall>m \<in> set (page_messages (map snd ?page)). 0 < msg_ID m \<and> 0 \<le> msg_Date m"
      using entry_message_id(2,3) [OF okpage] by (simp add: entry_messages_of_page)
    then obtain p s1 where page: "collect_page A (he_env E ?log1) R (map snd ?page) ?p s = (None, p, s1)"
        "gathered A (run_chat R) s (filter (wanted R) (entry_messages ?page)) s1"
        "pg_collected p = collected + length (filter (wanted R) (entry_messages ?page))"
        "pg_maxSeen p = foldl max maxSeen (ids_of ?page)"
        "pg_nextOffset p = foldl next_offset offset (ids_of ?page)"
        "pg_reachedCutoff p = (\<exists>m \<in> set (entry_messages ?page). beyond_cutoff R m)"
      using collect_page_all [where env = "he_env E ?log1" and ms = "map snd ?page" and p = ?p,
          OF less.prems(1) A env _ chat less.prems(2)]
      by (auto simp: entry_messages_of_page ids_of_def)
    have stop: ?thesis
      if "pg_reachedCutoff p \<or> length (map snd ?page) < scoutHistoryPageSize"
        and none: "filter (wanted R) (entry_messages ?later) = []"
        and maxs: "foldl max maxSeen (ids_of rest) = foldl max maxSeen (ids_of ?page)"
    proof -
      have "filter (wanted R) (entry_messages rest) = filter (wanted R) (entry_messages ?page)"
        using none by (subst rest) (simp only: entry_messages_append filter_append append_Nil2)
      then have "history_loop A E R offset maxSeen collected log s =
          finish_history E R (collected + length (filter (wanted R) (entry_messages rest)))
            (foldl max maxSeen (ids_of rest)) ?log1 s1"
        using got calm nonempty page that(1) maxs by (subst history_loop.simps) simp
      with page(2) \<open>filter (wanted R) (entry_messages rest) = _\<close> show ?thesis by auto
    qed
    show ?thesis
    proof (cases "pg_reachedCutoff p")
      case True
      then obtain m where m: "m \<in> set (entry_messages ?page)" "beyond_cutoff R m" using page(6) by blast
      have "filter (wanted R) (entry_messages ?later) = []"
        using nothing_wanted_beyond [of ?page ?later, OF _ m] okrest by simp
      moreover have "ids_of ?page \<noteq> []" using m(1) by (auto simp: ids_of_def)
      moreover have "ids_of rest = ids_of ?page @ ids_of ?later"
        by (subst rest) (simp only: ids_of_def entry_messages_append map_append)
      ultimately show ?thesis
        using stop True ids_decrease [OF okrest] foldl_max_decreasing [of "ids_of ?page" "ids_of ?later" maxSeen] by simp
    next
      case noCutoff: False
      show ?thesis
      proof (cases "length rest < scoutHistoryPageSize")
        case True
        then show ?thesis using stop by (simp add: min_def)
      next
        case False
        have "k < length (filter (below 0 (run_cursor R)) H)"
          using less.prems(5) \<open>rest \<noteq> []\<close> by (metis drop_all linorder_not_le)
        moreover from this have "k + scoutHistoryPageSize \<le> length (filter (below 0 (run_cursor R)) H)"
          using False arg_cong [OF less.prems(5), of length] by simp
        ultimately have "list_ex is_text (take scoutHistoryPageSize (drop k (filter (below 0 (run_cursor R)) H)))"
          using silence unfolding no_long_silence_def by blast
        then have "list_ex is_text ?page" by (simp only: less.prems(5))
        then obtain pre i m post where split: "?page = pre @ (i, Message m) # post" "\<not> list_ex is_text post"
          by (rule last_message_split)
        have all: "filter (below offset (run_cursor R)) H = pre @ (i, Message m) # (post @ ?later)"
          using less.prems(4) rest split(1) by (metis append.assoc append_Cons)
        note next_page = below_split [OF H all]
        let ?rest = "post @ ?later"
        have ids: "ids_of ?page = ids_of pre @ [i]"
          using split next_page(2) by (simp add: ids_of_def entry_messages_none)
        have "\<forall>j \<in> set (ids_of ?page). 0 < j \<and> (offset = 0 \<or> j < offset)"
        proof
          fix j assume "j \<in> set (ids_of ?page)"
          then obtain m' where "m' \<in> set (entry_messages ?page)" "j = msg_ID m'" by (auto simp: ids_of_def)
          then have "(j, Message m') \<in> set ?page" "0 < j"
            using entry_message_id [OF okpage, of m'] by auto
          moreover have "set ?page \<subseteq> set rest" by (rule set_take_subset)
          ultimately show "0 < j \<and> (offset = 0 \<or> j < offset)"
            using less.prems(4) by (auto simp: below_def)
        qed
        from foldl_next_offset [OF ids_decrease [OF okpage] this] have off: "pg_nextOffset p = i"
          using page(5) ids by simp
        have len: "length ?rest < length rest" using arg_cong [OF all [folded less.prems(4)], of length] by simp
        have k': "?rest = drop (k + length pre + 1) (filter (below 0 (run_cursor R)) H)"
          using less.prems(4,5) all by (metis (no_types) add.commute add_Suc_right append_eq_conv_conj drop_drop drop_Suc_Cons drop0 Suc_eq_plus1 add.assoc)
        have inv1: "scout_inv A s1" and known1: "chat_known (storageChatID (run_chat R)) s1"
          using page(2) less.prems(2) same_frame_known by (auto simp: gathered_def)
        obtain log' s' where IH: "history_loop A E R i (pg_maxSeen p) (pg_collected p) ?log1 s1 =
            finish_history E R (pg_collected p + length (filter (wanted R) (entry_messages ?rest)))
              (foldl max (pg_maxSeen p) (ids_of ?rest)) log' s'"
            "gathered A (run_chat R) s1 (filter (wanted R) (entry_messages ?rest)) s'"
          using less.hyps [OF len inv1 known1 _ next_page(1) [symmetric] k'] next_page(3) by (meson less_imp_le)
        have msgs: "entry_messages rest = entry_messages ?page @ entry_messages ?rest"
          using arg_cong [OF all [folded less.prems(4)], of entry_messages] split by (simp add: entry_messages_none)
        have W: "filter (wanted R) (entry_messages rest) =
            filter (wanted R) (entry_messages ?page) @ filter (wanted R) (entry_messages ?rest)"
          by (simp only: msgs filter_append)
        have I: "ids_of rest = ids_of ?page @ ids_of ?rest"
          by (simp only: ids_of_def msgs map_append)
        have "history_loop A E R offset maxSeen collected log s =
            history_loop A E R i (pg_maxSeen p) (pg_collected p) ?log1 s1"
          using got calm nonempty page(1) noCutoff False off next_page(3,4)
          by (subst history_loop.simps) (auto simp: stuck_page_def)
        also have "\<dots> = finish_history E R (collected + length (filter (wanted R) (entry_messages rest)))
            (foldl max maxSeen (ids_of rest)) log' s'"
          unfolding W I length_append foldl_append add.assoc [symmetric] page(3) [symmetric] page(4) [symmetric]
          by (rule IH(1))
        finally show ?thesis
          using gathered_append [OF page(2) IH(2)] unfolding W by blast
      qed
    qed
  qed
qed


section \<open>Identities as texts\<close>

definition visible :: "char \<Rightarrow> bool" where
  "visible c \<longleftrightarrow> 32 < (of_char c :: nat) \<and> (of_char c :: nat) < 127"

lemma space_seqs_ends: "w \<in> set space_seqs \<Longrightarrow> \<not> visible (hd w) \<and> \<not> visible (last w)"
  by (auto simp: space_seqs_def visible_def)

lemma TrimSpace_visible:
  assumes "s \<noteq> ''''" "visible (hd s)" "visible (last s)"
  shows "TrimSpace s = s"
proof -
  have "\<not> prefix w s \<and> \<not> suffix w s" if "w \<in> set space_seqs" for w
  proof -
    have "w \<noteq> []" using that by (rule space_seqs_nonempty)
    then have "hd s = hd w" if "prefix w s" using that by (auto simp: prefix_def)
    moreover have "last s = last w" if "suffix w s" using that \<open>w \<noteq> []\<close> by (auto simp: suffix_def)
    ultimately show ?thesis using space_seqs_ends [OF that] assms by auto
  qed
  then have "leading_space s = None" "trailing_space s = None"
    by (auto simp: leading_space_def trailing_space_def find_None_iff)
  then show ?thesis
    by (simp add: TrimSpace_def trim_left.simps [of s] trim_right.simps [of s])
qed

lemma visible_digit: "d < 10 \<Longrightarrow> visible (digit_char d)"
  by (simp add: visible_def digit_char_def)

lemma format_nat_ends: "format_nat n \<noteq> [] \<and> visible (hd (format_nat n)) \<and> visible (last (format_nat n))"
proof (induction n rule: format_nat.induct)
  case (1 n)
  then show ?case by (subst (1 2 3) format_nat.simps) (auto simp: visible_digit)
qed

lemma FormatInt_ends: "FormatInt n \<noteq> [] \<and> visible (hd (FormatInt n)) \<and> visible (last (FormatInt n))"
  using format_nat_ends [of "nat n"] format_nat_ends [of "nat (- n)"]
  by (auto simp: FormatInt_def visible_def)

lemma TrimSpace_identity:
  assumes "namespace \<noteq> ''''" "visible (hd namespace)"
  shows "TrimSpace (telegramPeerIdentity namespace i) = telegramPeerIdentity namespace i"
  using assms FormatInt_ends [of i]
  by (intro TrimSpace_visible) (auto simp: telegramPeerIdentity_def last_append)

lemma storageChatID_identity:
  assumes "namespace \<in> {''channel'', ''chat'', ''user''}"
  shows "storageChatID (telegramPeerIdentity namespace i) = FormatInt i"
proof -
  have trim: "TrimSpace (telegramPeerIdentity namespace i) = telegramPeerIdentity namespace i"
    using assms by (intro TrimSpace_identity) (auto simp: visible_def)
  show ?thesis
    using assms unfolding storageChatID_def trim by (auto simp: telegramPeerIdentity_def TrimPrefix_def)
qed

lemma peer_identity:
  assumes "inputPeerIdentity peer \<noteq> ''''"
  shows "TrimSpace (inputPeerIdentity peer) = inputPeerIdentity peer"
    "storageChatID (inputPeerIdentity peer) = inputPeerID peer" "inputPeerID peer \<noteq> ''''"
  using assms FormatInt_ends
  by (cases peer; simp add: inputPeerIdentity_def inputPeerID_def TrimSpace_identity storageChatID_identity visible_def)+

section \<open>The whole run\<close>

definition new_messages :: "int \<Rightarrow> time \<Rightarrow> entry list \<Rightarrow> tg_message list" where
  "new_messages cursor now H =
     filter (\<lambda>m. TrimSpace (msg_Message m) \<noteq> '''' \<and>
                 (cursor = 0 \<longrightarrow> \<not> Before (Unix (msg_Date m)) (now - scoutHistoryRetention)))
       (entry_messages (filter (below 0 cursor) H))"

lemma new_messages_wanted:
  assumes "history_ok H" "run_cursor R = cursor" "run_cutoff R = now - scoutHistoryRetention"
  shows "filter (wanted R) (entry_messages (filter (below 0 cursor) H)) = new_messages cursor now H"
proof -
  have "cursor < msg_ID m" if "m \<in> set (entry_messages (filter (below 0 cursor) H))" for m
    using entry_message_id(1) [OF history_ok_filter [OF assms(1)] that] by (auto simp: below_def)
  then show ?thesis
    using assms(2,3) unfolding new_messages_def by (intro filter_cong) (auto simp: wanted_def beyond_cutoff_def)
qed

lemma select_cursor_update:
  assumes "sql_exists (is_cursor a c) rows"
  shows "sql_select (is_cursor a c) (sql_update (is_cursor a c) f rows) =
    map_option f (sql_select (is_cursor a c) rows) \<or> \<not> (\<forall>r. is_cursor a c r \<longrightarrow> is_cursor a c (f r))"
  using assms by (induction rows) (auto simp: sql_exists_def)

lemma finish_history_cursor:
  assumes "TrimSpace (run_account R) = run_account R" "run_account R \<noteq> ''''"
    "TrimSpace (run_chat R) = run_chat R" "run_chat R \<noteq> ''''"
    "ScoutCursor (run_account R) (run_chat R) s = Inr (run_cursor R)" "0 \<le> run_cursor R" "run_cursor R \<le> newest"
  shows "\<exists>s'. finish_history E R collected newest log s = ((collected, None), log, s') \<and> same_tables s s' \<and>
              ScoutCursor (run_account R) (run_chat R) s' = Inr newest"
proof (cases "newest \<le> run_cursor R")
  case True
  then show ?thesis using assms by (simp add: finish_history_def saveScoutHistoryCursor_def)
next
  case False
  let ?p = "is_cursor (run_account R) (run_chat R)" and ?now = "formatTime (he_now E log)"
  show ?thesis
  proof (cases "sql_select ?p (ss_cursors s)")
    case None
    then have "\<not> sql_exists ?p (ss_cursors s)" by (simp add: sql_exists_iff sql_select_None_iff)
    then show ?thesis
      using False assms None
      by (simp add: finish_history_def saveScoutHistoryCursor_def SaveScoutCursor_def Let_def same_tables_def
          ScoutCursor_def sql_select_append is_cursor_def parse_format)
  next
    case (Some r)
    then have ex: "sql_exists ?p (ss_cursors s)" by (auto simp: sql_exists_iff dest: sql_select_SomeD)
    let ?f = "\<lambda>r. r\<lparr>cu_message_id := max (cu_message_id r) newest, cu_updated_at := ?now\<rparr>"
    have sel: "sql_select ?p (sql_update ?p ?f (ss_cursors s)) = Some (?f r)"
      using select_cursor_update [OF ex, of ?f] Some by (simp add: is_cursor_def)
    have "cu_message_id r = run_cursor R"
      using assms(3,5) Some by (auto simp: ScoutCursor_def split: option.splits)
    then show ?thesis
      using False assms sel ex
      by (simp add: finish_history_def saveScoutHistoryCursor_def SaveScoutCursor_def Let_def same_tables_def
          ScoutCursor_def parse_format max_def)
  qed
qed



text \<open>
  C35. When the newest hundred entries above the cursor are service messages (joins, pins and the
  like), the synchronisation stops with an error, collects nothing and leaves the store, the
  cursor with it, as it was: every later run on this history stops there again.
\<close>

theorem service_messages_stop_the_history:
  assumes "pages_history (he_client E) peer H"
    and "\<And>log. \<not> he_done E log" "inputPeerIdentity peer \<noteq> ''''"
    and "ScoutCursor accountID (inputPeerIdentity peer) s = Inr cursor"
    and "scoutHistoryPageSize \<le> length (filter (below 0 cursor) H)"
    and "\<not> list_ex is_text (take scoutHistoryPageSize (filter (below 0 cursor) H))"
  shows "\<exists>log'. syncScoutHistoryPeer A E accountID peer now log s = ((0, Some HistoryStuck), log', s)"
proof -
  let ?R = "\<lparr>run_account = accountID, run_peer = peer, run_chat = inputPeerIdentity peer, run_cursor = cursor,
             run_cutoff = now - scoutHistoryRetention\<rparr>"
  let ?page = "map snd (take scoutHistoryPageSize (filter (below 0 cursor) H))"
  have page: "history_page E ?R 0 log = Inr ?page"
    using assms(1) unfolding pages_history_def history_page_def
    by (metis history_run.select_convs(2,4) map_sum.simps(2))
  have none: "collect_page A env R (map snd es) p s = (None, p, s)" if "\<not> list_ex is_text es" for env R es p
    using that
  proof (induction es)
    case (Cons e es)
    then have "\<not> is_text e" "\<not> list_ex is_text es" by simp_all
    then have "snd e = MessageOther" "\<not> list_ex is_text es" by (simp_all add: is_text_def)
    then show ?case using Cons.IH by simp
  qed simp
  have "length ?page = scoutHistoryPageSize" using assms(5) by simp
  moreover from this have "?page \<noteq> []" by (auto simp: scoutHistoryPageSize_def)
  ultimately have "history_loop A E ?R 0 cursor 0 log s =
      ((0, Some HistoryStuck), MessagesGetHistory peer 0 cursor scoutHistoryPageSize # log, s)"
    using page assms(2) none [OF assms(6)] by (subst history_loop.simps) (simp add: stuck_page_def)
  then show ?thesis using assms(3,4) by (simp add: syncScoutHistoryPeer_def)
qed


section \<open>Witnesses\<close>

text \<open>A client that pages a list as Telegram does, and surroundings in which nothing fails.\<close>

definition paging_client :: "entry list \<Rightarrow> tg_client" where
  "paging_client H =
     \<lparr>on_ResolveUsername = (\<lambda>log name. Inl TransportError), on_CheckChatInvite = (\<lambda>log hash. Inl TransportError),
      on_ImportChatInvite = (\<lambda>log hash. Inl TransportError), on_JoinChannel = (\<lambda>log i h. Inl TransportError),
      on_GetParticipant = (\<lambda>log i h. Inl TransportError), on_LeaveChannel = (\<lambda>log i h. Inl TransportError),
      on_DeleteChatUser = (\<lambda>log i. Inl TransportError), on_GetFullChannel = (\<lambda>log i h. Inl TransportError),
      on_GetHistory = (\<lambda>log peer offset least limit.
        Inr (MessagesChannelMessages (map snd (take limit (filter (below offset least) H)))))\<rparr>"

definition calm_env :: "entry list \<Rightarrow> history_env" where
  "calm_env H = \<lparr>he_client = paging_client H, he_done = (\<lambda>log. False), he_paused = (\<lambda>log. False),
     he_env = (\<lambda>log n. demo_ingest (20 * Second)), he_now = (\<lambda>log. 20 * Second)\<rparr>"

definition demo_text :: "int \<Rightarrow> string \<Rightarrow> entry" where
  "demo_text i txt = (i, Message \<lparr>msg_ID = i, msg_Out = False, msg_PeerID = PeerChannel 100, msg_FromID = None,
     msg_Date = i, msg_EditDate = 0, msg_Message = txt\<rparr>)"

definition demo_history :: "entry list" where
  "demo_history = [demo_text 9 ''sail'', (8, MessageOther), demo_text 7 ''boat'', demo_text 3 ''old'']"

definition cursor_at_3 :: scout_store where
  "cursor_at_3 = scouted\<lparr>ss_cursors := [\<lparr>cu_account_id = ''a1'', cu_chat_id = ''channel:100'',
     cu_message_id = 3, cu_updated_at = formatTime 1\<rparr>]\<rparr>"

lemma paging_client_pages: "pages_history (paging_client H) peer H"
  by (simp add: pages_history_def paging_client_def scoutHistoryMessages_def)

lemma demo_ingest_healthy: "healthy demo_aead (demo_ingest t)"
  by (simp add: healthy_def demo_ingest_def demo_aead_def minFreeBytes_def)

lemma demo_aead_seals: "aead_seals demo_aead"
  using demo_aead_ok by (simp add: aead_seals_def demo_aead_def)

lemma FormatInt_100: "FormatInt 100 = ''100''"
  by code_simp

lemma cursor_at_3_ok:
  "scout_inv demo_aead cursor_at_3" "inputPeerIdentity (InputPeerChannel 100 1) = ''channel:100''"
  "chat_known (inputPeerID (InputPeerChannel 100 1)) cursor_at_3"
  "ScoutCursor ''a1'' ''channel:100'' cursor_at_3 = Inr 3" "TrimSpace ''a1'' = ''a1''"
proof -
  show "scout_inv demo_aead cursor_at_3"
    using scouted_inv by (simp add: cursor_at_3_def scout_inv_def)
  show "inputPeerIdentity (InputPeerChannel 100 1) = ''channel:100''"
    by (simp add: inputPeerIdentity_def telegramPeerIdentity_def FormatInt_100)
  show "chat_known (inputPeerID (InputPeerChannel 100 1)) cursor_at_3"
    by (simp add: chat_known_def inputPeerID_def FormatInt_100 cursor_at_3_def scouted_def demo_channel_def)
  show "TrimSpace ''a1'' = ''a1''" by (intro TrimSpace_visible) (simp_all add: visible_def)
  have "TrimSpace ''channel:100'' = ''channel:100''" by (intro TrimSpace_visible) (simp_all add: visible_def)
  then show "ScoutCursor ''a1'' ''channel:100'' cursor_at_3 = Inr 3"
    by (simp add: ScoutCursor_def cursor_at_3_def is_cursor_def parse_format)
qed

lemma demo_history_ok: "history_ok demo_history" "no_long_silence (filter (below 0 3) demo_history)"
  by (simp_all add: history_ok_def demo_history_def demo_text_def no_long_silence_def below_def scoutHistoryPageSize_def)

lemma demo_history_new: "map msg_Message (new_messages 3 t demo_history) = [''sail'', ''boat'']"
proof -
  have "TrimSpace ''sail'' = ''sail''" "TrimSpace ''boat'' = ''boat''"
    by (intro TrimSpace_visible; simp add: visible_def)+
  then show ?thesis by (simp add: new_messages_def demo_history_def demo_text_def below_def)
qed


definition service_history :: "entry list" where
  "service_history = map (\<lambda>i. (200 - int i, MessageOther)) [0..<100] @ [demo_text 50 ''boat'']"

lemma service_messages_stop_the_history_witness:
  "\<exists>log. syncScoutHistoryPeer demo_aead (calm_env service_history) ''a1'' (InputPeerChannel 100 1) (20 * Second) [] cursor_at_3 =
       ((0, Some HistoryStuck), log, cursor_at_3)"
proof (rule service_messages_stop_the_history [where H = service_history and cursor = 3])
  have page: "filter (below 0 3) service_history = service_history"
    by (auto simp: service_history_def below_def demo_text_def)
  show "scoutHistoryPageSize \<le> length (filter (below 0 3) service_history)"
    unfolding page by (simp add: service_history_def scoutHistoryPageSize_def)
  show "\<not> list_ex is_text (take scoutHistoryPageSize (filter (below 0 3) service_history))"
    unfolding page by (simp add: service_history_def scoutHistoryPageSize_def list_ex_iff is_text_def)
qed (simp_all add: calm_env_def paging_client_pages cursor_at_3_ok)

end
