(* ===== verification/RouterFacts.thy ===== *)
theory RouterFacts
  imports HistoryFacts
begin

text \<open>
  What the router of updates lets through: which messages can lead to answers, and which stored
  messages a deletion reaches.
\<close>

section \<open>Collecting does not answer\<close>

lemma checkDisk_db: "checkDisk env s = (res, s1) \<Longrightarrow> ss_db s1 = ss_db s"
  by (auto simp: checkDisk_def split: option.splits if_splits)

lemma save_message_jobs: "save_message m s = (res, s1) \<Longrightarrow> db_jobs (ss_db s1) = db_jobs (ss_db s)"
  by (auto simp: save_message_def note_activity_def split: if_splits option.splits)

lemma SaveEncrypted_jobs: "SaveEncrypted env m s = (res, s1) \<Longrightarrow> db_jobs (ss_db s1) = db_jobs (ss_db s)"
  by (auto simp: SaveEncrypted_def in_tx_def dest!: checkDisk_db save_message_jobs
      split: if_splits prod.splits sum.splits)

lemma collector_Ingest_jobs: "collector_Ingest A env u s = (res, s1) \<Longrightarrow> db_jobs (ss_db s1) = db_jobs (ss_db s)"
  by (auto simp: collector_Ingest_def collector_save_def dest: SaveEncrypted_jobs
      split: sum.splits option.splits prod.splits)

lemma CollectHistory_jobs:
  "CollectHistory (collector_Ingest A env) u s = (res, s1) \<Longrightarrow> db_jobs (ss_db s1) = db_jobs (ss_db s)"
  unfolding CollectHistory_def by (rule collector_Ingest_jobs)

lemma sink_Delete_db: "sink_Delete env c i s = (res, s1) \<Longrightarrow> ss_db s1 = ss_db s"
  by (auto simp: sink_Delete_def collector_Delete_def store_Delete_def split: sum.splits)

lemma delete_messages_db: "delete_messages env c ids w = (res, w1) \<Longrightarrow> ss_db (snd w1) = ss_db (snd w)"
  by (induction env c ids w rule: delete_messages.induct)
     (auto simp: Let_def dest: sink_Delete_db split: prod.splits sum.splits if_splits)

lemma router_delete_db: "router_delete env t c ids w = (res, w1) \<Longrightarrow> ss_db (snd w1) = ss_db (snd w)"
  by (auto simp: router_delete_def dest: delete_messages_db split: if_splits)

lemma delete_everywhere_db: "delete_everywhere env ids chats w = (res, w1) \<Longrightarrow> ss_db (snd w1) = ss_db (snd w)"
  by (induction env ids chats w rule: delete_everywhere.induct)
     (auto dest: router_delete_db split: prod.splits sum.splits)

section \<open>Triggering\<close>

lemma sink_Trigger_silent:
  assumes "sink_Trigger E u s = (res, s1)" "upd_EditedAt u \<noteq> None \<or> snap_OutboundPaused (se_snapshot E)"
  shows "s1 = s"
proof -
  have "answered_trigger (se_unicode E) (se_snapshot E) u = None"
    using assms(2) by (auto simp: answered_trigger_def)
  with assms(1) show ?thesis by (simp add: sink_Trigger_def Trigger_def)
qed

lemma router_ingest_jobs:
  assumes "router_ingest E t u trigger s = (res, s1)" "db_jobs (ss_db s1) \<noteq> db_jobs (ss_db s)"
  shows "trigger \<and> upd_EditedAt u = None \<and> \<not> snap_OutboundPaused (se_snapshot E)"
proof -
  obtain r0 s0 where c: "CollectHistory (collector_Ingest (se_aead E) (se_ingest E)) u s = (r0, s0)" by fastforce
  have same: "db_jobs (ss_db s0) = db_jobs (ss_db s)" by (rule CollectHistory_jobs [OF c])
  show ?thesis
  proof (cases r0)
    case (Inl e)
    then show ?thesis using assms c same by (simp add: router_ingest_def)
  next
    case (Inr x)
    then have "trigger" and tr: "sink_Trigger E (u\<lparr>upd_ChatID := t\<rparr>) s0 = (res, s1)"
      using assms c same by (auto simp: router_ingest_def split: if_splits)
    have "s1 \<noteq> s0" using assms(2) same by auto
    with sink_Trigger_silent [OF tr] \<open>trigger\<close> show ?thesis by (cases "upd_EditedAt u") auto
  qed
qed

lemma collect_message_jobs:
  assumes "collect_message E m edited (r, s) = (res, (r1, s1))" "db_jobs (ss_db s1) \<noteq> db_jobs (ss_db s)"
  shows "\<not> edited \<and> \<not> managed_sender r m \<and> \<not> snap_OutboundPaused (se_snapshot E)"
proof -
  obtain res0 where "router_ingest E (peerID (msg_PeerID m)) (message_update E (peerIdentity (msg_PeerID m)) m edited)
      (\<not> managed_sender r m) s = (res0, s1)"
    using assms(1) by (auto simp: collect_message_def Let_def split: prod.splits sum.splits)
  from router_ingest_jobs [OF this assms(2)] show ?thesis
    by (auto simp: message_update_def split: if_splits)
qed

lemma router_message_jobs:
  assumes "router_message E cls edited (r, s) = (res, (r1, s1))" "db_jobs (ss_db s1) \<noteq> db_jobs (ss_db s)"
  shows "\<exists>m. cls = Message m \<and> \<not> edited \<and> allows r (peerID (msg_PeerID m)) \<and> \<not> managed_sender r m \<and>
             rt_activationUnix r \<le> msg_Date m \<and> \<not> snap_OutboundPaused (se_snapshot E)"
proof (cases cls)
  case MessageOther
  then show ?thesis using assms by (simp add: router_message_def)
next
  case (Message m)
  have al: "allows r (peerID (msg_PeerID m))"
    using assms Message by (auto simp: router_message_def Let_def split: if_splits)
  show ?thesis
  proof (cases "rt_collect r")
    case False
    then obtain res0 where "sink_Trigger E (message_update E (peerID (msg_PeerID m)) m False) s = (res0, s1)"
      and new: "\<not> edited" "\<not> managed_sender r m" "rt_activationUnix r \<le> msg_Date m"
      using assms Message by (auto simp: router_message_def Let_def split: if_splits prod.splits)
    with sink_Trigger_silent assms(2) have "\<not> snap_OutboundPaused (se_snapshot E)" by fastforce
    with al new Message show ?thesis by simp
  next
    case True
    then have "collect_message E m edited (r, s) = (res, (r1, s1))" and "\<not> edited \<longrightarrow> rt_activationUnix r \<le> msg_Date m"
      using assms Message by (auto simp: router_message_def Let_def split: if_splits sum.splits)
    with collect_message_jobs [OF _ assms(2)] al Message show ?thesis by blast
  qed
qed

text \<open>
  C19. An update adds or changes jobs of the delivery queue only when it is a new message, not an
  edit, in a chat the router watches, dated since the router was activated, sent neither by the
  account itself nor by another account of the program, and outbound delivery is not paused:
  no account answers itself or a sibling, an old message, an edit or a message elsewhere.
\<close>

theorem only_new_messages_of_others_are_answered:
  assumes "router_dispatch E u (r, s) = (res, (r', s'))" "db_jobs (ss_db s') \<noteq> db_jobs (ss_db s)"
  shows "\<exists>m. (u = UpdateNewMessage (Message m) \<or> u = UpdateNewChannelMessage (Message m)) \<and>
             allows r (peerID (msg_PeerID m)) \<and> rt_activationUnix r \<le> msg_Date m \<and>
             \<not> msg_Out m \<and> (messageSenderUserID m = 0 \<or> messageSenderUserID m \<notin> set (rt_managed r)) \<and>
             \<not> snap_OutboundPaused (se_snapshot E)"
proof -
  have rm: "\<exists>m. cls = Message m \<and> \<not> edited \<and> allows r (peerID (msg_PeerID m)) \<and> rt_activationUnix r \<le> msg_Date m \<and>
      \<not> msg_Out m \<and> (messageSenderUserID m = 0 \<or> messageSenderUserID m \<notin> set (rt_managed r)) \<and>
      \<not> snap_OutboundPaused (se_snapshot E)"
    if "router_message E cls edited (r, s) = (res, (r', s'))" for cls edited
    using router_message_jobs [OF that assms(2)] by (auto simp: managed_sender_def managed_Contains_def)
  show ?thesis
  proof (cases u)
    case (UpdateDeleteChannelMessages c ids)
    then show ?thesis using assms router_delete_db by (fastforce simp: router_dispatch_def)
  next
    case (UpdateDeleteMessages ids)
    then show ?thesis using assms delete_everywhere_db by (fastforce simp: router_dispatch_def deleteSeen_def)
  qed (use assms(1) rm in \<open>force simp: router_dispatch_def\<close>)+
qed

section \<open>Deletions\<close>

lemma storageChatID_prefixed:
  assumes "namespace \<in> {''chat'', ''user''}"
  shows "storageChatID (namespace @ '':'' @ FormatInt n) = FormatInt n"
  using assms storageChatID_identity [of namespace n] by (auto simp: telegramPeerIdentity_def)

definition gone :: "string \<Rightarrow> int \<Rightarrow> scout_store \<Rightarrow> bool" where
  "gone c i s \<longleftrightarrow> \<not> store_Exists c i s \<and> tombstoned c i s"

lemma store_Delete_gone:
  "store_Delete c i t s = (res, s1) \<Longrightarrow> gone c i s1 \<and> (gone c' i' s \<longrightarrow> gone c' i' s1)"
  by (auto simp: store_Delete_def gone_def store_Exists_def sql_exists_iff tombstoned_iff put_tombstone_keys)

text \<open>One deletion of one message in one chat never fails, and keeps what is gone.\<close>

lemma delete_one:
  assumes "storageChatID c = FormatInt n" "0 < i"
  shows "\<exists>r1 s1. delete_messages env c [i] (r, s) = (Inr (), (r1, s1)) \<and>
           rt_collect r1 = rt_collect r \<and> rt_allowed r1 = rt_allowed r \<and>
           (store_Exists (FormatInt n) i s \<longrightarrow> gone (FormatInt n) i s1) \<and> (gone c' i' s \<longrightarrow> gone c' i' s1)"
proof -
  have ok: "validateIdentity (FormatInt n) i = Inr ()"
    using assms(2) FormatInt_ends [of n] by (simp add: validateIdentity_def)
  obtain seen r1 where seen: "consumeSeen c i r = (seen, r1)" by fastforce
  then have keep: "rt_collect r1 = rt_collect r" "rt_allowed r1 = rt_allowed r"
    by (auto simp: consumeSeen_def split: if_splits)
  obtain res s1 where del: "store_Delete (FormatInt n) i (env_now env) s = (res, s1)" by fastforce
  then have "res = Inr ()" by (simp add: store_Delete_def)
  show ?thesis
  proof (cases "seen \<or> store_Exists (FormatInt n) i s")
    case True
    then have "delete_messages env c [i] (r, s) = (Inr (), (r1, s1))"
      using seen ok del \<open>res = Inr ()\<close> assms(1)
      by (auto simp: sink_Exists_def collector_Exists_def sink_Delete_def collector_Delete_def)
    with keep store_Delete_gone [OF del] show ?thesis by blast
  next
    case False
    then have "delete_messages env c [i] (r, s) = (Inr (), (r1, s))"
      using seen ok assms(1) by (simp add: sink_Exists_def collector_Exists_def)
    with keep False show ?thesis by blast
  qed
qed

lemma delete_everywhere_gone:
  assumes "\<forall>(t, c) \<in> set chats. t \<in> set (rt_allowed r) \<and> (\<exists>n. storageChatID c = FormatInt n)" "0 < i" "rt_collect r"
  shows "\<exists>r1 s1. delete_everywhere env [i] chats (r, s) = (Inr (), (r1, s1)) \<and>
           (\<forall>t c n. (t, c) \<in> set chats \<longrightarrow> storageChatID c = FormatInt n \<longrightarrow>
              store_Exists (FormatInt n) i s \<longrightarrow> gone (FormatInt n) i s1) \<and>
           (\<forall>c' i'. gone c' i' s \<longrightarrow> gone c' i' s1)"
  using assms
proof (induction chats arbitrary: r s)
  case (Cons tc chats)
  obtain t c where tc: "tc = (t, c)" by fastforce
  obtain n where n: "storageChatID c = FormatInt n" using Cons.prems(1) tc by auto
  let ?step = "delete_messages env c [i] (r, s)"
  obtain r1 s1 where one: "?step = (Inr (), (r1, s1))" "rt_collect r1 = rt_collect r" "rt_allowed r1 = rt_allowed r"
      "store_Exists (FormatInt n) i s \<longrightarrow> gone (FormatInt n) i s1"
    using delete_one [OF n Cons.prems(2)] by metis
  have mono: "gone c' i' s \<Longrightarrow> gone c' i' s1" for c' i'
    using delete_one [OF n Cons.prems(2), of env r s c' i'] one(1) by auto
  obtain r2 s2 where IH: "delete_everywhere env [i] chats (r1, s1) = (Inr (), (r2, s2))"
      "\<forall>t c n. (t, c) \<in> set chats \<longrightarrow> storageChatID c = FormatInt n \<longrightarrow>
         store_Exists (FormatInt n) i s1 \<longrightarrow> gone (FormatInt n) i s2"
      "\<forall>c' i'. gone c' i' s1 \<longrightarrow> gone c' i' s2"
    using Cons.IH [of r1 s1] Cons.prems one by auto
  have kept: "store_Exists c' i s1 \<or> gone c' i s1" if "store_Exists c' i s" for c'
  proof -
    have "ss_messages s1 = ss_messages s \<or> ss_messages s1 = filter (\<lambda>r. \<not> is_message (FormatInt n) i r) (ss_messages s)"
      using one(1) n by (auto simp: consumeSeen_def sink_Exists_def collector_Exists_def sink_Delete_def
          collector_Delete_def store_Delete_def validateIdentity_def split: if_splits sum.splits)
    then show ?thesis using that one(4) by (cases "c' = FormatInt n") (auto simp: store_Exists_def sql_exists_iff is_message_def)
  qed
  have "delete_everywhere env [i] (tc # chats) (r, s) = (Inr (), (r2, s2))"
    using IH(1) one(1) tc Cons.prems by (simp add: router_delete_def allows_def)
  with IH mono kept one(4) tc n show ?case by (metis fst_conv snd_conv set_ConsD prod.inject)
qed simp

text \<open>
  C34. Deleting message \<open>i\<close> of any private chat or basic group (Telegram's update names no chat, and
  numbers these messages per account) deletes message \<open>i\<close> of every watched channel from the
  store and buries it: the router asks for the chat's name in the namespaces \<^verbatim>\<open>chat\<close> and \<^verbatim>\<open>user\<close>, but
  the live sink drops the namespace before it asks the collector.
\<close>

theorem private_deletions_reach_channels:
  assumes "rt_collect r" "\<forall>c \<in> set (rt_allowed r). \<exists>k. c = FormatInt k" "0 < i"
    and "FormatInt n \<in> set (rt_allowed r)" "store_Exists (FormatInt n) i s"
  shows "\<exists>r' s'. router_dispatch E (UpdateDeleteMessages [i]) (r, s) = (Inr (), (r', s')) \<and>
                 \<not> store_Exists (FormatInt n) i s' \<and> tombstoned (FormatInt n) i s'"
proof -
  let ?chats = "concat (map (\<lambda>t. map (\<lambda>namespace. (t, namespace @ '':'' @ t)) [''chat'', ''user'']) (rt_allowed r))"
  have all: "\<forall>(t, c) \<in> set ?chats. t \<in> set (rt_allowed r) \<and> (\<exists>n. storageChatID c = FormatInt n)"
    using assms(2) storageChatID_prefixed by fastforce
  have mem: "(FormatInt n, ''chat'' @ '':'' @ FormatInt n) \<in> set ?chats" using assms(4) by auto
  obtain r' s' where run: "delete_everywhere (se_ingest E) [i] ?chats (r, s) = (Inr (), (r', s'))"
      "\<forall>t c n. (t, c) \<in> set ?chats \<longrightarrow> storageChatID c = FormatInt n \<longrightarrow>
         store_Exists (FormatInt n) i s \<longrightarrow> gone (FormatInt n) i s'"
    using delete_everywhere_gone [OF all assms(3,1)] by blast
  have "gone (FormatInt n) i s'"
    using run(2) mem storageChatID_prefixed [of "''chat''" n] assms(5) by blast
  with run(1) show ?thesis by (simp add: router_dispatch_def deleteSeen_def gone_def)
qed


section \<open>Witnesses\<close>

definition demo_sink :: sink_env where
  "demo_sink = \<lparr>se_unicode = plain_unicode, se_digest = id, se_aead = demo_aead, se_seal = (\<lambda>user. ''42''),
     se_users = (\<lambda>i. Some \<lparr>usr_ID = i, usr_AccessHash = 1, usr_Username = ''bob''\<rparr>),
     se_snapshot = live_settings, se_now = 20 * Second, se_ingest = demo_ingest (20 * Second)\<rparr>"

definition demo_router :: router where
  "demo_router = newScoutUpdateRouter [''100''] 5 True [1]"

definition demo_message :: tg_message where
  "demo_message = \<lparr>msg_ID = 7, msg_Out = False, msg_PeerID = PeerChannel 100, msg_FromID = Some (PeerUser 42),
     msg_Date = 6, msg_EditDate = 0, msg_Message = ''Bikes''\<rparr>"

definition demo_heard :: "router \<times> scout_store" where
  "demo_heard = snd (router_dispatch demo_sink (UpdateNewChannelMessage (Message demo_message)) (demo_router, scouted))"

lemma demo_heard_run:
  "length (db_jobs (ss_db (snd demo_heard))) = 3 \<and> rt_collect (fst demo_heard) \<and> rt_allowed (fst demo_heard) = [''100''] \<and>
   store_Exists ''100'' 7 (snd demo_heard)"
  by code_simp

lemma only_new_messages_of_others_are_answered_witness:
  "length (db_jobs (ss_db (snd demo_heard))) = 3 \<and>
   (\<exists>m. UpdateNewChannelMessage (Message demo_message) = UpdateNewChannelMessage (Message m) \<and>
        allows demo_router (peerID (msg_PeerID m)) \<and> \<not> msg_Out m)"
proof -
  obtain res r' s' where run: "router_dispatch demo_sink (UpdateNewChannelMessage (Message demo_message)) (demo_router, scouted) = (res, (r', s'))"
    by (metis prod_cases3)
  then have heard: "demo_heard = (r', s')" by (simp add: demo_heard_def)
  have three: "length (db_jobs (ss_db s')) = 3"
    using conjunct1 [OF demo_heard_run] unfolding heard snd_conv .
  then have "db_jobs (ss_db s') \<noteq> db_jobs (ss_db scouted)" by (auto simp: scouted_def demo_db_def)
  from only_new_messages_of_others_are_answered [OF run this] conjunct1 [OF demo_heard_run] show ?thesis by auto
qed

lemma private_deletions_reach_channels_witness:
  "\<exists>r s. router_dispatch demo_sink (UpdateDeleteMessages [7]) demo_heard = (Inr (), (r, s)) \<and>
         store_Exists ''100'' 7 (snd demo_heard) \<and> \<not> store_Exists ''100'' 7 s"
proof -
  obtain r0 s0 where h: "demo_heard = (r0, s0)" by fastforce
  have facts: "rt_collect r0" "rt_allowed r0 = [FormatInt 100]" "store_Exists (FormatInt 100) 7 s0"
    using demo_heard_run by (simp_all add: h FormatInt_100)
  then have "\<forall>c \<in> set (rt_allowed r0). \<exists>k. c = FormatInt k" "FormatInt 100 \<in> set (rt_allowed r0)" by auto
  from private_deletions_reach_channels [OF facts(1) this(1) _ this(2) facts(3), of demo_sink] facts(3) show ?thesis
    by (auto simp: h FormatInt_100)
qed

end
