(* ===== verification/CatalogService.thy ===== *)
theory CatalogService
  imports CatalogStore Utf8
begin

text \<open>
  The service of the channel catalogs (internal/usecase/catalogs.go) on the production store. The
  random source of join delays (join_schedule.go) and of identifiers are parameters: \<open>rand k n\<close>
  is the \<open>k\<close>-th draw below \<open>n\<close>.
\<close>

section \<open>Settings of the service\<close>

datatype catalog_error =
    ErrTopicRequired
  | ErrServiceChannelNotFound
  | ErrServiceUnsupportedCatalog
  | ErrChannelRemovalRequested
  | ErrInvalidJoinDelay
  | CatalogSettings settings_error
  | CatalogStoreError db_error

record CatalogService =
  cs_joinInterval :: JoinIntervalRange
  cs_joinIntervalOn :: bool
  cs_joinIntervalErr :: "settings_error option"
  cs_groupRestHours :: int
  cs_groupRestOn :: bool
  cs_groupRestErr :: "settings_error option"

definition NewCatalogService :: CatalogService where
  "NewCatalogService =
     \<lparr>cs_joinInterval = \<lparr>MinMinutes = 10, MaxMinutes = 60\<rparr>, cs_joinIntervalOn = True, cs_joinIntervalErr = None,
      cs_groupRestHours = 36, cs_groupRestOn = True, cs_groupRestErr = None\<rparr>"

definition SetJoinIntervalRange :: "int \<Rightarrow> int \<Rightarrow> CatalogService \<Rightarrow> settings_error option \<times> CatalogService" where
  "SetJoinIntervalRange minMinutes maxMinutes s =
     (case NewJoinIntervalRange minMinutes maxMinutes of
        Inl e \<Rightarrow> (Some e, s\<lparr>cs_joinIntervalErr := Some e\<rparr>)
      | Inr interval \<Rightarrow> (None, s\<lparr>cs_joinInterval := interval, cs_joinIntervalErr := None\<rparr>))"

definition SetJoinIntervalEnabled :: "bool \<Rightarrow> CatalogService \<Rightarrow> CatalogService" where
  "SetJoinIntervalEnabled enabled s = s\<lparr>cs_joinIntervalOn := enabled\<rparr>"

definition SetGroupRestHours :: "int \<Rightarrow> CatalogService \<Rightarrow> settings_error option \<times> CatalogService" where
  "SetGroupRestHours hours s =
     (case ValidateGroupRestHours hours of
        Some e \<Rightarrow> (Some e, s\<lparr>cs_groupRestErr := Some e\<rparr>)
      | None \<Rightarrow> (None, s\<lparr>cs_groupRestHours := hours, cs_groupRestErr := None\<rparr>))"

definition SetGroupRestEnabled :: "bool \<Rightarrow> CatalogService \<Rightarrow> CatalogService" where
  "SetGroupRestEnabled enabled s = s\<lparr>cs_groupRestOn := enabled\<rparr>"

definition currentGroupRestHours :: "CatalogService \<Rightarrow> settings_error + int" where
  "currentGroupRestHours s =
     (if \<not> cs_groupRestOn s then Inr 0
      else case cs_groupRestErr s of Some e \<Rightarrow> Inl e | None \<Rightarrow> Inr (cs_groupRestHours s))"

section \<open>Helpers\<close>

type_synonym catalog_op = "db \<Rightarrow> (catalog_error + Channel list) \<times> db"

definition validateCatalog :: "string \<Rightarrow> bool" where
  "validateCatalog catalog \<longleftrightarrow> catalog = CatalogOutbound \<or> catalog = CatalogScout"

fun unique_from :: "'a list \<Rightarrow> 'a list \<Rightarrow> 'a list" where
  "unique_from seen [] = []"
| "unique_from seen (i # ids) = (if i \<in> set seen then unique_from seen ids else i # unique_from (i # seen) ids)"

definition uniqueIDs :: "ID list \<Rightarrow> ID list" where
  "uniqueIDs ids = unique_from [] ids"

definition list_again :: "string \<Rightarrow> catalog_op" where
  "list_again catalog d = (map_sum CatalogStoreError id (ListCatalog catalog d), d)"

text \<open>A call of the store that ends the operation with its error or the new list.\<close>

definition then_list :: "string \<Rightarrow> (db_error + 'a) \<times> db \<Rightarrow> (catalog_error + Channel list) \<times> db" where
  "then_list catalog r =
     (case r of (Inl e, d) \<Rightarrow> (Inl (CatalogStoreError e), d) | (Inr _, d) \<Rightarrow> list_again catalog d)"

text \<open>The loop of the operations on one channel: the first row of the identifier.\<close>

definition with_channel :: "string \<Rightarrow> ID \<Rightarrow> (Channel list \<Rightarrow> Channel \<Rightarrow> catalog_op) \<Rightarrow> catalog_op" where
  "with_channel catalog i f d =
     (if \<not> validateCatalog catalog then (Inl ErrServiceUnsupportedCatalog, d)
      else case ListCatalog catalog d of
             Inl e \<Rightarrow> (Inl (CatalogStoreError e), d)
           | Inr rows \<Rightarrow>
               (case find (\<lambda>row. chl_ID row = i) rows of
                  None \<Rightarrow> (Inl ErrServiceChannelNotFound, d)
                | Some row \<Rightarrow> f rows row d))"

section \<open>Links and topics\<close>

definition List_channels :: "string \<Rightarrow> catalog_op" where
  "List_channels catalog d =
     (if \<not> validateCatalog catalog then (Inl ErrServiceUnsupportedCatalog, d) else list_again catalog d)"

definition link_key :: "unicode \<Rightarrow> string \<Rightarrow> string" where
  "link_key U link = ToLower U (TrimSpace link)"

definition new_link :: "ID \<times> string \<Rightarrow> time \<Rightarrow> string \<Rightarrow> string \<Rightarrow> Channel" where
  "new_link ids now link topic =
     \<lparr>chl_ID = fst ids, chl_TelegramID = snd ids, chl_Title = link, chl_Link = link, chl_Topic = topic,
      chl_Username = '''', chl_Type = '''', chl_Status = ChannelPaused, chl_Active = False, chl_SentCount = 0,
      chl_MessageCount = 0, chl_LastActivityAt = None, chl_RemovalRequestedAt = None, chl_LastError = '''',
      chl_CreatedAt = now, chl_UpdatedAt = now\<rparr>"

fun add_links ::
  "unicode \<Rightarrow> string \<Rightarrow> string \<Rightarrow> (nat \<Rightarrow> ID \<times> string \<times> time) \<Rightarrow> nat \<Rightarrow> string list \<Rightarrow> string list \<Rightarrow>
     (db, db_error, unit) op" where
  "add_links U catalog topic draw k [] seen d = (Inr (), d)"
| "add_links U catalog topic draw k (link # links) seen d =
     (if TrimSpace link = '''' \<or> link_key U link \<in> set seen then add_links U catalog topic draw k links seen d
      else
        let (i, telegramID, now) = draw k
        in case SaveCatalog now catalog (new_link (i, telegramID) now (TrimSpace link) topic) d of
             (Inl e, d1) \<Rightarrow> (Inl e, d1)
           | (Inr _, d1) \<Rightarrow> add_links U catalog topic draw (Suc k) links (link_key U link # seen) d1)"

text \<open>\<open>draw k\<close> gives the random identifiers and the clock of the \<open>k\<close>-th new link.\<close>

definition AddLinks ::
  "unicode \<Rightarrow> string \<Rightarrow> string list \<Rightarrow> string \<Rightarrow> (nat \<Rightarrow> ID \<times> string \<times> time) \<Rightarrow> catalog_op" where
  "AddLinks U catalog links topic draw d =
     (if \<not> validateCatalog catalog then (Inl ErrServiceUnsupportedCatalog, d)
      else if TrimSpace topic = '''' then (Inl ErrTopicRequired, d)
      else case ListCatalog catalog d of
             Inl e \<Rightarrow> (Inl (CatalogStoreError e), d)
           | Inr rows \<Rightarrow>
               then_list catalog
                 (add_links U catalog (TrimSpace topic) draw 0 links (map (\<lambda>r. link_key U (chl_Link r)) rows) d))"

definition SetTopics :: "time \<Rightarrow> string \<Rightarrow> ID list \<Rightarrow> string \<Rightarrow> catalog_op" where
  "SetTopics now catalog ids topic d =
     (if \<not> validateCatalog catalog then (Inl ErrServiceUnsupportedCatalog, d)
      else if TrimSpace topic = '''' then (Inl ErrTopicRequired, d)
      else then_list catalog (SetCatalogTopics now catalog (uniqueIDs ids) (TrimSpace topic) d))"

definition SetTopic :: "time \<Rightarrow> string \<Rightarrow> ID \<Rightarrow> string \<Rightarrow> catalog_op" where
  "SetTopic now catalog i topic = SetTopics now catalog [i] topic"

section \<open>Removing and switching\<close>

definition Delete_channels :: "time \<Rightarrow> string \<Rightarrow> ID list \<Rightarrow> catalog_op" where
  "Delete_channels now catalog ids d =
     (if \<not> validateCatalog catalog then (Inl ErrServiceUnsupportedCatalog, d)
      else then_list catalog (RequestCatalogRemoval now catalog (uniqueIDs ids) d))"

definition Toggle :: "time \<Rightarrow> string \<Rightarrow> ID \<Rightarrow> bool \<Rightarrow> catalog_op" where
  "Toggle now catalog i active =
     with_channel catalog i (\<lambda>rows row d.
       if active \<and> chl_RemovalRequestedAt row \<noteq> None then (Inl ErrChannelRemovalRequested, d)
       else if chl_Active row = active then (Inr rows, d)
       else then_list catalog (SaveCatalog now catalog (row\<lparr>chl_Active := active, chl_UpdatedAt := now\<rparr>) d))"

definition Leave :: "time \<Rightarrow> string \<Rightarrow> ID \<Rightarrow> catalog_op" where
  "Leave now catalog i =
     with_channel catalog i (\<lambda>rows row d. then_list catalog (RequestCatalogLeave now catalog (chl_ID row) d))"

definition RetryJoin :: "time \<Rightarrow> string \<Rightarrow> ID \<Rightarrow> catalog_op" where
  "RetryJoin now catalog i =
     with_channel catalog i (\<lambda>rows row d.
       if chl_RemovalRequestedAt row \<noteq> None then (Inl ErrChannelRemovalRequested, d)
       else then_list catalog (RetryPendingCatalogMemberships catalog (chl_ID row) now d))"

section \<open>Joining\<close>

text \<open>\<^verbatim>\<open>randomJoinDelaySource.Minutes\<close>\<close>

definition Minutes :: "(nat \<Rightarrow> int \<Rightarrow> int) \<Rightarrow> nat \<Rightarrow> int \<Rightarrow> int \<Rightarrow> int" where
  "Minutes rand k lo hi = lo + rand k (hi - lo + 1)"

definition joining_membership :: "ID \<Rightarrow> ID \<Rightarrow> time \<Rightarrow> int \<Rightarrow> ChannelMembership" where
  "joining_membership accountID channelID dueAt hours =
     \<lparr>mem_AccountID = accountID, mem_ChannelID = channelID, mem_IsMember = False, mem_Status = ''joining'',
      mem_LastCheckAt = None, mem_RequestSubmittedAt = None, mem_JoinedAt = None, mem_JoinNotBefore = Some dueAt,
      mem_RestStartedAt = None, mem_RestUntil = None, mem_RestDurationHours = hours, mem_LastError = ''''\<rparr>"

text \<open>The loop over the accounts; \<open>n\<close> is the number of intents made so far.\<close>

fun join_plan ::
  "(nat \<Rightarrow> int \<Rightarrow> int) \<Rightarrow> JoinIntervalRange option \<Rightarrow> ID \<Rightarrow> int \<Rightarrow> ID list \<Rightarrow> Account list \<Rightarrow> nat \<Rightarrow> time \<Rightarrow>
     catalog_error + ChannelMembership list" where
  "join_plan rand interval channelID hours existing [] n due = Inr []"
| "join_plan rand interval channelID hours existing (a # accounts) n due =
     (if \<not> Eligible a \<or> acc_ID a \<in> set existing then
        join_plan rand interval channelID hours existing accounts n due
      else
        let delay = (case interval of
                       None \<Rightarrow> Some 0
                     | Some r \<Rightarrow>
                         if n = 0 then Some 0
                         else let m = Minutes rand n (MinMinutes r) (MaxMinutes r) in
                              if m < MinMinutes r \<or> MaxMinutes r < m then None else Some m)
        in case delay of
             None \<Rightarrow> Inl ErrInvalidJoinDelay
           | Some m \<Rightarrow>
               map_sum id ((#) (joining_membership (acc_ID a) channelID (due + m * Minute) hours))
                 (join_plan rand interval channelID hours existing accounts (Suc n) (due + m * Minute)))"

definition joiningMemberships ::
  "(nat \<Rightarrow> int \<Rightarrow> int) \<Rightarrow> CatalogService \<Rightarrow> string \<Rightarrow> ID \<Rightarrow> time \<Rightarrow> db \<Rightarrow> catalog_error + ChannelMembership list" where
  "joiningMemberships rand s catalog channelID now d =
     (case (if cs_joinIntervalOn s then cs_joinIntervalErr s else None) of
        Some e \<Rightarrow> Inl (CatalogSettings e)
      | None \<Rightarrow>
          (case currentGroupRestHours s of
             Inl e \<Rightarrow> Inl (CatalogSettings e)
           | Inr hours \<Rightarrow>
               (case listAccounts d of
                  Inl e \<Rightarrow> Inl (CatalogStoreError e)
                | Inr accounts \<Rightarrow>
                    (case ListMemberships catalog channelID d of
                       Inl e \<Rightarrow> Inl (CatalogStoreError e)
                     | Inr memberships \<Rightarrow>
                         join_plan rand (if cs_joinIntervalOn s then Some (cs_joinInterval s) else None) channelID hours
                           (map mem_AccountID memberships) accounts 0 now))))"

definition Join :: "(nat \<Rightarrow> int \<Rightarrow> int) \<Rightarrow> CatalogService \<Rightarrow> time \<Rightarrow> string \<Rightarrow> ID \<Rightarrow> catalog_op" where
  "Join rand s now catalog i =
     with_channel catalog i (\<lambda>rows row d.
       if chl_RemovalRequestedAt row \<noteq> None then (Inl ErrChannelRemovalRequested, d)
       else case joiningMemberships rand s catalog (chl_ID row) now d of
              Inl e \<Rightarrow> (Inl e, d)
            | Inr memberships \<Rightarrow>
                then_list catalog
                  (ActivateCatalogWithMemberships now catalog
                     (row\<lparr>chl_Status := ChannelJoining, chl_UpdatedAt := now\<rparr>) memberships d))"

end
