(* ===== verification/PeerTargets.thy ===== *)
theory PeerTargets
  imports TelegramApi CatalogService
begin

text \<open>
  Resolving and joining the target of a catalog's link (internal/telegram/gotd/sender.go and the
  discussions of updates.go). The state is the log of the requests made so far with the database; the
  Telegram client and the parser of URLs are parameters.
\<close>

section \<open>URLs\<close>

text \<open>
  What the code reads of a parsed URL; \<open>url_invite\<close> is \<^verbatim>\<open>Query().Get("invite")\<close>. Parsing and
  printing (\<^verbatim>\<open>url.Parse\<close>, \<^verbatim>\<open>URL.String\<close>) are parameters.
\<close>

record URL =
  url_Scheme :: string
  url_Host :: string
  url_Path :: string
  url_Fragment :: string
  url_invite :: string

record url_library =
  url_Parse :: "string \<Rightarrow> URL option"
  url_String :: "URL \<Rightarrow> string"

definition trim_slashes :: "string \<Rightarrow> string" where
  "trim_slashes s =
     List.rev (dropWhile (\<lambda>c. c = CHR ''/'') (List.rev (dropWhile (\<lambda>c. c = CHR ''/'') s)))"

definition telegramJoinLink :: "url_library \<Rightarrow> string \<Rightarrow> string" where
  "telegramJoinLink L link =
     (case url_Parse L (TrimSpace link) of
        None \<Rightarrow> TrimSpace link
      | Some u \<Rightarrow> url_String L (u\<lparr>url_Fragment := ''''\<rparr>))"

definition some_hash :: "string \<Rightarrow> string option" where
  "some_hash hash = (if hash = '''' then None else Some hash)"

text \<open>No letter of \<^verbatim>\<open>tg\<close> or \<^verbatim>\<open>join\<close> folds to a letter outside ASCII.\<close>

definition privateInviteHash :: "unicode \<Rightarrow> url_library \<Rightarrow> string \<Rightarrow> string option" where
  "privateInviteHash U L target =
     (case url_Parse L (TrimSpace target) of
        None \<Rightarrow> None
      | Some u \<Rightarrow>
          if AsciiToLower (url_Scheme u) = ''tg'' \<and> AsciiToLower (url_Host u) = ''join''
          then some_hash (TrimSpace (url_invite u))
          else
            let path = trim_slashes (url_Path u) in
            if prefix ''+'' path then some_hash (TrimPrefix path ''+'')
            else if prefix ''joinchat/'' (ToLower U path) then some_hash (drop 9 path)
            else None)"

definition isPrivateInviteLink :: "unicode \<Rightarrow> url_library \<Rightarrow> string \<Rightarrow> bool" where
  "isPrivateInviteLink U L link \<longleftrightarrow> privateInviteHash U L link \<noteq> None"

text \<open>\<^verbatim>\<open>strconv.ParseInt(s, 10, 64)\<close> reports no error.\<close>

definition decimal :: "string \<Rightarrow> nat" where
  "decimal ds = foldl (\<lambda>n c. 10 * n + (of_char c - 48)) 0 ds"

definition ParseInt_ok :: "string \<Rightarrow> bool" where
  "ParseInt_ok s =
     (let sign = take 1 s; ds = (if sign = ''+'' \<or> sign = ''-'' then drop 1 s else s) in
      ds \<noteq> '''' \<and> list_all (is_ascii_between 48 57) ds \<and>
      (decimal ds < 2 ^ 63 \<or> sign = ''-'' \<and> decimal ds = 2 ^ 63))"

definition explicitDiscussionTargetID :: "url_library \<Rightarrow> string \<Rightarrow> string option" where
  "explicitDiscussionTargetID L link =
     (case url_Parse L (TrimSpace link) of
        None \<Rightarrow> None
      | Some u \<Rightarrow>
          if \<not> prefix ''tc-discussion='' (url_Fragment u) then None
          else
            let targetID = TrimPrefix (url_Fragment u) ''tc-discussion='' in
            if \<not> ParseInt_ok targetID then None else Some targetID)"

section \<open>Operations with requests\<close>

datatype member_error =
    MemberRPC tg_error
  | MemberFlood ID duration
  | MemberStore db_error
  | ErrInviteRequired
  | ErrTargetRequired
  | ErrPersistedJoinRequired
  | ErrTargetHasNoChat
  | ErrUnsupportedChat
  | ErrWebConfirmation
  | ErrJoinReturnedNoChat
  | ErrNotAChannel
  | ErrDiscussionNotReturned
  | ErrDiscussionUnavailable
  | ErrPeerDiffers
  | ErrUnsupportedPeer

type_synonym world = "requests \<times> db"

type_synonym 'a action = "world \<Rightarrow> (member_error + 'a) \<times> world"

definition return_ok :: "'a \<Rightarrow> 'a action" where
  "return_ok x w = (Inr x, w)"

definition fail_with :: "member_error \<Rightarrow> 'a action" where
  "fail_with e w = (Inl e, w)"

definition and_then :: "'a action \<Rightarrow> ('a \<Rightarrow> 'b action) \<Rightarrow> 'b action" where
  "and_then m f w = (case m w of (Inl e, w') \<Rightarrow> (Inl e, w') | (Inr x, w') \<Rightarrow> f x w')"

text \<open>\<^verbatim>\<open>result, err := ...; if err != nil\<close>: the handler sees the error.\<close>

definition or_else :: "'a action \<Rightarrow> (member_error \<Rightarrow> 'a action) \<Rightarrow> 'a action" where
  "or_else m h w = (case m w of (Inl e, w') \<Rightarrow> h e w' | (Inr x, w') \<Rightarrow> (Inr x, w'))"

definition call :: "(requests \<Rightarrow> tg_error + 'a) \<Rightarrow> tg_request \<Rightarrow> 'a action" where
  "call answer request w = (map_sum MemberRPC id (answer (fst w)), (request # fst w, snd w))"

definition on_db :: "(db \<Rightarrow> (db_error + 'a) \<times> db) \<Rightarrow> 'a action" where
  "on_db f w = (case f (snd w) of (r, d) \<Rightarrow> (map_sum MemberStore id r, (fst w, d)))"

definition rpc_is :: "member_error \<Rightarrow> string list \<Rightarrow> bool" where
  "rpc_is e types = (case e of MemberRPC r \<Rightarrow> tgerr_Is r types | _ \<Rightarrow> False)"

text \<open>An error of the given types counts as success.\<close>

definition tolerate :: "string list \<Rightarrow> unit action \<Rightarrow> unit action" where
  "tolerate types m = or_else m (\<lambda>e. if rpc_is e types then return_ok () else fail_with e)"

section \<open>Peers\<close>

type_synonym titled_peer = "InputPeer \<times> string"

definition inputPeerFromChat :: "ChatClass \<Rightarrow> member_error + titled_peer" where
  "inputPeerFromChat chat =
     (case chat of
        TgChannel i h title \<Rightarrow> Inr (InputPeerChannel i h, title)
      | TgChat i title \<Rightarrow> Inr (InputPeerChat i, title)
      | ChatOther \<Rightarrow> Inl ErrUnsupportedChat)"

definition first_chat :: "member_error \<Rightarrow> ChatClass list \<Rightarrow> titled_peer action" where
  "first_chat missing chats =
     (case chats of
        [] \<Rightarrow> fail_with missing
      | chat # _ \<Rightarrow> (case inputPeerFromChat chat of Inl e \<Rightarrow> fail_with e | Inr p \<Rightarrow> return_ok p))"

text \<open>The peer when the account is already a member.\<close>

definition checkPrivateInviteMembership ::
  "unicode \<Rightarrow> url_library \<Rightarrow> tg_client \<Rightarrow> string \<Rightarrow> titled_peer option action" where
  "checkPrivateInviteMembership U L C target =
     (case privateInviteHash U L (telegramJoinLink L target) of
        None \<Rightarrow> fail_with ErrInviteRequired
      | Some hash \<Rightarrow>
          and_then (call (\<lambda>log. on_CheckChatInvite C log hash) (MessagesCheckChatInvite hash)) (\<lambda>invite.
            case invite of
              ChatInviteAlready chat \<Rightarrow>
                (case inputPeerFromChat chat of Inl e \<Rightarrow> fail_with e | Inr p \<Rightarrow> return_ok (Some p))
            | ChatInviteOther \<Rightarrow> return_ok None))"

text \<open>The part of a target after its last slash.\<close>

definition after_last_slash :: "string \<Rightarrow> string" where
  "after_last_slash s = List.rev (takeWhile (\<lambda>c. c \<noteq> CHR ''/'') (List.rev s))"

text \<open>\<^verbatim>\<open>resolveTelegramPeer\<close> with \<^verbatim>\<open>userOnly\<close> false, as catalogs use it.\<close>

definition resolveTelegramPeer ::
  "unicode \<Rightarrow> url_library \<Rightarrow> tg_client \<Rightarrow> string \<Rightarrow> titled_peer action" where
  "resolveTelegramPeer U L C link =
     (let target = telegramJoinLink L link in
      if target = '''' then fail_with ErrTargetRequired
      else if privateInviteHash U L target \<noteq> None then
        and_then (checkPrivateInviteMembership U L C target) (\<lambda>already.
          case already of None \<Rightarrow> fail_with ErrPersistedJoinRequired | Some p \<Rightarrow> return_ok p)
      else
        let username = after_last_slash (TrimPrefix target ''@'') in
        and_then (call (\<lambda>log. on_ResolveUsername C log username) (ContactsResolveUsername username))
          (first_chat ErrTargetHasNoChat))"

definition resolveLinkedScoutDiscussion :: "tg_client \<Rightarrow> InputPeer \<Rightarrow> titled_peer option action" where
  "resolveLinkedScoutDiscussion C peer =
     (case peer of
        InputPeerChannel i h \<Rightarrow>
          and_then (call (\<lambda>log. on_GetFullChannel C log i h) (ChannelsGetFullChannel i h)) (\<lambda>(full, chats).
            case full of
              ChannelFull (Some linkedID) \<Rightarrow>
                if linkedID = 0 then return_ok None
                else (case find (\<lambda>chat. case chat of TgChannel j _ _ \<Rightarrow> j = linkedID | _ \<Rightarrow> False) chats of
                        Some (TgChannel j g title) \<Rightarrow>
                          and_then (tolerate [''USER_ALREADY_PARTICIPANT'']
                              (call (\<lambda>log. on_JoinChannel C log j g) (ChannelsJoinChannel j g)))
                            (\<lambda>_. return_ok (Some (InputPeerChannel j g, title)))
                      | _ \<Rightarrow> fail_with ErrDiscussionNotReturned)
            | _ \<Rightarrow> return_ok None)
      | _ \<Rightarrow> return_ok None)"

definition resolveExplicitDiscussionTarget ::
  "url_library \<Rightarrow> tg_client \<Rightarrow> string \<Rightarrow> titled_peer \<Rightarrow> titled_peer action" where
  "resolveExplicitDiscussionTarget L C link parent =
     (case explicitDiscussionTargetID L link of
        None \<Rightarrow> return_ok parent
      | Some wantedID \<Rightarrow>
          and_then (resolveLinkedScoutDiscussion C (fst parent)) (\<lambda>discussion.
            case discussion of
              None \<Rightarrow> fail_with ErrDiscussionUnavailable
            | Some p \<Rightarrow> if inputPeerID (fst p) \<noteq> wantedID then fail_with ErrDiscussionUnavailable else return_ok p))"

section \<open>Joining\<close>

datatype membershipJoinOutcome = MembershipAlreadyJoined | MembershipNewlyJoined

definition joinTelegramPeer ::
  "unicode \<Rightarrow> url_library \<Rightarrow> tg_client \<Rightarrow> string \<Rightarrow> (titled_peer \<times> membershipJoinOutcome) action" where
  "joinTelegramPeer U L C link =
     (let target = telegramJoinLink L link in
      case privateInviteHash U L target of
        None \<Rightarrow> fail_with ErrInviteRequired
      | Some hash \<Rightarrow>
          and_then (checkPrivateInviteMembership U L C target) (\<lambda>already.
            case already of
              Some p \<Rightarrow> return_ok (p, MembershipAlreadyJoined)
            | None \<Rightarrow>
                and_then (call (\<lambda>log. on_ImportChatInvite C log hash) (MessagesImportChatInvite hash)) (\<lambda>joined.
                  case joined of
                    InviteJoinOther \<Rightarrow> fail_with ErrWebConfirmation
                  | InviteJoinOk updates \<Rightarrow>
                      and_then (first_chat ErrJoinReturnedNoChat (updateChats updates))
                        (\<lambda>p. return_ok (p, MembershipNewlyJoined)))))"

definition joinPublicTelegramPeer ::
  "unicode \<Rightarrow> url_library \<Rightarrow> tg_client \<Rightarrow> string \<Rightarrow> (titled_peer \<times> membershipJoinOutcome) action" where
  "joinPublicTelegramPeer U L C link =
     and_then (resolveTelegramPeer U L C link) (\<lambda>p.
       case fst p of
         InputPeerChannel i h \<Rightarrow>
           or_else
             (and_then (call (\<lambda>log. on_JoinChannel C log i h) (ChannelsJoinChannel i h))
               (\<lambda>_. return_ok (p, MembershipNewlyJoined)))
             (\<lambda>e. if rpc_is e [''USER_ALREADY_PARTICIPANT''] then return_ok (p, MembershipAlreadyJoined)
                  else fail_with e)
       | _ \<Rightarrow> fail_with ErrNotAChannel)"

text \<open>The peer, and whether the account takes part in it; other peers than channels are unknown.\<close>

definition checkPublicMembership ::
  "unicode \<Rightarrow> url_library \<Rightarrow> tg_client \<Rightarrow> string \<Rightarrow> titled_peer option action" where
  "checkPublicMembership U L C link =
     and_then (resolveTelegramPeer U L C link) (\<lambda>p.
       case fst p of
         InputPeerChannel i h \<Rightarrow>
           or_else
             (and_then (call (\<lambda>log. on_GetParticipant C log i h) (ChannelsGetParticipant i h))
               (\<lambda>_. return_ok (Some p)))
             (\<lambda>e. if rpc_is e [''USER_NOT_PARTICIPANT'', ''CHANNEL_PRIVATE''] then return_ok None
                  else fail_with e)
       | _ \<Rightarrow> return_ok None)"

end
