(* ===== verification/Membership.thy ===== *)
theory Membership
  imports PeerTargets
begin

text \<open>
  The memberships of one account against Telegram (internal/telegram/gotd/membership.go, and the loops of
  updates.go and sender.go that run it): joining, waiting for approval, leaving, removing. The stores are
  those of CatalogStore, which offer every interface the code asks for.
\<close>

section \<open>Surroundings\<close>

text \<open>
  \<open>me_now\<close> is the clock of the store and of \<^verbatim>\<open>time.Now\<close>, \<open>me_checkedAt\<close> the time handed to a run,
  \<open>me_flood\<close> is \<^verbatim>\<open>tgerr.AsFloodWait\<close> and \<open>me_text\<close> the text of an error.
\<close>

record member_env =
  me_client :: tg_client
  me_urls :: url_library
  me_unicode :: unicode
  me_flood :: "tg_error \<Rightarrow> duration option"
  me_text :: "member_error \<Rightarrow> string"
  me_now :: time
  me_checkedAt :: time

definition accountRPCError :: "member_env \<Rightarrow> ID \<Rightarrow> member_error \<Rightarrow> member_error" where
  "accountRPCError E accountID e =
     (case e of
        MemberFlood i d \<Rightarrow> MemberFlood accountID d
      | MemberRPC r \<Rightarrow> (case me_flood E r of Some d \<Rightarrow> MemberFlood accountID d | None \<Rightarrow> e)
      | _ \<Rightarrow> e)"

definition isInviteRequestSent :: "member_error \<Rightarrow> bool" where
  "isInviteRequestSent e \<longleftrightarrow> rpc_is e [''INVITE_REQUEST_SENT'']"

definition isTerminalInviteHashError :: "member_error \<Rightarrow> bool" where
  "isTerminalInviteHashError e \<longleftrightarrow> rpc_is e [''INVITE_HASH_INVALID'', ''INVITE_HASH_EXPIRED'']"

abbreviation membershipJoining :: string where "membershipJoining \<equiv> ''joining''"
abbreviation membershipPendingApproval :: string where "membershipPendingApproval \<equiv> ''pending_approval''"
abbreviation membershipMember :: string where "membershipMember \<equiv> ''member''"
abbreviation membershipLeaving :: string where "membershipLeaving \<equiv> ''leaving''"

section \<open>Intents\<close>

definition load_membership :: "ID \<Rightarrow> string \<Rightarrow> ID \<Rightarrow> ChannelMembership option action" where
  "load_membership accountID catalog channelID = on_db (\<lambda>d. (LoadMembership accountID catalog channelID d, d))"

text \<open>A join that is not due yet counts as not found.\<close>

definition not_before :: "ChannelMembership \<Rightarrow> time \<Rightarrow> bool" where
  "not_before m t \<longleftrightarrow> (case mem_JoinNotBefore m of None \<Rightarrow> False | Some u \<Rightarrow> After u t)"

definition loadAccountMembershipIntent ::
  "member_env \<Rightarrow> ID \<Rightarrow> string \<Rightarrow> Channel \<Rightarrow> ChannelMembership option action" where
  "loadAccountMembershipIntent E accountID catalog row =
     and_then (load_membership accountID catalog (chl_ID row)) (\<lambda>found.
       case found of
         None \<Rightarrow> return_ok None
       | Some m \<Rightarrow>
           if mem_Status m = membershipJoining \<and> not_before m (me_now E) then return_ok None
           else return_ok (Some m))"

definition loadOrCreateAccountMembership ::
  "member_env \<Rightarrow> ID \<Rightarrow> string \<Rightarrow> Channel \<Rightarrow> ChannelMembership option action" where
  "loadOrCreateAccountMembership E accountID catalog row =
     and_then (loadAccountMembershipIntent E accountID catalog row) (\<lambda>found.
       case found of
         None \<Rightarrow> return_ok None
       | Some m \<Rightarrow>
           if \<not> mem_IsMember m \<and> mem_Status m \<noteq> membershipJoining then return_ok None else return_ok (Some m))"

record membershipTransition =
  tr_membership :: ChannelMembership
  tr_peer :: "titled_peer option"
  tr_changed :: bool

definition no_transition :: "ChannelMembership \<Rightarrow> membershipTransition" where
  "no_transition m = \<lparr>tr_membership = m, tr_peer = None, tr_changed = False\<rparr>"

definition markMember :: "time \<Rightarrow> membershipJoinOutcome \<Rightarrow> membershipTransition \<Rightarrow> membershipTransition" where
  "markMember checkedAt outcome t =
     (let m = (tr_membership t)\<lparr>mem_IsMember := True, mem_Status := membershipMember,
                               mem_LastCheckAt := Some checkedAt\<rparr>;
          joined = (if outcome = MembershipNewlyJoined \<and> mem_JoinedAt m = None
                    then
                      let j = m\<lparr>mem_JoinedAt := Some checkedAt\<rparr> in
                      if ValidateGroupRestHours (mem_RestDurationHours j) = None
                      then j\<lparr>mem_RestStartedAt := Some checkedAt,
                             mem_RestUntil := Some (checkedAt + mem_RestDurationHours j * Hour)\<rparr>
                      else j
                    else m)
      in t\<lparr>tr_membership := joined\<lparr>mem_LastError := ''''\<rparr>, tr_changed := True\<rparr>)"

definition join_sent :: "time \<Rightarrow> ChannelMembership \<Rightarrow> ChannelMembership" where
  "join_sent checkedAt m =
     m\<lparr>mem_IsMember := False, mem_Status := membershipPendingApproval, mem_LastCheckAt := Some checkedAt,
       mem_RequestSubmittedAt := coalesce (mem_RequestSubmittedAt m) (Some checkedAt), mem_LastError := ''''\<rparr>"

definition join_target :: "member_env \<Rightarrow> string \<Rightarrow> (titled_peer \<times> membershipJoinOutcome) action" where
  "join_target E link =
     (if isPrivateInviteLink (me_unicode E) (me_urls E) link
      then joinTelegramPeer (me_unicode E) (me_urls E) (me_client E) link
      else joinPublicTelegramPeer (me_unicode E) (me_urls E) (me_client E) link)"

definition check_target :: "member_env \<Rightarrow> string \<Rightarrow> titled_peer option action" where
  "check_target E link =
     (if isPrivateInviteLink (me_unicode E) (me_urls E) link
      then checkPrivateInviteMembership (me_unicode E) (me_urls E) (me_client E) link
      else checkPublicMembership (me_unicode E) (me_urls E) (me_client E) link)"

definition reconcileMembershipIntent ::
  "member_env \<Rightarrow> Channel \<Rightarrow> ChannelMembership \<Rightarrow> membershipTransition action" where
  "reconcileMembershipIntent E row m =
     (if mem_Status m = membershipJoining then
        if not_before m (me_checkedAt E) then return_ok (no_transition m)
        else
          or_else
            (and_then (join_target E (chl_Link row)) (\<lambda>(peer, outcome).
               return_ok (markMember (me_checkedAt E) outcome ((no_transition m)\<lparr>tr_peer := Some peer\<rparr>))))
            (\<lambda>e. if \<not> isInviteRequestSent e then fail_with e
                 else return_ok \<lparr>tr_membership = join_sent (me_checkedAt E) m, tr_peer = None, tr_changed = True\<rparr>)
      else if mem_Status m = membershipPendingApproval then
        and_then (check_target E (chl_Link row)) (\<lambda>already.
          let t = \<lparr>tr_membership = m\<lparr>mem_LastCheckAt := Some (me_checkedAt E), mem_LastError := ''''\<rparr>,
                   tr_peer = None, tr_changed = True\<rparr>
          in case already of
               None \<Rightarrow> return_ok t
             | Some peer \<Rightarrow> return_ok (markMember (me_checkedAt E) MembershipNewlyJoined (t\<lparr>tr_peer := Some peer\<rparr>)))
      else return_ok (no_transition m))"

section \<open>Leaving\<close>

definition leave_peer :: "member_env \<Rightarrow> InputPeer \<Rightarrow> unit action" where
  "leave_peer E peer =
     tolerate [''USER_NOT_PARTICIPANT'']
       (case peer of
          InputPeerChannel i h \<Rightarrow> call (\<lambda>log. on_LeaveChannel (me_client E) log i h) (ChannelsLeaveChannel i h)
        | InputPeerChat i \<Rightarrow> call (\<lambda>log. on_DeleteChatUser (me_client E) log i) (MessagesDeleteChatUser i)
        | _ \<Rightarrow> fail_with ErrUnsupportedPeer)"

text \<open>True when the membership may be deleted.\<close>

definition reconcileRemovalMembership :: "member_env \<Rightarrow> Channel \<Rightarrow> ChannelMembership \<Rightarrow> bool action" where
  "reconcileRemovalMembership E row m =
     (if mem_Status m = membershipPendingApproval then return_ok False
      else if \<not> mem_IsMember m then return_ok True
      else
        and_then (resolveTelegramPeer (me_unicode E) (me_urls E) (me_client E) (chl_Link row)) (\<lambda>parent.
        and_then (resolveExplicitDiscussionTarget (me_urls E) (me_client E) (chl_Link row) parent) (\<lambda>p.
          if chl_TelegramID row \<noteq> '''' \<and> inputPeerID (fst p) \<noteq> chl_TelegramID row then fail_with ErrPeerDiffers
          else and_then (leave_peer E (fst p)) (\<lambda>_. return_ok True))))"

definition reconcileLeavingMembership ::
  "member_env \<Rightarrow> Channel \<Rightarrow> ChannelMembership \<Rightarrow> (membershipTransition \<times> bool) action" where
  "reconcileLeavingMembership E row m =
     (if mem_IsMember m then
        and_then (reconcileRemovalMembership E row m) (\<lambda>terminal. return_ok (no_transition m, terminal))
      else if mem_RequestSubmittedAt m = None then return_ok (no_transition m, True)
      else
        and_then (reconcileMembershipIntent E row (m\<lparr>mem_Status := membershipPendingApproval\<rparr>)) (\<lambda>t.
          let left = t\<lparr>tr_membership := (tr_membership t)\<lparr>mem_Status := membershipLeaving\<rparr>, tr_changed := True\<rparr> in
          if \<not> mem_IsMember (tr_membership left) then return_ok (left, False)
          else and_then (reconcileRemovalMembership E row (tr_membership left))
                 (\<lambda>terminal. return_ok (left, terminal))))"

section \<open>One channel of a catalog\<close>

definition save_membership :: "string \<Rightarrow> ChannelMembership \<Rightarrow> unit action" where
  "save_membership catalog m = on_db (SaveMembership catalog m)"

definition save_channel :: "member_env \<Rightarrow> string \<Rightarrow> Channel \<Rightarrow> unit action" where
  "save_channel E catalog row = on_db (SaveCatalog (me_now E) catalog row)"

definition failed_check :: "member_env \<Rightarrow> member_error \<Rightarrow> ChannelMembership \<Rightarrow> ChannelMembership" where
  "failed_check E e m = m\<lparr>mem_LastCheckAt := Some (me_checkedAt E), mem_LastError := me_text E e\<rparr>"

definition with_peer :: "Channel \<Rightarrow> titled_peer \<Rightarrow> Channel" where
  "with_peer row p =
     row\<lparr>chl_TelegramID := inputPeerID (fst p), chl_Title := (if snd p \<noteq> '''' then snd p else chl_Title row)\<rparr>"

text \<open>\<open>None\<close> is a \<^verbatim>\<open>continue\<close> of the loop.\<close>

definition save_changed :: "string \<Rightarrow> membershipTransition \<Rightarrow> unit action" where
  "save_changed catalog t = (if tr_changed t then save_membership catalog (tr_membership t) else return_ok ())"

definition approval_checked ::
  "member_env \<Rightarrow> ID \<Rightarrow> string \<Rightarrow> Channel \<Rightarrow> membershipTransition \<Rightarrow> (Channel \<times> ChannelMembership) option action" where
  "approval_checked E accountID catalog row t =
     (if mem_Status (tr_membership t) = membershipPendingApproval
      then and_then (save_changed catalog t) (\<lambda>_. return_ok None)
      else
        and_then
          (or_else (resolveExplicitDiscussionTarget (me_urls E) (me_client E) (chl_Link row) (the (tr_peer t)))
            (\<lambda>e. fail_with (accountRPCError E accountID e)))
          (\<lambda>p.
            let named = (with_peer row p)\<lparr>chl_UpdatedAt := me_checkedAt E\<rparr> in
            and_then (save_channel E catalog named) (\<lambda>_.
            and_then (save_changed catalog t) (\<lambda>_. return_ok (Some (named, tr_membership t))))))"

definition await_approval ::
  "member_env \<Rightarrow> ID \<Rightarrow> string \<Rightarrow> Channel \<Rightarrow> ChannelMembership \<Rightarrow> (Channel \<times> ChannelMembership) option action" where
  "await_approval E accountID catalog row m =
     and_then
       (or_else
         (and_then (reconcileMembershipIntent E row m) (\<lambda>t. return_ok (Some t)))
         (\<lambda>e. and_then (save_membership catalog (failed_check E e m)) (\<lambda>_.
                if isTerminalInviteHashError e then return_ok None else fail_with (accountRPCError E accountID e))))
       (\<lambda>checked. case checked of None \<Rightarrow> return_ok None | Some t \<Rightarrow> approval_checked E accountID catalog row t)"

definition removal_failed :: "member_env \<Rightarrow> member_error \<Rightarrow> ChannelMembership \<Rightarrow> ChannelMembership" where
  "removal_failed E e m =
     (let checked = failed_check E e m in
      if mem_Status checked \<noteq> membershipPendingApproval then checked\<lparr>mem_Status := ''error''\<rparr> else checked)"

text \<open>Leaving, forgetting the membership, and the removal when it was the last one.\<close>

definition remove_membership ::
  "member_env \<Rightarrow> ID \<Rightarrow> string \<Rightarrow> Channel \<Rightarrow> ChannelMembership \<Rightarrow> Channel action" where
  "remove_membership E accountID catalog row m =
     and_then
       (or_else (reconcileRemovalMembership E row m)
         (\<lambda>e. and_then (save_membership catalog (removal_failed E e m)) (\<lambda>_. fail_with (accountRPCError E accountID e))))
       (\<lambda>terminal.
         if \<not> terminal then return_ok row
         else
           and_then (on_db (DeleteMembership catalog accountID (chl_ID row))) (\<lambda>_.
           and_then (on_db (CompleteCatalogRemoval (me_now E) catalog (chl_ID row))) (\<lambda>_. return_ok row)))"

text \<open>The row of a channel that is being removed.\<close>

definition removal_step :: "member_env \<Rightarrow> ID \<Rightarrow> string \<Rightarrow> Channel \<Rightarrow> Channel action" where
  "removal_step E accountID catalog row =
     and_then (load_membership accountID catalog (chl_ID row)) (\<lambda>found.
       case found of
         None \<Rightarrow>
           and_then (on_db (CompleteCatalogRemoval (me_now E) catalog (chl_ID row))) (\<lambda>_. return_ok row)
       | Some m \<Rightarrow>
           and_then
             (if mem_Status m = membershipPendingApproval then await_approval E accountID catalog row m
              else return_ok (Some (row, m)))
             (\<lambda>current.
               case current of
                 None \<Rightarrow> return_ok row
               | Some (row, m) \<Rightarrow> remove_membership E accountID catalog row m))"

text \<open>The row of a channel the account is leaving.\<close>

definition leaving_step :: "member_env \<Rightarrow> ID \<Rightarrow> string \<Rightarrow> Channel \<Rightarrow> ChannelMembership \<Rightarrow> Channel action" where
  "leaving_step E accountID catalog row m =
     and_then
       (or_else (reconcileLeavingMembership E row m)
         (\<lambda>e. and_then (save_membership catalog (failed_check E e m)) (\<lambda>_. fail_with (accountRPCError E accountID e))))
       (\<lambda>(t, terminal).
         if terminal then and_then (on_db (DeleteMembership catalog accountID (chl_ID row))) (\<lambda>_. return_ok row)
         else and_then (save_changed catalog t) (\<lambda>_. return_ok row))"

definition isDerivedScoutDiscussion :: "Channel \<Rightarrow> bool" where
  "isDerivedScoutDiscussion row \<longleftrightarrow> prefix ''discussion:'' (chl_ID row)"

text \<open>The row of any other channel, with the peer when the account is a member of it now.\<close>

definition intent_step ::
  "member_env \<Rightarrow> ID \<Rightarrow> string \<Rightarrow> ID list \<Rightarrow> Channel \<Rightarrow> (Channel \<times> InputPeer option) action" where
  "intent_step E accountID catalog assigned row =
     (if isDerivedScoutDiscussion row then return_ok (row, None)
      else if chl_Active row \<and> chl_ID row \<notin> set assigned then return_ok (row, None)
      else
        and_then (loadAccountMembershipIntent E accountID catalog row) (\<lambda>found.
          case found of
            None \<Rightarrow> return_ok (row, None)
          | Some m \<Rightarrow>
              if mem_Status m \<noteq> membershipJoining \<and> mem_Status m \<noteq> membershipPendingApproval
              then return_ok (row, None)
              else
                and_then
                  (or_else (reconcileMembershipIntent E row m) (\<lambda>e. fail_with (accountRPCError E accountID e)))
                  (\<lambda>t.
                    and_then (save_changed catalog t) (\<lambda>_.
                      case tr_peer t of
                        None \<Rightarrow> return_ok (row, None)
                      | Some peer \<Rightarrow>
                          if \<not> mem_IsMember (tr_membership t) \<or> mem_Status (tr_membership t) \<noteq> membershipMember
                          then return_ok (row, None)
                          else
                            and_then
                              (or_else
                                (resolveExplicitDiscussionTarget (me_urls E) (me_client E) (chl_Link row) peer)
                                (\<lambda>e. fail_with (accountRPCError E accountID e)))
                              (\<lambda>p.
                                let named = (with_peer row p)\<lparr>chl_Status := ChannelReady,
                                                              chl_UpdatedAt := me_checkedAt E\<rparr> in
                                and_then (save_channel E catalog named)
                                  (\<lambda>_. return_ok (named, Some (fst p))))))))"

definition reconcile_row ::
  "member_env \<Rightarrow> ID \<Rightarrow> string \<Rightarrow> ID list \<Rightarrow> Channel \<Rightarrow> (Channel \<times> InputPeer option) action" where
  "reconcile_row E accountID catalog assigned row =
     (if chl_RemovalRequestedAt row \<noteq> None then
        and_then (removal_step E accountID catalog row) (\<lambda>row. return_ok (row, None))
      else
        and_then (load_membership accountID catalog (chl_ID row)) (\<lambda>found.
          case found of
            Some m \<Rightarrow>
              if mem_Status m = membershipLeaving
              then and_then (leaving_step E accountID catalog row m) (\<lambda>row. return_ok (row, None))
              else intent_step E accountID catalog assigned row
          | None \<Rightarrow> intent_step E accountID catalog assigned row))"

section \<open>The loops\<close>

fun reconcileCatalogMembershipIntents ::
  "member_env \<Rightarrow> ID \<Rightarrow> string \<Rightarrow> ID list \<Rightarrow> Channel list \<Rightarrow> (Channel list \<times> (ID \<times> InputPeer) list) action" where
  "reconcileCatalogMembershipIntents E accountID catalog assigned [] = return_ok ([], [])"
| "reconcileCatalogMembershipIntents E accountID catalog assigned (row # rows) =
     and_then (reconcile_row E accountID catalog assigned row) (\<lambda>(row', peer).
     and_then (reconcileCatalogMembershipIntents E accountID catalog assigned rows) (\<lambda>(rows', peers).
       return_ok (row' # rows',
         (case peer of None \<Rightarrow> peers | Some p \<Rightarrow> (chl_ID row', p) # peers))))"

definition otherCatalog :: "string \<Rightarrow> string" where
  "otherCatalog catalog = (if catalog = CatalogOutbound then CatalogScout else CatalogOutbound)"

definition reconcile_catalog ::
  "member_env \<Rightarrow> ID \<Rightarrow> (string \<Rightarrow> ID list) \<Rightarrow> string \<Rightarrow> (Channel list \<times> (ID \<times> InputPeer) list) action" where
  "reconcile_catalog E accountID assignments catalog =
     and_then (on_db (\<lambda>d. (ListCatalog catalog d, d)))
       (reconcileCatalogMembershipIntents E accountID catalog (assignments catalog))"

text \<open>The catalog of the account's role first, then the other one.\<close>

definition reconcileMemberships ::
  "member_env \<Rightarrow> member_env \<Rightarrow> ID \<Rightarrow> (string \<Rightarrow> ID list) \<Rightarrow> string \<Rightarrow>
     ((Channel list \<times> (ID \<times> InputPeer) list) \<times> (Channel list \<times> (ID \<times> InputPeer) list)) action" where
  "reconcileMemberships E E' accountID assignments primaryCatalog =
     and_then (reconcile_catalog E accountID assignments primaryCatalog) (\<lambda>primary.
     and_then (reconcile_catalog E' accountID assignments (otherCatalog primaryCatalog)) (\<lambda>other.
       return_ok (primary, other)))"

text \<open>The registration of a sender joins what is due in the active channels (\<^verbatim>\<open>Register\<close>).\<close>

definition register_row :: "member_env \<Rightarrow> ID \<Rightarrow> Channel \<Rightarrow> unit action" where
  "register_row E accountID row =
     (if \<not> chl_Active row then return_ok ()
      else
        and_then (loadAccountMembershipIntent E accountID CatalogOutbound row) (\<lambda>found.
          case found of
            None \<Rightarrow> return_ok ()
          | Some m \<Rightarrow>
              and_then (or_else (reconcileMembershipIntent E row m) (\<lambda>e. fail_with (accountRPCError E accountID e)))
                (\<lambda>t.
                  and_then (save_changed CatalogOutbound t)
                    (\<lambda>_.
                      if \<not> mem_IsMember (tr_membership t) \<or> mem_Status (tr_membership t) \<noteq> membershipMember
                      then return_ok ()
                      else
                        and_then
                          (or_else
                            (and_then
                              (case tr_peer t of
                                 Some peer \<Rightarrow> return_ok peer
                               | None \<Rightarrow> resolveTelegramPeer (me_unicode E) (me_urls E) (me_client E) (chl_Link row))
                              (resolveExplicitDiscussionTarget (me_urls E) (me_client E) (chl_Link row)))
                            (\<lambda>e. fail_with (accountRPCError E accountID e)))
                          (\<lambda>p. save_channel E CatalogOutbound ((with_peer row p)\<lparr>chl_Status := ChannelReady\<rparr>))))))"

fun register_rows :: "member_env \<Rightarrow> ID \<Rightarrow> Channel list \<Rightarrow> unit action" where
  "register_rows E accountID [] = return_ok ()"
| "register_rows E accountID (row # rows) =
     and_then (register_row E accountID row) (\<lambda>_. register_rows E accountID rows)"

definition Register :: "member_env \<Rightarrow> string \<Rightarrow> ID \<Rightarrow> unit action" where
  "Register E role accountID =
     (if role \<noteq> AccountRoleSpammer then return_ok ()
      else and_then (on_db (\<lambda>d. (ListCatalog CatalogOutbound d, d))) (register_rows E accountID))"

end
