(* ===== verification/Activator.thy ===== *)
theory Activator
  imports Membership UpdateRouter
begin

text \<open>
  What a connected account listens to (\<^verbatim>\<open>UpdateActivator\<close> of internal/telegram/gotd/updates.go and
  \<^verbatim>\<open>ProductionActivator\<close> of sender.go): the reconciliation of its memberships, the chats its router
  watches, and the discussions of scouted channels. The clock the activator reads is
  \<open>me_checkedAt\<close> of the surroundings of each stage.
\<close>

section \<open>Discussions of scouted channels\<close>

abbreviation ChannelError :: string where "ChannelError \<equiv> ''error''"
abbreviation ChannelFloodWait :: string where "ChannelFloodWait \<equiv> ''flood_wait''"

definition derivedScoutDiscussionFor :: "Channel list \<Rightarrow> ID \<Rightarrow> Channel option" where
  "derivedScoutDiscussionFor rows sourceID =
     find (\<lambda>row. prefix (''discussion:'' @ sourceID @ '':'') (chl_ID row)) rows"

definition synchronizeDerivedScoutDiscussion :: "Channel \<Rightarrow> Channel \<Rightarrow> time \<Rightarrow> Channel \<times> bool" where
  "synchronizeDerivedScoutDiscussion discussion source now =
     (let status = (if \<not> chl_Active source then ChannelPaused
                    else if chl_Status discussion = ChannelPaused then ChannelReady else chl_Status discussion);
          changed = (chl_Topic discussion \<noteq> chl_Topic source \<or> chl_Active discussion \<noteq> chl_Active source \<or>
                     chl_Status discussion \<noteq> status)
      in (discussion\<lparr>chl_Topic := chl_Topic source, chl_Active := chl_Active source, chl_Status := status,
                     chl_UpdatedAt := (if changed then now else chl_UpdatedAt discussion)\<rparr>, changed))"

definition derivedScoutDiscussionMember :: "ID \<Rightarrow> Channel option \<Rightarrow> bool action" where
  "derivedScoutDiscussionMember accountID discussion =
     (case discussion of
        None \<Rightarrow> return_ok False
      | Some d \<Rightarrow>
          if \<not> chl_Active d \<or> chl_TelegramID d = '''' then return_ok False
          else and_then (load_membership accountID CatalogScout (chl_ID d)) (\<lambda>found.
                 case found of
                   None \<Rightarrow> return_ok False
                 | Some m \<Rightarrow> return_ok (mem_IsMember m \<and> mem_Status m = membershipMember)))"

definition discussion_title :: "Channel \<Rightarrow> string \<Rightarrow> string" where
  "discussion_title source title = (if title = '''' then chl_Title source else title)"

definition derivedScoutDiscussion :: "Channel \<Rightarrow> titled_peer \<Rightarrow> time \<Rightarrow> Channel" where
  "derivedScoutDiscussion source p now =
     (let telegramID = inputPeerID (fst p) in
      \<lparr>chl_ID = ''discussion:'' @ chl_ID source @ '':'' @ telegramID, chl_TelegramID = telegramID,
       chl_Title = discussion_title source (snd p), chl_Link = chl_Link source @ ''#tc-discussion='' @ telegramID,
       chl_Topic = chl_Topic source, chl_Username = '''', chl_Type = '''', chl_Status = ChannelReady,
       chl_Active = chl_Active source, chl_SentCount = 0, chl_MessageCount = 0, chl_LastActivityAt = None,
       chl_RemovalRequestedAt = None, chl_LastError = '''', chl_CreatedAt = now, chl_UpdatedAt = now\<rparr>)"

definition refreshDerivedScoutDiscussion :: "Channel \<Rightarrow> Channel \<Rightarrow> titled_peer \<Rightarrow> time \<Rightarrow> Channel" where
  "refreshDerivedScoutDiscussion existing source p now =
     (let telegramID = inputPeerID (fst p);
          kept = existing\<lparr>chl_TelegramID := telegramID, chl_Title := discussion_title source (snd p),
                          chl_Link := chl_Link source @ ''#tc-discussion='' @ telegramID,
                          chl_Topic := chl_Topic source, chl_Active := chl_Active source, chl_UpdatedAt := now\<rparr>
      in if chl_Active source then kept\<lparr>chl_Status := ChannelReady, chl_LastError := ''''\<rparr>
         else kept\<lparr>chl_Status := ChannelPaused\<rparr>)"

definition markScoutDiscussionError :: "member_env \<Rightarrow> Channel \<Rightarrow> member_error \<Rightarrow> Channel" where
  "markScoutDiscussionError E channel cause =
     channel\<lparr>chl_Status := (case accountRPCError E '''' cause of MemberFlood i d \<Rightarrow> ChannelFloodWait | _ \<Rightarrow> ChannelError),
             chl_LastError := me_text E cause, chl_UpdatedAt := me_checkedAt E\<rparr>"

definition discussion_membership :: "ID \<Rightarrow> Channel \<Rightarrow> ChannelMembership" where
  "discussion_membership accountID discussion =
     \<lparr>mem_AccountID = accountID, mem_ChannelID = chl_ID discussion, mem_IsMember = True, mem_Status = membershipMember,
      mem_LastCheckAt = Some (chl_UpdatedAt discussion), mem_RequestSubmittedAt = None, mem_JoinedAt = None,
      mem_JoinNotBefore = None, mem_RestStartedAt = None, mem_RestUntil = None, mem_RestDurationHours = 0,
      mem_LastError = ''''\<rparr>"

text \<open>The chat of the discussion to watch, if there is one; a failure is kept in the catalog.\<close>

definition linked_discussion ::
  "member_env \<Rightarrow> ID \<Rightarrow> Channel \<Rightarrow> InputPeer \<Rightarrow> Channel option \<Rightarrow> string list action" where
  "linked_discussion E accountID row peer derived w =
     (case resolveLinkedScoutDiscussion (me_client E) peer w of
        (Inl e, w1) \<Rightarrow>
          and_then
            (save_channel E CatalogScout
              (markScoutDiscussionError E (case derived of None \<Rightarrow> row | Some d \<Rightarrow> d) e)) (\<lambda>_. return_ok []) w1
      | (Inr None, w1) \<Rightarrow> return_ok [] w1
      | (Inr (Some p), w1) \<Rightarrow>
          let now = me_checkedAt E;
              discussion = (case derived of
                              None \<Rightarrow> derivedScoutDiscussion row p now
                            | Some d \<Rightarrow> refreshDerivedScoutDiscussion d row p now)
          in and_then (save_channel E CatalogScout discussion) (\<lambda>_.
             and_then (save_membership CatalogScout (discussion_membership accountID discussion)) (\<lambda>_.
               return_ok [chl_TelegramID discussion])) w1)"

definition watch_discussion ::
  "member_env \<Rightarrow> ID \<Rightarrow> Channel \<Rightarrow> InputPeer option \<Rightarrow> Channel option \<Rightarrow> string list action" where
  "watch_discussion E accountID row peer derived =
     and_then (derivedScoutDiscussionMember accountID derived) (\<lambda>ready.
       if ready then return_ok [chl_TelegramID (the derived)]
       else
         and_then
           (case peer of
              Some p \<Rightarrow> return_ok p
            | None \<Rightarrow>
                or_else
                  (and_then (resolveTelegramPeer (me_unicode E) (me_urls E) (me_client E) (chl_Link row))
                    (\<lambda>p. return_ok (fst p)))
                  (\<lambda>e. fail_with (accountRPCError E accountID e)))
           (\<lambda>p. linked_discussion E accountID row p derived))"

section \<open>Watched chats\<close>

definition copyResolvedPeerToOutbound :: "member_env \<Rightarrow> Channel \<Rightarrow> unit action" where
  "copyResolvedPeerToOutbound E row =
     and_then (on_db (\<lambda>d. (ListCatalog CatalogOutbound d, d))) (\<lambda>outboundRows.
       foldr (\<lambda>outbound rest.
           if chl_Link outbound \<noteq> chl_Link row then rest
           else and_then
                  (save_channel E CatalogOutbound
                    (outbound\<lparr>chl_TelegramID := chl_TelegramID row, chl_Title := chl_Title row,
                              chl_UpdatedAt := chl_UpdatedAt row\<rparr>))
                  (\<lambda>_. rest))
         outboundRows (return_ok ()))"

text \<open>A row whose stored peer is no number is resolved first.\<close>

definition resolve_row ::
  "member_env \<Rightarrow> ID \<Rightarrow> string \<Rightarrow> Channel \<Rightarrow> InputPeer option \<Rightarrow> (Channel \<times> InputPeer option) action" where
  "resolve_row E accountID catalog row peer =
     (if ParseInt_ok (chl_TelegramID row) then return_ok (row, peer)
      else
        and_then
          (or_else
            (and_then (resolveTelegramPeer (me_unicode E) (me_urls E) (me_client E) (chl_Link row))
              (resolveExplicitDiscussionTarget (me_urls E) (me_client E) (chl_Link row)))
            (\<lambda>e. fail_with (accountRPCError E accountID e)))
          (\<lambda>p.
            let named = (with_peer row p)\<lparr>chl_Status := ChannelReady, chl_UpdatedAt := me_checkedAt E\<rparr> in
            and_then (save_channel E catalog named) (\<lambda>_.
            and_then (if catalog = CatalogScout then copyResolvedPeerToOutbound E named else return_ok ()) (\<lambda>_.
              return_ok (named, Some (fst p))))))"

definition synchronise_discussion ::
  "member_env \<Rightarrow> string \<Rightarrow> Channel list \<Rightarrow> Channel \<Rightarrow> Channel option action" where
  "synchronise_discussion E catalog rows row =
     (case (if catalog = CatalogScout then derivedScoutDiscussionFor rows (chl_ID row) else None) of
        None \<Rightarrow> return_ok None
      | Some existing \<Rightarrow>
          (case synchronizeDerivedScoutDiscussion existing row (me_checkedAt E) of
             (synchronized, changed) \<Rightarrow>
               and_then (if changed then save_channel E catalog synchronized else return_ok ())
                 (\<lambda>_. return_ok (Some synchronized))))"

text \<open>The chats one row of the catalog adds.\<close>

definition watch_row ::
  "member_env \<Rightarrow> ID \<Rightarrow> string \<Rightarrow> ID list \<Rightarrow> (ID \<times> InputPeer) list \<Rightarrow> Channel list \<Rightarrow> Channel \<Rightarrow> string list action" where
  "watch_row E accountID catalog assigned peers rows row =
     (if chl_ID row \<notin> set assigned \<or> chl_TelegramID row = '''' then return_ok []
      else if catalog = CatalogScout \<and> isDerivedScoutDiscussion row then return_ok []
      else
        and_then (synchronise_discussion E catalog rows row) (\<lambda>derived.
          if \<not> chl_Active row then return_ok []
          else
            and_then (loadOrCreateAccountMembership E accountID catalog row) (\<lambda>member.
              case member of
                None \<Rightarrow> return_ok []
              | Some m \<Rightarrow>
                  and_then (resolve_row E accountID catalog row (map_of peers (chl_ID row))) (\<lambda>(row, peer).
                  and_then
                    (if catalog = CatalogScout then watch_discussion E accountID row peer derived else return_ok [])
                    (\<lambda>discussions. return_ok (discussions @ [chl_TelegramID row]))))))"

fun watch_rows ::
  "member_env \<Rightarrow> ID \<Rightarrow> string \<Rightarrow> ID list \<Rightarrow> (ID \<times> InputPeer) list \<Rightarrow> Channel list \<Rightarrow> Channel list \<Rightarrow> string list action" where
  "watch_rows E accountID catalog assigned peers rows [] = return_ok []"
| "watch_rows E accountID catalog assigned peers rows (row # rest) =
     and_then (watch_row E accountID catalog assigned peers rows row) (\<lambda>chats.
     and_then (watch_rows E accountID catalog assigned peers rows rest) (\<lambda>more. return_ok (chats @ more)))"

section \<open>The activator\<close>

text \<open>
  \<open>av_handled\<close> are the accounts whose client has its router as update handler; the registry of managed
  users is shared by all routers.
\<close>

record activator =
  av_routers :: "ID \<rightharpoonup> router"
  av_handled :: "ID list"
  av_scouts :: "ID list"
  av_scoutEpoch :: "ID \<Rightarrow> nat"
  av_managed :: "int list"

definition NewUpdateActivator :: activator where
  "NewUpdateActivator =
     \<lparr>av_routers = Map.empty, av_handled = [], av_scouts = [], av_scoutEpoch = (\<lambda>_. 0), av_managed = []\<rparr>"

definition managed_Add :: "int \<Rightarrow> activator \<Rightarrow> activator" where
  "managed_Add userID A =
     (if userID = 0 then A
      else
        let managed = List.insert userID (av_managed A) in
        A\<lparr>av_managed := managed, av_routers := map_option (\<lambda>r. r\<lparr>rt_managed := managed\<rparr>) \<circ> av_routers A\<rparr>)"

definition assignedCatalogChannels :: "Snapshot \<Rightarrow> string \<Rightarrow> ID list" where
  "assignedCatalogChannels snapshot catalog =
     (case snap_CatalogAssignments snapshot catalog of None \<Rightarrow> [] | Some ids \<Rightarrow> ids)"

definition Disable :: "ID \<Rightarrow> activator \<Rightarrow> activator" where
  "Disable accountID A =
     A\<lparr>av_routers := (av_routers A)(accountID := None), av_handled := removeAll accountID (av_handled A),
       av_scouts := removeAll accountID (av_scouts A)\<rparr>"

definition register_scout :: "ID \<Rightarrow> activator \<Rightarrow> activator" where
  "register_scout accountID A =
     A\<lparr>av_scouts := List.insert accountID (av_scouts A),
       av_scoutEpoch := (av_scoutEpoch A)(accountID := av_scoutEpoch A accountID + 1)\<rparr>"

text \<open>The end of the context a scout was registered under.\<close>

definition unregisterScoutOnDisconnect :: "ID \<Rightarrow> nat \<Rightarrow> activator \<Rightarrow> activator" where
  "unregisterScoutOnDisconnect accountID epoch A =
     (if av_scoutEpoch A accountID = epoch then A\<lparr>av_scouts := removeAll accountID (av_scouts A)\<rparr> else A)"

definition install_router :: "ID \<Rightarrow> string list \<Rightarrow> bool \<Rightarrow> int \<Rightarrow> activator \<Rightarrow> activator" where
  "install_router accountID allowed collect nowUnix A =
     (let fresh = newScoutUpdateRouter allowed nowUnix collect (av_managed A);
          r = (case av_routers A accountID of
                 None \<Rightarrow> fresh
               | Some old \<Rightarrow> if rt_collect old = collect then old\<lparr>rt_allowed := allowed\<rparr> else fresh);
          B = A\<lparr>av_routers := (av_routers A)(accountID \<mapsto> r), av_handled := List.insert accountID (av_handled A)\<rparr>
      in if collect then B\<lparr>av_scouts := List.insert accountID (av_scouts B)\<rparr>
         else B\<lparr>av_scouts := removeAll accountID (av_scouts B),
                av_scoutEpoch := (av_scoutEpoch B)(accountID := av_scoutEpoch B accountID + 1)\<rparr>)"

text \<open>
  \<open>E\<close>, \<open>E'\<close> and \<open>W\<close> are the surroundings of the two catalogs and of the loop over the rows;
  \<open>nowUnix\<close> is the time a new router is made at.
\<close>

definition UpdateActivator_Apply ::
  "member_env \<Rightarrow> member_env \<Rightarrow> member_env \<Rightarrow> int \<Rightarrow> ID \<Rightarrow> string \<Rightarrow> int \<Rightarrow> Snapshot \<Rightarrow> activator \<times> world \<Rightarrow>
     member_error option \<times> activator \<times> world" where
  "UpdateActivator_Apply E E' W nowUnix accountID role selfUserID snapshot s =
     (if role \<noteq> AccountRoleScoutAnalyst \<and> role \<noteq> AccountRoleSpammer then (None, s)
      else
        let A = managed_Add selfUserID (fst s);
            collect = (role \<noteq> AccountRoleSpammer);
            catalog = (if collect then CatalogScout else CatalogOutbound);
            assigned = assignedCatalogChannels snapshot
        in if snap_OutboundPaused snapshot then
             (case reconcileMemberships E E' accountID assigned catalog (snd s) of
                (Inl e, w) \<Rightarrow> (Some e, A, w)
              | (Inr _, w) \<Rightarrow> (None, Disable accountID A, w))
           else
             let B = (if collect then register_scout accountID A else A) in
             (case reconcileMemberships E E' accountID assigned catalog (snd s) of
                (Inl e, w) \<Rightarrow> (Some e, B, w)
              | (Inr ((rows, peers), other), w) \<Rightarrow>
                  (case watch_rows W accountID catalog (assigned catalog) peers rows rows w of
                     (Inl e, w') \<Rightarrow> (Some e, B, w')
                   | (Inr allowed, w') \<Rightarrow> (None, install_router accountID allowed collect nowUnix B, w'))))"

section \<open>The activator of the program\<close>

text \<open>\<open>senders\<close> are the accounts with a registered sender.\<close>

definition ProductionActivator_Apply ::
  "member_env \<Rightarrow> member_env \<Rightarrow> member_env \<Rightarrow> member_env \<Rightarrow> int \<Rightarrow> ID \<Rightarrow> string \<Rightarrow> int \<Rightarrow> Snapshot \<Rightarrow>
     ID list \<times> activator \<times> world \<Rightarrow> member_error option \<times> ID list \<times> activator \<times> world" where
  "ProductionActivator_Apply E E' W R nowUnix accountID role selfUserID snapshot s =
     (let senders = fst s; without = removeAll accountID senders in
      if role = AccountRoleSpammer then
        (case UpdateActivator_Apply E E' W nowUnix accountID role selfUserID snapshot (snd s) of
           (Some e, A, w) \<Rightarrow> (Some e, senders, A, w)
         | (None, A, w) \<Rightarrow>
             if snap_OutboundPaused snapshot then (None, without, A, w)
             else (case Register R role accountID w of
                     (Inl e, w') \<Rightarrow> (Some e, without, A, w')
                   | (Inr _, w') \<Rightarrow> (None, List.insert accountID senders, A, w')))
      else
        (case UpdateActivator_Apply E E' W nowUnix accountID role selfUserID snapshot (snd s) of
           (e, A, w) \<Rightarrow> (e, without, A, w)))"

end
