(* ===== verification/CatalogFacts.thy ===== *)
theory CatalogFacts
  imports CatalogService LiveFacts
begin

text \<open>
  The catalogs and their memberships: how joins are scheduled, what becomes of the rests they lead
  to, and what a removal leaves behind.
\<close>

section \<open>The plan of a join\<close>

fun spaced :: "JoinIntervalRange option \<Rightarrow> time \<Rightarrow> time list \<Rightarrow> bool" where
  "spaced interval before [] = True"
| "spaced interval before (t # ts) =
     ((case interval of
         None \<Rightarrow> t = before
       | Some r \<Rightarrow> before + MinMinutes r * Minute \<le> t \<and> t \<le> before + MaxMinutes r * Minute) \<and>
      spaced interval t ts)"

definition joiners :: "ID list \<Rightarrow> Account list \<Rightarrow> ID list" where
  "joiners existing accounts = map acc_ID (filter (\<lambda>a. Eligible a \<and> acc_ID a \<notin> set existing) accounts)"

lemma joiners_simps [simp]:
  "joiners existing [] = []"
  "joiners existing (a # accounts) =
     (if Eligible a \<and> acc_ID a \<notin> set existing then acc_ID a # joiners existing accounts else joiners existing accounts)"
  by (simp_all add: joiners_def)

lemma join_plan_spec:
  assumes "join_plan rand interval ch hours existing accounts n start = Inr ms"
  shows "\<exists>ts. length ts = length (joiners existing accounts) \<and>
           ms = map (\<lambda>(a, t). joining_membership a ch t hours) (zip (joiners existing accounts) ts) \<and>
           (if n = 0 then ts = [] \<or> hd ts = start \<and> spaced interval start (tl ts) else spaced interval start ts)"
  using assms
proof (induction accounts arbitrary: n start ms)
  case (Cons a accounts)
  show ?case
  proof (cases "Eligible a \<and> acc_ID a \<notin> set existing")
    case False
    then show ?thesis using Cons by auto
  next
    case True
    let ?delay = "case interval of None \<Rightarrow> Some 0
      | Some r \<Rightarrow> if n = 0 then Some 0
                  else let m = Minutes rand n (MinMinutes r) (MaxMinutes r) in
                       if m < MinMinutes r \<or> MaxMinutes r < m then None else Some m"
    have step: "join_plan rand interval ch hours existing (a # accounts) n start =
        (case ?delay of None \<Rightarrow> Inl ErrInvalidJoinDelay
         | Some m \<Rightarrow> map_sum id ((#) (joining_membership (acc_ID a) ch (start + m * Minute) hours))
             (join_plan rand interval ch hours existing accounts (Suc n) (start + m * Minute)))"
      using True by (simp add: Let_def)
    obtain m where delay: "?delay = Some m"
      using Cons.prems step by (cases ?delay) auto
    then have m0: "interval = None \<or> n = 0 \<Longrightarrow> m = 0"
      and range: "\<And>r. interval = Some r \<Longrightarrow> n \<noteq> 0 \<Longrightarrow> MinMinutes r \<le> m \<and> m \<le> MaxMinutes r"
      by (auto simp: Let_def split: option.splits if_splits)
    obtain ns where m: "ms = joining_membership (acc_ID a) ch (start + m * Minute) hours # ns"
        "join_plan rand interval ch hours existing accounts (Suc n) (start + m * Minute) = Inr ns"
      using Cons.prems unfolding step delay
      by (cases "join_plan rand interval ch hours existing accounts (Suc n) (start + m * Minute)") auto
    obtain ts where ts: "length ts = length (joiners existing accounts)"
        "ns = map (\<lambda>(a, t). joining_membership a ch t hours) (zip (joiners existing accounts) ts)"
        "spaced interval (start + m * Minute) ts"
      using Cons.IH [OF m(2)] by auto
    have "spaced interval start ((start + m * Minute) # ts)" if "n \<noteq> 0"
      using ts(3) m0 range that by (auto simp: go_time split: option.splits)
    with ts m m0 True show ?thesis
      by (intro exI [of _ "(start + m * Minute) # ts"]) auto
  qed
qed simp

section \<open>What a join changes\<close>

text \<open>
  The row the schema stores of an intent to join at \<open>t\<close>: the settings of the database decide whether
  the time and the hours of rest are kept.
\<close>

definition joining_row :: "string \<Rightarrow> ID \<Rightarrow> int \<Rightarrow> db \<Rightarrow> ID \<Rightarrow> time \<Rightarrow> membership_row" where
  "joining_row catalog channelID hours d a t =
     \<lparr>mr_account_id = a, mr_catalog = catalog, mr_channel_id = channelID, mr_is_member = False,
      mr_status = ''joining'', mr_last_check_at = None, mr_request_submitted_at = None, mr_joined_at = None,
      mr_join_not_before = (if setting_on (db_join_setting d) then Some (formatTime t) else None),
      mr_rest_started_at = None, mr_rest_until = None,
      mr_rest_duration_hours = (if setting_on (db_rest_setting d) then hours else 0), mr_last_error = ''''\<rparr>"

definition members_of :: "string \<Rightarrow> ID \<Rightarrow> db \<Rightarrow> ID list" where
  "members_of catalog channelID d =
     map mr_account_id (sort_key mr_account_id (filter (of_channel catalog channelID) (db_memberships d)))"

lemma row_of_joining [simp]:
  "row_of_membership catalog (joining_membership a ch t hours) d = joining_row catalog ch hours d a t"
  by (simp add: row_of_membership_def joining_membership_def joining_row_def rest_of_join_def Let_def formatTimePtr_def)

lemma write_channels_frame:
  "write_channels T rows d = (res, d') \<Longrightarrow>
   db_memberships d' = db_memberships d \<and> db_accounts d' = db_accounts d \<and>
   db_rest_setting d' = db_rest_setting d \<and> db_join_setting d' = db_join_setting d \<and> db_jobs d' = db_jobs d"
  by (auto simp: write_channels_def with_rows_def split: if_splits catalog_table.splits)

lemma SaveCatalog_frame:
  assumes "SaveCatalog now catalog c d = (res, d')"
  shows "db_memberships d' = db_memberships d \<and> db_accounts d' = db_accounts d \<and>
   db_rest_setting d' = db_rest_setting d \<and> db_join_setting d' = db_join_setting d \<and> db_jobs d' = db_jobs d"
proof (cases "catalogTable catalog")
  case (Inr T)
  show ?thesis
  proof (cases "chl_Link (default_channel now c) = '''' \<or> T \<noteq> ScoutChats")
    case True
    with assms Inr show ?thesis
      by (auto simp: SaveCatalog_def Let_def upsert_channel_def dest: write_channels_frame split: if_splits)
  next
    case False
    obtain r1 d1 where w: "write_channels T (sql_update (archived_link (default_channel now c))
        (restore_row (default_channel now c)) (db_scout d)) d = (r1, d1)" by fastforce
    from assms Inr False w show ?thesis
      by (auto simp: SaveCatalog_def Let_def upsert_channel_def dest!: write_channels_frame
          split: sum.splits if_splits)
  qed
qed (use assms in \<open>auto simp: SaveCatalog_def\<close>)

lemma save_joining_rows:
  assumes "save_memberships catalog (map (\<lambda>(a, t). joining_membership a ch t hours) ats) d = (Inr (), d')"
    and "distinct (map fst ats)"
    and "\<forall>r \<in> set (db_memberships d). of_channel catalog ch r \<longrightarrow> mr_account_id r \<notin> fst ` set ats"
  shows "db_memberships d' = db_memberships d @ map (\<lambda>(a, t). joining_row catalog ch hours d a t) ats"
  using assms
proof (induction ats arbitrary: d)
  case (Cons p ats)
  obtain a t where p: "p = (a, t)" by fastforce
  let ?new = "joining_row catalog ch hours d a t"
  have free: "\<not> sql_exists (\<lambda>r. membership_key r = membership_key ?new) (db_memberships d)"
    using Cons.prems(3) p by (auto simp: sql_exists_iff membership_key_def joining_row_def of_channel_def)
  let ?d = "d\<lparr>db_memberships := db_memberships d @ [?new]\<rparr>"
  have "save_memberships catalog (map (\<lambda>(a, t). joining_membership a ch t hours) ats) ?d = (Inr (), d')"
    using Cons.prems(1) p free by (auto simp: SaveMembership_def Let_def split: if_splits)
  from Cons.IH [OF this] Cons.prems(2,3) p
  have "db_memberships d' = db_memberships ?d @ map (\<lambda>(a, t). joining_row catalog ch hours ?d a t) ats"
    by (auto simp: joining_row_def of_channel_def)
  then show ?case using p by (simp add: joining_row_def)
qed simp

lemma scan_membership_account: "scan_membership r = Some m \<Longrightarrow> mem_AccountID m = mr_account_id r"
  by (auto simp: scan_membership_def split: option.splits)

lemma those_map_fields:
  "those (map f rs) = Some ms \<Longrightarrow> (\<And>r m. f r = Some m \<Longrightarrow> g m = h r) \<Longrightarrow> map g ms = map h rs"
  by (induction rs arbitrary: ms) (auto split: option.splits)

lemma listed_members:
  "ListMemberships catalog ch d = Inr ms \<Longrightarrow> map mem_AccountID ms = members_of catalog ch d"
  by (auto simp: ListMemberships_def members_of_def of_channel_def [abs_def] scan_membership_account
      split: option.splits elim!: those_map_fields)

lemma distinct_joiners: "distinct (map acc_ID accounts) \<Longrightarrow> distinct (joiners existing accounts)"
  by (simp add: joiners_def distinct_map_filter)

lemma joiners_disjoint: "a \<in> set (joiners existing accounts) \<Longrightarrow> a \<notin> set existing"
  by (auto simp: joiners_def)

text \<open>
  C29. Joins are spread out. A join that succeeds adds one intent for every eligible account that has no
  membership in the channel, in the order of the accounts, the first one due now and each next one between
  the two limits after the one before (all now when the interval is switched off), and touches no other
  membership.
\<close>

theorem joins_are_spread:
  assumes "Join rand s now catalog i d = (Inr channels, d')" and "distinct (map ar_id (db_accounts d))"
  shows "\<exists>accounts ts. listAccounts d = Inr accounts \<and>
      length ts = length (joiners (members_of catalog i d) accounts) \<and>
      (ts = [] \<or> hd ts = now \<and> spaced (if cs_joinIntervalOn s then Some (cs_joinInterval s) else None) now (tl ts)) \<and>
      db_memberships d' = db_memberships d @
        map (\<lambda>(a, t). joining_row catalog i (if cs_groupRestOn s then cs_groupRestHours s else 0) d a t)
          (zip (joiners (members_of catalog i d) accounts) ts)"
proof -
  obtain rows row where row: "ListCatalog catalog d = Inr rows" "find (\<lambda>row. chl_ID row = i) rows = Some row"
    using assms(1) by (auto simp: Join_def with_channel_def split: if_splits sum.splits option.splits)
  then have i: "chl_ID row = i" by (auto simp: find_Some_iff)
  obtain ms where ms: "joiningMemberships rand s catalog i now d = Inr ms"
    and act: "then_list catalog (ActivateCatalogWithMemberships now catalog
        (row\<lparr>chl_Status := ChannelJoining, chl_UpdatedAt := now\<rparr>) ms d) = (Inr channels, d')"
    using assms(1) row i by (auto simp: Join_def with_channel_def split: if_splits sum.splits)
  obtain accounts members where a: "listAccounts d = Inr accounts" "ListMemberships catalog i d = Inr members"
      "join_plan rand (if cs_joinIntervalOn s then Some (cs_joinInterval s) else None) i
        (if cs_groupRestOn s then cs_groupRestHours s else 0) (members_of catalog i d) accounts 0 now = Inr ms"
    using ms by (auto simp: joiningMemberships_def currentGroupRestHours_def listed_members [symmetric]
        split: option.splits sum.splits if_splits)
  from join_plan_spec [OF a(3)] obtain ts where ts:
      "length ts = length (joiners (members_of catalog i d) accounts)"
      "ms = map (\<lambda>(b, t). joining_membership b i t (if cs_groupRestOn s then cs_groupRestHours s else 0))
        (zip (joiners (members_of catalog i d) accounts) ts)"
      "ts = [] \<or> hd ts = now \<and> spaced (if cs_joinIntervalOn s then Some (cs_joinInterval s) else None) now (tl ts)"
    by auto
  obtain d1 where d1: "SaveCatalog now catalog (row\<lparr>chl_Status := ChannelJoining, chl_UpdatedAt := now\<rparr>) d = (Inr (), d1)"
      "save_memberships catalog ms d1 = (Inr (), d')"
    using act by (auto simp: then_list_def list_again_def ActivateCatalogWithMemberships_def in_tx_ok
        split: prod.splits sum.splits if_splits)
  note same = SaveCatalog_frame [OF d1(1)]
  have "db_memberships d' = db_memberships d1 @
      map (\<lambda>(b, t). joining_row catalog i (if cs_groupRestOn s then cs_groupRestHours s else 0) d1 b t)
        (zip (joiners (members_of catalog i d) accounts) ts)"
  proof (rule save_joining_rows)
    show "save_memberships catalog (map (\<lambda>(b, t). joining_membership b i t (if cs_groupRestOn s then cs_groupRestHours s else 0))
        (zip (joiners (members_of catalog i d) accounts) ts)) d1 = (Inr (), d')"
      using d1(2) ts(2) by simp
    show "distinct (map fst (zip (joiners (members_of catalog i d) accounts) ts))"
      using ts(1) distinct_joiners listAccounts_ids(2) [OF a(1) assms(2)] by simp
    show "\<forall>r \<in> set (db_memberships d1). of_channel catalog i r \<longrightarrow>
        mr_account_id r \<notin> fst ` set (zip (joiners (members_of catalog i d) accounts) ts)"
      using same by (auto simp: members_of_def dest!: set_zip_leftD joiners_disjoint)
  qed
  then have "db_memberships d' = db_memberships d @
      map (\<lambda>(b, t). joining_row catalog i (if cs_groupRestOn s then cs_groupRestHours s else 0) d b t)
        (zip (joiners (members_of catalog i d) accounts) ts)"
    using same by (simp add: joining_row_def)
  with a(1) ts show ?thesis by blast
qed

definition join_db :: db where
  "join_db = demo_db\<lparr>db_accounts := [demo_account, demo_account\<lparr>ar_id := ''a2''\<rparr>, demo_account\<lparr>ar_id := ''a3''\<rparr>],
     db_memberships := [joining_row ''outbound'' ''c1'' 0 demo_db ''a2'' 0]\<rparr>"

definition join_demo :: "(catalog_error + Channel list) \<times> db" where
  "join_demo = Join (\<lambda>k n. 5) NewCatalogService (100 * Second) ''outbound'' ''c1'' join_db"

lemma join_demo_rows:
  "map (\<lambda>r. (mr_account_id r, mr_join_not_before r)) (db_memberships (snd join_demo)) =
     [(''a2'', Some (formatTime 0)), (''a1'', Some (formatTime (100 * Second))),
      (''a3'', Some (formatTime (100 * Second + 15 * Minute)))]"
  by code_simp

lemma join_demo_succeeds: "isl (fst join_demo) = False"
  by code_simp

lemma joins_are_spread_witness:
  "map mr_account_id (db_memberships (snd join_demo)) = [''a2'', ''a1'', ''a3''] \<and>
   (\<exists>accounts ts. listAccounts join_db = Inr accounts \<and>
      length ts = length (joiners (members_of ''outbound'' ''c1'' join_db) accounts) \<and>
      (ts = [] \<or> hd ts = 100 * Second \<and> spaced (Some \<lparr>MinMinutes = 10, MaxMinutes = 60\<rparr>) (100 * Second) (tl ts)) \<and>
      db_memberships (snd join_demo) = db_memberships join_db @
        map (\<lambda>(a, t). joining_row ''outbound'' ''c1'' 36 join_db a t)
          (zip (joiners (members_of ''outbound'' ''c1'' join_db) accounts) ts))"
proof -
  obtain channels where "Join (\<lambda>k n. 5) NewCatalogService (100 * Second) ''outbound'' ''c1'' join_db = (Inr channels, snd join_demo)"
    using join_demo_succeeds unfolding join_demo_def by (metis isl_def prod.collapse sum.exhaust)
  from joins_are_spread [OF this]
  show ?thesis
    using arg_cong [OF join_demo_rows, of "map fst"]
    by (simp add: join_db_def demo_account_def NewCatalogService_def comp_def)
qed

end
