(* ===== verification/MembershipFacts.thy ===== *)
theory MembershipFacts
  imports Membership CatalogFacts
begin

text \<open>
  What the reconciliation of memberships asks Telegram for and what it does to the tables: joins wait
  for their turn, a member is forgotten only after it left, requested removals come to their end.
\<close>

section \<open>Actions\<close>

text \<open>
  \<open>does R m\<close>: the action takes a state only to related ones. A relation that is reflexive and
  transitive goes through sequences and handlers.
\<close>

definition does :: "(world \<Rightarrow> world \<Rightarrow> bool) \<Rightarrow> 'a action \<Rightarrow> bool" where
  "does R m \<longleftrightarrow> (\<forall>w. R w (snd (m w)))"

named_theorems does_intros

lemma doesD: "does R m \<Longrightarrow> m w = (res, w') \<Longrightarrow> R w w'"
  by (metis does_def snd_conv)

lemma does_return [does_intros]: "reflp R \<Longrightarrow> does R (return_ok x)"
  by (simp add: does_def return_ok_def reflp_def)

lemma does_fail [does_intros]: "reflp R \<Longrightarrow> does R (fail_with e)"
  by (simp add: does_def fail_with_def reflp_def)

lemma does_and_then [does_intros]:
  "transp R \<Longrightarrow> does R m \<Longrightarrow> (\<And>x. does R (f x)) \<Longrightarrow> does R (and_then m f)"
  unfolding does_def and_then_def by (auto split: prod.split sum.split elim!: transpE) (metis snd_conv transpE)

lemma does_or_else [does_intros]:
  "transp R \<Longrightarrow> does R m \<Longrightarrow> (\<And>e. does R (h e)) \<Longrightarrow> does R (or_else m h)"
  unfolding does_def or_else_def by (auto split: prod.split sum.split) (metis snd_conv transpE, metis snd_conv)

lemma does_if [does_intros]: "does R m \<Longrightarrow> does R m' \<Longrightarrow> does R (if b then m else m')"
  by simp

lemma does_option [does_intros]: "does R m \<Longrightarrow> (\<And>x. v = Some x \<Longrightarrow> does R (f x)) \<Longrightarrow> does R (case v of None \<Rightarrow> m | Some x \<Rightarrow> f x)"
  by (cases v) auto

lemma does_prod [does_intros]: "(\<And>x y. p = (x, y) \<Longrightarrow> does R (f x y)) \<Longrightarrow> does R (case p of (x, y) \<Rightarrow> f x y)"
  by (cases p) auto

lemma does_sum [does_intros]:
  "(\<And>e. does R (f e)) \<Longrightarrow> (\<And>x. does R (g x)) \<Longrightarrow> does R (case v of Inl e \<Rightarrow> f e | Inr x \<Rightarrow> g x)"
  by (cases v) auto

lemma does_tolerate [does_intros]: "reflp R \<Longrightarrow> transp R \<Longrightarrow> does R m \<Longrightarrow> does R (tolerate types m)"
  unfolding tolerate_def by (intro does_or_else does_if does_return does_fail)

section \<open>Requests\<close>

fun is_join :: "tg_request \<Rightarrow> bool" where
  "is_join (MessagesImportChatInvite h) = True"
| "is_join (ChannelsJoinChannel i h) = True"
| "is_join r = False"

fun is_leave :: "tg_request \<Rightarrow> bool" where
  "is_leave (ChannelsLeaveChannel i h) = True"
| "is_leave (MessagesDeleteChatUser i) = True"
| "is_leave r = False"

text \<open>At most \<open>n\<close> requests to join are made; \<open>asks 0\<close> also says the log only grows.\<close>

definition asks :: "nat \<Rightarrow> 'a action \<Rightarrow> bool" where
  "asks n m \<longleftrightarrow> does (\<lambda>w w'. \<exists>new. fst w' = new @ fst w \<and> length (filter is_join new) \<le> n) m"

named_theorems asks_intros

lemma asksD:
  "asks n m \<Longrightarrow> m w = (r, w') \<Longrightarrow> \<exists>new. fst w' = new @ fst w \<and> length (filter is_join new) \<le> n"
  unfolding asks_def by (drule (1) doesD) simp

lemma asks_mono: "asks n m \<Longrightarrow> n \<le> k \<Longrightarrow> asks k m"
  unfolding asks_def does_def by (meson order_trans)

lemma asks_return [asks_intros]: "asks n (return_ok x)"
  by (simp add: asks_def does_def return_ok_def)

lemma asks_fail [asks_intros]: "asks n (fail_with e)"
  by (simp add: asks_def does_def fail_with_def)

lemma asks_on_db [asks_intros]: "asks n (on_db f)"
  by (simp add: asks_def does_def on_db_def split: prod.split)

lemma asks_call: "asks (if is_join r then 1 else 0) (call answer r)"
  by (simp add: asks_def does_def call_def)

lemma asks_other_call [asks_intros]: "\<not> is_join r \<Longrightarrow> asks n (call answer r)"
  by (simp add: asks_def does_def call_def)

lemma asks_and_then:
  assumes "asks a m" "\<And>x. asks b (f x)"
  shows "asks (a + b) (and_then m f)"
  unfolding asks_def does_def
proof
  fix w
  obtain r w1 where m: "m w = (r, w1)" by (cases "m w")
  then obtain new1 where new1: "fst w1 = new1 @ fst w" "length (filter is_join new1) \<le> a"
    using asksD [OF assms(1)] by blast
  show "\<exists>new. fst (snd (and_then m f w)) = new @ fst w \<and> length (filter is_join new) \<le> a + b"
  proof (cases r)
    case (Inl e)
    with m new1 show ?thesis by (auto simp: and_then_def)
  next
    case (Inr x)
    obtain new2 where "fst (snd (f x w1)) = new2 @ fst w1" "length (filter is_join new2) \<le> b"
      using asksD [OF assms(2) [of x], of w1] by (cases "f x w1") auto
    with new1 have more: "\<exists>new. fst (snd (f x w1)) = new @ fst w \<and> length (filter is_join new) \<le> a + b"
      by (intro exI [of _ "new2 @ new1"]) simp
    have "snd (and_then m f w) = snd (f x w1)" using m Inr by (simp add: and_then_def)
    with more show ?thesis by (simp only:)
  qed
qed

lemma asks_or_else:
  assumes "asks a m" "\<And>e. asks b (h e)"
  shows "asks (a + b) (or_else m h)"
  unfolding asks_def does_def
proof
  fix w
  obtain r w1 where m: "m w = (r, w1)" by (cases "m w")
  then obtain new1 where new1: "fst w1 = new1 @ fst w" "length (filter is_join new1) \<le> a"
    using asksD [OF assms(1)] by blast
  show "\<exists>new. fst (snd (or_else m h w)) = new @ fst w \<and> length (filter is_join new) \<le> a + b"
  proof (cases r)
    case (Inr x)
    with m new1 show ?thesis by (auto simp: or_else_def)
  next
    case (Inl e)
    obtain new2 where "fst (snd (h e w1)) = new2 @ fst w1" "length (filter is_join new2) \<le> b"
      using asksD [OF assms(2) [of e], of w1] by (cases "h e w1") auto
    with new1 have more: "\<exists>new. fst (snd (h e w1)) = new @ fst w \<and> length (filter is_join new) \<le> a + b"
      by (intro exI [of _ "new2 @ new1"]) simp
    have "snd (or_else m h w) = snd (h e w1)" using m Inl by (simp add: or_else_def)
    with more show ?thesis by (simp only:)
  qed
qed

lemma asks_if [asks_intros]: "(b \<Longrightarrow> asks n m) \<Longrightarrow> (\<not> b \<Longrightarrow> asks n m') \<Longrightarrow> asks n (if b then m else m')"
  by (simp add: asks_def)

lemma asks_option [asks_intros]:
  "asks n m \<Longrightarrow> (\<And>x. asks n (f x)) \<Longrightarrow> asks n (case v of None \<Rightarrow> m | Some x \<Rightarrow> f x)"
  by (cases v) auto

lemma asks_prod [asks_intros]: "(\<And>x y. asks n (f x y)) \<Longrightarrow> asks n (case p of (x, y) \<Rightarrow> f x y)"
  by (cases p) auto

lemma asks_sum [asks_intros]:
  "(\<And>e. asks n (f e)) \<Longrightarrow> (\<And>x. asks n (g x)) \<Longrightarrow> asks n (case v of Inl e \<Rightarrow> f e | Inr x \<Rightarrow> g x)"
  by (cases v) auto

lemmas asks_first = asks_and_then [where b = 0, simplified] asks_or_else [where b = 0, simplified]
lemmas asks_none [asks_intros] = asks_and_then [where a = 0, simplified] asks_or_else [where a = 0, simplified]

lemma asks_tolerate [asks_intros]: "asks n m \<Longrightarrow> asks n (tolerate types m)"
  unfolding tolerate_def by (intro asks_first asks_if asks_return asks_fail)

section \<open>Which operations ask to join\<close>

lemma asks_first_chat [asks_intros]: "asks n (first_chat e chats)"
  by (cases chats) (auto simp: first_chat_def intro!: asks_intros)

lemma asks_checkPrivate [asks_intros]: "asks n (checkPrivateInviteMembership U L C target)"
  unfolding checkPrivateInviteMembership_def
  by (intro asks_intros asks_mono [OF asks_none(1)]) (auto intro!: asks_intros split: ChatInvite.split)

lemma asks_resolve [asks_intros]: "asks n (resolveTelegramPeer U L C target)"
  unfolding resolveTelegramPeer_def Let_def by (intro asks_intros) auto

lemma asks_join_target: "asks 1 (join_target E link)"
proof -
  have one: "asks 1 (call answer r)" for answer :: "requests \<Rightarrow> tg_error + 'a" and r
    by (rule asks_mono [OF asks_call]) simp
  have attempt: "asks 1 (or_else (and_then (call answer r) (\<lambda>_. return_ok x)) (\<lambda>e. if b e then return_ok y else fail_with e))"
    for answer :: "requests \<Rightarrow> tg_error + 'a" and r b and x y :: 'b
    by (intro asks_first one asks_return asks_if asks_fail)
  have invite: "asks 1 (joinTelegramPeer U L C link)" for U L C
    unfolding joinTelegramPeer_def Let_def
    by (intro asks_option asks_fail asks_none asks_checkPrivate asks_return asks_first one)
      (auto intro!: asks_intros split: InviteJoin.split)
  have "asks 1 (joinPublicTelegramPeer U L C link)" for U L C
    unfolding joinPublicTelegramPeer_def
    by (intro asks_none asks_resolve) (auto simp: attempt [simplified] asks_fail split: InputPeer.split)
  with invite show ?thesis unfolding join_target_def by (intro asks_if)
qed

lemma asks_check_target [asks_intros]: "asks n (check_target E link)"
  unfolding check_target_def checkPublicMembership_def
  by (auto intro!: asks_intros split: InputPeer.split)

lemma asks_discussion_none:
  "explicitDiscussionTargetID L link = None \<Longrightarrow> asks n (resolveExplicitDiscussionTarget L C link p)"
  by (simp add: resolveExplicitDiscussionTarget_def asks_return)

text \<open>Only a due \<^verbatim>\<open>joining\<close> membership is asked for, and once.\<close>

lemma asks_reconcile:
  "asks (if mem_Status m = membershipJoining \<and> \<not> not_before m (me_checkedAt E) then 1 else 0)
     (reconcileMembershipIntent E row m)"
proof (cases "mem_Status m = membershipJoining \<and> \<not> not_before m (me_checkedAt E)")
  case True
  then show ?thesis
    by (simp add: reconcileMembershipIntent_def)
      (intro asks_first asks_join_target [simplified] asks_prod asks_return asks_if asks_fail)
next
  case False
  show ?thesis
  proof (cases "mem_Status m = membershipJoining")
    case True
    with False show ?thesis by (simp add: reconcileMembershipIntent_def asks_return)
  next
    case other: False
    then show ?thesis
      by (simp add: reconcileMembershipIntent_def Let_def)
        (intro conjI impI asks_none asks_check_target asks_option asks_return)
  qed
qed

lemma asks_reconcile_pending: "mem_Status m \<noteq> membershipJoining \<Longrightarrow> asks n (reconcileMembershipIntent E row m)"
  using asks_mono [OF asks_reconcile, of m E n] by simp

lemma asks_leave_peer [asks_intros]: "asks n (leave_peer E peer)"
  unfolding leave_peer_def by (intro asks_tolerate) (auto intro!: asks_other_call asks_fail split: InputPeer.split)

lemma asks_saving [asks_intros]:
  "asks n (save_membership catalog m)" "asks n (save_channel E catalog row)" "asks n (load_membership a catalog i)"
  by (simp_all add: save_membership_def save_channel_def load_membership_def asks_on_db)

lemma asks_removal:
  "explicitDiscussionTargetID (me_urls E) (chl_Link row) = None \<Longrightarrow> asks n (reconcileRemovalMembership E row m)"
  unfolding reconcileRemovalMembership_def
  by (intro asks_intros asks_discussion_none)

lemma asks_leaving:
  "explicitDiscussionTargetID (me_urls E) (chl_Link row) = None \<Longrightarrow> asks n (reconcileLeavingMembership E row m)"
  unfolding reconcileLeavingMembership_def Let_def
  by (intro asks_if asks_none asks_removal asks_reconcile_pending asks_return) simp_all

lemma asks_save_changed [asks_intros]: "asks n (save_changed catalog t)"
  unfolding save_changed_def by (intro asks_intros)

lemma asks_approval_checked:
  "explicitDiscussionTargetID (me_urls E) (chl_Link row) = None \<Longrightarrow> asks n (approval_checked E a catalog row t)"
  unfolding approval_checked_def Let_def by (intro asks_intros asks_discussion_none)

lemma asks_await:
  "explicitDiscussionTargetID (me_urls E) (chl_Link row) = None \<Longrightarrow> mem_Status m = membershipPendingApproval \<Longrightarrow> asks n (await_approval E a catalog row m)"
  unfolding await_approval_def
  by (intro asks_intros asks_reconcile_pending asks_approval_checked) simp

section \<open>What an operation leaves alone\<close>

text \<open>The memberships in other channels than \<open>i\<close> of the catalog.\<close>

definition others :: "string \<Rightarrow> ID \<Rightarrow> db \<Rightarrow> membership_row list" where
  "others catalog i d = filter (\<lambda>r. \<not> of_channel catalog i r) (db_memberships d)"

definition spares :: "string \<Rightarrow> ID \<Rightarrow> world \<Rightarrow> world \<Rightarrow> bool" where
  "spares catalog i w w' \<longleftrightarrow> others catalog i (snd w') = others catalog i (snd w)"

text \<open>A state in which nothing of the tables changed.\<close>

definition reads :: "world \<Rightarrow> world \<Rightarrow> bool" where
  "reads w w' \<longleftrightarrow> snd w' = snd w"

lemma spares_rel [simp]: "reflp (spares catalog i)" "transp (spares catalog i)"
  by (auto simp: spares_def reflp_def transp_def)

lemma reads_rel [simp]: "reflp reads" "transp reads"
  by (auto simp: reads_def reflp_def transp_def)

lemma does_mono: "does R m \<Longrightarrow> (\<And>w w'. R w w' \<Longrightarrow> S w w') \<Longrightarrow> does S m"
  by (simp add: does_def)

lemma does_call [does_intros]: "does reads (call answer r)"
  by (simp add: does_def call_def reads_def)

lemma reads_first_chat [does_intros]: "does reads (first_chat e chats)"
  by (cases chats) (auto simp: first_chat_def intro!: does_intros)

lemma reads_checkPrivate [does_intros]: "does reads (checkPrivateInviteMembership U L C target)"
  unfolding checkPrivateInviteMembership_def
  by (intro does_option does_fail does_and_then does_call reads_rel)
    (auto intro!: does_intros split: ChatInvite.split)

lemma reads_resolve [does_intros]: "does reads (resolveTelegramPeer U L C target)"
  unfolding resolveTelegramPeer_def Let_def by (intro does_intros reads_rel)

lemma reads_discussion [does_intros]: "does reads (resolveExplicitDiscussionTarget L C link p)"
proof -
  have "does reads (resolveLinkedScoutDiscussion C peer)" for peer
    unfolding resolveLinkedScoutDiscussion_def
    by (cases peer; simp) (intro does_intros reads_rel |
      (auto intro!: does_intros split: FullChat.split option.split ChatClass.split))+
  then show ?thesis unfolding resolveExplicitDiscussionTarget_def by (intro does_intros reads_rel)
qed

lemma reads_join [does_intros]: "does reads (join_target E link)"
  unfolding join_target_def joinTelegramPeer_def joinPublicTelegramPeer_def Let_def
  by (intro does_intros reads_rel) (auto intro!: does_intros split: InviteJoin.split InputPeer.split)

lemma reads_check [does_intros]: "does reads (check_target E link)"
  unfolding check_target_def checkPublicMembership_def
  by (intro does_intros reads_rel) (auto intro!: does_intros split: InputPeer.split)

lemma reads_reconcile [does_intros]: "does reads (reconcileMembershipIntent E row m)"
  unfolding reconcileMembershipIntent_def Let_def by (intro does_intros reads_rel)

lemma reads_leave [does_intros]: "does reads (leave_peer E peer)"
  unfolding leave_peer_def by (intro does_tolerate reads_rel) (auto intro!: does_intros split: InputPeer.split)

lemma reads_removal [does_intros]: "does reads (reconcileRemovalMembership E row m)"
  unfolding reconcileRemovalMembership_def by (intro does_intros reads_rel)

lemma reads_leaving [does_intros]: "does reads (reconcileLeavingMembership E row m)"
  unfolding reconcileLeavingMembership_def Let_def by (intro does_intros reads_rel)

lemma reads_load [does_intros]: "does reads (load_membership a catalog i)"
  by (simp add: does_def load_membership_def on_db_def reads_def)

section \<open>What a step writes\<close>

text \<open>A successful action returns a value with the property.\<close>

definition ensures :: "('a \<Rightarrow> bool) \<Rightarrow> 'a action \<Rightarrow> bool" where
  "ensures Q m \<longleftrightarrow> (\<forall>w x w'. m w = (Inr x, w') \<longrightarrow> Q x)"

lemma ensuresD: "ensures Q m \<Longrightarrow> m w = (Inr x, w') \<Longrightarrow> Q x"
  unfolding ensures_def by blast

lemma ensures_mono: "ensures P m \<Longrightarrow> (\<And>x. P x \<Longrightarrow> Q x) \<Longrightarrow> ensures Q m"
  unfolding ensures_def by blast

lemma ensures_return: "Q x \<Longrightarrow> ensures Q (return_ok x)"
  by (auto simp: ensures_def return_ok_def)

lemma ensures_fail: "ensures Q (fail_with e)"
  by (auto simp: ensures_def fail_with_def)

lemma ensures_and_then: "(\<And>x. ensures Q (f x)) \<Longrightarrow> ensures Q (and_then m f)"
  by (fastforce simp: ensures_def and_then_def split: prod.splits sum.splits)

lemma ensures_then: "ensures P m \<Longrightarrow> (\<And>x. P x \<Longrightarrow> ensures Q (f x)) \<Longrightarrow> ensures Q (and_then m f)"
  by (fastforce simp: ensures_def and_then_def split: prod.splits sum.splits)

lemma ensures_or_else: "ensures Q m \<Longrightarrow> (\<And>e. ensures Q (h e)) \<Longrightarrow> ensures Q (or_else m h)"
  by (fastforce simp: ensures_def or_else_def split: prod.splits sum.splits)

lemma ensures_if: "ensures Q m \<Longrightarrow> ensures Q m' \<Longrightarrow> ensures Q (if b then m else m')"
  by simp

lemma does_then:
  "transp R \<Longrightarrow> does R m \<Longrightarrow> ensures Q m \<Longrightarrow> (\<And>x. Q x \<Longrightarrow> does R (f x)) \<Longrightarrow> does R (and_then m f)"
  unfolding does_def ensures_def and_then_def
  by (auto split: prod.split sum.split) (metis snd_conv, metis snd_conv transpE)

lemma asks_then: "asks 0 m \<Longrightarrow> ensures Q m \<Longrightarrow> (\<And>x. Q x \<Longrightarrow> asks n (f x)) \<Longrightarrow> asks n (and_then m f)"
proof -
  assume m: "asks 0 m" "ensures Q m" "\<And>x. Q x \<Longrightarrow> asks n (f x)"
  have eq: "and_then m f = and_then m (\<lambda>x. if Q x then f x else return_ok undefined)"
    using ensuresD [OF m(2)] by (auto simp: and_then_def fun_eq_iff split: prod.splits sum.splits)
  show ?thesis unfolding eq by (intro asks_none asks_if m asks_return)
qed

definition same_key :: "ChannelMembership \<Rightarrow> ChannelMembership \<Rightarrow> bool" where
  "same_key m m' \<longleftrightarrow> mem_ChannelID m' = mem_ChannelID m \<and> mem_AccountID m' = mem_AccountID m"

lemma same_key_markMember [simp]:
  "mem_ChannelID (tr_membership (markMember c outcome t)) = mem_ChannelID (tr_membership t)"
  "mem_AccountID (tr_membership (markMember c outcome t)) = mem_AccountID (tr_membership t)"
  by (simp_all add: markMember_def Let_def)

lemma same_key_refl [simp]: "same_key m m"
  by (simp add: same_key_def)

lemma same_key_status [simp]:
  "same_key m (m'\<lparr>mem_Status := s\<rparr>) = same_key m m'" "same_key (m\<lparr>mem_Status := s\<rparr>) m' = same_key m m'"
  "same_key m (m'\<lparr>mem_LastCheckAt := c, mem_LastError := e\<rparr>) = same_key m m'"
  "same_key m (m'\<lparr>mem_LastCheckAt := c\<rparr>) = same_key m m'" "same_key m (m'\<lparr>mem_LastError := e\<rparr>) = same_key m m'"
  by (simp_all add: same_key_def)

lemma reconcile_same_key: "ensures (\<lambda>t. same_key m (tr_membership t)) (reconcileMembershipIntent E row m)"
  unfolding reconcileMembershipIntent_def Let_def
  by (auto intro!: ensures_if ensures_return ensures_or_else ensures_and_then ensures_fail
      simp: no_transition_def join_sent_def same_key_def split: option.split prod.split)

lemma leaving_same_key: "ensures (\<lambda>(t, b). same_key m (tr_membership t)) (reconcileLeavingMembership E row m)"
  unfolding reconcileLeavingMembership_def Let_def
  by (intro ensures_if ensures_and_then [where m = "reconcileRemovalMembership E row m"]
      ensures_then [OF reconcile_same_key] ensures_return)
    (auto intro!: ensures_if ensures_and_then ensures_return simp: no_transition_def same_key_def)

lemma load_key: "ensures (\<lambda>f. \<forall>m. f = Some m \<longrightarrow> mem_ChannelID m = i \<and> mem_AccountID m = a) (load_membership a catalog i)"
  by (auto simp: ensures_def load_membership_def on_db_def LoadMembership_def membership_key_def scan_membership_def
      dest!: sql_select_SomeD split: option.splits)

section \<open>Other channels are left alone\<close>

lemma spares_reads: "does reads m \<Longrightarrow> does (spares catalog i) m"
  by (erule does_mono) (simp add: reads_def spares_def)

lemma others_save:
  assumes "SaveMembership catalog m d = (r, d')"
  shows "others catalog (mem_ChannelID m) d' = others catalog (mem_ChannelID m) d"
proof -
  let ?new = "row_of_membership catalog m d"
  have new: "of_channel catalog (mem_ChannelID m) ?new" by (simp add: row_of_membership_def of_channel_def Let_def)
  have same: "filter (\<lambda>r. \<not> of_channel catalog (mem_ChannelID m) r)
      (sql_update (\<lambda>r. membership_key r = membership_key ?new) (excluded_membership ?new d) rows) =
    filter (\<lambda>r. \<not> of_channel catalog (mem_ChannelID m) r) rows" for rows
    using new by (induction rows) (auto simp: membership_key_def of_channel_def excluded_membership_def Let_def)
  show ?thesis using assms new same by (auto simp: SaveMembership_def Let_def others_def split: if_splits)
qed

text \<open>A removal is completed only when no membership is left, so none is deleted with it.\<close>

lemma CompleteCatalogRemoval_memberships:
  "CompleteCatalogRemoval now catalog i d = (r, d') \<Longrightarrow> db_memberships d' = db_memberships d"
proof -
  assume run: "CompleteCatalogRemoval now catalog i d = (r, d')"
  have keep: "db_memberships (with_rows T rows d) = db_memberships d" for T rows
    by (simp add: with_rows_def split: catalog_table.split)
  show "db_memberships d' = db_memberships d"
  proof (cases "sql_exists (of_channel catalog i) (db_memberships d)")
    case True
    then have "removable catalog i d = (\<lambda>r. False)" by (auto simp: removable_def)
    then show ?thesis using run keep
      by (auto simp: CompleteCatalogRemoval_def in_tx_def Let_def sql_affected_def split: sum.splits if_splits prod.splits)
  next
    case False
    then have "filter (\<lambda>r. \<not> of_channel catalog i r) (db_memberships d) = db_memberships d"
      by (simp add: sql_exists_iff filter_id_conv)
    then show ?thesis using run keep
      by (auto simp: CompleteCatalogRemoval_def in_tx_def Let_def split: sum.splits if_splits prod.splits)
  qed
qed

lemma others_complete:
  "CompleteCatalogRemoval now catalog i d = (r, d') \<Longrightarrow> others catalog i d' = others catalog i d"
  by (simp add: others_def CompleteCatalogRemoval_memberships)

lemma spares_writes [simp]:
  "mem_ChannelID m = i \<Longrightarrow> does (spares catalog i) (save_membership catalog m)"
  "does (spares catalog i) (save_channel E catalog row)"
  "does (spares catalog i) (on_db (CompleteCatalogRemoval now catalog i))"
  "does (spares catalog i) (on_db (DeleteMembership catalog a i))"
proof -
  have "does (spares catalog i) (on_db f)" if "\<And>d r d'. f d = (r, d') \<Longrightarrow> others catalog i d' = others catalog i d" for f :: "(db, db_error, 'x) op"
    using that by (auto simp: does_def on_db_def spares_def split: prod.split)
  note on_table = this
  show "mem_ChannelID m = i \<Longrightarrow> does (spares catalog i) (save_membership catalog m)"
    unfolding save_membership_def using others_save by (intro on_table) blast
  show "does (spares catalog i) (save_channel E catalog row)"
    unfolding save_channel_def by (intro on_table) (drule SaveCatalog_frame, simp add: others_def)
  show "does (spares catalog i) (on_db (CompleteCatalogRemoval now catalog i))"
    using others_complete by (intro on_table)
  show "does (spares catalog i) (on_db (DeleteMembership catalog a i))"
    by (intro on_table) (auto simp: DeleteMembership_def others_def membership_key_def of_channel_def intro: filter_cong)
qed

lemmas spares_intros = does_return does_fail does_if does_and_then does_or_else does_option spares_rel
  spares_reads [OF reads_reconcile] spares_reads [OF reads_removal] spares_reads [OF reads_leaving]
  spares_reads [OF reads_load] spares_reads [OF reads_discussion]

lemma failed_check_key [simp]: "mem_ChannelID (failed_check E e m) = mem_ChannelID m"
  by (simp add: failed_check_def)

lemma removal_failed_key [simp]: "mem_ChannelID (removal_failed E e m) = mem_ChannelID m"
  by (simp add: removal_failed_def Let_def)

lemma with_peer_ID [simp]: "chl_ID (with_peer row p) = chl_ID row"
  by (simp add: with_peer_def)

text \<open>\<open>in_channel i\<close> of a transition or a membership found: it belongs to channel \<open>i\<close>.\<close>

lemma spares_save_changed:
  "mem_ChannelID (tr_membership t) = i \<Longrightarrow> does (spares catalog i) (save_changed catalog t)"
  by (simp add: save_changed_def does_return)

lemma approval_checked_key:
  "ensures (\<lambda>c. \<forall>row' m'. c = Some (row', m') \<longrightarrow> chl_ID row' = chl_ID row \<and> m' = tr_membership t)
     (approval_checked E a catalog row t)"
  unfolding approval_checked_def Let_def by (intro ensures_if ensures_and_then ensures_return) auto

lemma spares_approval_checked:
  "mem_ChannelID (tr_membership t) = chl_ID row \<Longrightarrow> does (spares catalog (chl_ID row)) (approval_checked E a catalog row t)"
  unfolding approval_checked_def Let_def by (intro spares_intros spares_save_changed spares_writes) simp_all

lemma checked_key:
  "ensures (\<lambda>c. \<forall>t. c = Some t \<longrightarrow> same_key m (tr_membership t))
     (or_else (and_then (reconcileMembershipIntent E row m) (\<lambda>t. return_ok (Some t)))
       (\<lambda>e. and_then (save_membership catalog (failed_check E e m)) (\<lambda>_.
          if isTerminalInviteHashError e then return_ok None else fail_with (accountRPCError E a e))))"
  by (intro ensures_or_else ensures_then [OF reconcile_same_key] ensures_and_then ensures_if ensures_fail ensures_return)
    auto

lemma await_same_key:
  "ensures (\<lambda>c. \<forall>row' m'. c = Some (row', m') \<longrightarrow> chl_ID row' = chl_ID row \<and> same_key m m')
     (await_approval E a catalog row m)"
  unfolding await_approval_def
proof (rule ensures_then [OF checked_key])
  fix c :: "membershipTransition option" assume "\<forall>t. c = Some t \<longrightarrow> same_key m (tr_membership t)"
  then show "ensures (\<lambda>c. \<forall>row' m'. c = Some (row', m') \<longrightarrow> chl_ID row' = chl_ID row \<and> same_key m m')
      (case c of None \<Rightarrow> return_ok None | Some t \<Rightarrow> approval_checked E a catalog row t)"
    by (cases c) (auto intro!: ensures_return ensures_mono [OF approval_checked_key])
qed

lemma spares_await:
  assumes "mem_ChannelID m = chl_ID row"
  shows "does (spares catalog (chl_ID row)) (await_approval E a catalog row m)"
  unfolding await_approval_def
proof (rule does_then [OF _ _ checked_key])
  show "does (spares catalog (chl_ID row)) (or_else (and_then (reconcileMembershipIntent E row m) (\<lambda>t. return_ok (Some t)))
       (\<lambda>e. and_then (save_membership catalog (failed_check E e m)) (\<lambda>_.
          if isTerminalInviteHashError e then return_ok None else fail_with (accountRPCError E a e))))"
    using assms by (intro spares_intros spares_writes) simp_all
next
  fix c :: "membershipTransition option" assume "\<forall>t. c = Some t \<longrightarrow> same_key m (tr_membership t)"
  then show "does (spares catalog (chl_ID row)) (case c of None \<Rightarrow> return_ok None | Some t \<Rightarrow> approval_checked E a catalog row t)"
    using assms by (intro does_option does_return spares_approval_checked spares_rel) (simp add: same_key_def)
qed simp

lemma spares_remove:
  "mem_ChannelID m = chl_ID row \<Longrightarrow> does (spares catalog (chl_ID row)) (remove_membership E a catalog row m)"
  unfolding remove_membership_def by (intro spares_intros spares_writes) simp_all

lemma spares_removal_step: "does (spares catalog (chl_ID row)) (removal_step E a catalog row)"
  unfolding removal_step_def
proof (rule does_then [OF spares_rel(2) spares_reads [OF reads_load] load_key], rule does_option)
  show "does (spares catalog (chl_ID row))
      (and_then (on_db (CompleteCatalogRemoval (me_now E) catalog (chl_ID row))) (\<lambda>_. return_ok row))"
    by (intro does_and_then does_return spares_writes spares_rel)
next
  fix found and m :: ChannelMembership assume "\<forall>m. found = Some m \<longrightarrow> mem_ChannelID m = chl_ID row \<and> mem_AccountID m = a" "found = Some m"
  then have m: "mem_ChannelID m = chl_ID row" by simp
  show "does (spares catalog (chl_ID row))
      (and_then (if mem_Status m = membershipPendingApproval then await_approval E a catalog row m else return_ok (Some (row, m)))
        (\<lambda>current. case current of None \<Rightarrow> return_ok row | Some (row, m) \<Rightarrow> remove_membership E a catalog row m))"
  proof (rule does_then [where Q = "\<lambda>c. \<forall>row' m'. c = Some (row', m') \<longrightarrow> chl_ID row' = chl_ID row \<and> same_key m m'"])
    show "ensures (\<lambda>c. \<forall>row' m'. c = Some (row', m') \<longrightarrow> chl_ID row' = chl_ID row \<and> same_key m m')
        (if mem_Status m = membershipPendingApproval then await_approval E a catalog row m else return_ok (Some (row, m)))"
      by (auto intro: await_same_key ensures_return)
    show "does (spares catalog (chl_ID row))
        (if mem_Status m = membershipPendingApproval then await_approval E a catalog row m else return_ok (Some (row, m)))"
      using m by (auto intro: spares_await does_return)
  next
    fix c :: "(Channel \<times> ChannelMembership) option" assume "\<forall>row' m'. c = Some (row', m') \<longrightarrow> chl_ID row' = chl_ID row \<and> same_key m m'"
    then show "does (spares catalog (chl_ID row))
        (case c of None \<Rightarrow> return_ok row | Some (row, m) \<Rightarrow> remove_membership E a catalog row m)"
      using m spares_remove by (intro does_option does_prod does_return spares_rel) (metis same_key_def)
  qed simp
qed

lemma spares_leaving_step:
  assumes "mem_ChannelID m = chl_ID row"
  shows "does (spares catalog (chl_ID row)) (leaving_step E a catalog row m)"
proof -
  have "ensures (\<lambda>(t, b). same_key m (tr_membership t))
      (or_else (reconcileLeavingMembership E row m)
        (\<lambda>e. and_then (save_membership catalog (failed_check E e m)) (\<lambda>_. fail_with (accountRPCError E a e))))"
    by (intro ensures_or_else leaving_same_key ensures_and_then ensures_fail)
  then show ?thesis
    unfolding leaving_step_def
  proof (rule does_then [rotated 2])
    show "does (spares catalog (chl_ID row))
      (or_else (reconcileLeavingMembership E row m)
        (\<lambda>e. and_then (save_membership catalog (failed_check E e m)) (\<lambda>_. fail_with (accountRPCError E a e))))"
      using assms by (intro spares_intros spares_writes) simp
  next
    fix c :: "membershipTransition \<times> bool" assume "case c of (t, b) \<Rightarrow> same_key m (tr_membership t)"
    then show "does (spares catalog (chl_ID row)) (case c of (t, terminal) \<Rightarrow>
        if terminal then and_then (on_db (DeleteMembership catalog a (chl_ID row))) (\<lambda>_. return_ok row)
        else and_then (save_changed catalog t) (\<lambda>_. return_ok row))"
      using assms by (cases c, simp only: split_conv)
        (intro spares_intros spares_writes spares_save_changed, simp add: same_key_def)
  qed simp
qed

lemma load_intent_key:
  "ensures (\<lambda>f. \<forall>m. f = Some m \<longrightarrow> mem_ChannelID m = chl_ID row \<and> mem_AccountID m = a)
     (loadAccountMembershipIntent E a catalog row)"
  unfolding loadAccountMembershipIntent_def
  by (rule ensures_then [OF load_key]) (auto intro!: ensures_return split: option.split)

lemma reads_load_intent: "does reads (loadAccountMembershipIntent E a catalog row)"
  unfolding loadAccountMembershipIntent_def by (intro does_intros reads_rel)

text \<open>What follows the reconciliation of an intent.\<close>

lemma spares_intent_step: "does (spares catalog (chl_ID row)) (intent_step E a catalog assigned row)"
  unfolding intent_step_def
proof (intro does_if does_return spares_rel, rule does_then [OF spares_rel(2) spares_reads [OF reads_load_intent] load_intent_key],
    intro does_option does_if does_return spares_rel)
  fix found and m :: ChannelMembership
  assume "\<forall>m. found = Some m \<longrightarrow> mem_ChannelID m = chl_ID row \<and> mem_AccountID m = a" "found = Some m"
  then have m: "mem_ChannelID m = chl_ID row" by simp
  have key: "ensures (\<lambda>t. same_key m (tr_membership t))
      (or_else (reconcileMembershipIntent E row m) (\<lambda>e. fail_with (accountRPCError E a e)))"
    by (intro ensures_or_else reconcile_same_key ensures_fail)
  show "does (spares catalog (chl_ID row))
      (and_then (or_else (reconcileMembershipIntent E row m) (\<lambda>e. fail_with (accountRPCError E a e)))
        (\<lambda>t. and_then (save_changed catalog t) (\<lambda>_. case tr_peer t of None \<Rightarrow> return_ok (row, None) | Some peer \<Rightarrow>
            if \<not> mem_IsMember (tr_membership t) \<or> mem_Status (tr_membership t) \<noteq> membershipMember then return_ok (row, None)
            else and_then (or_else (resolveExplicitDiscussionTarget (me_urls E) (me_client E) (chl_Link row) peer)
                  (\<lambda>e. fail_with (accountRPCError E a e)))
                (\<lambda>p. let named = (with_peer row p)\<lparr>chl_Status := ChannelReady, chl_UpdatedAt := me_checkedAt E\<rparr> in
                  and_then (save_channel E catalog named) (\<lambda>_. return_ok (named, Some (fst p)))))))"
    unfolding Let_def
    by (rule does_then [OF spares_rel(2) _ key], (intro does_or_else spares_reads [OF reads_reconcile] does_fail spares_rel))
      (use m in \<open>intro spares_intros spares_save_changed spares_writes, simp_all add: same_key_def\<close>)
qed

theorem spares_reconcile_row: "does (spares catalog (chl_ID row)) (reconcile_row E a catalog assigned row)"
  unfolding reconcile_row_def
proof (rule does_if, (intro does_and_then spares_removal_step does_return spares_rel),
    rule does_then [OF spares_rel(2) spares_reads [OF reads_load] load_key], rule does_option)
  fix found and m :: ChannelMembership
  assume "\<forall>m. found = Some m \<longrightarrow> mem_ChannelID m = chl_ID row \<and> mem_AccountID m = a" "found = Some m"
  then show "does (spares catalog (chl_ID row)) (if mem_Status m = membershipLeaving
      then and_then (leaving_step E a catalog row m) (\<lambda>row. return_ok (row, None))
      else intent_step E a catalog assigned row)"
    by (intro does_if does_and_then spares_leaving_step spares_intent_step does_return spares_rel) simp
qed (rule spares_intent_step)

section \<open>Joins wait for their turn\<close>

text \<open>
  The intent of an account to join a channel is due: its channel is not being removed, is no derived
  discussion and, when active, assigned to the account, and its time has come.
\<close>

definition due_intent :: "member_env \<Rightarrow> ID \<Rightarrow> string \<Rightarrow> ID list \<Rightarrow> db \<Rightarrow> Channel \<Rightarrow> bool" where
  "due_intent E a catalog assigned d row \<longleftrightarrow>
     chl_RemovalRequestedAt row = None \<and> \<not> isDerivedScoutDiscussion row \<and>
     (chl_Active row \<longrightarrow> chl_ID row \<in> set assigned) \<and>
     (case LoadMembership a catalog (chl_ID row) d of
        Inr (Some m) \<Rightarrow> mem_Status m = membershipJoining \<and> \<not> not_before m (me_now E) \<and> \<not> not_before m (me_checkedAt E)
      | _ \<Rightarrow> False)"

definition plain_link :: "member_env \<Rightarrow> Channel \<Rightarrow> bool" where
  "plain_link E row \<longleftrightarrow> explicitDiscussionTargetID (me_urls E) (chl_Link row) = None"

lemma asks_removal_step: "plain_link E row \<Longrightarrow> asks n (removal_step E a catalog row)"
proof -
  assume plain: "plain_link E row"
  have link: "ensures (\<lambda>c. \<forall>row' m'. c = Some (row', m') \<longrightarrow> chl_Link row' = chl_Link row) (await_approval E a catalog row m)" for m
  proof -
    have "ensures (\<lambda>c. \<forall>row' m'. c = Some (row', m') \<longrightarrow> chl_Link row' = chl_Link row) (approval_checked E a catalog row t)" for t
      unfolding approval_checked_def Let_def
      by (intro ensures_if ensures_and_then ensures_return) (auto simp: with_peer_def)
    then show ?thesis unfolding await_approval_def
      by (intro ensures_and_then) (auto intro: ensures_return split: option.split)
  qed
  have then_remove: "asks n (case c of None \<Rightarrow> return_ok row | Some (row, m) \<Rightarrow> remove_membership E a catalog row m)"
    if "\<forall>row' m'. c = Some (row', m') \<longrightarrow> chl_Link row' = chl_Link row" for c :: "(Channel \<times> ChannelMembership) option"
    using that plain unfolding plain_link_def remove_membership_def
    by (auto intro!: asks_return asks_none asks_if asks_fail asks_on_db asks_saving asks_removal split: option.split)
  have "asks n (and_then
      (if mem_Status m = membershipPendingApproval then await_approval E a catalog row m else return_ok (Some (row, m)))
      (\<lambda>c. case c of None \<Rightarrow> return_ok row | Some (row, m) \<Rightarrow> remove_membership E a catalog row m))" for m
    by (rule asks_then [where Q = "\<lambda>c. \<forall>row' m'. c = Some (row', m') \<longrightarrow> chl_Link row' = chl_Link row"])
      (use plain link in \<open>auto simp: plain_link_def intro!: asks_await asks_return ensures_return then_remove\<close>)
  note removal = this
  show ?thesis unfolding removal_step_def
    by (rule asks_none, rule asks_saving, rule asks_option)
      (rule removal asks_none asks_on_db asks_return)+
qed

lemma asks_leaving_step: "plain_link E row \<Longrightarrow> asks n (leaving_step E a catalog row m)"
  unfolding leaving_step_def plain_link_def by (intro asks_intros asks_leaving)

lemma load_membership_run:
  "load_membership a catalog i w = (map_sum MemberStore id (LoadMembership a catalog i (snd w)), w)"
  by (simp add: load_membership_def on_db_def)

lemma asks_intent_step:
  assumes "plain_link E row" "chl_RemovalRequestedAt row = None"
    and "intent_step E a catalog assigned row w = (r, w')"
  shows "\<exists>new. fst w' = new @ fst w \<and>
           length (filter is_join new) \<le> (if due_intent E a catalog assigned (snd w) row then 1 else 0)"
proof (cases "isDerivedScoutDiscussion row \<or> chl_Active row \<and> chl_ID row \<notin> set assigned")
  case True
  then show ?thesis using assms(3) by (auto simp: intent_step_def return_ok_def split: if_splits)
next
  case allowed: False
  let ?rest = "\<lambda>t. and_then (save_changed catalog t) (\<lambda>_. case tr_peer t of None \<Rightarrow> return_ok (row, None) | Some peer \<Rightarrow>
      if \<not> mem_IsMember (tr_membership t) \<or> mem_Status (tr_membership t) \<noteq> membershipMember then return_ok (row, None)
      else and_then (or_else (resolveExplicitDiscussionTarget (me_urls E) (me_client E) (chl_Link row) peer)
            (\<lambda>e. fail_with (accountRPCError E a e)))
          (\<lambda>p. let named = (with_peer row p)\<lparr>chl_Status := ChannelReady, chl_UpdatedAt := me_checkedAt E\<rparr> in
            and_then (save_channel E catalog named) (\<lambda>_. return_ok (named, Some (fst p)))))"
  have rest: "asks n (?rest t)" for n t
    using assms(1) unfolding plain_link_def Let_def by (intro asks_intros asks_discussion_none)
  show ?thesis
  proof (cases "LoadMembership a catalog (chl_ID row) (snd w)")
    case (Inl e)
    then show ?thesis using assms(3) allowed
      by (auto simp: intent_step_def loadAccountMembershipIntent_def and_then_def load_membership_run)
  next
    case (Inr found)
    show ?thesis
    proof (cases "\<exists>m. found = Some m \<and> \<not> (mem_Status m = membershipJoining \<and> not_before m (me_now E)) \<and>
        (mem_Status m = membershipJoining \<or> mem_Status m = membershipPendingApproval)")
      case False
      then show ?thesis using assms(3) allowed Inr
        by (cases found) (auto simp: intent_step_def loadAccountMembershipIntent_def and_then_def load_membership_run
            return_ok_def split: if_splits)
    next
      case True
      then obtain m where m: "found = Some m" "\<not> (mem_Status m = membershipJoining \<and> not_before m (me_now E))"
        "mem_Status m = membershipJoining \<or> mem_Status m = membershipPendingApproval" by blast
      have run: "and_then (or_else (reconcileMembershipIntent E row m) (\<lambda>e. fail_with (accountRPCError E a e))) ?rest w = (r, w')"
        using assms(3) allowed Inr m
        by (auto simp: intent_step_def loadAccountMembershipIntent_def and_then_def load_membership_run return_ok_def
            simp del: split_paired_All split_paired_Ex)
      have "asks (if mem_Status m = membershipJoining \<and> \<not> not_before m (me_checkedAt E) then 1 else 0)
          (and_then (or_else (reconcileMembershipIntent E row m) (\<lambda>e. fail_with (accountRPCError E a e))) ?rest)"
        by (intro asks_first asks_reconcile rest asks_fail)
      from asksD [OF this run] obtain new where new: "fst w' = new @ fst w"
        "length (filter is_join new) \<le> (if mem_Status m = membershipJoining \<and> \<not> not_before m (me_checkedAt E) then 1 else 0)"
        by blast
      have "due_intent E a catalog assigned (snd w) row" if "mem_Status m = membershipJoining \<and> \<not> not_before m (me_checkedAt E)"
        using that allowed Inr m assms(2) by (simp add: due_intent_def)
      with new show ?thesis by (auto split: if_splits)
    qed
  qed
qed

lemma reconcile_row_asks:
  assumes "plain_link E row" and "reconcile_row E a catalog assigned row w = (r, w')"
  shows "\<exists>new. fst w' = new @ fst w \<and>
           length (filter is_join new) \<le> (if due_intent E a catalog assigned (snd w) row then 1 else 0)"
proof (cases "chl_RemovalRequestedAt row")
  case (Some t)
  then have "asks 0 (reconcile_row E a catalog assigned row)"
    unfolding reconcile_row_def by (simp, intro asks_none asks_removal_step asks_return assms(1))
  from asksD [OF this assms(2)] show ?thesis by auto
next
  case None
  show ?thesis
  proof (cases "LoadMembership a catalog (chl_ID row) (snd w)")
    case (Inl e)
    then show ?thesis using assms(2) None by (simp add: reconcile_row_def and_then_def load_membership_run)
  next
    case (Inr found)
    show ?thesis
    proof (cases "\<exists>m. found = Some m \<and> mem_Status m = membershipLeaving")
      case True
      then obtain m where m: "found = Some m" "mem_Status m = membershipLeaving" by blast
      have run: "and_then (leaving_step E a catalog row m) (\<lambda>row. return_ok (row, None)) w = (r, w')"
        using assms(2) None Inr m by (simp add: reconcile_row_def load_membership_run and_then_def [of "load_membership a catalog (chl_ID row)"])
      have "asks 0 (and_then (leaving_step E a catalog row m) (\<lambda>row. return_ok (row, None :: InputPeer option)))"
        by (intro asks_none asks_leaving_step asks_return assms(1))
      from asksD [OF this run] show ?thesis by auto
    next
      case False
      then have "intent_step E a catalog assigned row w = (r, w')"
        using assms(2) None Inr
        by (cases found) (auto simp: reconcile_row_def load_membership_run and_then_def [of "load_membership a catalog (chl_ID row)"])
      from asks_intent_step [OF assms(1) None this] show ?thesis .
    qed
  qed
qed

lemma LoadMembership_others:
  assumes "others catalog i d' = others catalog i d" "j \<noteq> i"
  shows "LoadMembership a catalog j d' = LoadMembership a catalog j d"
proof -
  have "sql_select (\<lambda>r. membership_key r = (a, catalog, j)) (filter (\<lambda>r. \<not> of_channel catalog i r) rows) =
      sql_select (\<lambda>r. membership_key r = (a, catalog, j)) rows" for rows
    using assms(2) by (induction rows) (auto simp: membership_key_def of_channel_def)
  then show ?thesis using assms(1) unfolding LoadMembership_def others_def by metis
qed

lemma due_intent_others:
  "others catalog i d' = others catalog i d \<Longrightarrow> chl_ID row \<noteq> i \<Longrightarrow>
   due_intent E a catalog assigned d' row = due_intent E a catalog assigned d row"
  using LoadMembership_others [of catalog i d' d "chl_ID row" a] by (simp add: due_intent_def)


section \<open>Members leave before they are forgotten\<close>

definition held :: "db \<Rightarrow> (ID \<times> string \<times> ID) set" where
  "held d = membership_key ` set (db_memberships d)"

definition forgets_none :: "world \<Rightarrow> world \<Rightarrow> bool" where
  "forgets_none w w' \<longleftrightarrow> held (snd w) \<subseteq> held (snd w')"

text \<open>The request made after \<open>log\<close> asks to leave, and Telegram's answer is that the account is out.\<close>

definition left_by :: "member_env \<Rightarrow> requests \<Rightarrow> tg_request \<Rightarrow> bool" where
  "left_by E log req =
     (let out = (\<lambda>answer. case answer of Inr (_ :: unit) \<Rightarrow> True | Inl e \<Rightarrow> tgerr_Is e [''USER_NOT_PARTICIPANT'']) in
      case req of
        ChannelsLeaveChannel i h \<Rightarrow> out (on_LeaveChannel (me_client E) log i h)
      | MessagesDeleteChatUser i \<Rightarrow> out (on_DeleteChatUser (me_client E) log i)
      | _ \<Rightarrow> False)"

lemma forgets_none_rel [simp]: "reflp forgets_none" "transp forgets_none"
  by (auto simp: forgets_none_def reflp_def transp_def)

lemma forgets_none_reads: "does reads m \<Longrightarrow> does forgets_none m"
  by (erule does_mono) (simp add: reads_def forgets_none_def)

lemma membership_key_excluded [simp]: "membership_key (excluded_membership new d r) = membership_key r"
  by (simp add: membership_key_def excluded_membership_def Let_def)

lemma held_save:
  assumes "SaveMembership catalog m d = (r, d')"
  shows "held d \<subseteq> held d'"
proof -
  let ?new = "row_of_membership catalog m d"
  have "map membership_key (sql_update (\<lambda>r. membership_key r = membership_key ?new) (excluded_membership ?new d) (db_memberships d)) =
      map membership_key (db_memberships d)" by (rule map_key_sql_update) simp
  from arg_cong [OF this, of set] assms show ?thesis
    by (auto simp: SaveMembership_def Let_def held_def split: if_splits)
qed

lemma held_complete: "CompleteCatalogRemoval now catalog i d = (r, d') \<Longrightarrow> held d \<subseteq> held d'"
  by (simp add: held_def CompleteCatalogRemoval_memberships)

lemma forgets_none_writes [simp]:
  "does forgets_none (save_membership catalog m)"
  "does forgets_none (save_channel E catalog row)"
  "does forgets_none (on_db (CompleteCatalogRemoval now catalog i))"
  using held_save held_complete
  by (auto simp: does_def on_db_def forgets_none_def save_membership_def save_channel_def held_def
      dest!: SaveCatalog_frame split: prod.split)

lemmas forgets_none_intros = does_return does_fail does_if does_and_then does_or_else does_option forgets_none_rel
  forgets_none_reads [OF reads_reconcile] forgets_none_reads [OF reads_removal] forgets_none_reads [OF reads_leaving]
  forgets_none_reads [OF reads_load] forgets_none_reads [OF reads_discussion] forgets_none_reads [OF reads_load_intent]
  forgets_none_writes

lemma forgets_none_save_changed: "does forgets_none (save_changed catalog t)"
  unfolding save_changed_def by (intro forgets_none_intros)

lemma forgets_none_await: "does forgets_none (await_approval E a catalog row m)"
  unfolding await_approval_def approval_checked_def Let_def by (intro forgets_none_intros forgets_none_save_changed)

lemma forgets_none_intent: "does forgets_none (intent_step E a catalog assigned row)"
  unfolding intent_step_def Let_def by (intro forgets_none_intros forgets_none_save_changed)

lemma leave_peer_left:
  assumes "leave_peer E peer w = (Inr (), w')"
  shows "\<exists>req. fst w' = req # fst w \<and> left_by E (fst w) req"
  using assms
  by (cases peer) (auto simp: leave_peer_def tolerate_def or_else_def call_def fail_with_def return_ok_def left_by_def
      rpc_is_def map_sum_def Let_def split: sum.splits if_splits)

lemma removal_leaves:
  assumes "reconcileRemovalMembership E row m w = (Inr True, w')" "mem_IsMember m"
  shows "\<exists>req log. fst w' = req # log \<and> left_by E log req"
  using assms unfolding reconcileRemovalMembership_def
  by (auto simp: and_then_def return_ok_def fail_with_def split: prod.splits sum.splits if_splits dest!: leave_peer_left)

lemma removal_waits: "reconcileRemovalMembership E row m w = (Inr True, w') \<Longrightarrow> mem_Status m \<noteq> membershipPendingApproval"
  by (auto simp: reconcileRemovalMembership_def return_ok_def)

text \<open>The writes after a deletion do not change the log.\<close>

lemma and_then_cases:
  assumes "and_then m f w = (r, w')"
  obtains (error) e where "m w = (Inl e, w')" "r = Inl e"
  | (ok) x w1 where "m w = (Inr x, w1)" "f x w1 = (r, w')"
  using assms by (auto simp: and_then_def split: prod.splits sum.splits)

lemma or_else_cases:
  assumes "or_else m h w = (r, w')"
  obtains (handled) e w1 where "m w = (Inl e, w1)" "h e w1 = (r, w')"
  | (ok) x where "m w = (Inr x, w')" "r = Inr x"
  using assms by (auto simp: or_else_def split: prod.splits sum.splits)

lemma on_db_log: "on_db f w = (r, w') \<Longrightarrow> fst w' = fst w"
  by (auto simp: on_db_def split: prod.splits)

lemma leaves:
  "does forgets_none (or_else (reconcileRemovalMembership E row m)
     (\<lambda>e. and_then (save_membership catalog (removal_failed E e m)) (\<lambda>_. fail_with (accountRPCError E a e))))"
  by (intro forgets_none_intros)

lemma remove_leaves:
  assumes "remove_membership E a catalog row m w = (r, w')" "k \<in> held (snd w)" "k \<notin> held (snd w')"
  shows "mem_Status m \<noteq> membershipPendingApproval \<and>
    (mem_IsMember m \<longrightarrow> (\<exists>req log. fst w' = req # log \<and> left_by E log req))"
  using assms(1) unfolding remove_membership_def
proof (cases rule: and_then_cases)
  case (error e)
  then have "forgets_none w w'" using doesD [OF leaves] by blast
  with assms(2,3) show ?thesis by (auto simp: forgets_none_def)
next
  case (ok terminal w1)
  then have "forgets_none w w1" using doesD [OF leaves] by blast
  then have "k \<in> held (snd w1)" using assms(2) by (auto simp: forgets_none_def)
  with ok(2) assms(3) have terminal by (auto simp: return_ok_def split: if_splits)
  have run: "reconcileRemovalMembership E row m w = (Inr True, w1)"
    using ok(1) \<open>terminal\<close> by (cases rule: or_else_cases) (auto simp: and_then_def fail_with_def split: prod.splits sum.splits)
  have "fst w' = fst w1"
    using ok(2) \<open>terminal\<close> by (auto simp: and_then_def return_ok_def split: prod.splits sum.splits dest!: on_db_log)
  with run show ?thesis using removal_leaves [OF run] removal_waits [OF run] by auto
qed

lemma pending_or_member:
  "mem_Status m = membershipPendingApproval \<Longrightarrow>
   ensures (\<lambda>t. mem_Status (tr_membership t) = membershipPendingApproval \<or> mem_IsMember (tr_membership t))
     (reconcileMembershipIntent E row m)"
  unfolding reconcileMembershipIntent_def Let_def
  by (simp, intro ensures_and_then) (auto intro!: ensures_return simp: markMember_def Let_def split: option.split)

lemma await_member:
  assumes "mem_Status m = membershipPendingApproval"
  shows "ensures (\<lambda>c. \<forall>row' m'. c = Some (row', m') \<longrightarrow> mem_IsMember m') (await_approval E a catalog row m)"
proof -
  have checked: "ensures (\<lambda>c. \<forall>t. c = Some t \<longrightarrow> mem_Status (tr_membership t) = membershipPendingApproval \<or> mem_IsMember (tr_membership t))
     (or_else (and_then (reconcileMembershipIntent E row m) (\<lambda>t. return_ok (Some t)))
       (\<lambda>e. and_then (save_membership catalog (failed_check E e m)) (\<lambda>_.
          if isTerminalInviteHashError e then return_ok None else fail_with (accountRPCError E a e))))"
    by (intro ensures_or_else ensures_then [OF pending_or_member [OF assms]] ensures_and_then ensures_if ensures_fail ensures_return)
      auto
  have "ensures (\<lambda>c. \<forall>row' m'. c = Some (row', m') \<longrightarrow> mem_IsMember m') (approval_checked E a catalog row t)"
    if "mem_Status (tr_membership t) = membershipPendingApproval \<or> mem_IsMember (tr_membership t)" for t
    using that unfolding approval_checked_def Let_def by (auto intro!: ensures_and_then ensures_return)
  then show ?thesis unfolding await_approval_def
    by (intro ensures_then [OF checked]) (auto intro: ensures_return split: option.split)
qed

lemma removal_step_leaves:
  assumes "removal_step E a catalog row w = (r, w')" "k \<in> held (snd w)" "k \<notin> held (snd w')"
    and "LoadMembership a catalog (chl_ID row) (snd w) = Inr (Some m)"
    and "mem_IsMember m \<or> mem_Status m = membershipPendingApproval"
  shows "\<exists>req log. fst w' = req # log \<and> left_by E log req"
proof -
  let ?first = "if mem_Status m = membershipPendingApproval then await_approval E a catalog row m else return_ok (Some (row, m))"
  have "and_then ?first (\<lambda>c. case c of None \<Rightarrow> return_ok row | Some (row, m) \<Rightarrow> remove_membership E a catalog row m) w = (r, w')"
    using assms(1,4) by (simp add: removal_step_def load_membership_run and_then_def [of "load_membership a catalog (chl_ID row)"])
  moreover have first: "does forgets_none ?first" by (intro does_if forgets_none_await does_return forgets_none_rel)
  ultimately show ?thesis
  proof (cases rule: and_then_cases)
    case (error e)
    then have "forgets_none w w'" using doesD [OF first] by blast
    with assms(2,3) show ?thesis by (auto simp: forgets_none_def)
  next
    case (ok c w1)
    then have "forgets_none w w1" using doesD [OF first] by blast
    then have k: "k \<in> held (snd w1)" using assms(2) by (auto simp: forgets_none_def)
    show ?thesis
    proof (cases c)
      case None
      with ok k assms(3) show ?thesis by (auto simp: return_ok_def)
    next
      case (Some p)
      obtain row' m' where p: "p = (row', m')" by (cases p)
      have "mem_IsMember m'"
        using ok(1) Some p assms(5) ensuresD [OF await_member]
        by (cases "mem_Status m = membershipPendingApproval") (auto simp: return_ok_def)
      moreover have "remove_membership E a catalog row' m' w1 = (r, w')" using ok(2) Some p by simp
      ultimately show ?thesis using remove_leaves [OF _ k assms(3)] by blast
    qed
  qed
qed

lemma leaving_leaves:
  assumes "reconcileLeavingMembership E row m w = (Inr (t, True), w')"
    and "mem_IsMember m \<or> mem_RequestSubmittedAt m \<noteq> None"
  shows "\<exists>req log. fst w' = req # log \<and> left_by E log req"
  using assms unfolding reconcileLeavingMembership_def Let_def
  by (auto simp: and_then_def return_ok_def split: prod.splits sum.splits if_splits dest!: removal_leaves)

lemma leaving_step_leaves:
  assumes "leaving_step E a catalog row m w = (r, w')" "k \<in> held (snd w)" "k \<notin> held (snd w')"
    and "mem_IsMember m \<or> mem_RequestSubmittedAt m \<noteq> None"
  shows "\<exists>req log. fst w' = req # log \<and> left_by E log req"
proof -
  let ?first = "or_else (reconcileLeavingMembership E row m)
      (\<lambda>e. and_then (save_membership catalog (failed_check E e m)) (\<lambda>_. fail_with (accountRPCError E a e)))"
  have first: "does forgets_none ?first" by (intro forgets_none_intros)
  show ?thesis using assms(1) unfolding leaving_step_def
  proof (cases rule: and_then_cases)
    case (error e)
    then have "forgets_none w w'" using doesD [OF first] by blast
    with assms(2,3) show ?thesis by (auto simp: forgets_none_def)
  next
    case (ok c w1)
    then have "forgets_none w w1" using doesD [OF first] by blast
    then have k: "k \<in> held (snd w1)" using assms(2) by (auto simp: forgets_none_def)
    obtain t terminal where c: "c = (t, terminal)" by (cases c)
    have terminal
    proof (rule ccontr)
      assume "\<not> terminal"
      then have "and_then (save_changed catalog t) (\<lambda>_. return_ok row) w1 = (r, w')" using ok(2) c by simp
      moreover have "does forgets_none (and_then (save_changed catalog t) (\<lambda>_. return_ok row))"
        by (intro does_and_then forgets_none_save_changed does_return forgets_none_rel)
      ultimately have "forgets_none w1 w'" using doesD by metis
      with k assms(3) show False by (auto simp: forgets_none_def)
    qed
    from ok(1) have run: "reconcileLeavingMembership E row m w = (Inr (t, True), w1)"
      by (cases rule: or_else_cases)
        (use c \<open>terminal\<close> in \<open>auto simp: and_then_def fail_with_def split: prod.splits sum.splits\<close>)
    have "fst w' = fst w1"
      using ok(2) c \<open>terminal\<close> by (auto simp: and_then_def return_ok_def split: prod.splits sum.splits dest!: on_db_log)
    with leaving_leaves [OF run assms(4)] show ?thesis by simp
  qed
qed


section \<open>A client that lets everyone in and out\<close>

definition open_client :: tg_client where
  "open_client =
     \<lparr>on_ResolveUsername = (\<lambda>log name. Inr [TgChannel 100 1 ''Boats'']),
      on_CheckChatInvite = (\<lambda>log hash. Inr ChatInviteOther),
      on_ImportChatInvite = (\<lambda>log hash. Inl (RPC ''INVITE_REQUEST_SENT'' 0)),
      on_JoinChannel = (\<lambda>log i h. Inr ()), on_GetParticipant = (\<lambda>log i h. Inr ()),
      on_LeaveChannel = (\<lambda>log i h. Inr ()), on_DeleteChatUser = (\<lambda>log i. Inr ()),
      on_GetFullChannel = (\<lambda>log i h. Inr (FullChatOther, [])), on_GetHistory = (\<lambda>log p o1 o2 n. Inr MessagesOther)\<rparr>"

definition open_env :: member_env where
  "open_env =
     \<lparr>me_client = open_client,
      me_urls = \<lparr>url_Parse = (\<lambda>s. Some \<lparr>url_Scheme = ''https'', url_Host = ''t.me'', url_Path = s, url_Fragment = '''',
                                       url_invite = ''''\<rparr>), url_String = url_Path\<rparr>,
      me_unicode = plain_unicode, me_flood = (\<lambda>e. None), me_text = (\<lambda>e. ''error''),
      me_now = 200 * Second, me_checkedAt = 200 * Second\<rparr>"

definition boats :: Channel where
  "boats = the (scanCatalogChannel OutboundChannels demo_channel)"

definition joining_db :: db where
  "joining_db = demo_db\<lparr>db_memberships := [joining_row ''outbound'' ''c1'' 36 demo_db ''a1'' (100 * Second)]\<rparr>"

definition join_run :: "(member_error + (Channel list \<times> (ID \<times> InputPeer) list)) \<times> world" where
  "join_run = reconcileCatalogMembershipIntents open_env ''a1'' ''outbound'' [''c1''] [boats] ([], joining_db)"

lemma join_run_requests:
  "fst (snd join_run) = [ChannelsJoinChannel 100 1, ContactsResolveUsername ''boats'']" by code_simp

lemma join_run_is:
  "reconcileCatalogMembershipIntents open_env ''a1'' ''outbound'' [''c1''] [boats] ([], joining_db) =
     (fst join_run, snd join_run)"
  by (simp only: join_run_def prod.collapse)

lemma boats_plain: "plain_link open_env boats" by code_simp


definition removed_boats :: Channel where
  "removed_boats = boats\<lparr>chl_TelegramID := FormatInt 100, chl_RemovalRequestedAt := Some 0\<rparr>"

definition member_row :: "ID \<Rightarrow> membership_row" where
  "member_row a = (joining_row ''outbound'' ''c1'' 36 demo_db a 0)\<lparr>mr_is_member := True, mr_status := ''member''\<rparr>"

definition removal_db :: db where
  "removal_db = demo_db\<lparr>db_outbound := [demo_channel\<lparr>ch_removal_requested_at := Some (formatTime 0)\<rparr>],
     db_memberships := [member_row ''a1'']\<rparr>"

definition removal_run_of :: "ID \<Rightarrow> db \<Rightarrow> (member_error + (Channel \<times> InputPeer option)) \<times> world" where
  "removal_run_of a d = reconcile_row open_env a ''outbound'' [] removed_boats ([], d)"

lemma removed_boats_ID: "chl_ID removed_boats = ''c1''" by code_simp

lemma removal_run_requests:
  "fst (snd (removal_run_of ''a1'' removal_db)) = [ChannelsLeaveChannel 100 1, ContactsResolveUsername ''boats'']"
  by code_simp

lemma removal_run_held:
  "(''a1'', ''outbound'', ''c1'') \<in> held removal_db"
  "(''a1'', ''outbound'', ''c1'') \<notin> held (snd (snd (removal_run_of ''a1'' removal_db)))"
  by code_simp+

lemma removal_db_member:
  "\<exists>m. LoadMembership ''a1'' ''outbound'' ''c1'' removal_db = Inr (Some m) \<and> mem_IsMember m"
proof -
  have "(case LoadMembership ''a1'' ''outbound'' ''c1'' removal_db of Inr (Some m) \<Rightarrow> mem_IsMember m | _ \<Rightarrow> False)"
    by code_simp
  then show ?thesis by (auto split: sum.splits option.splits)
qed


end
