(* ===== verification/RemovalFacts.thy ===== *)
theory RemovalFacts
  imports MembershipFacts
begin

text \<open>
  The end of a removal: when Telegram lets every account go, the channel leaves its catalog; and the
  request that a removal forgets.
\<close>

section \<open>Requests that are forgotten\<close>

text \<open>
  C36. Withdrawn requests are forgotten. Once a removal is requested, the membership of an account that is
  leaving and is no member is deleted without asking Telegram anything, also when a request to join was
  submitted for it and still waits for approval.
\<close>

theorem withdrawn_requests_are_forgotten:
  assumes "chl_RemovalRequestedAt row \<noteq> None"
    and "LoadMembership a catalog (chl_ID row) (snd w) = Inr (Some m)"
    and "mem_Status m = membershipLeaving" and "\<not> mem_IsMember m"
  shows "fst (snd (reconcile_row E a catalog assigned row w)) = fst w \<and>
         (a, catalog, chl_ID row) \<notin> held (snd (snd (reconcile_row E a catalog assigned row w)))"
proof -
  obtain r d1 where del: "CompleteCatalogRemoval (me_now E) catalog (chl_ID row)
      ((snd w)\<lparr>db_memberships := filter (\<lambda>r. membership_key r \<noteq> (a, catalog, chl_ID row)) (db_memberships (snd w))\<rparr>) = (r, d1)"
    by fastforce
  have step: "snd (reconcile_row E a catalog assigned row w) = (fst w, d1)"
    using assms del
    by (cases r) (simp_all add: reconcile_row_def removal_step_def remove_membership_def reconcileRemovalMembership_def
        and_then_def or_else_def load_membership_run return_ok_def on_db_def DeleteMembership_def)
  have "set (db_memberships d1) \<subseteq>
      set (filter (\<lambda>r. membership_key r \<noteq> (a, catalog, chl_ID row)) (db_memberships (snd w)))"
    using CompleteCatalogRemoval_memberships [OF del] by simp
  then show ?thesis using step by (auto simp: held_def)
qed

section \<open>Completing a removal\<close>

definition gone :: "catalog_table \<Rightarrow> ID \<Rightarrow> db \<Rightarrow> bool" where
  "gone T i d \<longleftrightarrow>
     (\<forall>r \<in> set (table_rows T d). ch_id r = i \<longrightarrow> T = ScoutChats \<and> ch_archived_at r \<noteq> None)"

definition being_removed :: "catalog_table \<Rightarrow> ID \<Rightarrow> db \<Rightarrow> bool" where
  "being_removed T i d \<longleftrightarrow>
     distinct (map ch_id (table_rows T d)) \<and>
     (\<forall>r \<in> set (table_rows T d). ch_id r = i \<longrightarrow> ch_removal_requested_at r \<noteq> None)"

lemma table_rows_with_rows [simp]:
  "table_rows T (with_rows T rows d) = rows" "db_memberships (with_rows T rows d) = db_memberships d"
  "with_rows T (table_rows T d) d = d" "table_rows T (d\<lparr>db_memberships := ms\<rparr>) = table_rows T d"
  by (simp_all add: table_rows_def with_rows_def split: catalog_table.split)

lemma CompleteCatalogRemoval_waits:
  assumes "catalogTable catalog = Inr T" "sql_exists (of_channel catalog i) (db_memberships d)"
  shows "snd (CompleteCatalogRemoval now catalog i d) = d"
proof -
  have "removable catalog i d = (\<lambda>r. False)" using assms(2) by (auto simp: removable_def)
  then show ?thesis using assms(1)
    by (simp add: CompleteCatalogRemoval_def in_tx_def Let_def sql_affected_def sql_update_def)
qed

lemma CompleteCatalogRemoval_ends:
  assumes T: "catalogTable catalog = Inr T" and free: "\<not> sql_exists (of_channel catalog i) (db_memberships d)"
    and inv: "being_removed T i d"
  shows "gone T i (snd (CompleteCatalogRemoval now catalog i d)) \<and>
         being_removed T i (snd (CompleteCatalogRemoval now catalog i d)) \<and>
         db_memberships (snd (CompleteCatalogRemoval now catalog i d)) = db_memberships d"
proof -
  let ?p = "\<lambda>r. removable catalog i d r \<and> (T = ScoutChats \<longrightarrow> ch_archived_at r = None)"
  let ?f = "\<lambda>r. r\<lparr>ch_active := True, ch_status := ChannelPaused,
      ch_archived_at := Some (formatTime now), ch_updated_at := formatTime now\<rparr>"
  let ?rows = "if T = ScoutChats then sql_update ?p ?f (table_rows T d) else filter (\<lambda>r. \<not> ?p r) (table_rows T d)"
  have one: "\<not> 1 < sql_affected ?p (table_rows T d)"
    using sql_affected_key_le_1 [of ch_id "table_rows T d" ?p i] inv by (auto simp: being_removed_def removable_def)
  have ms: "filter (\<lambda>r. \<not> of_channel catalog i r) (db_memberships d) = db_memberships d"
    using free by (simp add: sql_exists_iff filter_id_conv)
  have same: "with_rows T ?rows d = (if T = ScoutChats then with_rows T (sql_update ?p ?f (table_rows T d)) d
      else with_rows T (filter (\<lambda>r. \<not> ?p r) (table_rows T d)) d)" by simp
  have snd_eq: "snd (CompleteCatalogRemoval now catalog i d) = with_rows T ?rows d"
    using T one ms unfolding CompleteCatalogRemoval_def in_tx_def Let_def
    by (auto simp: same [symmetric] split: if_splits)
  have key: "?p r \<longleftrightarrow> ch_id r = i \<and> (T = ScoutChats \<longrightarrow> ch_archived_at r = None)" if "r \<in> set (table_rows T d)" for r
    using that free inv by (auto simp: removable_def being_removed_def)
  have left: "T = ScoutChats \<and> ch_archived_at r \<noteq> None" if "r \<in> set (table_rows T d)" "ch_id r = i" "\<not> ?p r" for r
    using key [OF that(1)] that(2,3) by (cases "T = ScoutChats") auto
  have "gone T i (with_rows T ?rows d)"
    using left by (auto simp: gone_def set_sql_update)
  moreover have "being_removed T i (with_rows T ?rows d)"
    using inv by (auto simp: being_removed_def set_sql_update map_key_sql_update distinct_map_filter)
  ultimately show ?thesis using snd_eq by simp
qed

section \<open>Removing a channel everywhere\<close>

text \<open>
  Telegram lets the account go: the link is public, its name leads to a channel (the stored one, when a
  peer is stored), and the request to leave it succeeds.
\<close>

definition lets_go :: "Channel \<Rightarrow> member_env \<Rightarrow> bool" where
  "lets_go row E \<longleftrightarrow>
     telegramJoinLink (me_urls E) (chl_Link row) \<noteq> '''' \<and>
     privateInviteHash (me_unicode E) (me_urls E) (telegramJoinLink (me_urls E) (chl_Link row)) = None \<and>
     plain_link E row \<and>
     (\<exists>i h title. (\<forall>log name. on_ResolveUsername (me_client E) log name = Inr [TgChannel i h title]) \<and>
        (chl_TelegramID row \<noteq> '''' \<longrightarrow> FormatInt i = chl_TelegramID row) \<and>
        (\<forall>log. on_LeaveChannel (me_client E) log i h = Inr ()))"

text \<open>The runs of the accounts, one after the other, over the channel.\<close>

fun over_accounts :: "(member_env \<times> ID) list \<Rightarrow> string \<Rightarrow> ID list \<Rightarrow> Channel \<Rightarrow> world \<Rightarrow> world" where
  "over_accounts [] catalog assigned row w = w"
| "over_accounts ((E, a) # accounts) catalog assigned row w =
     over_accounts accounts catalog assigned row (snd (reconcile_row E a catalog assigned row w))"

lemma removal_accepted:
  assumes "lets_go row E" "mem_Status m \<noteq> membershipPendingApproval"
  obtains log where "reconcileRemovalMembership E row m w = (Inr True, (log, snd w))"
proof -
  from assms(1) obtain i h title where ok: "\<And>log name. on_ResolveUsername (me_client E) log name = Inr [TgChannel i h title]"
      "chl_TelegramID row \<noteq> '''' \<longrightarrow> FormatInt i = chl_TelegramID row"
      "\<And>log. on_LeaveChannel (me_client E) log i h = Inr ()"
      "telegramJoinLink (me_urls E) (chl_Link row) \<noteq> ''''"
      "privateInviteHash (me_unicode E) (me_urls E) (telegramJoinLink (me_urls E) (chl_Link row)) = None"
      "explicitDiscussionTargetID (me_urls E) (chl_Link row) = None"
    unfolding lets_go_def plain_link_def by blast
  have "\<exists>log. reconcileRemovalMembership E row m w = (Inr True, (log, snd w))"
  proof (cases "mem_IsMember m")
    case False
    then show ?thesis using assms(2) by (auto simp: reconcileRemovalMembership_def return_ok_def intro: exI [of _ "fst w"])
  next
    case True
    moreover have "\<not> (chl_TelegramID row \<noteq> '''' \<and> FormatInt i \<noteq> chl_TelegramID row)" using ok(2) by blast
    ultimately show ?thesis using assms(2) ok(1,3-6)
      by (auto simp: reconcileRemovalMembership_def resolveTelegramPeer_def Let_def and_then_def call_def
          first_chat_def inputPeerFromChat_def return_ok_def resolveExplicitDiscussionTarget_def inputPeerID_def
          leave_peer_def tolerate_def or_else_def)
  qed
  then show ?thesis using that by blast
qed

text \<open>One run deletes the account's membership and then tries to complete the removal.\<close>

lemma removal_run:
  assumes "lets_go row E" "chl_RemovalRequestedAt row \<noteq> None"
    and "\<forall>r \<in> set (db_memberships (snd w)). of_channel catalog (chl_ID row) r \<longrightarrow>
           scan_membership r \<noteq> None \<and> mr_status r \<noteq> membershipPendingApproval"
  shows "snd (snd (reconcile_row E a catalog assigned row w)) =
    snd (CompleteCatalogRemoval (me_now E) catalog (chl_ID row)
      ((snd w)\<lparr>db_memberships := filter (\<lambda>r. membership_key r \<noteq> (a, catalog, chl_ID row)) (db_memberships (snd w))\<rparr>))"
proof (cases "sql_select (\<lambda>r. membership_key r = (a, catalog, chl_ID row)) (db_memberships (snd w))")
  case None
  then have "filter (\<lambda>r. membership_key r \<noteq> (a, catalog, chl_ID row)) (db_memberships (snd w)) = db_memberships (snd w)"
    by (simp add: sql_select_None_iff filter_id_conv)
  moreover have "LoadMembership a catalog (chl_ID row) (snd w) = Inr None" using None by (simp add: LoadMembership_def)
  ultimately show ?thesis using assms(2)
    by (auto simp: reconcile_row_def removal_step_def and_then_def load_membership_run return_ok_def on_db_def
        split: prod.splits sum.splits)
next
  case (Some r)
  then have "of_channel catalog (chl_ID row) r" "r \<in> set (db_memberships (snd w))"
    by (auto dest!: sql_select_SomeD simp: membership_key_def of_channel_def)
  with assms(3) obtain m where m: "scan_membership r = Some m" "mr_status r \<noteq> membershipPendingApproval" by blast
  then have status: "mem_Status m \<noteq> membershipPendingApproval" by (auto simp: scan_membership_def split: option.splits)
  have load: "LoadMembership a catalog (chl_ID row) (snd w) = Inr (Some m)" using Some m by (simp add: LoadMembership_def)
  obtain log where leave: "reconcileRemovalMembership E row m w = (Inr True, (log, snd w))"
    using removal_accepted [OF assms(1) status] by blast
  obtain r1 d1 where del: "CompleteCatalogRemoval (me_now E) catalog (chl_ID row)
      ((snd w)\<lparr>db_memberships := filter (\<lambda>r. membership_key r \<noteq> (a, catalog, chl_ID row)) (db_memberships (snd w))\<rparr>) = (r1, d1)"
    by fastforce
  show ?thesis using assms(2) load leave status del
    by (cases r1) (simp_all add: reconcile_row_def removal_step_def remove_membership_def
        and_then_def or_else_def load_membership_run return_ok_def on_db_def DeleteMembership_def)
qed

text \<open>
  C17. Requested removals complete. A requested removal comes to its end: when every account with a
  membership in the channel has a run, none of them waits for approval, and Telegram lets each go, the
  channel has left its catalog (a scouted one is archived) and no membership in it is left.
\<close>

theorem requested_removals_complete:
  assumes "catalogTable catalog = Inr T" and "being_removed T (chl_ID row) (snd w)"
    and "chl_RemovalRequestedAt row \<noteq> None" and "accounts \<noteq> []"
    and "\<forall>r \<in> set (db_memberships (snd w)). of_channel catalog (chl_ID row) r \<longrightarrow>
           mr_account_id r \<in> snd ` set accounts \<and> scan_membership r \<noteq> None \<and> mr_status r \<noteq> membershipPendingApproval"
    and "\<forall>(E, a) \<in> set accounts. lets_go row E"
  shows "gone T (chl_ID row) (snd (over_accounts accounts catalog assigned row w)) \<and>
         \<not> sql_exists (of_channel catalog (chl_ID row)) (db_memberships (snd (over_accounts accounts catalog assigned row w)))"
  using assms(2,4,5,6)
proof (induction accounts arbitrary: w)
  case (Cons p accounts)
  obtain E a where p: "p = (E, a)" by (cases p)
  let ?i = "chl_ID row"
  let ?d = "(snd w)\<lparr>db_memberships := filter (\<lambda>r. membership_key r \<noteq> (a, catalog, ?i)) (db_memberships (snd w))\<rparr>"
  let ?w = "snd (reconcile_row E a catalog assigned row w)"
  have run: "snd ?w = snd (CompleteCatalogRemoval (me_now E) catalog ?i ?d)"
    using Cons.prems(3,4) p assms(3) by (intro removal_run) auto
  have inv: "being_removed T ?i ?d" using Cons.prems(1) by (simp add: being_removed_def)
  have ms: "db_memberships (snd ?w) = filter (\<lambda>r. membership_key r \<noteq> (a, catalog, ?i)) (db_memberships (snd w))"
  proof -
    obtain r1 d1 where c: "CompleteCatalogRemoval (me_now E) catalog ?i ?d = (r1, d1)" by fastforce
    from CompleteCatalogRemoval_memberships [OF c] run c show ?thesis by simp
  qed
  have after: "being_removed T ?i (snd ?w)"
  proof (cases "sql_exists (of_channel catalog ?i) (db_memberships ?d)")
    case True
    from CompleteCatalogRemoval_waits [OF assms(1) this] run inv show ?thesis by simp
  next
    case False
    from CompleteCatalogRemoval_ends [OF assms(1) False inv] run show ?thesis by simp
  qed
  have rest: "\<forall>r \<in> set (db_memberships (snd ?w)). of_channel catalog ?i r \<longrightarrow>
      mr_account_id r \<in> snd ` set accounts \<and> scan_membership r \<noteq> None \<and> mr_status r \<noteq> membershipPendingApproval"
    using Cons.prems(3) p unfolding ms by (auto simp: membership_key_def of_channel_def)
  show ?case
  proof (cases "accounts = []")
    case True
    then have none: "\<not> sql_exists (of_channel catalog ?i) (db_memberships (snd ?w))"
      using rest by (auto simp: sql_exists_iff)
    then have "\<not> sql_exists (of_channel catalog ?i) (db_memberships ?d)" using ms by simp
    from CompleteCatalogRemoval_ends [OF assms(1) this inv] none show ?thesis using run True p by simp
  next
    case False
    from Cons.IH [OF after False rest] Cons.prems(4) p show ?thesis by simp
  qed
qed simp

section \<open>Concrete runs\<close>

text \<open>A request waits for approval; the user leaves the channel, then removes it.\<close>

definition requested_db :: db where
  "requested_db = demo_db\<lparr>db_memberships :=
     [(joining_row ''outbound'' ''c1'' 36 demo_db ''a1'' 0)\<lparr>mr_status := ''pending_approval'',
        mr_request_submitted_at := Some (formatTime 0)\<rparr>]\<rparr>"

definition withdrawn_db :: db where
  "withdrawn_db = snd (Delete_channels (300 * Second) ''outbound'' [''c1''] (snd (Leave (250 * Second) ''outbound'' ''c1'' requested_db)))"

definition withdrawn_membership :: ChannelMembership where
  "withdrawn_membership = (case LoadMembership ''a1'' ''outbound'' ''c1'' withdrawn_db of Inr (Some m) \<Rightarrow> m)"

lemma withdrawn_loaded:
  "LoadMembership ''a1'' ''outbound'' ''c1'' withdrawn_db = Inr (Some withdrawn_membership)"
  "mem_RequestSubmittedAt withdrawn_membership = Some 0"
  "mem_Status withdrawn_membership = membershipLeaving" "\<not> mem_IsMember withdrawn_membership"
  by code_simp+

lemma withdrawn_requests_are_forgotten_witness:
  "mem_RequestSubmittedAt withdrawn_membership = Some 0 \<and>
   fst (snd (removal_run_of ''a1'' withdrawn_db)) = [] \<and>
   (''a1'', ''outbound'', ''c1'') \<notin> held (snd (snd (removal_run_of ''a1'' withdrawn_db)))"
proof -
  have "LoadMembership ''a1'' ''outbound'' (chl_ID removed_boats) (snd ([] :: requests, withdrawn_db)) = Inr (Some withdrawn_membership)"
    using withdrawn_loaded(1) by (simp add: removed_boats_ID)
  from withdrawn_requests_are_forgotten [OF _ this withdrawn_loaded(3,4), of open_env "[]"] withdrawn_loaded(2)
  show ?thesis by (simp add: removal_run_of_def removed_boats_ID) (simp add: removed_boats_def)
qed

definition two_members_db :: db where
  "two_members_db = removal_db\<lparr>db_memberships := [member_row ''a1'', member_row ''a2'']\<rparr>"

lemma two_members_rows:
  "list_all (\<lambda>r. mr_account_id r \<in> {''a1'', ''a2''} \<and> scan_membership r \<noteq> None \<and> mr_status r \<noteq> membershipPendingApproval)
     (db_memberships two_members_db)"
  by code_simp

lemma two_members_removed: "being_removed OutboundChannels ''c1'' two_members_db"
  by (simp add: being_removed_def two_members_db_def removal_db_def table_rows_def demo_db_def)

lemma open_env_lets_go: "lets_go removed_boats open_env"
proof -
  have link: "telegramJoinLink (me_urls open_env) (chl_Link removed_boats) = ''https://t.me/boats''"
    "privateInviteHash (me_unicode open_env) (me_urls open_env) ''https://t.me/boats'' = None"
    "plain_link open_env removed_boats"
    by code_simp+
  have "chl_TelegramID removed_boats = FormatInt 100" by (simp add: removed_boats_def)
  then show ?thesis unfolding lets_go_def using link by (simp add: open_env_def open_client_def)
qed

lemma requested_removals_complete_witness:
  "gone OutboundChannels ''c1'' (snd (over_accounts [(open_env, ''a1''), (open_env, ''a2'')] ''outbound'' [] removed_boats ([], two_members_db)))"
proof -
  have "catalogTable ''outbound'' = Inr OutboundChannels" by (simp add: catalogTable_def)
  moreover have "being_removed OutboundChannels (chl_ID removed_boats) (snd ([] :: requests, two_members_db))"
    using two_members_removed by (simp add: removed_boats_ID)
  moreover have "chl_RemovalRequestedAt removed_boats \<noteq> None" by (simp add: removed_boats_def)
  ultimately show ?thesis
    using requested_removals_complete [of "''outbound''" OutboundChannels removed_boats "([], two_members_db)"
        "[(open_env, ''a1''), (open_env, ''a2'')]" "[]"] open_env_lets_go two_members_rows
    by (auto simp: removed_boats_ID list_all_iff)
qed

end
