(* ===== verification/ActivatorFacts.thy ===== *)
theory ActivatorFacts
  imports Activator RemovalFacts
begin

text \<open>
  What an account listens to after a run of the activator, and the link that keeps it from listening.
\<close>

section \<open>Watched chats\<close>

definition keeps_members :: "world \<Rightarrow> world \<Rightarrow> bool" where
  "keeps_members w w' \<longleftrightarrow> db_memberships (snd w') = db_memberships (snd w)"

lemma keeps_members_rel [simp]: "reflp keeps_members" "transp keeps_members"
  by (auto simp: keeps_members_def reflp_def transp_def)

lemma keeps_members_reads: "does reads m \<Longrightarrow> does keeps_members m"
  by (erule does_mono) (simp add: reads_def keeps_members_def)

lemma keeps_members_save [simp]: "does keeps_members (save_channel E catalog row)"
  by (auto simp: does_def save_channel_def on_db_def keeps_members_def dest!: SaveCatalog_frame split: prod.split)

lemma catalogs_differ: "(CatalogOutbound = CatalogScout) = False"
  by simp

lemma keeps_members_resolve: "does keeps_members (resolve_row E a CatalogOutbound row peer)"
  unfolding resolve_row_def Let_def catalogs_differ if_False
  by (intro does_if does_and_then does_or_else does_fail does_return keeps_members_rel keeps_members_save
      keeps_members_reads [OF reads_resolve] keeps_members_reads [OF reads_discussion])


text \<open>The account takes part in the channel, or its join is due.\<close>

definition takes_part :: "member_env \<Rightarrow> ID \<Rightarrow> ID \<Rightarrow> db \<Rightarrow> bool" where
  "takes_part W a channelID d \<longleftrightarrow>
     (\<exists>m. LoadMembership a CatalogOutbound channelID d = Inr (Some m) \<and>
        (mem_IsMember m \<or> mem_Status m = membershipJoining \<and> \<not> not_before m (me_now W)))"

lemma takes_part_cong: "db_memberships d' = db_memberships d \<Longrightarrow> takes_part W a i d' = takes_part W a i d"
  by (simp add: takes_part_def LoadMembership_def)

lemma loadOrCreate_takes_part:
  assumes "loadOrCreateAccountMembership W a CatalogOutbound row w = (Inr (Some m), w')"
  shows "takes_part W a (chl_ID row) (snd w) \<and> w' = w"
  using assms
  by (cases "LoadMembership a CatalogOutbound (chl_ID row) (snd w)")
    (auto simp: loadOrCreateAccountMembership_def loadAccountMembershipIntent_def and_then_def load_membership_run
      return_ok_def takes_part_def split: option.splits if_splits)

lemma loadOrCreate_reads: "does reads (loadOrCreateAccountMembership W a catalog row)"
  unfolding loadOrCreateAccountMembership_def by (intro does_intros reads_load_intent reads_rel)

lemma keeps_members_watch_row: "does keeps_members (watch_row W a CatalogOutbound assigned peers rows row)"
  unfolding watch_row_def synchronise_discussion_def catalogs_differ if_False
  by (intro does_if does_and_then does_option does_prod does_return keeps_members_rel keeps_members_resolve
      keeps_members_save keeps_members_reads [OF loadOrCreate_reads])

lemma resolve_row_number:
  "resolve_row W a catalog row peer w = (Inr (row', peer'), w') \<Longrightarrow> ParseInt_ok (chl_TelegramID row) \<Longrightarrow> row' = row"
  by (simp add: resolve_row_def return_ok_def)

lemma watch_row_chats:
  assumes "watch_row W a CatalogOutbound assigned peers rows row w = (Inr chats, w')" "t \<in> set chats"
  shows "chl_ID row \<in> set assigned \<and> chl_Active row \<and> takes_part W a (chl_ID row) (snd w) \<and>
         (ParseInt_ok (chl_TelegramID row) \<longrightarrow> t = chl_TelegramID row)"
proof -
  have on: "chl_ID row \<in> set assigned" "chl_Active row"
    using assms by (auto simp: watch_row_def synchronise_discussion_def and_then_def return_ok_def split: if_splits)
  have "and_then (loadOrCreateAccountMembership W a CatalogOutbound row) (\<lambda>member.
      case member of None \<Rightarrow> return_ok []
      | Some m \<Rightarrow> and_then (resolve_row W a CatalogOutbound row (map_of peers (chl_ID row))) (\<lambda>(row, peer).
          and_then (return_ok []) (\<lambda>discussions. return_ok (discussions @ [chl_TelegramID row])))) w = (Inr chats, w')"
    using assms on by (auto simp: watch_row_def synchronise_discussion_def return_ok_def and_then_def [of "return_ok None"]
        split: if_splits)
  then obtain m where m: "loadOrCreateAccountMembership W a CatalogOutbound row w = (Inr (Some m), w)"
    "and_then (resolve_row W a CatalogOutbound row (map_of peers (chl_ID row))) (\<lambda>(row, peer).
          and_then (return_ok []) (\<lambda>discussions. return_ok (discussions @ [chl_TelegramID row]))) w = (Inr chats, w')"
  proof (cases rule: and_then_cases)
    case (ok member w1)
    with assms(2) obtain m where "member = Some m" by (cases member) (auto simp: return_ok_def)
    with ok loadOrCreate_takes_part that show ?thesis by fastforce
  qed simp
  have "ParseInt_ok (chl_TelegramID row) \<longrightarrow> t = chl_TelegramID row"
    using m(2) assms(2) by (auto simp: and_then_def return_ok_def split: prod.splits sum.splits dest: resolve_row_number)
  with on m(1) loadOrCreate_takes_part show ?thesis by blast
qed

lemma watch_rows_chats:
  assumes "watch_rows W a CatalogOutbound assigned peers all rows w = (Inr chats, w')"
  shows "db_memberships (snd w') = db_memberships (snd w) \<and>
         (\<forall>t \<in> set chats. \<exists>row \<in> set rows. chl_ID row \<in> set assigned \<and> chl_Active row \<and>
            takes_part W a (chl_ID row) (snd w) \<and> (ParseInt_ok (chl_TelegramID row) \<longrightarrow> t = chl_TelegramID row))"
  using assms
proof (induction rows arbitrary: w chats)
  case (Cons row rows)
  obtain first w1 where first: "watch_row W a CatalogOutbound assigned peers all row w = (Inr first, w1)"
    and rest: "and_then (watch_rows W a CatalogOutbound assigned peers all rows) (\<lambda>more. return_ok (first @ more)) w1 = (Inr chats, w')"
    using Cons.prems by (auto simp: and_then_def [of "watch_row W a CatalogOutbound assigned peers all row"] split: prod.splits sum.splits)
  obtain more where more: "watch_rows W a CatalogOutbound assigned peers all rows w1 = (Inr more, w')" "chats = first @ more"
    using rest by (auto simp: and_then_def return_ok_def split: prod.splits sum.splits)
  have same: "db_memberships (snd w1) = db_memberships (snd w)"
    using doesD [OF keeps_members_watch_row first] by (simp add: keeps_members_def)
  from Cons.IH [OF more(1)] watch_row_chats [OF first] takes_part_cong [OF same] same more(2) show ?case by fastforce
qed (simp add: return_ok_def)

text \<open>
  C20. Accounts listen only where they take part. After a successful run of the activator for an account
  that sends, its router watches only chats of active channels that are assigned to it and in which it is
  a member, or has a join that is due, on the database as it stands.
\<close>

theorem accounts_listen_where_they_take_part:
  assumes "UpdateActivator_Apply E E' W nowUnix a AccountRoleSpammer self snapshot (A, w) = (None, A', w')"
    and "\<not> snap_OutboundPaused snapshot"
  shows "\<exists>r rows peers w1. av_routers A' a = Some r \<and> \<not> rt_collect r \<and>
      reconcile_catalog E a (assignedCatalogChannels snapshot) CatalogOutbound w = (Inr (rows, peers), w1) \<and>
      (\<forall>t \<in> set (rt_allowed r). \<exists>row \<in> set rows.
         chl_ID row \<in> set (assignedCatalogChannels snapshot CatalogOutbound) \<and> chl_Active row \<and>
         takes_part W a (chl_ID row) (snd w') \<and> (ParseInt_ok (chl_TelegramID row) \<longrightarrow> t = chl_TelegramID row))"
proof -
  obtain rows peers other w2 allowed where
      rec: "reconcileMemberships E E' a (assignedCatalogChannels snapshot) CatalogOutbound w = (Inr ((rows, peers), other), w2)"
    and watch: "watch_rows W a CatalogOutbound (assignedCatalogChannels snapshot CatalogOutbound) peers rows rows w2 = (Inr allowed, w')"
    and A': "A' = install_router a allowed False nowUnix (managed_Add self A)"
    using assms by (auto simp: UpdateActivator_Apply_def Let_def split: prod.splits sum.splits)
  obtain w1 where "reconcile_catalog E a (assignedCatalogChannels snapshot) CatalogOutbound w = (Inr (rows, peers), w1)"
    using rec by (auto simp: reconcileMemberships_def and_then_def return_ok_def split: prod.splits sum.splits)
  moreover obtain r where "av_routers A' a = Some r" "\<not> rt_collect r" "rt_allowed r = allowed"
    unfolding A' install_router_def Let_def
    by (cases "av_routers (managed_Add self A) a") (auto simp: newScoutUpdateRouter_def)
  ultimately show ?thesis
    using watch_rows_chats [OF watch] takes_part_cong [of "snd w'" "snd w2" W a] by fastforce
qed

section \<open>A link that fails\<close>

text \<open>The name of a public link leads nowhere, or Telegram refuses to resolve it for another reason.\<close>

definition unresolvable :: "member_env \<Rightarrow> Channel \<Rightarrow> bool" where
  "unresolvable E row \<longleftrightarrow>
     \<not> isPrivateInviteLink (me_unicode E) (me_urls E) (chl_Link row) \<and>
     telegramJoinLink (me_urls E) (chl_Link row) \<noteq> '''' \<and>
     privateInviteHash (me_unicode E) (me_urls E) (telegramJoinLink (me_urls E) (chl_Link row)) = None \<and>
     (\<forall>log name. \<exists>e. on_ResolveUsername (me_client E) log name = Inl e \<and> \<not> tgerr_Is e [''INVITE_REQUEST_SENT''])"

lemma unresolvable_join:
  assumes "unresolvable E row" "mem_Status m = membershipJoining" "\<not> not_before m (me_checkedAt E)"
  shows "\<exists>e w'. reconcileMembershipIntent E row m w = (Inl e, w')"
proof -
  let ?name = "after_last_slash (TrimPrefix (telegramJoinLink (me_urls E) (chl_Link row)) ''@'')"
  obtain e where e: "on_ResolveUsername (me_client E) (fst w) ?name = Inl e" "\<not> tgerr_Is e [''INVITE_REQUEST_SENT'']"
    using assms(1) unfolding unresolvable_def by blast
  then show ?thesis using assms
    by (simp add: unresolvable_def reconcileMembershipIntent_def join_target_def joinPublicTelegramPeer_def
        resolveTelegramPeer_def Let_def and_then_def or_else_def call_def isInviteRequestSent_def rpc_is_def fail_with_def)
qed

lemma unresolvable_row:
  assumes "unresolvable E row" "due_intent E a catalog assigned (snd w) row"
  shows "\<exists>e w'. reconcile_row E a catalog assigned row w = (Inl e, w')"
proof -
  obtain m where m: "LoadMembership a catalog (chl_ID row) (snd w) = Inr (Some m)" "mem_Status m = membershipJoining"
      "\<not> not_before m (me_now E)" "\<not> not_before m (me_checkedAt E)"
    and row: "chl_RemovalRequestedAt row = None" "\<not> isDerivedScoutDiscussion row"
      "chl_Active row \<longrightarrow> chl_ID row \<in> set assigned"
    using assms(2) by (auto simp: due_intent_def split: sum.splits option.splits)
  obtain e w' where "reconcileMembershipIntent E row m w = (Inl e, w')"
    using unresolvable_join [OF assms(1) m(2,4)] by blast
  with m row show ?thesis
    by (auto simp: reconcile_row_def intent_step_def loadAccountMembershipIntent_def and_then_def or_else_def
        load_membership_run return_ok_def fail_with_def)
qed

lemma unresolvable_rows:
  assumes "row \<in> set rows" "distinct (map chl_ID rows)" "unresolvable E row" "due_intent E a catalog assigned (snd w) row"
  shows "\<exists>e w'. reconcileCatalogMembershipIntents E a catalog assigned rows w = (Inl e, w')"
  using assms
proof (induction rows arbitrary: w)
  case (Cons r rows)
  obtain res w1 where first: "reconcile_row E a catalog assigned r w = (res, w1)"
    by (cases "reconcile_row E a catalog assigned r w")
  show ?case
  proof (cases res)
    case (Inl e)
    with first show ?thesis by (simp add: and_then_def)
  next
    case (Inr x)
    then have "row \<noteq> r" using unresolvable_row [OF Cons.prems(3,4)] first by auto
    then have row: "row \<in> set rows" "chl_ID row \<noteq> chl_ID r" using Cons.prems(1,2) by (auto simp: image_iff)
    have "others catalog (chl_ID r) (snd w1) = others catalog (chl_ID r) (snd w)"
      using doesD [OF spares_reconcile_row first] by (simp add: spares_def)
    then have "due_intent E a catalog assigned (snd w1) row" using due_intent_others row(2) Cons.prems(4) by blast
    then obtain e w' where "reconcileCatalogMembershipIntents E a catalog assigned rows w1 = (Inl e, w')"
      using Cons.IH [OF row(1) _ Cons.prems(3), of w1] Cons.prems(2) by force
    with first Inr show ?thesis by (cases x) (simp add: and_then_def)
  qed
qed simp

text \<open>
  C30. A link that fails stops the account. While a join of the account is due for a channel whose link
  Telegram does not resolve, every run of the program's activator for it ends with an error: no sender is
  registered, and an account without a router gets none, whatever other channels it is a member of.
\<close>

theorem a_failing_link_stops_the_account:
  assumes "ListCatalog CatalogOutbound (snd w) = Inr rows" and "distinct (map chl_ID rows)"
    and "row \<in> set rows" and "unresolvable E row"
    and "due_intent E a CatalogOutbound (assignedCatalogChannels snapshot CatalogOutbound) (snd w) row"
  shows "\<exists>e A' w'. ProductionActivator_Apply E E' W R nowUnix a AccountRoleSpammer self snapshot (senders, A, w) =
             (Some e, senders, A', w') \<and> (av_routers A a = None \<longrightarrow> av_routers A' a = None)"
proof -
  let ?assigned = "assignedCatalogChannels snapshot"
  obtain e w' where "reconcileCatalogMembershipIntents E a CatalogOutbound (?assigned CatalogOutbound) rows w = (Inl e, w')"
    using unresolvable_rows [OF assms(3,2,4,5)] by blast
  then have "reconcile_catalog E a ?assigned CatalogOutbound w = (Inl e, w')"
    using assms(1) by (cases w) (simp add: reconcile_catalog_def and_then_def on_db_def)
  then have "reconcileMemberships E E' a ?assigned CatalogOutbound w = (Inl e, w')"
    by (simp add: reconcileMemberships_def and_then_def)
  then show ?thesis
    by (simp add: ProductionActivator_Apply_def UpdateActivator_Apply_def Let_def managed_Add_def)
qed

section \<open>Concrete runs\<close>

definition listening_snapshot :: Snapshot where
  "listening_snapshot = empty_snapshot\<lparr>snap_CatalogAssignments := [CatalogOutbound \<mapsto> [''c1'']]\<rparr>"

definition listening :: "member_error option \<times> activator \<times> world" where
  "listening = UpdateActivator_Apply open_env open_env open_env 200 ''a1'' AccountRoleSpammer 7 listening_snapshot
     (NewUpdateActivator, [], joining_db)"

lemma listening_succeeds: "fst listening = None"
  by code_simp

lemma listening_chats: "map_option rt_allowed (av_routers (fst (snd listening)) ''a1'') = Some [''100'']"
  by code_simp

lemma accounts_listen_where_they_take_part_witness:
  "map_option rt_allowed (av_routers (fst (snd listening)) ''a1'') = Some [''100''] \<and>
   (\<exists>r. av_routers (fst (snd listening)) ''a1'' = Some r \<and> \<not> rt_collect r \<and>
      (\<forall>t \<in> set (rt_allowed r). takes_part open_env ''a1'' ''c1'' (snd (snd (snd listening)))))"
proof -
  have run: "UpdateActivator_Apply open_env open_env open_env 200 ''a1'' AccountRoleSpammer 7 listening_snapshot
      (NewUpdateActivator, [], joining_db) = (None, fst (snd listening), snd (snd listening))"
    using listening_succeeds unfolding listening_def by (metis prod.collapse)
  have on: "\<not> snap_OutboundPaused listening_snapshot"
    "assignedCatalogChannels listening_snapshot CatalogOutbound = [''c1'']"
    by (simp_all add: listening_snapshot_def empty_snapshot_def assignedCatalogChannels_def)
  from accounts_listen_where_they_take_part [OF run on(1)] listening_chats show ?thesis
    by (fastforce simp: on(2))
qed

text \<open>Telegram knows no such name.\<close>

definition lost_env :: member_env where
  "lost_env = open_env\<lparr>me_client := open_client\<lparr>on_ResolveUsername := (\<lambda>log name. Inl (RPC ''USERNAME_NOT_OCCUPIED'' 0))\<rparr>\<rparr>"

lemma lost_unresolvable: "unresolvable lost_env boats"
proof -
  have link: "\<not> isPrivateInviteLink (me_unicode lost_env) (me_urls lost_env) (chl_Link boats)"
    "telegramJoinLink (me_urls lost_env) (chl_Link boats) = ''https://t.me/boats''"
    "privateInviteHash (me_unicode lost_env) (me_urls lost_env) ''https://t.me/boats'' = None"
    by code_simp+
  then show ?thesis by (simp add: unresolvable_def lost_env_def tgerr_Is_def)
qed

lemma lost_rows: "ListCatalog CatalogOutbound joining_db = Inr [boats]"
  by code_simp

lemma lost_due: "due_intent lost_env ''a1'' CatalogOutbound [''c1''] joining_db boats"
  by code_simp

lemma a_failing_link_stops_the_account_witness:
  "\<exists>e A' w'. ProductionActivator_Apply lost_env lost_env lost_env lost_env 200 ''a1'' AccountRoleSpammer 7 listening_snapshot
     ([], NewUpdateActivator, [], joining_db) = (Some e, [], A', w') \<and> av_routers A' ''a1'' = None"
proof -
  have "assignedCatalogChannels listening_snapshot CatalogOutbound = [''c1'']"
    by (simp add: listening_snapshot_def empty_snapshot_def assignedCatalogChannels_def)
  with lost_due have due: "due_intent lost_env ''a1'' CatalogOutbound (assignedCatalogChannels listening_snapshot CatalogOutbound)
      (snd ([] :: requests, joining_db)) boats" by simp
  have rows: "ListCatalog CatalogOutbound (snd ([] :: requests, joining_db)) = Inr [boats]" using lost_rows by simp
  from a_failing_link_stops_the_account [OF rows _ _ lost_unresolvable due, of lost_env lost_env lost_env 200 7 "[]" NewUpdateActivator]
  show ?thesis by (simp add: NewUpdateActivator_def)
qed

end
