(* ===== verification/Automation.thy ===== *)
theory Automation
  imports Prelude
begin

text \<open>
  The switch of the workers (internal/usecase/automation.go): \<^verbatim>\<open>Start\<close> and \<^verbatim>\<open>Stop\<close> from any number of
  callers and the goroutines of the runs, as a step relation on their interleavings. A step is a section
  under the mutex, a channel operation, or the return of the runner.
\<close>

section \<open>State\<close>

text \<open>The error a runner returns; \<open>Canceled\<close> is \<^verbatim>\<open>context.Canceled\<close>.\<close>

datatype run_error = Canceled | RunFailed

text \<open>
  The goroutine of a run: inside the runner, back from it, past the section that unregisters it, and at its
  end. Its channel \<^verbatim>\<open>done\<close> has room for one error.
\<close>

datatype run_phase =
    InRunner
  | Returned "run_error option"
  | Sending "run_error option"
  | Over

record automation_run =
  run_phase :: run_phase
  run_cancelled :: bool
  run_done :: "run_error option option"

text \<open>A call of \<^verbatim>\<open>Stop\<close> that found the controller running: before and after it cancels the run, and its ends.\<close>

datatype stop_call =
    Cancelling nat
  | Waiting nat
  | Received nat "run_error option"
  | GaveUp nat

text \<open>\<open>ac_current\<close> is \<^verbatim>\<open>done\<close> of the controller, as the number of the run that made it.\<close>

record controller =
  ac_runner :: bool
  ac_running :: bool
  ac_current :: "nat option"
  ac_runs :: "automation_run list"
  ac_stops :: "stop_call list"

definition NewAutomationController :: "bool \<Rightarrow> controller" where
  "NewAutomationController runner =
     \<lparr>ac_runner = runner, ac_running = False, ac_current = None, ac_runs = [], ac_stops = []\<rparr>"

datatype automation_error = CtxErr | ErrAutomationRunnerNotConfigured | RunErr run_error

section \<open>Operations\<close>

definition AutomationStart :: "bool \<Rightarrow> controller \<Rightarrow> automation_error option \<times> controller" where
  "AutomationStart ctx_done c =
     (if ctx_done then (Some CtxErr, c)
      else if ac_running c then (None, c)
      else if \<not> ac_runner c then (Some ErrAutomationRunnerNotConfigured, c)
      else (None, c\<lparr>ac_current := Some (length (ac_runs c)), ac_running := True,
                    ac_runs := ac_runs c @ [\<lparr>run_phase = InRunner, run_cancelled = False, run_done = None\<rparr>]\<rparr>))"

text \<open>The section of \<^verbatim>\<open>Stop\<close> under the mutex; nothing more happens when the controller is not running.\<close>

definition stop_enter :: "bool \<Rightarrow> controller \<Rightarrow> controller" where
  "stop_enter ctx_done c =
     (if ctx_done \<or> \<not> ac_running c then c
      else case ac_current c of None \<Rightarrow> c | Some i \<Rightarrow> c\<lparr>ac_stops := ac_stops c @ [Cancelling i]\<rparr>)"

definition with_run :: "nat \<Rightarrow> (automation_run \<Rightarrow> automation_run) \<Rightarrow> controller \<Rightarrow> controller" where
  "with_run i f c = c\<lparr>ac_runs := (ac_runs c)[i := f (ac_runs c ! i)]\<rparr>"

definition with_stop :: "nat \<Rightarrow> stop_call \<Rightarrow> controller \<Rightarrow> controller" where
  "with_stop k s c = c\<lparr>ac_stops := (ac_stops c)[k := s]\<rparr>"

text \<open>The section of \<^verbatim>\<open>run\<close> after the runner returned.\<close>

definition unregister :: "nat \<Rightarrow> controller \<Rightarrow> controller" where
  "unregister i c = (if ac_current c = Some i then c\<lparr>ac_running := False, ac_current := None\<rparr> else c)"

text \<open>What a call of \<^verbatim>\<open>Stop\<close> returns, once it has ended.\<close>

definition stop_result :: "stop_call \<Rightarrow> automation_error option option" where
  "stop_result s =
     (case s of
        Received i e \<Rightarrow> Some (if e = Some Canceled then None else map_option RunErr e)
      | GaveUp i \<Rightarrow> Some (Some CtxErr)
      | _ \<Rightarrow> None)"

section \<open>Interleavings\<close>

text \<open>A runner may return at any time, cancelled or not, with any error.\<close>

inductive controller_step :: "controller \<Rightarrow> controller \<Rightarrow> bool" where
  start: "controller_step c (snd (AutomationStart ctx_done c))"
| enter: "controller_step c (stop_enter ctx_done c)"
| cancel: "k < length (ac_stops c) \<Longrightarrow> ac_stops c ! k = Cancelling i \<Longrightarrow>
    controller_step c (with_stop k (Waiting i) (with_run i (\<lambda>r. r\<lparr>run_cancelled := True\<rparr>) c))"
| returns: "i < length (ac_runs c) \<Longrightarrow> run_phase (ac_runs c ! i) = InRunner \<Longrightarrow>
    controller_step c (with_run i (\<lambda>r. r\<lparr>run_phase := Returned e\<rparr>) c)"
| unregisters: "i < length (ac_runs c) \<Longrightarrow> run_phase (ac_runs c ! i) = Returned e \<Longrightarrow>
    controller_step c (with_run i (\<lambda>r. r\<lparr>run_phase := Sending e\<rparr>) (unregister i c))"
| sends: "i < length (ac_runs c) \<Longrightarrow> run_phase (ac_runs c ! i) = Sending e \<Longrightarrow> run_done (ac_runs c ! i) = None \<Longrightarrow>
    controller_step c (with_run i (\<lambda>r. r\<lparr>run_phase := Over, run_done := Some e\<rparr>) c)"
| receives: "k < length (ac_stops c) \<Longrightarrow> ac_stops c ! k = Waiting i \<Longrightarrow> run_done (ac_runs c ! i) = Some e \<Longrightarrow>
    controller_step c (with_stop k (Received i e) (with_run i (\<lambda>r. r\<lparr>run_done := None\<rparr>) c))"
| deadline: "k < length (ac_stops c) \<Longrightarrow> ac_stops c ! k = Waiting i \<Longrightarrow>
    controller_step c (with_stop k (GaveUp i) c)"

inductive_cases controller_stepE: "controller_step c c'"

inductive controller_reachable :: "controller \<Rightarrow> bool" where
  new: "controller_reachable (NewAutomationController runner)"
| step: "controller_reachable c \<Longrightarrow> controller_step c c' \<Longrightarrow> controller_reachable c'"

section \<open>The invariant\<close>

text \<open>The runner of a run is at work, or back but still registered.\<close>

definition active :: "automation_run \<Rightarrow> bool" where
  "active r \<longleftrightarrow> run_phase r = InRunner \<or> (\<exists>e. run_phase r = Returned e)"

text \<open>The run a call of \<^verbatim>\<open>Stop\<close> is about.\<close>

fun stop_run :: "stop_call \<Rightarrow> nat" where
  "stop_run (Cancelling i) = i"
| "stop_run (Waiting i) = i"
| "stop_run (Received i e) = i"
| "stop_run (GaveUp i) = i"

definition taken :: "automation_run \<Rightarrow> bool" where
  "taken r \<longleftrightarrow> run_phase r = Over \<and> run_done r = None"

definition controller_inv :: "controller \<Rightarrow> bool" where
  "controller_inv c \<longleftrightarrow>
     (ac_running c \<longleftrightarrow> ac_current c \<noteq> None) \<and>
     (\<forall>i. ac_current c = Some i \<longleftrightarrow> i < length (ac_runs c) \<and> active (ac_runs c ! i)) \<and>
     (\<forall>i < length (ac_runs c). run_done (ac_runs c ! i) \<noteq> None \<longrightarrow> run_phase (ac_runs c ! i) = Over) \<and>
     (\<forall>s \<in> set (ac_stops c). stop_run s < length (ac_runs c)) \<and>
     (\<forall>i e. Received i e \<in> set (ac_stops c) \<longrightarrow> taken (ac_runs c ! i))"

lemma controller_inv_new: "controller_inv (NewAutomationController runner)"
  by (simp add: controller_inv_def NewAutomationController_def)

lemma set_update_stop: "x \<in> set (xs[k := y]) \<Longrightarrow> x = y \<or> x \<in> set xs"
  by (meson insertE set_update_subset_insert subsetD)

lemma controller_inv_run:
  assumes "controller_inv c" "i < length (ac_runs c)"
    and "active (f (ac_runs c ! i)) = active (ac_runs c ! i)"
    and "run_done (f (ac_runs c ! i)) \<noteq> None \<Longrightarrow> run_phase (f (ac_runs c ! i)) = Over"
    and "taken (ac_runs c ! i) \<Longrightarrow> taken (f (ac_runs c ! i))"
  shows "controller_inv (with_run i f c)"
proof -
  have other: "ac_runs (with_run i f c) ! j = (if j = i then f (ac_runs c ! i) else ac_runs c ! j)" for j
    using assms(2) by (simp add: with_run_def)
  have same: "active (ac_runs (with_run i f c) ! j) = active (ac_runs c ! j)" for j
    using assms(3) by (simp add: other)
  have kept: "length (ac_runs (with_run i f c)) = length (ac_runs c)" "ac_running (with_run i f c) = ac_running c"
    "ac_current (with_run i f c) = ac_current c" "ac_stops (with_run i f c) = ac_stops c"
    by (simp_all add: with_run_def)
  show ?thesis
    unfolding controller_inv_def kept same
    using assms(1,4,5) unfolding controller_inv_def other by (simp split: if_split)
qed

lemma controller_inv_stop:
  assumes "controller_inv c" "k < length (ac_stops c)" "stop_run s = stop_run (ac_stops c ! k)"
    and "\<And>i e. s = Received i e \<Longrightarrow> taken (ac_runs c ! i)"
  shows "controller_inv (with_stop k s c)"
proof -
  have "stop_run x < length (ac_runs c)" if "x \<in> set ((ac_stops c)[k := s])" for x
    using set_update_stop [OF that] assms(1-3) nth_mem [OF assms(2)] by (auto simp: controller_inv_def)
  moreover have "taken (ac_runs c ! i)" if "Received i e \<in> set ((ac_stops c)[k := s])" for i e
    using set_update_stop [OF that] assms(1,4) unfolding controller_inv_def by blast
  ultimately show ?thesis using assms(1) unfolding controller_inv_def with_stop_def by simp
qed

lemma controller_inv_unregister:
  assumes "controller_inv c" "i < length (ac_runs c)" "run_phase (ac_runs c ! i) = Returned e"
  shows "controller_inv (with_run i (\<lambda>r. r\<lparr>run_phase := Sending e\<rparr>) (unregister i c))"
proof -
  have i: "ac_current c = Some i" using assms by (auto simp: controller_inv_def active_def)
  have only: "j = i" if "j < length (ac_runs c)" "active (ac_runs c ! j)" for j
    using that i assms(1) unfolding controller_inv_def by (metis option.inject)
  have sending: "\<not> active (r\<lparr>run_phase := Sending e\<rparr>)" for r by (simp add: active_def)
  have done_i: "run_done (ac_runs c ! i) = None" "\<not> taken (ac_runs c ! i)"
    using assms unfolding controller_inv_def taken_def by (metis run_phase.distinct(9), simp)
  show ?thesis
    using assms(1,2) only i done_i
    unfolding controller_inv_def with_run_def unregister_def
    by (simp add: nth_list_update sending) (metis only)
qed

lemma controller_inv_step:
  assumes "controller_step c c'" "controller_inv c"
  shows "controller_inv c'"
  using assms
proof (induction rule: controller_step.induct)
  case (start c ctx_done)
  then show ?case
    by (auto simp: AutomationStart_def controller_inv_def active_def taken_def nth_append less_Suc_eq)
next
  case (enter c ctx_done)
  then show ?case by (auto simp: stop_enter_def controller_inv_def split: option.split)
next
  case (cancel k c i)
  then have "i < length (ac_runs c)" using nth_mem [of k "ac_stops c"] by (force simp: controller_inv_def)
  with cancel show ?case
    by (intro controller_inv_stop controller_inv_run) (auto simp: active_def taken_def with_run_def controller_inv_def)
next
  case (returns i c e)
  then show ?case by (intro controller_inv_run) (auto simp: active_def taken_def controller_inv_def)
next
  case (unregisters i c e)
  then show ?case by (intro controller_inv_unregister)
next
  case (sends i c e)
  then show ?case by (intro controller_inv_run) (auto simp: active_def taken_def)
next
  case (receives k c i e)
  then have i: "i < length (ac_runs c)" using nth_mem [of k "ac_stops c"] by (force simp: controller_inv_def)
  with receives have "run_phase (ac_runs c ! i) = Over" by (auto simp: controller_inv_def)
  with receives i show ?case
    by (intro controller_inv_stop controller_inv_run) (auto simp: active_def taken_def with_run_def)
next
  case (deadline k c i)
  then show ?case by (intro controller_inv_stop) auto
qed

lemma reachable_inv: "controller_reachable c \<Longrightarrow> controller_inv c"
  by (induction rule: controller_reachable.induct) (auto intro: controller_inv_new controller_inv_step)

section \<open>Properties\<close>

text \<open>
  C24. One runner at a time. However calls and runs interleave, at most one runner is at work, the
  controller reports that it is running exactly while the current run is registered, and a call of Stop
  that ended with the error of its run did so after that run was over.
\<close>

theorem one_runner_at_a_time:
  assumes "controller_reachable c"
  shows "(\<forall>i j. i < length (ac_runs c) \<longrightarrow> j < length (ac_runs c) \<longrightarrow>
            run_phase (ac_runs c ! i) = InRunner \<longrightarrow> run_phase (ac_runs c ! j) = InRunner \<longrightarrow> i = j) \<and>
         (ac_running c \<longleftrightarrow> (\<exists>i < length (ac_runs c). active (ac_runs c ! i))) \<and>
         (\<forall>i e. Received i e \<in> set (ac_stops c) \<longrightarrow> run_phase (ac_runs c ! i) = Over)"
proof -
  have inv: "controller_inv c" by (rule reachable_inv [OF assms])
  then have current: "ac_current c = Some i \<longleftrightarrow> i < length (ac_runs c) \<and> active (ac_runs c ! i)" for i
    by (simp add: controller_inv_def)
  have "i = j" if "i < length (ac_runs c)" "j < length (ac_runs c)" "run_phase (ac_runs c ! i) = InRunner"
    "run_phase (ac_runs c ! j) = InRunner" for i j
    using that current [of i] current [of j] by (simp add: active_def)
  moreover have "ac_running c \<longleftrightarrow> (\<exists>i < length (ac_runs c). active (ac_runs c ! i))"
    using inv current by (auto simp: controller_inv_def)
  moreover have "run_phase (ac_runs c ! i) = Over" if "Received i e \<in> set (ac_stops c)" for i e
    using inv that by (auto simp: controller_inv_def taken_def)
  ultimately show ?thesis by blast
qed

text \<open>The error of a run is handed out once: after that its channel stays empty.\<close>

lemma nth_updated: "j < length xs \<Longrightarrow> xs[i := x] ! j = (if i = j then x else xs ! j)"
  by (cases "i < length xs") (auto simp: nth_list_update)

lemma taken_stays:
  assumes "controller_step c c'" "controller_inv c" "i < length (ac_runs c)" "taken (ac_runs c ! i)"
  shows "i < length (ac_runs c') \<and> taken (ac_runs c' ! i)"
  using assms
  by (induction rule: controller_step.induct)
    (auto simp: AutomationStart_def stop_enter_def with_run_def with_stop_def unregister_def taken_def nth_append
      nth_updated split: option.split)

lemma waiting_stays:
  assumes "controller_step c c'" "controller_inv c" "k < length (ac_stops c)"
    and "ac_stops c ! k = Waiting i \<or> ac_stops c ! k = GaveUp i" "taken (ac_runs c ! i)"
  shows "k < length (ac_stops c') \<and> (ac_stops c' ! k = Waiting i \<or> ac_stops c' ! k = GaveUp i)"
  using assms
  by (induction rule: controller_step.induct)
    (auto simp: AutomationStart_def stop_enter_def with_run_def with_stop_def unregister_def taken_def nth_append
      nth_updated split: option.split)

text \<open>
  C37. Concurrent stops starve. When one call of Stop has received the error of a run, every other call
  that waits for the same run goes on waiting until its own deadline, although the run is over, whatever
  happens next.
\<close>

theorem concurrent_stops_starve:
  assumes "controller_reachable c" and "controller_step\<^sup>*\<^sup>* c c'"
    and "k < length (ac_stops c)" and "ac_stops c ! k = Waiting i" and "Received i e \<in> set (ac_stops c)"
  shows "run_phase (ac_runs c ! i) = Over \<and> (ac_stops c' ! k = Waiting i \<or> ac_stops c' ! k = GaveUp i)"
proof -
  have inv: "controller_inv c" by (rule reachable_inv [OF assms(1)])
  then have taken: "taken (ac_runs c ! i)" using assms(5) by (auto simp: controller_inv_def)
  have i: "i < length (ac_runs c)"
    using inv assms(3,4) nth_mem [OF assms(3)] by (force simp: controller_inv_def)
  have "controller_inv c' \<and> i < length (ac_runs c') \<and> taken (ac_runs c' ! i) \<and> k < length (ac_stops c') \<and>
      (ac_stops c' ! k = Waiting i \<or> ac_stops c' ! k = GaveUp i)"
    using assms(2)
  proof (induction rule: rtranclp_induct)
    case base
    show ?case using inv i taken assms(3,4) by simp
  next
    case (step d d')
    from step.IH show ?case
      using controller_inv_step [OF step.hyps(2)] taken_stays [OF step.hyps(2)] waiting_stays [OF step.hyps(2)] by blast
  qed
  with taken show ?thesis by (auto simp: taken_def)
qed

section \<open>A concrete interleaving\<close>

text \<open>Two calls of Stop enter while the runner is at work; it ends, and the first call gets its error.\<close>

definition stopped_twice :: controller where
  "stopped_twice =
     \<lparr>ac_runner = True, ac_running = False, ac_current = None,
      ac_runs = [\<lparr>run_phase = Over, run_cancelled = True, run_done = None\<rparr>],
      ac_stops = [Received 0 (Some Canceled), Waiting 0]\<rparr>"

lemma stopped_twice_reachable: "controller_reachable stopped_twice"
proof -
  let ?c = "\<lambda>on cur r stops. \<lparr>ac_runner = True, ac_running = on, ac_current = cur, ac_runs = [r], ac_stops = stops\<rparr>"
  let ?r = "\<lambda>phase x e. \<lparr>run_phase = phase, run_cancelled = x, run_done = e\<rparr>"
  note step = controller_reachable.step
  have "controller_reachable (NewAutomationController True)" by (rule controller_reachable.new)
  from step [OF this start [of _ False]]
  have "controller_reachable (?c True (Some 0) (?r InRunner False None) [])"
    by (simp add: AutomationStart_def NewAutomationController_def)
  from step [OF this enter [of _ False]]
  have "controller_reachable (?c True (Some 0) (?r InRunner False None) [Cancelling 0])" by (simp add: stop_enter_def)
  from step [OF this enter [of _ False]]
  have "controller_reachable (?c True (Some 0) (?r InRunner False None) [Cancelling 0, Cancelling 0])"
    by (simp add: stop_enter_def)
  from step [OF this cancel [of 0 _ 0]]
  have "controller_reachable (?c True (Some 0) (?r InRunner True None) [Waiting 0, Cancelling 0])"
    by (simp add: with_stop_def with_run_def)
  from step [OF this cancel [of 1 _ 0]]
  have "controller_reachable (?c True (Some 0) (?r InRunner True None) [Waiting 0, Waiting 0])"
    by (simp add: with_stop_def with_run_def)
  from step [OF this returns [of 0 _ "Some Canceled"]]
  have "controller_reachable (?c True (Some 0) (?r (Returned (Some Canceled)) True None) [Waiting 0, Waiting 0])"
    by (simp add: with_run_def)
  from step [OF this unregisters [of 0 _ "Some Canceled"]]
  have "controller_reachable (?c False None (?r (Sending (Some Canceled)) True None) [Waiting 0, Waiting 0])"
    by (simp add: with_run_def unregister_def)
  from step [OF this sends [of 0 _ "Some Canceled"]]
  have "controller_reachable (?c False None (?r Over True (Some (Some Canceled))) [Waiting 0, Waiting 0])"
    by (simp add: with_run_def)
  from step [OF this receives [of 0 _ 0 "Some Canceled"]]
  show ?thesis by (simp add: with_run_def with_stop_def stopped_twice_def)
qed

lemma one_runner_at_a_time_witness:
  "controller_reachable stopped_twice \<and>
   (ac_running stopped_twice \<longleftrightarrow> (\<exists>i < length (ac_runs stopped_twice). active (ac_runs stopped_twice ! i)))"
  using one_runner_at_a_time [OF stopped_twice_reachable] stopped_twice_reachable by blast

lemma concurrent_stops_starve_witness:
  "run_phase (ac_runs stopped_twice ! 0) = Over \<and>
   stop_result (ac_stops (with_stop 1 (GaveUp 0) stopped_twice) ! 1) = Some (Some CtxErr)"
proof -
  have wait: "1 < length (ac_stops stopped_twice)" "ac_stops stopped_twice ! 1 = Waiting 0"
    "Received 0 (Some Canceled) \<in> set (ac_stops stopped_twice)"
    by (simp_all add: stopped_twice_def)
  have "controller_step\<^sup>*\<^sup>* stopped_twice (with_stop 1 (GaveUp 0) stopped_twice)"
    using deadline [OF wait(1,2)] by blast
  from concurrent_stops_starve [OF stopped_twice_reachable this wait] wait(1)
  show ?thesis by (simp add: with_stop_def stop_result_def)
qed

end
