(* ===== verification/Spec2Isabelle.thy ===== *)
theory Spec2Isabelle
  imports QueueFacts SendFacts DmFacts KeywordFacts LiveFacts ConfigFacts RouterFacts ActivatorFacts Automation
begin

text \<open>
  Telegram Companion answers messages in Telegram groups. Accounts join the channels of two
  catalogs; a listener receives their messages, stores the scouted ones encrypted and matches the
  others against keyword expressions; a match puts replies into a queue of jobs in SQLite; a
  scheduler takes one due job a round, claims it for an account and hands it to the outbound
  adapter, the last policy boundary before Telegram; a second worker sends scheduled direct
  messages through the same adapter. This development models these parts and how they meet.

  The theories, in the order of the code's layers:

  \<^item> Prelude, GoText, StoredTime, Utf8: Go's options, sums and SQL statements on lists of rows, the
    string functions of package strings, runes, and the timestamps as the texts a column holds
    (internal/repository/sqlite/catalog_store.go).
  \<^item> Domain: accounts, jobs, settings, scheduled messages and the classified errors
    (internal/domain).
  \<^item> Db, AccountStore, JobStore: the tables the statements use, and every method of the job
    repository and the delivery part of the account repository as a function of the tables
    (internal/repository/sqlite/job_store.go, production_store.go). A transaction is \<open>in_tx\<close>: an
    error gives the tables back as they were.
  \<^item> JobMachine, JobQueue, JobBooks, JobLease: the life of a job's row as an inductive step
    relation, the invariant of the queue, its books (events, counters, history) and its leases;
    every repository call is a step of it. QueueFacts states the properties.
  \<^item> Pacing, RateLimit, Outbound: what a rate limiter promises, as two locales, the selector
    and the in-memory limiter (internal/usecase/selector.go, ratelimit.go), and the outbound
    adapter (internal/telegram/gotd/outbound.go); the Telegram client is a parameter.
  \<^item> Scheduler: a round of the delivery scheduler (internal/usecase/scheduler.go) with its
    collaborators as functions of a store; the locale \<open>delivery_collaborators\<close> says what they
    keep, and is interpreted on the repositories and the adapter as cmd/app wires them. SendFacts
    states the properties of adapter, limiters and scheduler.
  \<^item> DmStore, DmQueue, DmService, DmRunner, DmResave: scheduled direct messages, from the tables
    and the repository (scheduled_dm_store.go) over the service and the recipients' parser
    (internal/usecase/scheduled_dm.go, scheduled_dm_parser.go) to the worker
    (scheduled_dm_runner.go); the locale \<open>dm_collaborators\<close> is its interface, interpreted on the
    repository and the adapter. DmFacts states the properties.
  \<^item> KeywordText, KeywordParser, KeywordMatch, KeywordSpec: keyword expressions
    (internal/keywordmatch): words and stems, lexer and recursive descent, evaluation, and the
    meaning it computes. KeywordFacts states the properties.
  \<^item> CanonicalText, TriggerMatch, SlotAssignment, LiveSink: the canonical words of a message
    (internal/analytics/text, canonical.go), the triggers that match it, the assignment of words to
    the slots of a compound trigger, and the jobs a match enqueues
    (internal/telegram/gotd/live_sink.go). LiveFacts states the properties.
  \<^item> RuntimeConfig: the source of settings snapshots (internal/usecase/runtimeconfig/store.go);
    ConfigFacts states the property.
  \<^item> CatalogStore, CatalogService: the catalogs and memberships in SQLite
    (internal/repository/sqlite/production_store.go, catalog_store.go) and the service over them
    (internal/usecase/catalogs.go, join_schedule.go): links, topics, removal, joining with random
    delays. CatalogFacts states how joins are spread.
  \<^item> MessageStore, TelegramApi, HistorySync, UpdateRouter: scouted messages with their cipher,
    tombstones and retention (internal/usecase/scouting, internal/service/crypto,
    internal/repository/sqlite/message_store.go), the classes of the client library the adapter
    uses, one chat's history with its cursor and the router of updates
    (internal/telegram/gotd/updates.go). MessageFacts, HistoryFacts and RouterFacts state the
    properties: the tables refine an abstract history of versions, a paged history is collected as
    in one pass, and an update starts an answer only when it is a new message of someone else.
  \<^item> PeerTargets, Membership: resolving, joining and leaving the target of a link and the
    reconciliation of one account's memberships over both catalogs
    (internal/telegram/gotd/membership.go, sender.go, updates.go). The state is the log of requests
    with the database. MembershipFacts and RemovalFacts state the properties: joins wait for their
    turn, members leave before they are forgotten, requested removals complete.
  \<^item> Activator: what a connected account listens to and whether it sends
    (\<^verbatim>\<open>UpdateActivator\<close> of internal/telegram/gotd/updates.go, \<^verbatim>\<open>ProductionActivator\<close> of sender.go), with
    the discussions of scouted channels; the time is that of the surroundings of each stage.
    ActivatorFacts states that accounts listen only where they take part, and what a link that
    Telegram does not resolve does to its account.
  \<^item> Automation: the switch of the workers (internal/usecase/automation.go) as a step relation on the
    interleavings of its callers and runs, with its invariant and properties.

  Parameters. Code outside the repository is an argument of the definitions: the AEAD of the
  cipher, random sources, digests, the Unicode tables, the parser of URLs, the Telegram client (a
  record of answers that may depend on all requests before) and the sealed reference to a sender.
  Where a property needs their documented behaviour it names it as a hypothesis.

  Bounds and fuel. The parser's descent runs on fuel, four units for every token and four more,
  and is shown never to use it up; the search for augmenting paths runs on as much fuel as there
  are tokens, which is shown to be enough; the history loop terminates by a measure on the offsets.
  The text keys of match sets tell positions apart below the surrogate range, so the theorems
  about evaluation ask for sentences of at most 55295 words. Durations are unbounded integers
  except where the code multiplies a configured number, where the product wraps at 64 bits.

  Not modelled: the goroutines of the Telegram client and the tickers around the workers, the user
  interface, migrations, backups, the ranking of analytics, imports, licences, updates and
  proxies; failures of the database itself. The foreign key of stored messages is modelled where
  messages are written, not where channels change. Operations of one database connection are
  atomic, as SQLite makes them.
\<close>

end
